(* ===== verification/DevPrelude.thy ===== *)
theory DevPrelude
  imports Main "HOL-Library.Char_ord" "HOL-Library.Multiset"
begin

text \<open>
  Shared vocabulary of the development: the reading of JavaScript values that the
  components have in common, and the generic lemmas on lists and options that the
  component proofs rest on.

  \<^item> Strings. Identifiers, error codes and timestamps are \<open>string\<close>: one \<open>char\<close>
    per UTF-16 code unit, which is exact for the ASCII strings that the code's own patterns accept.
  \<^item> Numbers that the code tests with \<open>Number.isSafeInteger\<close> are \<open>int\<close>, with the bound
    written out as \<open>safe_integer\<close>.
  \<^item> An optional property is an \<open>option\<close>; \<open>truthy\<close> is JavaScript's boolean reading of an
    optional string (absent and empty are both false).
  \<^item> A thrown error is \<open>Inl\<close>, a returned value \<open>Inr\<close>.
\<close>

section \<open>Fact collections\<close>

named_theorems js_defs \<open>executable helper definitions, for evaluating closed terms\<close>
named_theorems find_simps \<open>how find interacts with the list updates of the model\<close>

section \<open>Errors as values\<close>

abbreviation bindE :: "'e + 'a \<Rightarrow> ('a \<Rightarrow> 'e + 'b) \<Rightarrow> 'e + 'b" where
  "bindE r f \<equiv> (case r of Inl e \<Rightarrow> Inl e | Inr x \<Rightarrow> f x)"

definition ensure :: "'e \<Rightarrow> bool \<Rightarrow> 'e + unit" where
  [js_defs]: "ensure e b = (if b then Inr () else Inl e)"

lemma ensure_Inr [simp]: "ensure e b = Inr u \<longleftrightarrow> b"
  by (simp add: ensure_def)

section \<open>Numbers and optional values\<close>

definition safe_integer :: "int \<Rightarrow> bool" where
  [js_defs]: "safe_integer n \<longleftrightarrow> \<bar>n\<bar> \<le> 9007199254740991"

definition truthy :: "string option \<Rightarrow> bool" where
  [js_defs]: "truthy s \<longleftrightarrow> s \<noteq> None \<and> s \<noteq> Some []"

lemma truthy_simps [simp]: "\<not> truthy None" "truthy (Some s) \<longleftrightarrow> s \<noteq> []"
  by (simp_all add: truthy_def)

lemma truthyE: assumes "truthy s" obtains t where "s = Some t" "t \<noteq> []"
  using assms by (cases s) auto

definition opt_ok :: "('a \<Rightarrow> bool) \<Rightarrow> 'a option \<Rightarrow> bool" where
  [js_defs]: "opt_ok P x = (case x of None \<Rightarrow> True | Some v \<Rightarrow> P v)"

lemma opt_ok_simps [simp]: "opt_ok P None" "opt_ok P (Some v) = P v"
  by (simp_all add: opt_ok_def)

section \<open>Character classes of the code's patterns\<close>

definition char_between :: "char \<Rightarrow> char \<Rightarrow> char \<Rightarrow> bool" where
  [js_defs]: "char_between lo hi c \<longleftrightarrow>
     (of_char lo :: nat) \<le> of_char c \<and> (of_char c :: nat) \<le> of_char hi"

abbreviation is_lower :: "char \<Rightarrow> bool" where "is_lower \<equiv> char_between CHR ''a'' CHR ''z''"
abbreviation is_upper :: "char \<Rightarrow> bool" where "is_upper \<equiv> char_between CHR ''A'' CHR ''Z''"
abbreviation is_digit :: "char \<Rightarrow> bool" where "is_digit \<equiv> char_between CHR ''0'' CHR ''9''"

text \<open>\<open>[A-Za-z0-9._:-]\<close>, the identifier alphabet.\<close>

definition id_char :: "char \<Rightarrow> bool" where
  [js_defs]: "id_char c \<longleftrightarrow> is_lower c \<or> is_upper c \<or> is_digit c \<or> c \<in> set ''._:-''"

text \<open>\<open>[a-f0-9]\<close>, lower-case hexadecimal.\<close>

definition hex_char :: "char \<Rightarrow> bool" where
  [js_defs]: "hex_char c \<longleftrightarrow> char_between CHR ''a'' CHR ''f'' c \<or> is_digit c"

lemma hex_char_id: "hex_char c \<Longrightarrow> id_char c"
  by (auto simp: hex_char_def id_char_def char_between_def)

text \<open>\<open>/^[C]{lo,hi}$/\<close> for a character class \<open>C\<close>.\<close>

definition chars_ok :: "(char \<Rightarrow> bool) \<Rightarrow> nat \<Rightarrow> nat \<Rightarrow> string \<Rightarrow> bool" where
  [js_defs]: "chars_ok C lo hi s \<longleftrightarrow> lo \<le> length s \<and> length s \<le> hi \<and> list_all C s"

lemma chars_ok_mono:
  "chars_ok C lo hi s \<Longrightarrow> (\<And>c. C c \<Longrightarrow> D c) \<Longrightarrow> lo' \<le> lo \<Longrightarrow> hi \<le> hi' \<Longrightarrow> chars_ok D lo' hi' s"
  by (auto simp: chars_ok_def elim: list.pred_mono_strong)

text \<open>\<open>/^[a-z][a-z0-9_]{2,80}$/\<close>, the pattern of an error code.\<close>

definition error_code_ok :: "string \<Rightarrow> bool" where
  [js_defs]: "error_code_ok s = (case s of [] \<Rightarrow> False
     | c # cs \<Rightarrow> is_lower c \<and> chars_ok (\<lambda>d. is_lower d \<or> is_digit d \<or> d = CHR ''_'') 2 80 cs)"

fun starts_with :: "string \<Rightarrow> string \<Rightarrow> bool" where
  "starts_with s [] = True"
| "starts_with [] (p # ps) = False"
| "starts_with (c # cs) (p # ps) = (c = p \<and> starts_with cs ps)"

fun includes_str :: "string \<Rightarrow> string \<Rightarrow> bool" where
  "includes_str [] p = (p = [])"
| "includes_str (c # cs) p = (starts_with (c # cs) p \<or> includes_str cs p)"

lemma starts_with_append [simp]: "starts_with (p @ s) p"
  by (induction p) auto

lemma starts_with_split: "starts_with s p \<Longrightarrow> s = p @ drop (length p) s"
  by (induction s p rule: starts_with.induct) auto

section \<open>Finding and updating list elements\<close>

text \<open>\<open>const x = xs.find(P); x.f = v\<close>: the first match is updated in place.\<close>

fun update_first :: "('a \<Rightarrow> bool) \<Rightarrow> ('a \<Rightarrow> 'a) \<Rightarrow> 'a list \<Rightarrow> 'a list" where
  "update_first P f [] = []"
| "update_first P f (x # xs) = (if P x then f x # xs else x # update_first P f xs)"

lemma length_update_first [simp]: "length (update_first P f xs) = length xs"
  by (induction xs) auto

lemma find_Some_set: "find P xs = Some x \<Longrightarrow> x \<in> set xs \<and> P x"
  by (auto simp: find_Some_iff)

lemma find_None_all: "find P xs = None \<longleftrightarrow> (\<forall>x \<in> set xs. \<not> P x)"
  by (induction xs) auto

lemma find_unique:
  assumes "i \<in> set is" "P i" "\<And>j. j \<in> set is \<Longrightarrow> P j \<Longrightarrow> j = i"
  shows "find P is = Some i"
proof (cases "find P is")
  case None
  with assms(1,2) show ?thesis by (simp add: find_None_all)
next
  case (Some j)
  then have "j \<in> set is" "P j" using find_Some_set by fast+
  with assms(3) Some show ?thesis by blast
qed

lemma map_update_first:
  "(\<And>x. P x \<Longrightarrow> k (f x) = k x) \<Longrightarrow> map k (update_first P f xs) = map k xs"
  by (induction xs) auto

lemma update_first_None: "find P xs = None \<Longrightarrow> update_first P f xs = xs"
  by (induction xs) auto

lemma set_update_first:
  "find P xs = Some x \<Longrightarrow> set (update_first P f xs) \<subseteq> insert (f x) (set xs)"
  by (induction xs) (auto split: if_splits)

lemma update_first_mem:
  "find P xs = Some x \<Longrightarrow> f x \<in> set (update_first P f xs)"
  by (induction xs) (auto split: if_splits)

lemma update_first_keep:
  "y \<in> set xs \<Longrightarrow> \<not> P y \<Longrightarrow> y \<in> set (update_first P f xs)"
  by (induction xs) auto

lemma find_update_first [find_simps]:
  "(\<And>x. P x \<Longrightarrow> P (f x)) \<Longrightarrow> find P (update_first P f xs) = map_option f (find P xs)"
  by (induction xs) auto

lemma find_update_first_other [find_simps]:
  "(\<And>x. P x \<Longrightarrow> \<not> Q x) \<Longrightarrow> (\<And>x. P x \<Longrightarrow> \<not> Q (f x)) \<Longrightarrow>
   find Q (update_first P f xs) = find Q xs"
  by (induction xs) auto

lemma find_append [find_simps]:
  "find P (xs @ ys) = (case find P xs of None \<Rightarrow> find P ys | Some x \<Rightarrow> Some x)"
  by (induction xs) auto

text \<open>Under a distinct key, \<open>find\<close> by key is membership.\<close>

lemma find_key_mem:
  "distinct (map k xs) \<Longrightarrow> x \<in> set xs \<Longrightarrow> find (\<lambda>y. k y = k x) xs = Some x"
  by (induction xs) (auto simp: image_iff)

lemma find_key_iff:
  "distinct (map k xs) \<Longrightarrow> find (\<lambda>y. k y = a) xs = Some x \<longleftrightarrow> x \<in> set xs \<and> k x = a"
  using find_key_mem[of k xs] find_Some_set[of "\<lambda>y. k y = a" xs] by blast

section \<open>Stable sorting\<close>

text \<open>\<open>Array.prototype.sort\<close> with a comparator: stable; \<open>le x y\<close> stands for
  \<open>compare(x, y) <= 0\<close>.\<close>

fun insort_by :: "('a \<Rightarrow> 'a \<Rightarrow> bool) \<Rightarrow> 'a \<Rightarrow> 'a list \<Rightarrow> 'a list" where
  "insort_by le x [] = [x]"
| "insort_by le x (y # ys) = (if le x y then x # y # ys else y # insort_by le x ys)"

definition sort_by :: "('a \<Rightarrow> 'a \<Rightarrow> bool) \<Rightarrow> 'a list \<Rightarrow> 'a list" where
  "sort_by le xs = foldr (insort_by le) xs []"

lemma sort_by_simps [simp]:
  "sort_by le [] = []" "sort_by le (x # xs) = insort_by le x (sort_by le xs)"
  by (simp_all add: sort_by_def)

lemma mset_insort_by [simp]: "mset (insort_by le x xs) = add_mset x (mset xs)"
  by (induction xs) auto

lemma mset_sort_by [simp]: "mset (sort_by le xs) = mset xs"
  by (induction xs) auto

lemma set_sort_by [simp]: "set (sort_by le xs) = set xs"
  by (metis mset_sort_by set_mset_mset)

lemma length_sort_by [simp]: "length (sort_by le xs) = length xs"
  by (metis mset_sort_by size_mset)

lemma distinct_map_sort_by [simp]: "distinct (map k (sort_by le xs)) = distinct (map k xs)"
  by (metis mset_sort_by mset_map mset_eq_imp_distinct_iff)

lemma sorted_insort_by:
  assumes "\<And>x y. le x y \<or> le y x" "\<And>x y z. le x y \<Longrightarrow> le y z \<Longrightarrow> le x z"
  shows "sorted_wrt le xs \<Longrightarrow> sorted_wrt le (insort_by le x xs)"
proof (induction xs)
  case (Cons y ys)
  have set: "set (insort_by le x ys) = insert x (set ys)"
    by (metis mset_insort_by set_mset_add_mset_insert set_mset_mset)
  show ?case
  proof (cases "le x y")
    case True
    with Cons.prems assms(2) show ?thesis by auto
  next
    case False
    with assms(1) have "le y x" by blast
    with False Cons show ?thesis by (auto simp: set)
  qed
qed simp

lemma sorted_sort_by:
  assumes "\<And>x y. le x y \<or> le y x" "\<And>x y z. le x y \<Longrightarrow> le y z \<Longrightarrow> le x z"
  shows "sorted_wrt le (sort_by le xs)"
proof (induction xs)
  case (Cons x xs)
  with sorted_insort_by [where le = le, OF assms] show ?case by simp
qed simp

lemma find_key_sort_by:
  assumes "distinct (map k xs)"
  shows "find (\<lambda>y. k y = a) (sort_by le xs) = find (\<lambda>y. k y = a) xs"
proof (cases "find (\<lambda>y. k y = a) xs")
  case None
  then have "find (\<lambda>y. k y = a) (sort_by le xs) = None" by (simp add: find_None_all)
  with None show ?thesis by simp
next
  case (Some x)
  with assms have "x \<in> set xs \<and> k x = a" by (simp add: find_key_iff)
  with assms have "find (\<lambda>y. k y = a) (sort_by le xs) = Some x" by (simp add: find_key_iff)
  with Some show ?thesis by simp
qed

section \<open>Machines whose steps may fail\<close>

text \<open>Running a list of operations: \<open>run_all\<close> stops at the first error, as a chain of calls does
  when one throws; \<open>run_try\<close> goes on from the unchanged state, as a caller does that catches each
  error.\<close>

fun run_all :: "('s \<Rightarrow> 'op \<Rightarrow> 'e + 's) \<Rightarrow> 's \<Rightarrow> 'op list \<Rightarrow> 'e + 's" where
  "run_all step s [] = Inr s"
| "run_all step s (x # xs) = bindE (step s x) (\<lambda>t. run_all step t xs)"

fun run_try :: "('s \<Rightarrow> 'op \<Rightarrow> 'e + 's) \<Rightarrow> 's \<Rightarrow> 'op list \<Rightarrow> 's" where
  "run_try step s [] = s"
| "run_try step s (x # xs) = run_try step (case step s x of Inl _ \<Rightarrow> s | Inr t \<Rightarrow> t) xs"

lemma run_try_snoc:
  "run_try step s (xs @ [x]) = (case step (run_try step s xs) x of Inl _ \<Rightarrow> run_try step s xs | Inr t \<Rightarrow> t)"
  by (induction xs arbitrary: s) (simp_all split: sum.splits)

text \<open>The interface every stateful component of the development offers: an invariant its steps
  keep, and a reflexive and transitive relation that each step establishes between the state before
  and after. Runs then have both.\<close>

locale guarded_machine =
  fixes step :: "'s \<Rightarrow> 'op \<Rightarrow> 'e + 's"
    and inv :: "'s \<Rightarrow> bool"
    and rel :: "'s \<Rightarrow> 's \<Rightarrow> bool"
  assumes inv_step: "inv s \<Longrightarrow> step s x = Inr t \<Longrightarrow> inv t"
    and rel_step: "inv s \<Longrightarrow> step s x = Inr t \<Longrightarrow> rel s t"
    and rel_refl: "rel s s"
    and rel_trans: "rel s t \<Longrightarrow> rel t u \<Longrightarrow> rel s u"
begin

lemma run_all_inv: "inv s \<Longrightarrow> run_all step s xs = Inr t \<Longrightarrow> inv t \<and> rel s t"
proof (induction xs arbitrary: s)
  case Nil
  then show ?case by (simp add: rel_refl)
next
  case (Cons x xs)
  then obtain u where u: "step s x = Inr u" "run_all step u xs = Inr t"
    by (auto split: sum.splits)
  with Cons inv_step have "inv t \<and> rel u t" by blast
  with u Cons.prems rel_step rel_trans show ?case by blast
qed

lemma run_try_inv: "inv s \<Longrightarrow> inv (run_try step s xs) \<and> rel s (run_try step s xs)"
proof (induction xs arbitrary: s)
  case Nil
  then show ?case by (simp add: rel_refl)
next
  case (Cons x xs)
  show ?case
  proof (cases "step s x")
    case (Inl e)
    with Cons show ?thesis by simp
  next
    case (Inr u)
    with Cons.prems inv_step rel_step have "inv u" "rel s u" by blast+
    with Cons.IH[of u] Inr rel_trans show ?thesis by auto
  qed
qed

end

end
