(* ===== verification/JsDate.thy ===== *)
theory JsDate
  imports DevPrelude
begin

text \<open>
  \<open>Date\<close> as the code uses it: \<open>toISOString\<close> writes a time value (milliseconds since
  1970-01-01T00:00:00Z) in the ISO form \<open>YYYY-MM-DDTHH:mm:ss.sssZ\<close>, \<open>Date.parse\<close> reads it
  back. \<open>date_parse\<close> gives \<open>None\<close> for NaN. It reads that form and the one without
  milliseconds; the engine's fallback for other spellings is not modelled (they count as NaN), and
  neither are the six-digit years outside 0000 to 9999.
\<close>

section \<open>The proleptic Gregorian calendar\<close>

text \<open>Days from 0000-01-01 to the first of January of year \<open>y\<close>.\<close>

definition days_before_year :: "int \<Rightarrow> int" where
  [js_defs]: "days_before_year y = 365 * y + (y + 3) div 4 - (y + 99) div 100 + (y + 399) div 400"

definition leap_year :: "int \<Rightarrow> bool" where
  [js_defs]: "leap_year y \<longleftrightarrow> y mod 4 = 0 \<and> (y mod 100 \<noteq> 0 \<or> y mod 400 = 0)"

definition epoch_day :: int where [js_defs]: "epoch_day = 719528"

text \<open>Days of the year before month \<open>m\<close> (1 to 12).\<close>

definition days_before_month :: "bool \<Rightarrow> int \<Rightarrow> int" where
  [js_defs]: "days_before_month leap m =
     [0, 31, 59, 90, 120, 151, 181, 212, 243, 273, 304, 334, 365] ! nat (m - 1)
       + (if leap \<and> 2 < m then 1 else 0)"

definition month_of_day :: "bool \<Rightarrow> int \<Rightarrow> int" where
  [js_defs]: "month_of_day leap yd =
     (let b = days_before_month leap in
      if yd < b 2 then 1 else if yd < b 3 then 2 else if yd < b 4 then 3 else if yd < b 5 then 4
      else if yd < b 6 then 5 else if yd < b 7 then 6 else if yd < b 8 then 7 else if yd < b 9 then 8
      else if yd < b 10 then 9 else if yd < b 11 then 10 else if yd < b 12 then 11 else 12)"

definition year_of_day :: "int \<Rightarrow> int" where
  [js_defs]: "year_of_day n =
     (let y = n * 400 div 146097 in
      if days_before_year (y + 1) \<le> n then y + 1
      else if days_before_year y \<le> n then y else y - 1)"

lemma int_div_bounds:
  fixes x k :: int
  assumes "0 < k"
  shows "k * (x div k) \<le> x" "x < k * (x div k) + k"
  using assms pos_mod_sign[of k x] pos_mod_bound[of k x] mult_div_mod_eq[of k x] by linarith+

lemma int_div_carry:
  fixes y k :: int
  assumes "0 < k" and pred: "k' = k - 1"
  shows "(y + k) div k = (y + k') div k + (if y mod k = 0 then 1 else 0)"
proof -
  have y: "y = k * (y div k) + y mod k" by simp
  have r: "0 \<le> y mod k" "y mod k < k" using assms by simp_all
  have "(y + (k - 1)) div k = y div k + (if y mod k = 0 then 0 else 1)"
  proof (cases "y mod k = 0")
    case True
    with y have "y + (k - 1) = k * (y div k) + (k - 1)" by linarith
    from int_div_pos_eq[OF this] assms True show ?thesis by simp
  next
    case False
    from y have "y + (k - 1) = k * (y div k + 1) + (y mod k - 1)" by (simp add: distrib_left)
    from int_div_pos_eq[OF this] r False show ?thesis by simp
  qed
  moreover have "(y + k) div k = y div k + 1" using assms by (simp add: div_add_self2)
  ultimately show ?thesis by (simp add: pred)
qed

text \<open>A year has 365.2425 days on average, so the estimate is off by at most one.\<close>

lemma days_before_year_bounds:
  "146097 * y - 396 \<le> 400 * days_before_year y" "400 * days_before_year y \<le> 146097 * y + 699"
proof -
  define a where "a = (y + 3) div 4"
  define b where "b = (y + 99) div 100"
  define c where "c = (y + 399) div 400"
  have "4 * a \<le> y + 3" "y \<le> 4 * a" unfolding a_def using int_div_bounds[of 4 "y + 3"] by simp_all
  moreover have "100 * b \<le> y + 99" "y \<le> 100 * b"
    unfolding b_def using int_div_bounds[of 100 "y + 99"] by simp_all
  moreover have "400 * c \<le> y + 399" "y \<le> 400 * c"
    unfolding c_def using int_div_bounds[of 400 "y + 399"] by simp_all
  moreover have "days_before_year y = 365 * y + a - b + c"
    by (simp add: days_before_year_def a_def b_def c_def)
  ultimately show "146097 * y - 396 \<le> 400 * days_before_year y"
    "400 * days_before_year y \<le> 146097 * y + 699" by linarith+
qed

lemma year_of_day_bounds:
  "days_before_year (year_of_day n) \<le> n \<and> n < days_before_year (year_of_day n + 1)"
proof -
  define y where "y = n * 400 div 146097"
  have y: "146097 * y \<le> 400 * n" "400 * n < 146097 * y + 146097"
    unfolding y_def using int_div_bounds[of 146097 "n * 400"] by simp_all
  have eq: "year_of_day n = (if days_before_year (y + 1) \<le> n then y + 1
      else if days_before_year y \<le> n then y else y - 1)"
    by (simp add: year_of_day_def y_def)
  have hi: "n < days_before_year (y + 2)" using days_before_year_bounds(1)[of "y + 2"] y(2) by simp
  have lo: "days_before_year (y - 1) \<le> n" using days_before_year_bounds(2)[of "y - 1"] y(1) by simp
  show ?thesis using hi lo by (auto simp: eq add.assoc)
qed

lemma days_before_year_step:
  "days_before_year (y + 1) = days_before_year y + (if leap_year y then 366 else 365)"
proof -
  define p q r where "p = (y mod 4 = 0)" and "q = (y mod 100 = 0)" and "r = (y mod 400 = 0)"
  define a b c where "a = (y + 3) div 4" and "b = (y + 99) div 100" and "c = (y + 399) div 400"
  have "(y + 4) div 4 = a + (if p then 1 else 0)" "(y + 100) div 100 = b + (if q then 1 else 0)"
    "(y + 400) div 400 = c + (if r then 1 else 0)"
    unfolding a_def b_def c_def p_def q_def r_def
    by (rule int_div_carry; simp)+
  moreover have "days_before_year (y + 1) =
      365 * (y + 1) + (y + 4) div 4 - (y + 100) div 100 + (y + 400) div 400"
  proof -
    have "y + 1 + 3 = y + 4" "y + 1 + 99 = y + 100" "y + 1 + 399 = y + 400" by simp_all
    then show ?thesis by (simp only: days_before_year_def)
  qed
  moreover have "days_before_year y = 365 * y + a - b + c"
    by (simp only: days_before_year_def a_def b_def c_def)
  moreover have "leap_year y \<longleftrightarrow> p \<and> (\<not> q \<or> r)"
    by (simp only: leap_year_def p_def q_def r_def)
  moreover have "r \<longrightarrow> q" "q \<longrightarrow> p"
    using dvd_trans[of 100 400 y] dvd_trans[of 4 100 y]
    unfolding p_def q_def r_def by (simp_all only: mod_eq_0_iff_dvd) auto
  ultimately show ?thesis by (cases p; cases q; cases r) simp_all
qed

lemma days_before_month_values:
  "days_before_month leap 1 = 0" "days_before_month leap 2 = 31"
  "days_before_month leap 3 = (if leap then 60 else 59)"
  "days_before_month leap 4 = (if leap then 91 else 90)"
  "days_before_month leap 5 = (if leap then 121 else 120)"
  "days_before_month leap 6 = (if leap then 152 else 151)"
  "days_before_month leap 7 = (if leap then 182 else 181)"
  "days_before_month leap 8 = (if leap then 213 else 212)"
  "days_before_month leap 9 = (if leap then 244 else 243)"
  "days_before_month leap 10 = (if leap then 274 else 273)"
  "days_before_month leap 11 = (if leap then 305 else 304)"
  "days_before_month leap 12 = (if leap then 335 else 334)"
  by (simp_all add: days_before_month_def)

lemma month_of_day_bounds:
  assumes "0 \<le> yd" "yd < (if leap then 366 else 365)"
  shows "1 \<le> month_of_day leap yd" "month_of_day leap yd \<le> 12"
    "days_before_month leap (month_of_day leap yd) \<le> yd"
    "yd < days_before_month leap (month_of_day leap yd) + 31"
  using assms unfolding month_of_day_def Let_def
  by (simp_all add: days_before_month_values split: if_splits)

section \<open>Decimal digits\<close>

definition digit_char :: "int \<Rightarrow> char" where
  [js_defs]: "digit_char d = char_of (48 + d)"

definition digit_value :: "char \<Rightarrow> int option" where
  [js_defs]: "digit_value c =
     (if 48 \<le> (of_char c :: int) \<and> of_char c \<le> (57 :: int) then Some (of_char c - 48) else None)"

lemma digit_value_char: "0 \<le> d \<Longrightarrow> d < 10 \<Longrightarrow> digit_value (digit_char d) = Some d"
  by (simp add: digit_value_def digit_char_def)

text \<open>\<open>String(n).padStart(k, "0")\<close> for a number of at most \<open>k\<close> digits.\<close>

fun pad_number :: "nat \<Rightarrow> int \<Rightarrow> string" where
  "pad_number 0 n = []"
| "pad_number (Suc k) n = pad_number k (n div 10) @ [digit_char (n mod 10)]"

fun read_number_from :: "int \<Rightarrow> string \<Rightarrow> int option" where
  "read_number_from acc [] = Some acc"
| "read_number_from acc (c # cs) = (case digit_value c of None \<Rightarrow> None
     | Some d \<Rightarrow> read_number_from (10 * acc + d) cs)"

definition read_number :: "string \<Rightarrow> int option" where
  [js_defs]: "read_number s = read_number_from 0 s"

lemma length_pad_number [simp]: "length (pad_number k n) = k"
  by (induction k n rule: pad_number.induct) auto

lemma read_number_from_append:
  "read_number_from a (s @ t) =
     (case read_number_from a s of None \<Rightarrow> None | Some b \<Rightarrow> read_number_from b t)"
  by (induction a s rule: read_number_from.induct) (auto split: option.splits)

lemma read_pad_number:
  "0 \<le> n \<Longrightarrow> n < 10 ^ k \<Longrightarrow> read_number_from a (pad_number k n) = Some (a * 10 ^ k + n)"
proof (induction k arbitrary: n)
  case (Suc k)
  have "0 \<le> n div 10" "n div 10 < 10 ^ k" using Suc.prems by auto
  with Suc.IH have "read_number_from a (pad_number k (n div 10)) = Some (a * 10 ^ k + n div 10)"
    by blast
  moreover have "digit_value (digit_char (n mod 10)) = Some (n mod 10)"
    by (simp add: digit_value_char)
  ultimately show ?case by (simp add: read_number_from_append algebra_simps)
qed simp

section \<open>\<open>toISOString\<close> and \<open>Date.parse\<close>\<close>

definition to_iso_string :: "int \<Rightarrow> string" where
  [js_defs]: "to_iso_string t =
     (let n = t div 86400000 + epoch_day; ms = t mod 86400000;
          y = year_of_day n; yd = n - days_before_year y; m = month_of_day (leap_year y) yd;
          d = yd - days_before_month (leap_year y) m + 1
      in pad_number 4 y @ ''-'' @ pad_number 2 m @ ''-'' @ pad_number 2 d @ ''T''
           @ pad_number 2 (ms div 3600000) @ '':'' @ pad_number 2 (ms mod 3600000 div 60000) @ '':''
           @ pad_number 2 (ms mod 60000 div 1000) @ ''.'' @ pad_number 3 (ms mod 1000) @ ''Z'')"

text \<open>The part after the seconds: \<open>Z\<close> or \<open>.sssZ\<close>.\<close>

definition read_millis :: "string \<Rightarrow> int option" where
  [js_defs]: "read_millis s = (if s = ''Z'' then Some 0
     else if length s = 5 \<and> take 1 s = ''.'' \<and> drop 4 s = ''Z'' then read_number (take 3 (drop 1 s))
     else None)"

definition iso_fields :: "string \<Rightarrow> (int \<times> int \<times> int \<times> int \<times> int \<times> int \<times> int) option" where
  [js_defs]: "iso_fields s =
     (if take 1 (drop 4 s) = ''-'' \<and> take 1 (drop 7 s) = ''-'' \<and> take 1 (drop 10 s) = ''T''
         \<and> take 1 (drop 13 s) = '':'' \<and> take 1 (drop 16 s) = '':''
      then (case (read_number (take 4 s), read_number (take 2 (drop 5 s)),
                  read_number (take 2 (drop 8 s)), read_number (take 2 (drop 11 s)),
                  read_number (take 2 (drop 14 s)), read_number (take 2 (drop 17 s)),
                  read_millis (drop 19 s)) of
              (Some y, Some mo, Some d, Some h, Some mi, Some sec, Some ms) \<Rightarrow>
                Some (y, mo, d, h, mi, sec, ms)
            | _ \<Rightarrow> None)
      else None)"

definition date_parse :: "string \<Rightarrow> int option" where
  [js_defs]: "date_parse s = (case iso_fields s of None \<Rightarrow> None
     | Some (y, mo, d, h, mi, sec, ms) \<Rightarrow>
         if 1 \<le> mo \<and> mo \<le> 12 \<and> 1 \<le> d \<and> d \<le> 31 \<and> h < 24 \<and> mi < 60 \<and> sec < 60
         then Some ((days_before_year y + days_before_month (leap_year y) mo + d - 1 - epoch_day)
                      * 86400000 + h * 3600000 + mi * 60000 + sec * 1000 + ms)
         else None)"

text \<open>The times \<open>toISOString\<close> writes with a four-digit year: 0000-01-01 up to 9999-12-31.\<close>

definition iso_time :: "int \<Rightarrow> bool" where
  [js_defs]: "iso_time t \<longleftrightarrow> -62167219200000 \<le> t \<and> t < 253402300800000"

lemma year_of_day_range:
  assumes "0 \<le> n" "n < 3652425"
  shows "0 \<le> year_of_day n" "year_of_day n < 10000"
proof -
  define y where "y = year_of_day n"
  have y: "days_before_year y \<le> n" "n < days_before_year (y + 1)"
    using year_of_day_bounds[of n] by (simp_all add: y_def)
  show "0 \<le> year_of_day n"
  proof (rule ccontr)
    assume "\<not> ?thesis"
    then have "y = -1 \<or> y \<le> -2" by (auto simp: y_def)
    moreover have "days_before_year 0 = 0" by (simp add: days_before_year_def)
    ultimately show False using y(2) assms(1) days_before_year_bounds(2)[of "y + 1"] by auto
  qed
  show "year_of_day n < 10000"
    using y(1) assms(2) days_before_year_bounds(1)[of y] unfolding y_def by simp
qed

lemma iso_fields_written:
  assumes "0 \<le> y" "y < 10000" "0 \<le> mo" "mo < 100" "0 \<le> d" "d < 100" "0 \<le> h" "h < 100"
    "0 \<le> mi" "mi < 100" "0 \<le> sec" "sec < 100" "0 \<le> ms" "ms < 1000"
  shows "iso_fields (pad_number 4 y @ ''-'' @ pad_number 2 mo @ ''-'' @ pad_number 2 d @ ''T''
      @ pad_number 2 h @ '':'' @ pad_number 2 mi @ '':'' @ pad_number 2 sec @ ''.''
      @ pad_number 3 ms @ ''Z'') = Some (y, mo, d, h, mi, sec, ms)"
proof -
  have "iso_fields (a @ ''-'' @ b @ ''-'' @ c @ ''T'' @ e @ '':'' @ f @ '':'' @ g @ ''.'' @ k @ ''Z'') =
      (case (read_number a, read_number b, read_number c, read_number e, read_number f,
             read_number g, read_number k) of
         (Some y, Some mo, Some d, Some h, Some mi, Some sec, Some ms) \<Rightarrow>
           Some (y, mo, d, h, mi, sec, ms) | _ \<Rightarrow> None)"
    if "length a = 4" "length b = 2" "length c = 2" "length e = 2" "length f = 2" "length g = 2"
      "length k = 3" for a b c e f g k
    using that by (simp add: iso_fields_def read_millis_def)
  then show ?thesis
    using assms by (simp add: read_number_def read_pad_number)
qed

theorem date_parse_to_iso_string:
  assumes "iso_time t"
  shows "date_parse (to_iso_string t) = Some t"
proof -
  define n where "n = t div 86400000 + epoch_day"
  define ms where "ms = t mod 86400000"
  define y where "y = year_of_day n"
  define yd where "yd = n - days_before_year y"
  define m where "m = month_of_day (leap_year y) yd"
  have n: "0 \<le> n" "n < 3652425"
    using assms by (auto simp: n_def epoch_day_def iso_time_def)
  have yd: "0 \<le> yd" "yd < (if leap_year y then 366 else 365)"
    using year_of_day_bounds[of n] days_before_year_step[of y] by (auto simp: yd_def y_def)
  note m = month_of_day_bounds[OF yd, folded m_def]
  have y: "0 \<le> y" "y < 10000" using year_of_day_range[OF n] by (simp_all add: y_def)
  have ms: "0 \<le> ms" "ms < 86400000" by (simp_all add: ms_def)
  define h mi sec l where "h = ms div 3600000" and "mi = ms mod 3600000 div 60000"
    and "sec = ms mod 60000 div 1000" and "l = ms mod 1000"
  have h: "0 \<le> h" "h < 24" unfolding h_def using ms int_div_bounds[of 3600000 ms] by simp_all
  have mi: "0 \<le> mi" "mi < 60" unfolding mi_def
    using int_div_bounds[of 60000 "ms mod 3600000"] pos_mod_bound[of 3600000 ms] by simp_all
  have sec: "0 \<le> sec" "sec < 60" unfolding sec_def
    using int_div_bounds[of 1000 "ms mod 60000"] pos_mod_bound[of 60000 ms] by simp_all
  have l: "0 \<le> l" "l < 1000" by (simp_all add: l_def)
  have sum: "h * 3600000 + mi * 60000 + sec * 1000 + l = ms"
  proof -
    have a: "ms mod 60000 = ms mod 3600000 mod 60000" by (rule mod_mod_cancel[symmetric]) simp
    have b: "ms mod 1000 = ms mod 60000 mod 1000" by (rule mod_mod_cancel[symmetric]) simp
    have "sec * 1000 + l = ms mod 60000" unfolding sec_def l_def b by simp
    moreover have "mi * 60000 + ms mod 60000 = ms mod 3600000" unfolding mi_def a by simp
    moreover have "h * 3600000 + ms mod 3600000 = ms" unfolding h_def by simp
    ultimately show ?thesis by simp
  qed
  have "iso_fields (to_iso_string t) =
      Some (y, m, yd - days_before_month (leap_year y) m + 1, h, mi, sec, l)"
    unfolding to_iso_string_def Let_def n_def[symmetric] ms_def[symmetric] y_def[symmetric]
      yd_def[symmetric] m_def[symmetric] h_def[symmetric] mi_def[symmetric] sec_def[symmetric]
      l_def[symmetric]
    using y m h mi sec l by (intro iso_fields_written) simp_all
  moreover have "(n - epoch_day) * 86400000 + ms = t" by (simp add: n_def ms_def)
  ultimately show ?thesis using m h mi sec sum by (simp add: date_parse_def yd_def algebra_simps)
qed

end
