(* ===== verification/TaskContract.thy ===== *)
theory TaskContract
  imports DevPrelude JsDate
begin

text \<open>
  The generation task contract (\<open>canvas-agent/src/dreamina-task-contract.ts\<close>): the life cycle of
  a task as the product sees it, the reducer that applies an event to it, and the reading of a
  runtime journal entry as a task state. Enums are datatypes with the source's constructors, an
  optional property is an \<open>option\<close>, and every \<open>throw\<close> is an \<open>Inl\<close>.
\<close>

section \<open>Data\<close>

datatype lifecycle =
  QUEUED_LOCAL | SUBMITTING | SUBMISSION_UNCERTAIN | ACCEPTED | RUNNING | TERMINAL

datatype outcome = SUCCEEDED | REJECTED | FAILED | CANCELLED | FAILED_OR_CANCELLED

datatype sync_state =
  SYNC_OK | SYNC_RETRY_WAIT | SYNC_BLOCKED_ACCOUNT | SYNC_UNCERTAIN | SYNC_CONFLICT

datatype result_state =
  NOT_AVAILABLE | PENDING_MATERIALIZATION | MATERIALIZING | READY | FAILED_RETRYABLE | FAILED_PERMANENT

datatype media_type = ImageMedia | VideoMedia | AudioMedia

record task_output =
  outputIndex :: int
  mediaType :: media_type
  providerArtifactRef :: "string option"
  materializedAssetId :: "string option"
  materializationErrorCode :: "string option"

record scoped_context =
  projectId :: "string option"
  nodeId :: "string option"
  conversationId :: "string option"
  messageId :: "string option"
  batchIndex :: "int option"
  batchCount :: "int option"
  retryOf :: "string option"
  attemptGroupId :: "string option"

datatype task_context = Scoped scoped_context | LegacyUnscoped

datatype provider_status = Pending | Processing | Completed | Failed | Cancelled

datatype observation_source = SubmitReceipt | QueryResult | ListTask

record observation =
  obs_source :: observation_source
  observedAt :: string
  obs_accountBinding :: "string option"
  fenceEpoch :: "int option"
  obs_status :: provider_status

record task_state =
  lifecycle :: lifecycle
  terminalOutcome :: "outcome option"
  syncState :: sync_state
  resultState :: result_state
  outputs :: "task_output list"
  accountBinding :: "string option"
  taskContext :: task_context
  providerObservation :: "observation option"
  lastSyncErrorCode :: "string option"

datatype sync_error_kind = QueryError | TransportError | ParseError | LockError | LoginError | AccountError

datatype task_event =
    Transition lifecycle "outcome option"
  | ProviderObservation observation
  | SyncError sync_error_kind string
  | SyncRecovered
  | BindContext "string option" scoped_context

datatype journal_state =
  JQueued | JPending | JAccepted | JSucceeded | JFailed | JCancelled | JUnknown | JDeleted

record journal_snapshot =
  snap_state :: journal_state
  submitId :: "string option"
  receiptRecorded :: bool
  snap_errorCode :: "string option"
  snap_officialStatus :: "provider_status option"

text \<open>\<open>DreaminaTaskTransitionError\<close>, by the message it is thrown with.\<close>

datatype transition_error =
  LifecycleForbidden lifecycle lifecycle | BadTimestamp | BadFenceEpoch | BadErrorCode

section \<open>Transitions\<close>

fun FORWARD_TRANSITIONS :: "lifecycle \<Rightarrow> lifecycle list" where
  "FORWARD_TRANSITIONS QUEUED_LOCAL = [SUBMITTING]"
| "FORWARD_TRANSITIONS SUBMITTING = [ACCEPTED, SUBMISSION_UNCERTAIN, TERMINAL]"
| "FORWARD_TRANSITIONS SUBMISSION_UNCERTAIN = [ACCEPTED, TERMINAL]"
| "FORWARD_TRANSITIONS ACCEPTED = [RUNNING, TERMINAL]"
| "FORWARD_TRANSITIONS RUNNING = [TERMINAL]"
| "FORWARD_TRANSITIONS TERMINAL = []"

definition transitionLifecycle ::
  "task_state \<Rightarrow> lifecycle \<Rightarrow> outcome option \<Rightarrow> transition_error + task_state" where
  "transitionLifecycle s l out =
     (let err = Inl (LifecycleForbidden (lifecycle s) l) in
      if l = lifecycle s then
        (if l \<noteq> TERMINAL then (if out \<noteq> None then err else Inr s)
         else if out = None \<or> out \<noteq> terminalOutcome s then err else Inr s)
      else if l \<notin> set (FORWARD_TRANSITIONS (lifecycle s)) then err
      else if l = TERMINAL \<and> out = None then err
      else if l \<noteq> TERMINAL \<and> out \<noteq> None then err
      else if lifecycle s = SUBMITTING \<and> l = TERMINAL \<and> out \<noteq> Some REJECTED then err
      else if lifecycle s = SUBMISSION_UNCERTAIN \<and> l = TERMINAL then err
      else
        let next = s\<lparr>lifecycle := l, terminalOutcome := (if l = TERMINAL then out else None)\<rparr>;
            next = (if l = SUBMISSION_UNCERTAIN then next\<lparr>syncState := SYNC_UNCERTAIN\<rparr>
                    else if lifecycle s = SUBMISSION_UNCERTAIN \<and> l = ACCEPTED
                    then next\<lparr>syncState := SYNC_OK, lastSyncErrorCode := None\<rparr>
                    else next)
        in Inr (if l = TERMINAL \<and> out = Some SUCCEEDED \<and> resultState next = NOT_AVAILABLE
                then next\<lparr>resultState := PENDING_MATERIALIZATION\<rparr> else next))"

section \<open>Provider observations\<close>

fun terminalOutcomeForObservation :: "provider_status \<Rightarrow> outcome option" where
  "terminalOutcomeForObservation Completed = Some SUCCEEDED"
| "terminalOutcomeForObservation Cancelled = Some CANCELLED"
| "terminalOutcomeForObservation Failed = Some FAILED_OR_CANCELLED"
| "terminalOutcomeForObservation _ = None"

definition transitionLifecycleFromObservation :: "task_state \<Rightarrow> outcome \<Rightarrow> task_state" where
  "transitionLifecycleFromObservation s out =
     (let next = s\<lparr>lifecycle := TERMINAL, terminalOutcome := Some out\<rparr> in
      if out = SUCCEEDED \<and> resultState next = NOT_AVAILABLE
      then next\<lparr>resultState := PENDING_MATERIALIZATION\<rparr> else next)"

definition assertObservation :: "observation \<Rightarrow> transition_error + unit" where
  "assertObservation ob =
     (if date_parse (observedAt ob) = None then Inl BadTimestamp
      else if \<not> opt_ok (\<lambda>e. safe_integer e \<and> 0 \<le> e) (fenceEpoch ob) then Inl BadFenceEpoch
      else Inr ())"

definition observed :: "task_state \<Rightarrow> observation \<Rightarrow> task_state" where
  "observed s ob =
     s\<lparr>accountBinding := (if truthy (accountBinding s) \<or> \<not> truthy (obs_accountBinding ob)
                          then accountBinding s else obs_accountBinding ob),
       providerObservation := Some ob,
       syncState := (if syncState s = SYNC_CONFLICT then SYNC_CONFLICT else SYNC_OK),
       lastSyncErrorCode := None\<rparr>"

text \<open>What the observed status does to the life cycle; \<open>w\<close> is the state with the observation
  recorded.\<close>

definition follow_observation :: "task_state \<Rightarrow> task_state \<Rightarrow> provider_status \<Rightarrow> task_state" where
  "follow_observation s w st =
     (let out = terminalOutcomeForObservation st in
      if lifecycle s = TERMINAL then
        (if out = None \<or> out = terminalOutcome s then w
         else w\<lparr>syncState := SYNC_CONFLICT, terminalOutcome := terminalOutcome s\<rparr>)
      else case out of
        Some x \<Rightarrow> transitionLifecycleFromObservation w x
      | None \<Rightarrow>
          if st = Processing then
            (if lifecycle s = RUNNING then w
             else w\<lparr>lifecycle := RUNNING, terminalOutcome := None\<rparr>)
          else if lifecycle s = RUNNING then w
          else if lifecycle s = ACCEPTED then w
          else w\<lparr>lifecycle := ACCEPTED, terminalOutcome := None\<rparr>)"

definition applyProviderObservation ::
  "task_state \<Rightarrow> observation \<Rightarrow> transition_error + task_state" where
  "applyProviderObservation s ob =
     bindE (assertObservation ob) (\<lambda>_.
       Inr (if truthy (accountBinding s) \<and> truthy (obs_accountBinding ob)
              \<and> accountBinding s \<noteq> obs_accountBinding ob
            then s\<lparr>syncState := SYNC_CONFLICT\<rparr>
            else follow_observation s (observed s ob) (obs_status ob)))"

section \<open>Binding a product context\<close>

text \<open>One key of the loop: skip an absent key, refuse a different value, else write it.\<close>

definition bind_key :: "'v option \<Rightarrow> 'v option \<Rightarrow> ('v option) option" where
  "bind_key incoming current =
     (if incoming = None then Some current
      else if current \<noteq> None \<and> current \<noteq> incoming then None
      else Some incoming)"

definition bind_keys :: "scoped_context \<Rightarrow> scoped_context \<Rightarrow> scoped_context option" where
  "bind_keys inc c =
     Option.bind (bind_key (projectId inc) (projectId c)) (\<lambda>a.
     Option.bind (bind_key (nodeId inc) (nodeId c)) (\<lambda>b.
     Option.bind (bind_key (conversationId inc) (conversationId c)) (\<lambda>d.
     Option.bind (bind_key (messageId inc) (messageId c)) (\<lambda>e.
     Option.bind (bind_key (batchIndex inc) (batchIndex c)) (\<lambda>f.
     Option.bind (bind_key (batchCount inc) (batchCount c)) (\<lambda>g.
     Option.bind (bind_key (retryOf inc) (retryOf c)) (\<lambda>h.
     Option.bind (bind_key (attemptGroupId inc) (attemptGroupId c)) (\<lambda>i.
       Some (c\<lparr>projectId := a, nodeId := b, conversationId := d, messageId := e,
              batchIndex := f, batchCount := g, retryOf := h, attemptGroupId := i\<rparr>)))))))))"

definition bindContext ::
  "task_state \<Rightarrow> string option \<Rightarrow> scoped_context \<Rightarrow> task_state" where
  "bindContext s acc inc =
     (case taskContext s of
        LegacyUnscoped \<Rightarrow> s
      | Scoped c \<Rightarrow>
          if truthy acc \<and> truthy (accountBinding s) \<and> acc \<noteq> accountBinding s
          then s\<lparr>syncState := SYNC_CONFLICT\<rparr>
          else case bind_keys inc c of
                 None \<Rightarrow> s\<lparr>syncState := SYNC_CONFLICT\<rparr>
               | Some c' \<Rightarrow>
                   s\<lparr>taskContext := Scoped c',
                     accountBinding := (if truthy (accountBinding s) \<or> \<not> truthy acc
                                        then accountBinding s else acc)\<rparr>)"

section \<open>The reducer\<close>

definition assertSafeErrorCode :: "string \<Rightarrow> transition_error + unit" where
  "assertSafeErrorCode code = (if error_code_ok code then Inr () else Inl BadErrorCode)"

fun reduceDreaminaTask :: "task_state \<Rightarrow> task_event \<Rightarrow> transition_error + task_state" where
  "reduceDreaminaTask s (Transition l out) = transitionLifecycle s l out"
| "reduceDreaminaTask s (ProviderObservation ob) = applyProviderObservation s ob"
| "reduceDreaminaTask s (SyncError kind code) =
     bindE (assertSafeErrorCode code) (\<lambda>_.
       Inr (s\<lparr>syncState := (if kind = AccountError then SYNC_BLOCKED_ACCOUNT else SYNC_RETRY_WAIT),
              lastSyncErrorCode := Some code\<rparr>))"
| "reduceDreaminaTask s SyncRecovered =
     Inr (if syncState s = SYNC_CONFLICT then s
          else s\<lparr>syncState := SYNC_OK, lastSyncErrorCode := None\<rparr>)"
| "reduceDreaminaTask s (BindContext acc c) = Inr (bindContext s acc c)"

section \<open>Reading the runtime journal\<close>

definition hasProviderTask :: "journal_snapshot \<Rightarrow> bool" where
  "hasProviderTask j \<longleftrightarrow> truthy (submitId j) \<or> receiptRecorded j"

definition isAmbiguousOfficialFailure :: "journal_snapshot \<Rightarrow> bool" where
  "isAmbiguousOfficialFailure j \<longleftrightarrow> snap_officialStatus j = Some Failed
     \<or> snap_errorCode j = Some ''dreamina_official_failed''
     \<or> snap_errorCode j = Some ''dreamina_official_incomplete''"

definition isLocalSyncErrorCode :: "string \<Rightarrow> bool" where
  "isLocalSyncErrorCode code \<longleftrightarrow>
     list_ex (includes_str code) [''query'', ''transport'', ''parse'', ''state_busy'', ''state_fenced'',
       ''login'', ''session'', ''unknown'', ''origin_not_trusted'']
     \<and> \<not> starts_with code ''dreamina_official_''"

definition journal_base :: task_state where
  "journal_base = \<lparr>lifecycle = QUEUED_LOCAL, terminalOutcome = None, syncState = SYNC_OK,
     resultState = NOT_AVAILABLE, outputs = [], accountBinding = None, taskContext = LegacyUnscoped,
     providerObservation = None, lastSyncErrorCode = None\<rparr>"

abbreviation account_session_changed :: string where
  "account_session_changed \<equiv> ''dreamina_account_session_changed''"

fun dreaminaTaskFromRuntimeJournal :: "journal_snapshot \<Rightarrow> task_state" where
  "dreaminaTaskFromRuntimeJournal j =
    (let base = journal_base; err = snap_errorCode j in
     case snap_state j of
       JQueued \<Rightarrow> base
     | JPending \<Rightarrow> base\<lparr>lifecycle := SUBMITTING\<rparr>
     | JUnknown \<Rightarrow> base\<lparr>lifecycle := SUBMISSION_UNCERTAIN, syncState := SYNC_UNCERTAIN,
         lastSyncErrorCode := (if truthy err then err else None)\<rparr>
     | JAccepted \<Rightarrow>
         (let b = base\<lparr>lifecycle :=
                    (if snap_officialStatus j = Some Processing then RUNNING else ACCEPTED)\<rparr>
          in if err = Some account_session_changed
             then b\<lparr>syncState := SYNC_BLOCKED_ACCOUNT, lastSyncErrorCode := err\<rparr>
             else if truthy err \<and> isLocalSyncErrorCode (the err)
             then b\<lparr>syncState := SYNC_RETRY_WAIT, lastSyncErrorCode := err\<rparr>
             else b)
     | JSucceeded \<Rightarrow>
         (let b = base\<lparr>lifecycle := TERMINAL, terminalOutcome := Some SUCCEEDED,
                       resultState := PENDING_MATERIALIZATION\<rparr>
          in if err = Some account_session_changed
             then b\<lparr>syncState := SYNC_BLOCKED_ACCOUNT, lastSyncErrorCode := err\<rparr> else b)
     | JCancelled \<Rightarrow>
         (if hasProviderTask j \<and> err = Some ''dreamina_local_wait_stopped''
          then base\<lparr>lifecycle := ACCEPTED\<rparr>
          else base\<lparr>lifecycle := TERMINAL, terminalOutcome := Some CANCELLED\<rparr>)
     | JFailed \<Rightarrow>
         (if hasProviderTask j \<and> truthy err \<and> isLocalSyncErrorCode (the err)
          then base\<lparr>lifecycle := ACCEPTED, syncState := SYNC_RETRY_WAIT, lastSyncErrorCode := err\<rparr>
          else base\<lparr>lifecycle := TERMINAL, terminalOutcome :=
                 Some (if isAmbiguousOfficialFailure j then FAILED_OR_CANCELLED else FAILED)\<rparr>)
     | JDeleted \<Rightarrow> base\<lparr>lifecycle := TERMINAL, terminalOutcome := Some FAILED\<rparr>)"

section \<open>The abstract life cycle\<close>

text \<open>What the reducer promises about the pair of life cycle and outcome: the submission path, the
  provider's shortcuts, and nothing after \<open>TERMINAL\<close>.\<close>

type_synonym life = "lifecycle \<times> outcome option"

inductive life_step :: "life \<Rightarrow> life \<Rightarrow> bool" where
  stay: "life_step p p"
| submit: "life_step (QUEUED_LOCAL, None) (SUBMITTING, None)"
| uncertain: "life_step (SUBMITTING, None) (SUBMISSION_UNCERTAIN, None)"
| reject: "life_step (SUBMITTING, None) (TERMINAL, Some REJECTED)"
| accept: "l \<in> {QUEUED_LOCAL, SUBMITTING, SUBMISSION_UNCERTAIN} \<Longrightarrow> life_step (l, None) (ACCEPTED, None)"
| run: "l \<noteq> TERMINAL \<Longrightarrow> life_step (l, None) (RUNNING, None)"
| finish: "l \<in> {ACCEPTED, RUNNING} \<Longrightarrow> life_step (l, None) (TERMINAL, Some x)"
| provider_end: "l \<noteq> TERMINAL \<Longrightarrow> x \<in> {SUCCEEDED, CANCELLED, FAILED_OR_CANCELLED} \<Longrightarrow>
     life_step (l, None) (TERMINAL, Some x)"

inductive_cases life_step_terminalE: "life_step (TERMINAL, x) q"
inductive_simps life_step_simps: "life_step (l, x) (m, y)"

definition life_of :: "task_state \<Rightarrow> life" where
  "life_of s = (lifecycle s, terminalOutcome s)"

fun lifecycleRank :: "lifecycle \<Rightarrow> nat" where
  "lifecycleRank QUEUED_LOCAL = 0"
| "lifecycleRank SUBMITTING = 1"
| "lifecycleRank SUBMISSION_UNCERTAIN = 2"
| "lifecycleRank ACCEPTED = 3"
| "lifecycleRank RUNNING = 4"
| "lifecycleRank TERMINAL = 5"

lemma life_step_rank: "life_step p q \<Longrightarrow> lifecycleRank (fst p) \<le> lifecycleRank (fst q)"
proof (induction rule: life_step.induct)
  case (run l)
  then show ?case by (cases l) auto
next
  case (provider_end l x)
  then show ?case by (cases l) auto
qed auto

lemma life_steps_rank: "life_step\<^sup>*\<^sup>* p q \<Longrightarrow> lifecycleRank (fst p) \<le> lifecycleRank (fst q)"
  by (induction rule: rtranclp_induct) (auto dest: life_step_rank)

lemma life_steps_terminal: "life_step\<^sup>*\<^sup>* p q \<Longrightarrow> fst p = TERMINAL \<Longrightarrow> q = p"
proof (induction rule: rtranclp_induct)
  case (step q r)
  then have "life_step (TERMINAL, snd p) r" by (cases p) auto
  with step show ?case by (cases p) (auto elim: life_step_terminalE)
qed simp

text \<open>A task is well formed when its outcome is set exactly at the end, and a success announces a
  result.\<close>

definition task_wf :: "task_state \<Rightarrow> bool" where
  "task_wf s \<longleftrightarrow> (lifecycle s = TERMINAL \<longleftrightarrow> terminalOutcome s \<noteq> None)
     \<and> (terminalOutcome s = Some SUCCEEDED \<longrightarrow> resultState s \<noteq> NOT_AVAILABLE)"

lemmas transition_defs = transitionLifecycle_def Let_def
lemmas observation_defs = applyProviderObservation_def observed_def follow_observation_def
  transitionLifecycleFromObservation_def Let_def

lemma transition_effect:
  assumes "transitionLifecycle s l out = Inr t"
  shows "t = s \<or> l \<in> set (FORWARD_TRANSITIONS (lifecycle s)) \<and> (l = TERMINAL \<longleftrightarrow> out \<noteq> None)
    \<and> (lifecycle s = SUBMITTING \<and> l = TERMINAL \<longrightarrow> out = Some REJECTED)
    \<and> \<not> (lifecycle s = SUBMISSION_UNCERTAIN \<and> l = TERMINAL) \<and> life_of t = (l, out)"
  using assms by (simp add: transition_defs life_of_def split: if_split_asm; auto)

lemma transition_life:
  assumes "task_wf s" "transitionLifecycle s l out = Inr t"
  shows "task_wf t" "life_step (life_of s) (life_of t)"
proof -
  show "task_wf t"
    using assms by (simp add: transition_defs task_wf_def split: if_split_asm; auto)
  have none: "lifecycle s \<noteq> TERMINAL \<Longrightarrow> terminalOutcome s = None"
    using assms(1) by (auto simp: task_wf_def)
  show "life_step (life_of s) (life_of t)"
    using transition_effect[OF assms(2)] none
    by (cases "lifecycle s") (auto simp: life_of_def life_step_simps)
qed

lemma observed_keeps [simp]:
  "lifecycle (observed s ob) = lifecycle s" "terminalOutcome (observed s ob) = terminalOutcome s"
  "resultState (observed s ob) = resultState s" "outputs (observed s ob) = outputs s"
  "taskContext (observed s ob) = taskContext s"
  by (simp_all add: observed_def)

lemma apply_observation_cases:
  assumes "applyProviderObservation s ob = Inr t"
  shows "t = s\<lparr>syncState := SYNC_CONFLICT\<rparr> \<or> t = follow_observation s (observed s ob) (obs_status ob)"
  using assms by (auto simp: applyProviderObservation_def split: sum.split_asm if_split_asm)

lemma follow_effect:
  assumes "life_of w = life_of s"
  shows "life_of (follow_observation s w st) = life_of s
    \<or> lifecycle s \<noteq> TERMINAL \<and> life_of (follow_observation s w st) = (RUNNING, None)
    \<or> lifecycle s \<notin> {TERMINAL, RUNNING, ACCEPTED}
        \<and> life_of (follow_observation s w st) = (ACCEPTED, None)
    \<or> lifecycle s \<noteq> TERMINAL \<and> (\<exists>x. terminalOutcomeForObservation st = Some x
          \<and> life_of (follow_observation s w st) = (TERMINAL, Some x))"
  using assms by (simp add: follow_observation_def transitionLifecycleFromObservation_def Let_def
      life_of_def split: option.split)

lemma observation_effect:
  assumes "applyProviderObservation s ob = Inr t"
  shows "life_of t = life_of s
    \<or> lifecycle s \<noteq> TERMINAL \<and> life_of t = (RUNNING, None)
    \<or> lifecycle s \<notin> {TERMINAL, RUNNING, ACCEPTED} \<and> life_of t = (ACCEPTED, None)
    \<or> lifecycle s \<noteq> TERMINAL \<and> (\<exists>x. terminalOutcomeForObservation (obs_status ob) = Some x
          \<and> life_of t = (TERMINAL, Some x))"
  using apply_observation_cases[OF assms] follow_effect[of "observed s ob" s "obs_status ob"]
  by (auto simp: life_of_def)

lemma follow_result:
  assumes "resultState w = resultState s" "life_of w = life_of s"
  shows "terminalOutcome (follow_observation s w st) = Some SUCCEEDED \<longrightarrow>
      terminalOutcome s = Some SUCCEEDED \<and> resultState (follow_observation s w st) = resultState s
      \<or> resultState (follow_observation s w st) \<noteq> NOT_AVAILABLE"
  using assms by (simp add: follow_observation_def transitionLifecycleFromObservation_def Let_def
      life_of_def split: option.split)

lemma observation_result:
  assumes "applyProviderObservation s ob = Inr t"
  shows "terminalOutcome t = Some SUCCEEDED \<longrightarrow>
      terminalOutcome s = Some SUCCEEDED \<and> resultState t = resultState s
      \<or> resultState t \<noteq> NOT_AVAILABLE"
  using apply_observation_cases[OF assms] follow_result[of "observed s ob" s "obs_status ob"]
  by (auto simp: life_of_def)

lemma observed_outcome:
  "terminalOutcomeForObservation st = Some x \<Longrightarrow> x \<in> {SUCCEEDED, CANCELLED, FAILED_OR_CANCELLED}"
  by (cases st) auto

lemma observation_life:
  assumes "task_wf s" "applyProviderObservation s ob = Inr t"
  shows "task_wf t" "life_step (life_of s) (life_of t)"
proof -
  note eff = observation_effect[OF assms(2)]
  show "task_wf t"
    using eff observation_result[OF assms(2)] assms(1) by (auto simp: task_wf_def life_of_def)
  have none: "lifecycle s \<noteq> TERMINAL \<Longrightarrow> terminalOutcome s = None"
    using assms(1) by (auto simp: task_wf_def)
  have early: "lifecycle s \<notin> {TERMINAL, RUNNING, ACCEPTED} \<Longrightarrow>
      lifecycle s \<in> {QUEUED_LOCAL, SUBMITTING, SUBMISSION_UNCERTAIN}"
    by (cases "lifecycle s") auto
  from eff show "life_step (life_of s) (life_of t)"
  proof (elim disjE conjE exE)
    assume "life_of t = life_of s"
    then show ?thesis by (simp add: stay)
  next
    assume "lifecycle s \<noteq> TERMINAL" "life_of t = (RUNNING, None)"
    then show ?thesis by (simp add: life_of_def none run)
  next
    assume "lifecycle s \<notin> {TERMINAL, RUNNING, ACCEPTED}" "life_of t = (ACCEPTED, None)"
    then show ?thesis using early none by (auto simp: life_of_def intro: accept)
  next
    fix x
    assume "lifecycle s \<noteq> TERMINAL" "terminalOutcomeForObservation (obs_status ob) = Some x"
      "life_of t = (TERMINAL, Some x)"
    then show ?thesis using none observed_outcome by (auto simp: life_of_def intro: provider_end)
  qed
qed

lemma bindContext_keeps [simp]:
  "lifecycle (bindContext s acc c) = lifecycle s"
  "terminalOutcome (bindContext s acc c) = terminalOutcome s"
  "resultState (bindContext s acc c) = resultState s"
  "outputs (bindContext s acc c) = outputs s"
  by (auto simp: bindContext_def split: task_context.splits option.splits)

lemma reduce_life:
  assumes "task_wf s" "reduceDreaminaTask s e = Inr t"
  shows "task_wf t \<and> life_step (life_of s) (life_of t)"
proof (cases e)
  case (Transition l out)
  with assms show ?thesis using transition_life by auto
next
  case (ProviderObservation ob)
  with assms show ?thesis using observation_life by auto
next
  case (SyncError k c)
  with assms show ?thesis
    by (auto simp: task_wf_def life_of_def assertSafeErrorCode_def stay split: if_splits)
next
  case SyncRecovered
  with assms show ?thesis by (auto simp: task_wf_def life_of_def stay split: if_splits)
next
  case (BindContext acc c)
  with assms show ?thesis by (auto simp: task_wf_def life_of_def stay)
qed

text \<open>The reducer is a guarded machine: it keeps well-formedness and simulates the abstract life
  cycle, and so do its runs.\<close>

interpretation life_cycle: guarded_machine reduceDreaminaTask task_wf
    "\<lambda>s t. life_step\<^sup>*\<^sup>* (life_of s) (life_of t)"
  by unfold_locales (use reduce_life in \<open>auto intro: rtranclp_trans\<close>)

text \<open>An account binding, once made, is kept by every event.\<close>

definition binding_kept :: "task_state \<Rightarrow> task_state \<Rightarrow> bool" where
  "binding_kept s t \<longleftrightarrow> (truthy (accountBinding s) \<longrightarrow> accountBinding t = accountBinding s)"

lemma observed_binding: "binding_kept s (observed s ob)"
  by (simp add: binding_kept_def observed_def)

lemma observation_binding:
  assumes "applyProviderObservation s ob = Inr t"
  shows "binding_kept s t"
proof -
  have "accountBinding (follow_observation s w st) = accountBinding w" for w st
    by (simp add: follow_observation_def transitionLifecycleFromObservation_def Let_def
        split: option.split)
  with apply_observation_cases[OF assms]
  have "accountBinding t \<in> {accountBinding s, accountBinding (observed s ob)}" by auto
  then show ?thesis using observed_binding[of s ob] by (auto simp: binding_kept_def)
qed

lemma reduce_binding:
  assumes "reduceDreaminaTask s e = Inr t"
  shows "binding_kept s t"
proof (cases e)
  case (Transition l out)
  with assms show ?thesis by (simp add: transition_defs binding_kept_def split: if_split_asm; auto)
next
  case (ProviderObservation ob)
  with assms observation_binding show ?thesis by simp
next
  case (SyncError k c)
  with assms show ?thesis by (auto simp: binding_kept_def split: sum.split_asm)
next
  case SyncRecovered
  with assms show ?thesis by (auto simp: binding_kept_def)
next
  case (BindContext acc c)
  with assms show ?thesis
    by (auto simp: binding_kept_def bindContext_def split: task_context.splits option.splits)
qed

interpretation binding: guarded_machine reduceDreaminaTask "\<lambda>_. True" binding_kept
  by unfold_locales (use reduce_binding in \<open>auto simp: binding_kept_def\<close>)

text \<open>Reading the journal yields well-formed tasks.\<close>

lemma journal_task_wf: "task_wf (dreaminaTaskFromRuntimeJournal j)"
  by (cases "snap_state j") (auto simp: task_wf_def journal_base_def Let_def)

end
