(* ===== verification/TaskContractClaims.thy ===== *)
theory TaskContractClaims
  imports TaskContract
begin

text \<open>
  What the task contract guarantees for every sequence of events, the rejected ones included: a
  caller that catches an error goes on from the unchanged state (\<open>run_try\<close>).
\<close>

definition ex_state :: task_state where
  "ex_state = journal_base\<lparr>lifecycle := SUBMITTING, taskContext := Scoped \<lparr>projectId = Some ''p1'', nodeId = None,
     conversationId = None, messageId = None, batchIndex = None, batchCount = None, retryOf = None,
     attemptGroupId = None\<rparr>\<rparr>"

definition ex_observation :: "provider_status \<Rightarrow> observation" where
  "ex_observation st = \<lparr>obs_source = QueryResult, observedAt = ''2026-01-02T03:04:05.000Z'',
     obs_accountBinding = Some ''account-1'', fenceEpoch = Some 4, obs_status = st\<rparr>"

definition ex_events :: "task_event list" where
  "ex_events = [Transition TERMINAL (Some SUCCEEDED), Transition ACCEPTED None,
     ProviderObservation (ex_observation Processing), SyncError QueryError ''dreamina_query_failed'',
     ProviderObservation (ex_observation Completed), ProviderObservation (ex_observation Pending)]"

text \<open>C3: From any well-formed task, any sequence of events leaves a well-formed task: an outcome is
  recorded exactly when the life cycle has ended and a success announces a result. The life cycle
  moves only along the steps of the abstract one (submission, acceptance, running, end; the provider
  may skip steps) and never backwards in rank.\<close>

theorem events_follow_life_cycle:
  assumes "task_wf s"
  shows "task_wf (run_try reduceDreaminaTask s es)
    \<and> life_step\<^sup>*\<^sup>* (life_of s) (life_of (run_try reduceDreaminaTask s es))
    \<and> lifecycleRank (lifecycle s) \<le> lifecycleRank (lifecycle (run_try reduceDreaminaTask s es))"
  using life_cycle.run_try_inv[OF assms, of es] life_steps_rank by (fastforce simp: life_of_def)

theorem events_follow_life_cycle_witness:
  "task_wf ex_state \<and> task_wf (run_try reduceDreaminaTask ex_state ex_events)
   \<and> lifecycleRank (lifecycle ex_state) \<le> lifecycleRank (lifecycle (run_try reduceDreaminaTask ex_state ex_events))
   \<and> life_of (run_try reduceDreaminaTask ex_state ex_events) = (TERMINAL, Some SUCCEEDED)"
proof -
  have wf: "task_wf ex_state" by code_simp
  have "life_of (run_try reduceDreaminaTask ex_state ex_events) = (TERMINAL, Some SUCCEEDED)" by code_simp
  with wf events_follow_life_cycle[OF wf, of ex_events] show ?thesis by blast
qed

text \<open>The end is final: after a task is \<open>TERMINAL\<close> no sequence of events changes its life cycle or
  its outcome; late and contradicting provider observations are recorded as a conflict instead.\<close>

theorem terminal_is_final:
  assumes "task_wf s" "lifecycle s = TERMINAL"
  shows "lifecycle (run_try reduceDreaminaTask s es) = TERMINAL
    \<and> terminalOutcome (run_try reduceDreaminaTask s es) = terminalOutcome s"
proof -
  have "life_of (run_try reduceDreaminaTask s es) = life_of s"
    using life_steps_terminal[of "life_of s"] life_cycle.run_try_inv[OF assms(1), of es] assms(2)
    by (auto simp: life_of_def)
  with assms(2) show ?thesis by (simp add: life_of_def)
qed

theorem terminal_is_final_witness:
  "lifecycle (run_try reduceDreaminaTask (ex_state\<lparr>lifecycle := TERMINAL, terminalOutcome := Some REJECTED\<rparr>) ex_events)
     = TERMINAL
   \<and> terminalOutcome (run_try reduceDreaminaTask (ex_state\<lparr>lifecycle := TERMINAL, terminalOutcome := Some REJECTED\<rparr>) ex_events)
     = terminalOutcome (ex_state\<lparr>lifecycle := TERMINAL, terminalOutcome := Some REJECTED\<rparr>)"
proof (rule terminal_is_final)
  show "task_wf (ex_state\<lparr>lifecycle := TERMINAL, terminalOutcome := Some REJECTED\<rparr>)" by code_simp
  show "lifecycle (ex_state\<lparr>lifecycle := TERMINAL, terminalOutcome := Some REJECTED\<rparr>) = TERMINAL" by simp
qed

text \<open>A task that is bound to a provider account stays bound to it, whatever events follow; an
  observation under another account changes only the synchronization state.\<close>

theorem account_binding_kept:
  assumes "accountBinding s = Some a" "a \<noteq> []"
  shows "accountBinding (run_try reduceDreaminaTask s es) = Some a
    \<and> (\<forall>ob t. reduceDreaminaTask s (ProviderObservation ob) = Inr t \<longrightarrow>
         truthy (obs_accountBinding ob) \<longrightarrow> obs_accountBinding ob \<noteq> Some a \<longrightarrow>
         t = s\<lparr>syncState := SYNC_CONFLICT\<rparr>)"
  using binding.run_try_inv[of s es] assms
  by (auto simp: binding_kept_def applyProviderObservation_def split: sum.splits if_splits)

theorem account_binding_kept_witness:
  "accountBinding (run_try reduceDreaminaTask (ex_state\<lparr>accountBinding := Some ''account-2''\<rparr>) ex_events)
     = Some ''account-2''"
  using account_binding_kept[of "ex_state\<lparr>accountBinding := Some ''account-2''\<rparr>" "''account-2''" ex_events]
  by simp

text \<open>Reading a runtime journal record gives a well-formed task whose end agrees with the record:
  a record the provider accepted is never read as ended merely because local synchronization or
  waiting failed, and only records in a final journal state are read as \<open>TERMINAL\<close>.\<close>

theorem journal_reading:
  "task_wf (dreaminaTaskFromRuntimeJournal j)
   \<and> (lifecycle (dreaminaTaskFromRuntimeJournal j) = TERMINAL \<longrightarrow>
        snap_state j \<in> {JSucceeded, JFailed, JCancelled, JDeleted})
   \<and> (hasProviderTask j \<and> snap_state j = JFailed \<and> truthy (snap_errorCode j)
        \<and> isLocalSyncErrorCode (the (snap_errorCode j)) \<longrightarrow>
        life_of (dreaminaTaskFromRuntimeJournal j) = (ACCEPTED, None))
   \<and> (terminalOutcome (dreaminaTaskFromRuntimeJournal j) = Some SUCCEEDED \<longleftrightarrow> snap_state j = JSucceeded)"
  using journal_task_wf[of j]
  by (cases "snap_state j") (auto simp: journal_base_def Let_def life_of_def)

theorem journal_reading_witness:
  "life_of (dreaminaTaskFromRuntimeJournal \<lparr>snap_state = JFailed, submitId = Some ''s'', receiptRecorded = True,
     snap_errorCode = Some ''dreamina_query_failed'', snap_officialStatus = None\<rparr>) = (ACCEPTED, None)"
proof -
  let ?j = "\<lparr>snap_state = JFailed, submitId = Some ''s'', receiptRecorded = True,
     snap_errorCode = Some ''dreamina_query_failed'', snap_officialStatus = None\<rparr>"
  have "hasProviderTask ?j \<and> snap_state ?j = JFailed \<and> truthy (snap_errorCode ?j)
      \<and> isLocalSyncErrorCode (the (snap_errorCode ?j))"
    by code_simp
  with journal_reading[of ?j] show ?thesis by blast
qed

text \<open>A synchronization error hides a conflict, so the recovery that follows reports the task in
  order, although \<open>sync_recovered\<close> and the observations are written to keep a conflict.\<close>

lemma conflict_lost:
  "run_all reduceDreaminaTask (ex_state\<lparr>syncState := SYNC_CONFLICT\<rparr>) [SyncRecovered]
     = Inr (ex_state\<lparr>syncState := SYNC_CONFLICT\<rparr>)"
  "run_all reduceDreaminaTask (ex_state\<lparr>syncState := SYNC_CONFLICT\<rparr>)
     [SyncError TransportError ''dreamina_transport_failed'', SyncRecovered] = Inr ex_state"
  by code_simp+

end
