(* ===== verification/TaskStore.thy ===== *)
theory TaskStore
  imports TaskContract
begin

text \<open>
  The durable task store (\<open>canvas-agent/src/dreamina-task-store.ts\<close>): the disk document with its
  tasks, its outbox of effects and its inbox of deliveries, the validation a reader applies to it,
  the operations (compare-and-swap projection, product mutation, claim, renew, complete, release),
  the compaction that keeps it within capacity, and the replacement of the file with its recovery
  after a crash.

  The document is typed: the checks that a JSON value has the declared shape (object, known keys,
  enum member, string or number) hold by typing, every other check is a conjunct here. The value of
  the clock and the random lease token are arguments. \<open>localeLe\<close> stands for
  \<open>a.localeCompare(b) <= 0\<close>, whose order is the host's collation and only decides how lists are
  sorted.
\<close>

section \<open>Data\<close>

datatype visibility = Visible | Hidden | Deleted
datatype task_mode = ImageMode | VideoMode

record stored_task =
  taskId :: string
  visibility :: "visibility option"
  clientOperationId :: string
  tLifecycle :: lifecycle
  tTerminalOutcome :: "outcome option"
  tSyncState :: sync_state
  tResultState :: result_state
  requestHash :: string
  version :: int
  tOutputs :: "task_output list"
  tContext :: task_context
  tAccountBinding :: "string option"
  officialStatus :: "provider_status option"
  tLastSyncErrorCode :: "string option"
  mode :: "task_mode option"
  operation :: "string option"
  model :: "string option"
  createdAt :: "string option"
  updatedAt :: string
  journalRecordId :: string
  projectedJournalVersion :: int

datatype effect_kind = TaskProjected | TaskMutated | ProductEffect

record outbox_effect =
  effectKey :: string
  e_kind :: effect_kind
  e_taskId :: string
  journalVersion :: "int option"
  taskVersion :: int
  e_createdAt :: string

text \<open>\<open>DreaminaTaskEffectResult\<close>: its only property, \<open>materializedAssetId\<close>.\<close>

type_synonym effect_result = "string option"

datatype inbox_state = InPending | InCompleted | InReleased

record inbox_record =
  consumerId :: string
  i_taskId :: string
  i_effectKey :: string
  i_state :: inbox_state
  fence :: int
  leaseToken :: "string option"
  leaseExpiresAt :: "string option"
  completedAt :: "string option"
  releasedAt :: "string option"
  i_result :: "effect_result option"

record store_config =
  maxTasks :: nat
  maxEffects :: nat
  localeLe :: "string \<Rightarrow> string \<Rightarrow> bool"

record disk =
  revision :: int
  tasks :: "stored_task list"
  outbox :: "outbox_effect list"
  inbox :: "inbox_record list"

datatype store_error = StateInvalid | VersionConflict | TransitionFailed transition_error

definition MAX_TASKS :: nat where "MAX_TASKS = 10000"
definition MAX_EFFECTS :: nat where "MAX_EFFECTS = 50000"

section \<open>Validation\<close>

definition safeTaskId :: "string \<Rightarrow> bool" where
  "safeTaskId s \<longleftrightarrow> starts_with s ''dreamina:'' \<and> chars_ok id_char 8 160 (drop 9 s)"

definition safeOperationId :: "string \<Rightarrow> bool" where
  "safeOperationId s \<longleftrightarrow> chars_ok id_char 8 160 s"

definition safeOpaqueId :: "nat \<Rightarrow> nat \<Rightarrow> string \<Rightarrow> bool" where
  "safeOpaqueId lo hi s \<longleftrightarrow> s \<noteq> [] \<and> chars_ok id_char lo hi s"

definition validEffectKeyValue :: "string \<Rightarrow> bool" where
  "validEffectKeyValue s \<longleftrightarrow> s \<noteq> [] \<and> chars_ok id_char 0 300 s"

text \<open>\<open>UUID_PATTERN\<close>: hexadecimal groups of 8, 4, 4, 4 and 12, joined by hyphens.\<close>

definition uuid_ok :: "string \<Rightarrow> bool" where
  "uuid_ok s \<longleftrightarrow> length s = 36
     \<and> take 1 (drop 8 s) = ''-'' \<and> take 1 (drop 13 s) = ''-''
     \<and> take 1 (drop 18 s) = ''-'' \<and> take 1 (drop 23 s) = ''-''
     \<and> list_all hex_char (take 8 s @ take 4 (drop 9 s) @ take 4 (drop 14 s)
          @ take 4 (drop 19 s) @ drop 24 s)"

definition positive_version :: "int \<Rightarrow> bool" where
  "positive_version n \<longleftrightarrow> safe_integer n \<and> 1 \<le> n"

definition date_ok :: "string \<Rightarrow> bool" where
  "date_ok s \<longleftrightarrow> date_parse s \<noteq> None"

fun validContext :: "task_context \<Rightarrow> bool" where
  "validContext LegacyUnscoped = True"
| "validContext (Scoped c) =
     (list_all (opt_ok (safeOpaqueId 1 200))
        [projectId c, nodeId c, conversationId c, messageId c, retryOf c, attemptGroupId c]
      \<and> opt_ok (\<lambda>n. safe_integer n \<and> 0 \<le> n) (batchIndex c)
      \<and> opt_ok (\<lambda>n. safe_integer n \<and> 1 \<le> n) (batchCount c))"

definition validOutput :: "task_output \<Rightarrow> bool" where
  "validOutput x \<longleftrightarrow> safe_integer (outputIndex x) \<and> 0 \<le> outputIndex x
     \<and> opt_ok (safeOpaqueId 1 256) (providerArtifactRef x)
     \<and> opt_ok (safeOpaqueId 1 256) (materializedAssetId x)
     \<and> opt_ok error_code_ok (materializationErrorCode x)"

definition validStoredTask :: "stored_task \<Rightarrow> bool" where
  "validStoredTask t \<longleftrightarrow>
     safeTaskId (taskId t) \<and> safeOperationId (clientOperationId t)
     \<and> chars_ok hex_char 64 64 (requestHash t)
     \<and> positive_version (version t) \<and> positive_version (projectedJournalVersion t)
     \<and> safeOperationId (journalRecordId t) \<and> date_ok (updatedAt t)
     \<and> (tLifecycle t = TERMINAL \<longleftrightarrow> tTerminalOutcome t \<noteq> None)
     \<and> validContext (tContext t)
     \<and> length (tOutputs t) \<le> 32 \<and> list_all validOutput (tOutputs t)
     \<and> distinct (map outputIndex (tOutputs t))
     \<and> opt_ok (safeOpaqueId 8 160) (tAccountBinding t)
     \<and> opt_ok error_code_ok (tLastSyncErrorCode t)
     \<and> opt_ok (safeOpaqueId 1 120) (operation t)
     \<and> opt_ok (safeOpaqueId 1 120) (model t)
     \<and> opt_ok date_ok (createdAt t)"

definition validEffect :: "outbox_effect \<Rightarrow> bool" where
  "validEffect e \<longleftrightarrow> validEffectKeyValue (effectKey e) \<and> safeTaskId (e_taskId e)
     \<and> (if e_kind e = TaskProjected
        then journalVersion e \<noteq> None \<and> opt_ok positive_version (journalVersion e)
        else opt_ok positive_version (journalVersion e))
     \<and> positive_version (taskVersion e) \<and> date_ok (e_createdAt e)"

definition isProductEffectKey :: "string \<Rightarrow> bool" where
  "isProductEffectKey k \<longleftrightarrow> starts_with k ''materialize:'' \<or> starts_with k ''attach-node:''
     \<or> starts_with k ''attach-message:'' \<or> starts_with k ''agent-resume:''"

definition validEffectResult :: "effect_result \<Rightarrow> bool" where
  "validEffectResult r \<longleftrightarrow> opt_ok (safeOpaqueId 1 256) r"

definition validInbox :: "inbox_record \<Rightarrow> bool" where
  "validInbox i \<longleftrightarrow>
     safeOpaqueId 1 120 (consumerId i) \<and> safeTaskId (i_taskId i) \<and> validEffectKeyValue (i_effectKey i)
     \<and> positive_version (fence i)
     \<and> (case i_state i of
          InPending \<Rightarrow> leaseToken i \<noteq> None \<and> opt_ok uuid_ok (leaseToken i)
            \<and> leaseExpiresAt i \<noteq> None \<and> opt_ok date_ok (leaseExpiresAt i)
            \<and> completedAt i = None \<and> releasedAt i = None \<and> i_result i = None
        | InReleased \<Rightarrow> leaseToken i = None \<and> leaseExpiresAt i = None
            \<and> completedAt i = None \<and> i_result i = None
            \<and> releasedAt i \<noteq> None \<and> opt_ok date_ok (releasedAt i)
        | InCompleted \<Rightarrow> leaseToken i = None \<and> leaseExpiresAt i = None \<and> releasedAt i = None
            \<and> completedAt i \<noteq> None \<and> opt_ok date_ok (completedAt i)
            \<and> opt_ok validEffectResult (i_result i))"

text \<open>The key of a delivery, \<open>`${consumerId}\0${effectKey}`\<close>.\<close>

definition inbox_key :: "inbox_record \<Rightarrow> string" where
  "inbox_key i = consumerId i @ CHR 0x00 # i_effectKey i"

definition find_effect :: "string \<Rightarrow> outbox_effect list \<Rightarrow> outbox_effect option" where
  "find_effect k es = find (\<lambda>e. effectKey e = k) es"

definition find_task :: "string \<Rightarrow> stored_task list \<Rightarrow> stored_task option" where
  "find_task k ts = find (\<lambda>t. taskId t = k) ts"

definition inbox_linked :: "disk \<Rightarrow> inbox_record \<Rightarrow> bool" where
  "inbox_linked d i \<longleftrightarrow>
     (case find_effect (i_effectKey i) (outbox d) of
        Some e \<Rightarrow> e_taskId e = i_taskId i
      | None \<Rightarrow> isProductEffectKey (i_effectKey i))
     \<and> i_taskId i \<in> set (map taskId (tasks d))"

definition valid_disk :: "store_config \<Rightarrow> disk \<Rightarrow> bool" where
  "valid_disk cfg d \<longleftrightarrow>
     safe_integer (revision d) \<and> 0 \<le> revision d
     \<and> length (tasks d) \<le> maxTasks cfg \<and> length (outbox d) \<le> maxEffects cfg
     \<and> length (inbox d) \<le> maxEffects cfg
     \<and> list_all validStoredTask (tasks d) \<and> distinct (map taskId (tasks d))
     \<and> list_all (\<lambda>e. validEffect e \<and> e_taskId e \<in> set (map taskId (tasks d))) (outbox d)
     \<and> distinct (map effectKey (outbox d))
     \<and> list_all (\<lambda>i. validInbox i \<and> inbox_linked d i) (inbox d)
     \<and> distinct (map inbox_key (inbox d))"

definition emptyDisk :: disk where
  "emptyDisk = \<lparr>revision = 0, tasks = [], outbox = [], inbox = []\<rparr>"

text \<open>Reading the file: \<open>None\<close> is a missing file.\<close>

definition readStoreDisk :: "store_config \<Rightarrow> disk option \<Rightarrow> store_error + disk option" where
  "readStoreDisk cfg f = (case f of None \<Rightarrow> Inr None
     | Some d \<Rightarrow> if valid_disk cfg d then Inr (Some d) else Inl StateInvalid)"

section \<open>Projection and mutation of a task\<close>

definition normalizeTask :: "string \<Rightarrow> stored_task \<Rightarrow> int \<Rightarrow> store_error + stored_task" where
  "normalizeTask tid t v =
     (let c = t\<lparr>taskId := tid, version := v\<rparr> in
      if validStoredTask c then Inr c else Inl StateInvalid)"

fun visibilityResurrected :: "visibility option \<Rightarrow> visibility option \<Rightarrow> bool" where
  "visibilityResurrected (Some Deleted) next = (next \<noteq> Some Deleted)"
| "visibilityResurrected (Some Hidden) next = (next = None \<or> next = Some Visible)"
| "visibilityResurrected _ next = False"

definition projectionOutputsAllowed :: "stored_task \<Rightarrow> stored_task \<Rightarrow> bool" where
  "projectionOutputsAllowed cur next \<longleftrightarrow>
     tOutputs next = tOutputs cur
     \<or> tOutputs cur = []
       \<and> (tResultState cur = NOT_AVAILABLE \<or> tResultState cur = PENDING_MATERIALIZATION)
       \<and> tResultState next = PENDING_MATERIALIZATION
       \<and> tOutputs next \<noteq> []
       \<and> list_all (\<lambda>x. truthy (providerArtifactRef x) \<and> materializedAssetId x = None
            \<and> materializationErrorCode x = None) (tOutputs next)"

text \<open>\<open>assertProjectionMutation\<close>: true when it does not throw.\<close>

fun projection_allowed :: "stored_task option \<Rightarrow> stored_task \<Rightarrow> bool" where
  "projection_allowed None next = True"
| "projection_allowed (Some cur) next =
     (clientOperationId next = clientOperationId cur
      \<and> requestHash next = requestHash cur
      \<and> journalRecordId next = journalRecordId cur
      \<and> projectedJournalVersion cur < projectedJournalVersion next
      \<and> \<not> visibilityResurrected (visibility cur) (visibility next)
      \<and> (tAccountBinding cur \<noteq> None \<longrightarrow> tAccountBinding next = tAccountBinding cur)
      \<and> tContext next = tContext cur
      \<and> projectionOutputsAllowed cur next
      \<and> (tResultState cur \<noteq> NOT_AVAILABLE
           \<and> \<not> (tResultState cur = PENDING_MATERIALIZATION
                 \<and> tResultState next = PENDING_MATERIALIZATION)
         \<longrightarrow> tResultState next = tResultState cur))"

record effect_input =
  in_effectKey :: string
  in_kind :: effect_kind
  in_taskId :: string
  in_journalVersion :: "int option"

definition normalizeEffect ::
  "effect_input \<Rightarrow> stored_task \<Rightarrow> string \<Rightarrow> store_error + outbox_effect" where
  "normalizeEffect inp t created =
     (let e = \<lparr>effectKey = in_effectKey inp, e_kind = in_kind inp, e_taskId = in_taskId inp,
               journalVersion = in_journalVersion inp, taskVersion = version t,
               e_createdAt = created\<rparr> in
      if e_taskId e \<noteq> taskId t \<or> \<not> validEffect e
         \<or> (e_kind e = TaskProjected \<and> journalVersion e \<noteq> Some (projectedJournalVersion t))
      then Inl StateInvalid else Inr e)"

text \<open>The JSON handed to \<open>mutateTask\<close>: an event, a materialization, or anything else.\<close>

datatype mutation_input =
    MutEvent task_event string
  | MutMaterialization result_state "task_output list" string
  | MutMalformed

definition parseProductMutation :: "mutation_input \<Rightarrow> store_error + mutation_input" where
  "parseProductMutation m = (case m of
       MutEvent e at \<Rightarrow>
         if \<not> date_ok at then Inl StateInvalid
         else (case e of
             ProviderObservation _ \<Rightarrow> Inl StateInvalid
           | BindContext acc _ \<Rightarrow> if acc \<noteq> None then Inl StateInvalid else Inr m
           | Transition _ _ \<Rightarrow> Inl StateInvalid
           | _ \<Rightarrow> Inr m)
     | MutMaterialization _ _ at \<Rightarrow> if date_ok at then Inr m else Inl StateInvalid
     | MutMalformed \<Rightarrow> Inl StateInvalid)"

fun RESULT_TRANSITIONS :: "result_state \<Rightarrow> result_state list" where
  "RESULT_TRANSITIONS NOT_AVAILABLE = []"
| "RESULT_TRANSITIONS PENDING_MATERIALIZATION =
     [MATERIALIZING, READY, FAILED_RETRYABLE, FAILED_PERMANENT]"
| "RESULT_TRANSITIONS MATERIALIZING = [READY, FAILED_RETRYABLE, FAILED_PERMANENT]"
| "RESULT_TRANSITIONS READY = []"
| "RESULT_TRANSITIONS FAILED_RETRYABLE = [MATERIALIZING, FAILED_PERMANENT]"
| "RESULT_TRANSITIONS FAILED_PERMANENT = []"

definition storedTaskState :: "stored_task \<Rightarrow> task_state" where
  "storedTaskState t =
     \<lparr>lifecycle = tLifecycle t, terminalOutcome = tTerminalOutcome t, syncState = tSyncState t,
      resultState = tResultState t, outputs = tOutputs t,
      accountBinding = (if truthy (tAccountBinding t) then tAccountBinding t else None),
      taskContext = tContext t, providerObservation = None,
      lastSyncErrorCode = (if truthy (tLastSyncErrorCode t) then tLastSyncErrorCode t else None)\<rparr>"

fun is_bind_context :: "task_event \<Rightarrow> bool" where
  "is_bind_context (BindContext acc c) = True"
| "is_bind_context _ = False"

text \<open>\<open>Date.parse(a) < Date.parse(b)\<close>, false when either is NaN.\<close>

definition date_less :: "string \<Rightarrow> string \<Rightarrow> bool" where
  "date_less a b = (case (date_parse a, date_parse b) of (Some x, Some y) \<Rightarrow> x < y | _ \<Rightarrow> False)"

definition applyProductMutation ::
  "stored_task \<Rightarrow> mutation_input \<Rightarrow> store_error + stored_task" where
  "applyProductMutation cur m =
     (case m of
        MutMaterialization rs outs at \<Rightarrow>
          if date_less at (updatedAt cur) then Inl StateInvalid
          else if tLifecycle cur \<noteq> TERMINAL \<or> tTerminalOutcome cur \<noteq> Some SUCCEEDED
               \<or> rs \<notin> set (RESULT_TRANSITIONS (tResultState cur))
          then Inl StateInvalid
          else Inr (cur\<lparr>tResultState := rs, tOutputs := outs, updatedAt := at\<rparr>)
      | MutEvent e at \<Rightarrow>
          if date_less at (updatedAt cur) then Inl StateInvalid
          else if is_bind_context e \<and> tContext cur = LegacyUnscoped
          then Inl StateInvalid
          else (case reduceDreaminaTask (storedTaskState cur) e of
                  Inl x \<Rightarrow> Inl (TransitionFailed x)
                | Inr s \<Rightarrow> Inr (cur\<lparr>tLifecycle := lifecycle s, tTerminalOutcome := terminalOutcome s,
                    tSyncState := syncState s, tResultState := resultState s, tOutputs := outputs s,
                    tContext := taskContext s,
                    tLastSyncErrorCode :=
                      (if truthy (lastSyncErrorCode s) then lastSyncErrorCode s else None),
                    updatedAt := at\<rparr>))
      | MutMalformed \<Rightarrow> Inl StateInvalid)"

end
