(* ===== verification/TaskStoreOps.thy ===== *)
theory TaskStoreOps
  imports TaskStore
begin

text \<open>
  The operations of \<open>DreaminaTaskStore\<close>. Each one is an action on the document read under the
  state lock: it throws, or returns its result together with the document to persist (\<open>None\<close> when it
  returns without persisting). \<open>withExclusiveDisk\<close> reads, runs the action and persists; an error
  leaves the file as it was. \<open>now\<close> is the clock in milliseconds, \<open>token\<close> the random lease token.
\<close>

section \<open>Compaction\<close>

fun remove_first :: "('a \<Rightarrow> bool) \<Rightarrow> 'a list \<Rightarrow> 'a list" where
  "remove_first P [] = []"
| "remove_first P (x # xs) = (if P x then xs else x # remove_first P xs)"

definition drop_task :: "string \<Rightarrow> disk \<Rightarrow> disk" where
  "drop_task tid d = d\<lparr>tasks := filter (\<lambda>t. taskId t \<noteq> tid) (tasks d),
     outbox := filter (\<lambda>e. e_taskId e \<noteq> tid) (outbox d),
     inbox := filter (\<lambda>i. i_taskId i \<noteq> tid) (inbox d)\<rparr>"

fun compact_tasks :: "store_config \<Rightarrow> stored_task list \<Rightarrow> disk \<Rightarrow> disk" where
  "compact_tasks cfg [] d = d"
| "compact_tasks cfg (t # ts) d =
     (if length (tasks d) \<le> maxTasks cfg then d
      else if list_ex (\<lambda>i. i_taskId i = taskId t \<and> i_state i = InPending) (inbox d)
      then compact_tasks cfg ts d
      else compact_tasks cfg ts (drop_task (taskId t) d))"

definition deleted_by_age :: "store_config \<Rightarrow> disk \<Rightarrow> stored_task list" where
  "deleted_by_age cfg d =
     sort_by (\<lambda>a b. localeLe cfg (updatedAt a) (updatedAt b))
       (filter (\<lambda>t. visibility t = Some Deleted) (tasks d))"

definition outbox_candidate :: "disk \<Rightarrow> outbox_effect option" where
  "outbox_candidate d =
     (case find (\<lambda>e. e_kind e = ProductEffect) (outbox d) of
        Some e \<Rightarrow> Some e
      | None \<Rightarrow> find (\<lambda>e. let ds = filter (\<lambda>i. i_effectKey i = effectKey e) (inbox d)
                          in ds \<noteq> [] \<and> list_all (\<lambda>i. i_state i = InCompleted) ds) (outbox d))"

definition drop_effect :: "outbox_effect \<Rightarrow> disk \<Rightarrow> disk" where
  "drop_effect e d =
     (let d' = d\<lparr>outbox := filter (\<lambda>x. effectKey x \<noteq> effectKey e) (outbox d)\<rparr> in
      if e_kind e \<noteq> ProductEffect
      then d'\<lparr>inbox := filter (\<lambda>i. i_effectKey i \<noteq> effectKey e) (inbox d)\<rparr> else d')"

lemma outbox_candidate_mem: "outbox_candidate d = Some e \<Longrightarrow> e \<in> set (outbox d)"
  by (auto simp: outbox_candidate_def Let_def split: option.splits dest: find_Some_set)

lemma drop_effect_shrinks:
  assumes "e \<in> set (outbox d)"
  shows "length (outbox (drop_effect e d)) < length (outbox d)"
proof -
  have "length (filter (\<lambda>x. effectKey x \<noteq> effectKey e) (outbox d)) < length (outbox d)"
    using assms by (intro length_filter_less) auto
  then show ?thesis by (simp add: drop_effect_def Let_def)
qed

function compact_outbox :: "store_config \<Rightarrow> disk \<Rightarrow> disk" where
  "compact_outbox cfg d =
     (if length (outbox d) \<le> maxEffects cfg then d
      else case outbox_candidate d of
             None \<Rightarrow> d
           | Some e \<Rightarrow> compact_outbox cfg (drop_effect e d))"
  by pat_completeness auto
termination
  by (relation "measure (\<lambda>(cfg, d). length (outbox d))")
    (auto dest: outbox_candidate_mem drop_effect_shrinks)

definition compactable_delivery :: "disk \<Rightarrow> inbox_record \<Rightarrow> bool" where
  "compactable_delivery d i \<longleftrightarrow> i_state i = InCompleted \<and>
     (let effect = find_effect (i_effectKey i) (outbox d);
          task = find_task (i_taskId i) (tasks d);
          productEffect = (case effect of Some e \<Rightarrow> e_kind e = ProductEffect
                             | None \<Rightarrow> isProductEffectKey (i_effectKey i))
      in \<not> productEffect \<or> (case task of Some t \<Rightarrow> visibility t = Some Deleted | None \<Rightarrow> False))"

text \<open>The delivery to drop: the first released one, else the first compactable one, given as the
  predicate it is found by.\<close>

definition inbox_candidate :: "disk \<Rightarrow> ((inbox_record \<Rightarrow> bool) \<times> inbox_record) option" where
  "inbox_candidate d =
     (case find (\<lambda>i. i_state i = InReleased) (inbox d) of
        Some i \<Rightarrow> Some (\<lambda>i. i_state i = InReleased, i)
      | None \<Rightarrow> (case find (compactable_delivery d) (inbox d) of
           Some i \<Rightarrow> Some (compactable_delivery d, i) | None \<Rightarrow> None))"

definition drop_delivery :: "(inbox_record \<Rightarrow> bool) \<times> inbox_record \<Rightarrow> disk \<Rightarrow> disk" where
  "drop_delivery c d = d\<lparr>inbox := remove_first (fst c) (inbox d),
     outbox := filter (\<lambda>e. effectKey e \<noteq> i_effectKey (snd c)) (outbox d)\<rparr>"

lemma length_remove_first:
  "find P xs = Some x \<Longrightarrow> length (remove_first P xs) < length xs"
  by (induction xs) (auto split: if_splits)

lemma drop_delivery_shrinks:
  "inbox_candidate d = Some c \<Longrightarrow> length (inbox (drop_delivery c d)) < length (inbox d)"
  by (auto simp: inbox_candidate_def drop_delivery_def split: option.splits
      dest: length_remove_first)

function compact_inbox :: "store_config \<Rightarrow> disk \<Rightarrow> disk" where
  "compact_inbox cfg d =
     (if length (inbox d) \<le> maxEffects cfg then d
      else case inbox_candidate d of
             None \<Rightarrow> d
           | Some c \<Rightarrow> compact_inbox cfg (drop_delivery c d))"
  by pat_completeness auto
termination
  by (relation "measure (\<lambda>(cfg, d). length (inbox d))") (auto dest: drop_delivery_shrinks)

declare compact_outbox.simps [simp del] compact_inbox.simps [simp del]

definition over_capacity :: "store_config \<Rightarrow> disk \<Rightarrow> bool" where
  "over_capacity cfg d \<longleftrightarrow> maxTasks cfg < length (tasks d)
     \<or> maxEffects cfg < length (outbox d) \<or> maxEffects cfg < length (inbox d)"

definition compactStoreDisk :: "store_config \<Rightarrow> disk \<Rightarrow> store_error + disk" where
  "compactStoreDisk cfg d =
     (let d1 = (if maxTasks cfg < length (tasks d)
                then compact_tasks cfg (deleted_by_age cfg d) d else d);
          d2 = compact_outbox cfg (compact_inbox cfg (compact_outbox cfg d1))
      in if over_capacity cfg d2 then Inl StateInvalid else Inr d2)"

section \<open>Persisting under the lock\<close>

definition persist :: "store_config \<Rightarrow> disk \<Rightarrow> store_error + disk" where
  "persist cfg d =
     bindE (compactStoreDisk cfg d) (\<lambda>c.
       Inr (c\<lparr>revision := revision c + 1,
              tasks := sort_by (\<lambda>a b. localeLe cfg (taskId a) (taskId b)) (tasks c),
              inbox := sort_by (\<lambda>a b. localeLe cfg (inbox_key a) (inbox_key b)) (inbox c)\<rparr>))"

type_synonym 'r action = "disk \<Rightarrow> store_error + ('r \<times> disk option)"

definition withExclusiveDisk ::
  "store_config \<Rightarrow> 'r action \<Rightarrow> disk option \<Rightarrow> store_error + ('r \<times> disk option)" where
  "withExclusiveDisk cfg act f =
     bindE (readStoreDisk cfg f) (\<lambda>r.
     bindE (act (case r of None \<Rightarrow> emptyDisk | Some d \<Rightarrow> d)) (\<lambda>(res, out).
       case out of None \<Rightarrow> Inr (res, f)
                 | Some d \<Rightarrow> bindE (persist cfg d) (\<lambda>d'. Inr (res, Some d'))))"

section \<open>Reading\<close>

definition getTask :: "store_config \<Rightarrow> string \<Rightarrow> disk option \<Rightarrow> store_error + stored_task option" where
  "getTask cfg tid f =
     (if \<not> safeTaskId tid then Inl StateInvalid
      else bindE (readStoreDisk cfg f) (\<lambda>r.
        Inr (case r of None \<Rightarrow> None | Some d \<Rightarrow> find_task tid (tasks d))))"

definition listTasks :: "store_config \<Rightarrow> disk option \<Rightarrow> store_error + stored_task list" where
  "listTasks cfg f =
     bindE (readStoreDisk cfg f) (\<lambda>r.
       Inr (sort_by (\<lambda>a b. localeLe cfg (taskId a) (taskId b))
         (filter (\<lambda>t. visibility t = None \<or> visibility t = Some Visible)
           (case r of None \<Rightarrow> [] | Some d \<Rightarrow> tasks d))))"

section \<open>Projecting and mutating tasks\<close>

definition put_task :: "stored_task \<Rightarrow> disk \<Rightarrow> stored_task list" where
  "put_task t d = (if find_task (taskId t) (tasks d) = None then tasks d @ [t]
     else update_first (\<lambda>x. taskId x = taskId t) (\<lambda>_. t) (tasks d))"

definition compareAndSwapTask ::
  "int \<Rightarrow> string \<Rightarrow> int \<Rightarrow> stored_task \<Rightarrow> effect_input \<Rightarrow> stored_task action" where
  "compareAndSwapTask now tid expected inp eff d =
     (if \<not> safeTaskId tid then Inl StateInvalid
      else if \<not> safe_integer expected \<or> expected < 0 \<or> in_kind eff \<noteq> TaskProjected
      then Inl StateInvalid
      else
        let cur = find_task tid (tasks d);
            curVersion = (case cur of None \<Rightarrow> 0 | Some t \<Rightarrow> version t)
        in if curVersion \<noteq> expected then Inl VersionConflict
           else bindE (normalizeTask tid inp (curVersion + 1)) (\<lambda>t.
             if \<not> projection_allowed cur t then Inl StateInvalid
             else bindE (normalizeEffect eff t (to_iso_string now)) (\<lambda>e.
               if find_effect (effectKey e) (outbox d) \<noteq> None then Inl StateInvalid
               else Inr (t, Some (d\<lparr>tasks := put_task t d, outbox := outbox d @ [e]\<rparr>)))))"

definition mutateTask ::
  "int \<Rightarrow> string \<Rightarrow> int \<Rightarrow> mutation_input \<Rightarrow> string \<Rightarrow> stored_task action" where
  "mutateTask now tid expected m key d =
     (if \<not> safeTaskId tid \<or> \<not> validEffectKeyValue key then Inl StateInvalid
      else if \<not> safe_integer expected \<or> expected < 0 then Inl StateInvalid
      else case find_task tid (tasks d) of
        None \<Rightarrow> Inl VersionConflict
      | Some cur \<Rightarrow>
          if version cur \<noteq> expected then Inl VersionConflict
          else bindE (parseProductMutation m) (\<lambda>m'.
               bindE (applyProductMutation cur m') (\<lambda>next.
               bindE (normalizeTask tid next (version cur + 1)) (\<lambda>t.
               bindE (normalizeEffect \<lparr>in_effectKey = key, in_kind = TaskMutated, in_taskId = tid,
                        in_journalVersion = None\<rparr> t (to_iso_string now)) (\<lambda>e.
                 if find_effect (effectKey e) (outbox d) \<noteq> None then Inl StateInvalid
                 else Inr (t, Some (d\<lparr>tasks := put_task t d, outbox := outbox d @ [e]\<rparr>)))))))"

section \<open>Claiming and finishing effects\<close>

definition delivery_of :: "string \<Rightarrow> string \<Rightarrow> inbox_record \<Rightarrow> bool" where
  "delivery_of c k i \<longleftrightarrow> consumerId i = c \<and> i_effectKey i = k"

definition lease_ms_ok :: "int \<Rightarrow> bool" where
  "lease_ms_ok ms \<longleftrightarrow> safe_integer ms \<and> 100 \<le> ms \<and> ms \<le> 3600000"

text \<open>\<open>Date.parse(item.leaseExpiresAt!) > now\<close> and \<open><= now\<close>; comparisons with NaN are false.\<close>

definition lease_live :: "int \<Rightarrow> inbox_record \<Rightarrow> bool" where
  "lease_live now i = (case leaseExpiresAt i of None \<Rightarrow> False
     | Some s \<Rightarrow> (case date_parse s of None \<Rightarrow> False | Some x \<Rightarrow> now < x))"

definition lease_expired :: "int \<Rightarrow> inbox_record \<Rightarrow> bool" where
  "lease_expired now i = (case leaseExpiresAt i of None \<Rightarrow> False
     | Some s \<Rightarrow> (case date_parse s of None \<Rightarrow> False | Some x \<Rightarrow> x \<le> now))"

definition next_fence :: "inbox_record option \<Rightarrow> int" where
  "next_fence item = (case item of None \<Rightarrow> 1 | Some i \<Rightarrow> fence i + 1)"

text \<open>The item becomes pending under a new token and fence, or a new record is pushed.
  \<open>claimOutboxEffect\<close> leaves \<open>result\<close> alone, \<open>claimProductEffect\<close> deletes it (\<open>clear\<close>).\<close>

definition lease_item ::
  "bool \<Rightarrow> string \<Rightarrow> string \<Rightarrow> string \<Rightarrow> string \<Rightarrow> string \<Rightarrow> inbox_record list \<Rightarrow> inbox_record list" where
  "lease_item clear c tid k token expires is =
     (let item = find (delivery_of c k) is in
      if item = None
      then is @ [\<lparr>consumerId = c, i_taskId = tid, i_effectKey = k, i_state = InPending, fence = 1,
                  leaseToken = Some token, leaseExpiresAt = Some expires, completedAt = None,
                  releasedAt = None, i_result = None\<rparr>]
      else update_first (delivery_of c k)
             (\<lambda>i. i\<lparr>i_state := InPending, fence := fence i + 1, leaseToken := Some token,
                    leaseExpiresAt := Some expires, completedAt := None, releasedAt := None,
                    i_result := (if clear then None else i_result i)\<rparr>) is)"

definition claimOutboxEffect ::
  "int \<Rightarrow> string \<Rightarrow> string \<Rightarrow> string \<Rightarrow> int \<Rightarrow> (string \<times> string) option action" where
  "claimOutboxEffect now token c k leaseMs d =
     (if \<not> safeOpaqueId 1 120 c \<or> \<not> validEffectKeyValue k \<or> \<not> lease_ms_ok leaseMs
      then Inl StateInvalid
      else case find_effect k (outbox d) of
        None \<Rightarrow> Inr (None, None)
      | Some e \<Rightarrow>
          let item = find (delivery_of c k) (inbox d);
              expires = to_iso_string (now + leaseMs) in
          if item \<noteq> None \<and> i_taskId (the item) \<noteq> e_taskId e then Inl StateInvalid
          else if item \<noteq> None \<and> i_state (the item) = InCompleted then Inr (None, None)
          else if item \<noteq> None \<and> i_state (the item) = InPending \<and> lease_live now (the item)
          then Inr (None, None)
          else Inr (Some (token, expires),
            Some (d\<lparr>inbox := lease_item False c (e_taskId e) k token expires (inbox d)\<rparr>)))"

datatype claim_result =
  Claimed string string int | Busy string | ClaimCompleted effect_result

definition claimProductEffect ::
  "int \<Rightarrow> string \<Rightarrow> string \<Rightarrow> string \<Rightarrow> string \<Rightarrow> int \<Rightarrow> claim_result action" where
  "claimProductEffect now token c tid k leaseMs d =
     (if \<not> safeOpaqueId 1 120 c \<or> \<not> safeTaskId tid \<or> \<not> validEffectKeyValue k \<or> \<not> lease_ms_ok leaseMs
      then Inl StateInvalid
      else case find_task tid (tasks d) of
        None \<Rightarrow> Inl StateInvalid
      | Some t \<Rightarrow>
          let item = find (delivery_of c k) (inbox d);
              effect = find_effect k (outbox d);
              expires = to_iso_string (now + leaseMs) in
          if visibility t = Some Deleted then Inl StateInvalid
          else if item \<noteq> None \<and> i_taskId (the item) \<noteq> tid then Inl StateInvalid
          else if item \<noteq> None \<and> i_state (the item) = InCompleted
          then Inr (ClaimCompleted (case i_result (the item) of None \<Rightarrow> None | Some r \<Rightarrow> r), None)
          else if item \<noteq> None \<and> i_state (the item) = InPending \<and> lease_live now (the item)
          then Inr (Busy (the (leaseExpiresAt (the item))), None)
          else if effect \<noteq> None
               \<and> (e_kind (the effect) \<noteq> ProductEffect \<or> e_taskId (the effect) \<noteq> tid)
          then Inl StateInvalid
          else Inr (Claimed token expires (next_fence item),
            Some (d\<lparr>outbox := (if effect = None
                               then outbox d @ [\<lparr>effectKey = k, e_kind = ProductEffect, e_taskId = tid,
                                   journalVersion = None, taskVersion = version t,
                                   e_createdAt = to_iso_string now\<rparr>]
                               else outbox d),
                    inbox := lease_item True c tid k token expires (inbox d)\<rparr>)))"

definition lease_of :: "string \<Rightarrow> string \<Rightarrow> string \<Rightarrow> inbox_record \<Rightarrow> bool" where
  "lease_of c tid k i \<longleftrightarrow> consumerId i = c \<and> i_taskId i = tid \<and> i_effectKey i = k"

definition renewProductEffect ::
  "int \<Rightarrow> string \<Rightarrow> string \<Rightarrow> string \<Rightarrow> string \<Rightarrow> int \<Rightarrow> int \<Rightarrow> (string \<times> int) option action" where
  "renewProductEffect now c tid k token fnc leaseMs d =
     (if \<not> safeOpaqueId 1 120 c \<or> \<not> safeTaskId tid \<or> \<not> validEffectKeyValue k
         \<or> \<not> uuid_ok token \<or> \<not> positive_version fnc \<or> \<not> lease_ms_ok leaseMs
      then Inl StateInvalid
      else case find (lease_of c tid k) (inbox d) of
        None \<Rightarrow> Inr (None, None)
      | Some i \<Rightarrow>
          let expires = to_iso_string (now + leaseMs) in
          if i_state i \<noteq> InPending \<or> leaseToken i \<noteq> Some token \<or> fence i \<noteq> fnc
             \<or> lease_expired now i
          then Inr (None, None)
          else Inr (Some (expires, fence i),
            Some (d\<lparr>inbox := update_first (lease_of c tid k)
                      (\<lambda>x. x\<lparr>leaseExpiresAt := Some expires\<rparr>) (inbox d)\<rparr>)))"

definition finish_item :: "bool \<Rightarrow> string \<Rightarrow> effect_result \<Rightarrow> inbox_record \<Rightarrow> inbox_record" where
  "finish_item release at res i =
     (if release
      then i\<lparr>i_state := InReleased, releasedAt := Some at, leaseToken := None,
             leaseExpiresAt := None, completedAt := None, i_result := None\<rparr>
      else i\<lparr>i_state := InCompleted, completedAt := Some at, i_result := Some res,
             leaseToken := None, leaseExpiresAt := None, releasedAt := None\<rparr>)"

definition finishProductEffect ::
  "int \<Rightarrow> string \<Rightarrow> string \<Rightarrow> string \<Rightarrow> string \<Rightarrow> int \<Rightarrow> effect_result \<Rightarrow> bool \<Rightarrow> bool action" where
  "finishProductEffect now c tid k token fnc res release d =
     (if \<not> safeOpaqueId 1 120 c \<or> \<not> safeTaskId tid \<or> \<not> validEffectKeyValue k
         \<or> \<not> uuid_ok token \<or> \<not> positive_version fnc
      then Inl StateInvalid
      else case find (lease_of c tid k) (inbox d) of
        None \<Rightarrow> Inr (False, None)
      | Some i \<Rightarrow>
          if i_state i \<noteq> InPending \<or> leaseToken i \<noteq> Some token \<or> fence i \<noteq> fnc then Inr (False, None)
          else if lease_expired now i then Inr (False, None)
          else Inr (True, Some (d\<lparr>inbox := update_first (lease_of c tid k)
                                    (finish_item release (to_iso_string now) res) (inbox d)\<rparr>)))"

definition completeProductEffect ::
  "int \<Rightarrow> string \<Rightarrow> string \<Rightarrow> string \<Rightarrow> string \<Rightarrow> int \<Rightarrow> effect_result \<Rightarrow> bool action" where
  "completeProductEffect now c tid k token fnc res d =
     (if \<not> validEffectResult res then Inl StateInvalid
      else finishProductEffect now c tid k token fnc res False d)"

definition releaseProductEffect ::
  "int \<Rightarrow> string \<Rightarrow> string \<Rightarrow> string \<Rightarrow> string \<Rightarrow> int \<Rightarrow> bool action" where
  "releaseProductEffect now c tid k token fnc d =
     finishProductEffect now c tid k token fnc None True d"

definition completeOutboxEffect ::
  "int \<Rightarrow> string \<Rightarrow> string \<Rightarrow> string \<Rightarrow> bool action" where
  "completeOutboxEffect now c k token d =
     (if \<not> safeOpaqueId 1 120 c \<or> \<not> validEffectKeyValue k \<or> \<not> uuid_ok token then Inl StateInvalid
      else case find (delivery_of c k) (inbox d) of
        None \<Rightarrow> Inr (False, None)
      | Some i \<Rightarrow>
          if i_state i \<noteq> InPending \<or> leaseToken i \<noteq> Some token then Inr (False, None)
          else if lease_expired now i then Inr (False, None)
          else Inr (True, Some (d\<lparr>inbox := update_first (delivery_of c k)
                 (\<lambda>x. x\<lparr>i_state := InCompleted, completedAt := Some (to_iso_string now),
                        leaseToken := None, leaseExpiresAt := None\<rparr>) (inbox d)\<rparr>)))"

section \<open>The store as a machine\<close>

text \<open>One call of an operation, with the clock and the token it draws; the result is dropped.\<close>

datatype store_op =
    OpProject int string int stored_task effect_input
  | OpMutate int string int mutation_input string
  | OpClaimOutbox int string string string int
  | OpClaimProduct int string string string string int
  | OpRenew int string string string string int int
  | OpComplete int string string string string int effect_result
  | OpRelease int string string string string int
  | OpCompleteOutbox int string string string

fun op_action :: "store_op \<Rightarrow> disk \<Rightarrow> store_error + disk option" where
  "op_action (OpProject now tid v t e) d = bindE (compareAndSwapTask now tid v t e d) (\<lambda>r. Inr (snd r))"
| "op_action (OpMutate now tid v m k) d = bindE (mutateTask now tid v m k d) (\<lambda>r. Inr (snd r))"
| "op_action (OpClaimOutbox now tok c k ms) d =
     bindE (claimOutboxEffect now tok c k ms d) (\<lambda>r. Inr (snd r))"
| "op_action (OpClaimProduct now tok c tid k ms) d =
     bindE (claimProductEffect now tok c tid k ms d) (\<lambda>r. Inr (snd r))"
| "op_action (OpRenew now c tid k tok f ms) d =
     bindE (renewProductEffect now c tid k tok f ms d) (\<lambda>r. Inr (snd r))"
| "op_action (OpComplete now c tid k tok f res) d =
     bindE (completeProductEffect now c tid k tok f res d) (\<lambda>r. Inr (snd r))"
| "op_action (OpRelease now c tid k tok f) d =
     bindE (releaseProductEffect now c tid k tok f d) (\<lambda>r. Inr (snd r))"
| "op_action (OpCompleteOutbox now c k tok) d =
     bindE (completeOutboxEffect now c k tok d) (\<lambda>r. Inr (snd r))"

definition store_step :: "store_config \<Rightarrow> disk option \<Rightarrow> store_op \<Rightarrow> store_error + disk option" where
  "store_step cfg f op =
     bindE (withExclusiveDisk cfg (\<lambda>d. bindE (op_action op d) (\<lambda>out. Inr ((), out))) f)
       (\<lambda>(u, f'). Inr f')"

end
