(* ===== verification/TaskStoreRecovery.thy ===== *)
theory TaskStoreRecovery
  imports TaskStoreOps
begin

text \<open>
  Replacing the store file and recovering from an interrupted replacement: what counts as legal
  progress from the backup to the primary document, the states of the two files that a replacement
  passes through (where a crash can leave them), and the recovery the next lock owner runs.
\<close>

section \<open>Legal progress between two documents\<close>

text \<open>\<open>Date.parse(a!) >= Date.parse(b!)\<close>, false when either is missing or NaN.\<close>

definition date_ge :: "string option \<Rightarrow> string option \<Rightarrow> bool" where
  "date_ge a b = (case (Option.bind a date_parse, Option.bind b date_parse) of
     (Some x, Some y) \<Rightarrow> y \<le> x | _ \<Rightarrow> False)"

definition inboxProgresses :: "inbox_record \<Rightarrow> inbox_record \<Rightarrow> bool" where
  "inboxProgresses p c =
     (if consumerId p \<noteq> consumerId c \<or> i_taskId p \<noteq> i_taskId c \<or> i_effectKey p \<noteq> i_effectKey c
      then False
      else if i_state p = InCompleted then p = c
      else if i_state c = InCompleted then fence p \<le> fence c
      else if i_state p = InReleased
      then (if i_state c = InReleased then p = c else i_state c = InPending \<and> fence p < fence c)
      else if i_state c = InReleased then fence c = fence p
      else if fence c < fence p then False
      else if fence p < fence c then True
      else leaseToken c = leaseToken p \<and> date_ge (leaseExpiresAt c) (leaseExpiresAt p))"

text \<open>\<open>new Map(xs.map((x) => [key(x), x])).get(k)\<close>: a later entry overrides an earlier one.\<close>

definition map_get :: "('a \<Rightarrow> string) \<Rightarrow> 'a list \<Rightarrow> string \<Rightarrow> 'a option" where
  "map_get key xs k = find (\<lambda>x. key x = k) (rev xs)"

lemma map_get_iff:
  assumes "distinct (map key xs)"
  shows "map_get key xs k = Some x \<longleftrightarrow> x \<in> set xs \<and> key x = k"
proof -
  have "distinct (map key (rev xs))" using assms by (simp add: rev_map[symmetric])
  then show ?thesis by (simp add: map_get_def find_key_iff)
qed

lemma map_get_None: "map_get key xs k = None \<longleftrightarrow> (\<forall>x \<in> set xs. key x \<noteq> k)"
  by (simp add: map_get_def find_None_all)

definition task_successor :: "stored_task \<Rightarrow> stored_task \<Rightarrow> bool" where
  "task_successor prior next \<longleftrightarrow>
     clientOperationId next = clientOperationId prior
     \<and> requestHash next = requestHash prior
     \<and> journalRecordId next = journalRecordId prior
     \<and> \<not> visibilityResurrected (visibility prior) (visibility next)
     \<and> version prior \<le> version next
     \<and> projectedJournalVersion prior \<le> projectedJournalVersion next
     \<and> (tAccountBinding prior \<noteq> None \<longrightarrow> tAccountBinding next = tAccountBinding prior)
     \<and> (version next = version prior \<longrightarrow> next = prior)"

definition task_progresses :: "disk \<Rightarrow> stored_task \<Rightarrow> bool" where
  "task_progresses cur prior =
     (case map_get taskId (tasks cur) (taskId prior) of
        None \<Rightarrow> visibility prior = Some Deleted
      | Some next \<Rightarrow> task_successor prior next)"

definition task_was_deleted :: "disk \<Rightarrow> string \<Rightarrow> bool" where
  "task_was_deleted prev tid =
     (case map_get taskId (tasks prev) tid of None \<Rightarrow> False
      | Some t \<Rightarrow> visibility t = Some Deleted)"

definition effect_progresses :: "disk \<Rightarrow> disk \<Rightarrow> outbox_effect \<Rightarrow> bool" where
  "effect_progresses prev cur prior =
     (case map_get effectKey (outbox cur) (effectKey prior) of
        Some next \<Rightarrow> next = prior
      | None \<Rightarrow>
          let ds = filter (\<lambda>i. i_effectKey i = effectKey prior) (inbox prev) in
          e_kind prior = ProductEffect \<or> task_was_deleted prev (e_taskId prior)
          \<or> (ds \<noteq> [] \<and> list_all (\<lambda>i. i_state i = InCompleted) ds))"

definition delivery_progresses :: "disk \<Rightarrow> disk \<Rightarrow> inbox_record \<Rightarrow> bool" where
  "delivery_progresses prev cur prior =
     (case map_get inbox_key (inbox cur) (inbox_key prior) of
        Some next \<Rightarrow> inboxProgresses prior next
      | None \<Rightarrow>
          i_state prior = InReleased \<or> task_was_deleted prev (i_taskId prior)
          \<or> (i_state prior = InCompleted
             \<and> map_option e_kind (map_get effectKey (outbox prev) (i_effectKey prior))
                 \<noteq> Some ProductEffect))"

text \<open>\<open>assertStoreProgression\<close>: true when it does not throw.\<close>

definition store_progression :: "disk \<Rightarrow> disk \<Rightarrow> bool" where
  "store_progression prev cur \<longleftrightarrow>
     revision prev \<le> revision cur
     \<and> (if revision cur = revision prev then cur = prev
        else list_all (task_progresses cur) (tasks prev)
           \<and> list_all (effect_progresses prev cur) (outbox prev)
           \<and> list_all (delivery_progresses prev cur) (inbox prev))"

section \<open>The two files\<close>

record store_files =
  primary :: "disk option"
  backup :: "disk option"

definition recoverStoreReplacement ::
  "store_config \<Rightarrow> store_files \<Rightarrow> store_error + store_files" where
  "recoverStoreReplacement cfg fs =
     bindE (readStoreDisk cfg (backup fs)) (\<lambda>previous.
       case previous of None \<Rightarrow> Inr fs
       | Some p \<Rightarrow> bindE (readStoreDisk cfg (primary fs)) (\<lambda>current.
           case current of
             None \<Rightarrow> Inr \<lparr>primary = backup fs, backup = None\<rparr>
           | Some c \<Rightarrow> if store_progression p c then Inr (fs\<lparr>backup := None\<rparr>)
                      else Inl StateInvalid))"

text \<open>How the renames of a replacement turn out: the direct rename works; it is denied and the
  detour over the backup works; or the second rename of the detour fails too and the backup is put
  back.\<close>

datatype rename_outcome = RenameDirect | RenameDenied | RenameDeniedTwice

definition replaceStoreFile_states :: "rename_outcome \<Rightarrow> disk \<Rightarrow> store_files \<Rightarrow> store_files list" where
  "replaceStoreFile_states how new fs =
     (case how of
        RenameDirect \<Rightarrow> [fs, fs\<lparr>primary := Some new\<rparr>]
      | _ \<Rightarrow>
          if backup fs \<noteq> None \<or> primary fs = None then [fs]
          else
            let moved = \<lparr>primary = None, backup = primary fs\<rparr> in
            if how = RenameDeniedTwice then [fs, moved, \<lparr>primary = primary fs, backup = None\<rparr>]
            else [fs, moved, moved\<lparr>primary := Some new\<rparr>, \<lparr>primary = Some new, backup = None\<rparr>])"

section \<open>Recovery after a crash\<close>

lemma read_valid [simp]: "valid_disk cfg d \<Longrightarrow> readStoreDisk cfg (Some d) = Inr (Some d)"
  by (simp add: readStoreDisk_def)

lemma read_missing [simp]: "readStoreDisk cfg None = Inr None"
  by (simp add: readStoreDisk_def)

lemma recover_replacement:
  assumes "valid_disk cfg old" "valid_disk cfg new" "store_progression old new"
    and "st \<in> set (replaceStoreFile_states how new \<lparr>primary = Some old, backup = None\<rparr>)"
  shows "\<exists>d \<in> {old, new}.
    recoverStoreReplacement cfg st = Inr \<lparr>primary = Some d, backup = None\<rparr>"
  using assms
  by (cases how) (auto simp: replaceStoreFile_states_def recoverStoreReplacement_def Let_def)

end
