(* ===== verification/TaskStoreProofs.thy ===== *)
theory TaskStoreProofs
  imports TaskStoreRecovery
begin

text \<open>
  What the store's operations keep: within capacity every operation turns a valid document into a
  valid document that progresses legally from it, so that a reader accepts it and a crash while it
  is written is recovered. The lemmas follow the three shapes of change: a task is put with a new
  effect, a delivery is leased, a pending delivery is updated.
\<close>

section \<open>Keys of deliveries\<close>

lemma id_char_not_nul: "\<not> id_char CHR 0x00"
  by (simp add: id_char_def char_between_def)

lemma nul_separated:
  "list_all id_char c \<Longrightarrow> list_all id_char c' \<Longrightarrow> c @ CHR 0x00 # k = c' @ CHR 0x00 # k' \<Longrightarrow>
   c = c' \<and> k = k'"
proof (induction c arbitrary: c')
  case Nil
  then show ?case by (cases c') (auto simp: id_char_not_nul)
next
  case (Cons x c)
  then show ?case by (cases c') (auto simp: id_char_not_nul)
qed

lemma safe_opaque_id_chars: "safeOpaqueId lo hi s \<Longrightarrow> list_all id_char s"
  by (simp add: safeOpaqueId_def chars_ok_def)

lemma inbox_key_eq:
  assumes "validInbox i" "validInbox j"
  shows "inbox_key i = inbox_key j \<longleftrightarrow> consumerId i = consumerId j \<and> i_effectKey i = i_effectKey j"
  using assms nul_separated[of "consumerId i" "consumerId j" "i_effectKey i" "i_effectKey j"]
  by (auto simp: inbox_key_def validInbox_def dest: safe_opaque_id_chars)

section \<open>Reading a valid document\<close>

lemma valid_diskD:
  assumes "valid_disk cfg d"
  shows "\<And>t. t \<in> set (tasks d) \<Longrightarrow> validStoredTask t"
    and "distinct (map taskId (tasks d))"
    and "\<And>e. e \<in> set (outbox d) \<Longrightarrow> validEffect e"
    and "\<And>e. e \<in> set (outbox d) \<Longrightarrow> e_taskId e \<in> taskId ` set (tasks d)"
    and "distinct (map effectKey (outbox d))"
    and "\<And>i. i \<in> set (inbox d) \<Longrightarrow> validInbox i"
    and "\<And>i. i \<in> set (inbox d) \<Longrightarrow> inbox_linked d i"
    and "distinct (map inbox_key (inbox d))"
    and "0 \<le> revision d" "safe_integer (revision d)"
  using assms by (auto simp: valid_disk_def list_all_iff)

lemma find_task_mem: "find_task k ts = Some t \<Longrightarrow> t \<in> set ts \<and> taskId t = k"
  by (auto simp: find_task_def dest: find_Some_set)

lemma find_task_None: "find_task k ts = None \<longleftrightarrow> (\<forall>t \<in> set ts. taskId t \<noteq> k)"
  by (simp add: find_task_def find_None_all)

lemma find_effect_mem: "find_effect k es = Some e \<Longrightarrow> e \<in> set es \<and> effectKey e = k"
  by (auto simp: find_effect_def dest: find_Some_set)

lemma find_effect_None: "find_effect k es = None \<longleftrightarrow> (\<forall>e \<in> set es. effectKey e \<noteq> k)"
  by (simp add: find_effect_def find_None_all)

lemma find_effect_append:
  "find_effect k (es @ [e]) =
     (case find_effect k es of None \<Rightarrow> (if effectKey e = k then Some e else None) | Some x \<Rightarrow> Some x)"
  by (simp add: find_effect_def find_simps split: option.split)

lemma find_delivery_mem: "find (delivery_of c k) is = Some i \<Longrightarrow>
    i \<in> set is \<and> consumerId i = c \<and> i_effectKey i = k"
  by (auto simp: delivery_of_def dest: find_Some_set)

lemma find_lease_mem: "find (lease_of c tid k) is = Some i \<Longrightarrow>
    i \<in> set is \<and> consumerId i = c \<and> i_taskId i = tid \<and> i_effectKey i = k"
  by (auto simp: lease_of_def dest: find_Some_set)

text \<open>In a valid document a consumer has one delivery per effect key.\<close>

lemma delivery_unique:
  assumes "valid_disk cfg d" "i \<in> set (inbox d)" "j \<in> set (inbox d)"
    and "consumerId i = consumerId j" "i_effectKey i = i_effectKey j"
  shows "i = j"
proof -
  have "inbox_key i = inbox_key j" using assms(4,5) by (simp add: inbox_key_def)
  with valid_diskD(8)[OF assms(1)] assms(2,3) show ?thesis
    by (auto simp: distinct_map inj_on_def)
qed

section \<open>Committing\<close>

definition committed :: "store_config \<Rightarrow> disk \<Rightarrow> disk" where
  "committed cfg d = d\<lparr>revision := revision d + 1,
     tasks := sort_by (\<lambda>a b. localeLe cfg (taskId a) (taskId b)) (tasks d),
     inbox := sort_by (\<lambda>a b. localeLe cfg (inbox_key a) (inbox_key b)) (inbox d)\<rparr>"

lemma committed_simps [simp]:
  "revision (committed cfg d) = revision d + 1"
  "set (tasks (committed cfg d)) = set (tasks d)"
  "outbox (committed cfg d) = outbox d"
  "set (inbox (committed cfg d)) = set (inbox d)"
  "length (tasks (committed cfg d)) = length (tasks d)"
  "length (inbox (committed cfg d)) = length (inbox d)"
  "distinct (map taskId (tasks (committed cfg d))) = distinct (map taskId (tasks d))"
  "distinct (map inbox_key (inbox (committed cfg d))) = distinct (map inbox_key (inbox d))"
  by (simp_all add: committed_def)

lemma persist_within:
  assumes "\<not> over_capacity cfg d"
  shows "persist cfg d = Inr (committed cfg d)"
proof -
  have "compact_outbox cfg d = d" "compact_inbox cfg d = d"
    using assms by (auto simp: over_capacity_def compact_outbox.simps compact_inbox.simps)
  with assms have "compactStoreDisk cfg d = Inr d"
    by (auto simp: compactStoreDisk_def over_capacity_def)
  then show ?thesis by (simp add: persist_def committed_def)
qed

lemma committed_valid:
  assumes "valid_disk cfg d" "safe_integer (revision d + 1)"
  shows "valid_disk cfg (committed cfg d)"
  using assms by (auto simp: valid_disk_def list_all_iff inbox_linked_def)

section \<open>Changing the parts of a valid document\<close>

lemma inbox_linked_inbox [simp]: "inbox_linked (d\<lparr>inbox := x\<rparr>) i = inbox_linked d i"
  by (simp add: inbox_linked_def)

lemma valid_set_inbox:
  assumes "valid_disk cfg d" "length is \<le> maxEffects cfg"
    and "\<And>i. i \<in> set is \<Longrightarrow> validInbox i \<and> inbox_linked d i" "distinct (map inbox_key is)"
  shows "valid_disk cfg (d\<lparr>inbox := is\<rparr>)"
  using assms by (auto simp: valid_disk_def list_all_iff)

definition same_delivery :: "inbox_record \<Rightarrow> inbox_record \<Rightarrow> bool" where
  "same_delivery i j \<longleftrightarrow> consumerId i = consumerId j \<and> i_taskId i = i_taskId j
     \<and> i_effectKey i = i_effectKey j"

lemma same_delivery_linked: "same_delivery i j \<Longrightarrow> inbox_linked d i = inbox_linked d j"
  by (auto simp: same_delivery_def inbox_linked_def split: option.splits)

lemma same_delivery_key: "same_delivery i j \<Longrightarrow> inbox_key i = inbox_key j"
  by (simp add: same_delivery_def inbox_key_def)

lemma valid_update_item:
  assumes d: "valid_disk cfg d" and i: "find P (inbox d) = Some i"
    and f: "validInbox (f i)" "\<And>x. same_delivery (f x) x"
  shows "valid_disk cfg (d\<lparr>inbox := update_first P f (inbox d)\<rparr>)"
proof (rule valid_set_inbox[OF d])
  show "length (update_first P f (inbox d)) \<le> maxEffects cfg"
    using d by (simp add: valid_disk_def)
  have mem: "i \<in> set (inbox d)" using i find_Some_set by fast
  show "validInbox x \<and> inbox_linked d x" if "x \<in> set (update_first P f (inbox d))" for x
    using that set_update_first[OF i, of f] valid_diskD(6,7)[OF d] mem f(1)
      same_delivery_linked[OF f(2)] by blast
  have "map inbox_key (update_first P f (inbox d)) = map inbox_key (inbox d)"
    using f(2) by (intro map_update_first same_delivery_key)
  then show "distinct (map inbox_key (update_first P f (inbox d)))"
    using valid_diskD(8)[OF d] by simp
qed

text \<open>An effect key belongs to one task: the deliveries already recorded under it are of that
  task.\<close>

definition key_owned :: "disk \<Rightarrow> string \<Rightarrow> string \<Rightarrow> bool" where
  "key_owned d k tid \<longleftrightarrow> list_all (\<lambda>i. i_effectKey i = k \<longrightarrow> i_taskId i = tid) (inbox d)"

lemma valid_add_effect:
  assumes d: "valid_disk cfg d" and e: "validEffect e" "e_taskId e \<in> taskId ` set (tasks d)"
    and new: "find_effect (effectKey e) (outbox d) = None"
    and own: "key_owned d (effectKey e) (e_taskId e)" and len: "length (outbox d) < maxEffects cfg"
  shows "valid_disk cfg (d\<lparr>outbox := outbox d @ [e]\<rparr>)"
proof -
  have "inbox_linked (d\<lparr>outbox := outbox d @ [e]\<rparr>) i" if "i \<in> set (inbox d)" for i
    using that valid_diskD(7)[OF d that] own
    by (auto simp: inbox_linked_def find_effect_append key_owned_def list_all_iff
        split: option.splits)
  with d e new len show ?thesis
    by (auto simp: valid_disk_def list_all_iff find_effect_None)
qed

lemma put_task_ids:
  "taskId ` set (put_task t d) = insert (taskId t) (taskId ` set (tasks d))"
proof (cases "find_task (taskId t) (tasks d)")
  case None
  then show ?thesis by (simp add: put_task_def)
next
  case (Some u)
  have "map taskId (update_first (\<lambda>x. taskId x = taskId t) (\<lambda>_. t) (tasks d)) = map taskId (tasks d)"
    by (intro map_update_first) simp
  then have "taskId ` set (put_task t d) = taskId ` set (tasks d)"
    using Some by (simp add: put_task_def) (metis list.set_map)
  moreover have "taskId t \<in> taskId ` set (tasks d)"
    using find_task_mem[OF Some] by (metis imageI)
  ultimately show ?thesis by auto
qed

lemma set_put_task: "x \<in> set (put_task t d) \<Longrightarrow> x = t \<or> x \<in> set (tasks d)"
  using set_update_first[of "\<lambda>x. taskId x = taskId t" "tasks d" _ "\<lambda>_. t"]
  by (auto simp: put_task_def find_task_def split: if_splits)

lemma put_task_mem: "t \<in> set (put_task t d)"
  using update_first_mem[of "\<lambda>x. taskId x = taskId t" "tasks d" _ "\<lambda>_. t"]
  by (auto simp: put_task_def find_task_def)

lemma put_task_other: "x \<in> set (tasks d) \<Longrightarrow> taskId x \<noteq> taskId t \<Longrightarrow> x \<in> set (put_task t d)"
  by (auto simp: put_task_def intro: update_first_keep)

lemma put_task_distinct:
  assumes "distinct (map taskId (tasks d))"
  shows "distinct (map taskId (put_task t d))"
proof (cases "find_task (taskId t) (tasks d) = None")
  case True
  with assms show ?thesis by (auto simp: put_task_def find_task_None)
next
  case False
  then have "put_task t d = update_first (\<lambda>x. taskId x = taskId t) (\<lambda>_. t) (tasks d)"
    unfolding put_task_def by (rule if_not_P)
  moreover have "map taskId (update_first (\<lambda>x. taskId x = taskId t) (\<lambda>_. t) (tasks d)) = map taskId (tasks d)"
    by (intro map_update_first) simp
  ultimately show ?thesis using assms by simp
qed

lemma valid_put_task:
  assumes d: "valid_disk cfg d" and t: "validStoredTask t"
    and len: "length (put_task t d) \<le> maxTasks cfg"
  shows "valid_disk cfg (d\<lparr>tasks := put_task t d\<rparr>)"
proof -
  have "inbox_linked (d\<lparr>tasks := put_task t d\<rparr>) i" if "i \<in> set (inbox d)" for i
    using valid_diskD(7)[OF d that] put_task_ids[of t d]
    by (auto simp: inbox_linked_def split: option.splits)
  moreover have "validStoredTask x" if "x \<in> set (put_task t d)" for x
    using set_put_task[OF that] t valid_diskD(1)[OF d] by blast
  moreover have "e_taskId e \<in> taskId ` set (put_task t d)" if "e \<in> set (outbox d)" for e
    using valid_diskD(4)[OF d that] put_task_ids[of t d] by blast
  ultimately show ?thesis
    using d len put_task_distinct[OF valid_diskD(2)[OF d], of t]
    by (auto simp: valid_disk_def list_all_iff)
qed

section \<open>Legal progress\<close>

lemma visibility_stays [simp]: "\<not> visibilityResurrected v v"
  by (cases "(v, v)" rule: visibilityResurrected.cases) auto

lemma task_successor_refl [simp]: "task_successor t t"
  by (simp add: task_successor_def)

lemma inboxProgresses_refl: "validInbox p \<Longrightarrow> inboxProgresses p p"
  by (cases "i_state p")
    (auto simp: inboxProgresses_def validInbox_def date_ge_def opt_ok_def date_ok_def
      split: option.splits)

lemma progression_committed:
  assumes d1: "valid_disk cfg d1" and rev: "revision d1 = revision d"
    and t: "\<And>p. p \<in> set (tasks d) \<Longrightarrow> \<exists>n \<in> set (tasks d1). taskId n = taskId p \<and> task_successor p n"
    and e: "set (outbox d) \<subseteq> set (outbox d1)"
    and i: "\<And>p. p \<in> set (inbox d) \<Longrightarrow>
      \<exists>n \<in> set (inbox d1). inbox_key n = inbox_key p \<and> inboxProgresses p n"
  shows "store_progression d (committed cfg d1)"
proof -
  let ?c = "committed cfg d1"
  have dist: "distinct (map taskId (tasks ?c))" "distinct (map effectKey (outbox ?c))"
    "distinct (map inbox_key (inbox ?c))"
    using valid_diskD(2,5,8)[OF d1] by simp_all
  have "task_progresses ?c p" if "p \<in> set (tasks d)" for p
  proof -
    from t[OF that] obtain n where n: "n \<in> set (tasks ?c)" "taskId n = taskId p" "task_successor p n"
      by auto
    then have "map_get taskId (tasks ?c) (taskId p) = Some n" by (simp only: map_get_iff[OF dist(1)])
    with n show ?thesis by (simp add: task_progresses_def)
  qed
  moreover have "effect_progresses d ?c p" if "p \<in> set (outbox d)" for p
  proof -
    have "map_get effectKey (outbox ?c) (effectKey p) = Some p"
      unfolding map_get_iff[OF dist(2)] using that e by auto
    then show ?thesis by (simp add: effect_progresses_def)
  qed
  moreover have "delivery_progresses d ?c p" if "p \<in> set (inbox d)" for p
  proof -
    from i[OF that] obtain n where n: "n \<in> set (inbox ?c)" "inbox_key n = inbox_key p" "inboxProgresses p n"
      by auto
    then have "map_get inbox_key (inbox ?c) (inbox_key p) = Some n"
      by (simp only: map_get_iff[OF dist(3)])
    with n show ?thesis by (simp add: delivery_progresses_def)
  qed
  ultimately show ?thesis using rev by (simp add: store_progression_def list_all_iff)
qed

text \<open>Changing one delivery: the others are as they were.\<close>

lemma progression_update_item:
  assumes d: "valid_disk cfg d" and d1: "valid_disk cfg (d\<lparr>inbox := update_first P f (inbox d)\<rparr>)"
    and i: "find P (inbox d) = Some i" and f: "inboxProgresses i (f i)" "same_delivery (f i) i"
    and P: "\<And>j. j \<in> set (inbox d) \<Longrightarrow> P j \<Longrightarrow> j = i"
  shows "store_progression d (committed cfg (d\<lparr>inbox := update_first P f (inbox d)\<rparr>))"
proof (rule progression_committed[OF d1])
  fix p assume p: "p \<in> set (inbox d)"
  show "\<exists>n \<in> set (inbox (d\<lparr>inbox := update_first P f (inbox d)\<rparr>)).
      inbox_key n = inbox_key p \<and> inboxProgresses p n"
  proof (cases "P p")
    case True
    with p P have "p = i" by blast
    with f update_first_mem[OF i, of f] same_delivery_key[OF f(2)] show ?thesis by auto
  next
    case False
    with p update_first_keep[of p "inbox d" P f] inboxProgresses_refl[OF valid_diskD(6)[OF d p]]
    show ?thesis by auto
  qed
qed auto

lemma progression_put_task:
  assumes d1: "valid_disk cfg (d\<lparr>tasks := put_task t d, outbox := outbox d @ [e]\<rparr>)"
    and d: "valid_disk cfg d"
    and succ: "\<And>c. find_task (taskId t) (tasks d) = Some c \<Longrightarrow> task_successor c t"
  shows "store_progression d (committed cfg (d\<lparr>tasks := put_task t d, outbox := outbox d @ [e]\<rparr>))"
proof (rule progression_committed[OF d1])
  fix p assume p: "p \<in> set (tasks d)"
  show "\<exists>n \<in> set (tasks (d\<lparr>tasks := put_task t d, outbox := outbox d @ [e]\<rparr>)).
      taskId n = taskId p \<and> task_successor p n"
  proof (cases "taskId p = taskId t")
    case True
    then have "find_task (taskId t) (tasks d) = Some p"
      using p find_key_mem[OF valid_diskD(2)[OF d] p] by (simp add: find_task_def)
    with succ True put_task_mem[of t d] show ?thesis by auto
  next
    case False
    with put_task_other[OF p] show ?thesis by auto
  qed
next
  fix p assume "p \<in> set (inbox d)"
  with inboxProgresses_refl[OF valid_diskD(6)[OF d]]
  show "\<exists>n \<in> set (inbox (d\<lparr>tasks := put_task t d, outbox := outbox d @ [e]\<rparr>)).
      inbox_key n = inbox_key p \<and> inboxProgresses p n" by auto
qed auto

section \<open>The shape of each operation\<close>

lemma normalizeTask_Inr: "normalizeTask tid t v = Inr u \<Longrightarrow>
    validStoredTask u \<and> u = t\<lparr>taskId := tid, version := v\<rparr>"
  by (auto simp: normalizeTask_def Let_def split: if_splits)

lemma normalizeEffect_Inr: "normalizeEffect inp t at = Inr e \<Longrightarrow>
    validEffect e \<and> e_taskId e = taskId t \<and> effectKey e = in_effectKey inp \<and> e_kind e = in_kind inp"
  by (auto simp: normalizeEffect_def Let_def split: if_splits)

text \<open>Putting a task with its effect: what \<open>compareAndSwapTask\<close> and \<open>mutateTask\<close> do.\<close>

definition task_put :: "disk \<Rightarrow> string \<Rightarrow> stored_task \<Rightarrow> outbox_effect \<Rightarrow> disk \<Rightarrow> bool" where
  "task_put d key t e d' \<longleftrightarrow>
     d' = d\<lparr>tasks := put_task t d, outbox := outbox d @ [e]\<rparr>
     \<and> validStoredTask t \<and> validEffect e \<and> e_taskId e = taskId t \<and> effectKey e = key
     \<and> find_effect key (outbox d) = None
     \<and> (\<forall>c. find_task (taskId t) (tasks d) = Some c \<longrightarrow>
          task_successor c t \<and> version t = version c + 1)
     \<and> (find_task (taskId t) (tasks d) = None \<longrightarrow> version t = 1)"

lemma project_shape:
  assumes "compareAndSwapTask now tid v inp eff d = Inr (t, out)"
  shows "\<exists>e d'. out = Some d' \<and> task_put d (in_effectKey eff) t e d' \<and> taskId t = tid
    \<and> e_kind e = TaskProjected
    \<and> v = (case find_task tid (tasks d) of None \<Rightarrow> 0 | Some c \<Rightarrow> version c)
    \<and> projection_allowed (find_task tid (tasks d)) t"
  using assms
  by (auto simp: compareAndSwapTask_def task_put_def Let_def task_successor_def
      split: if_splits option.splits sum.splits
      dest!: normalizeTask_Inr normalizeEffect_Inr)

lemma applyProductMutation_keeps:
  assumes "applyProductMutation c m = Inr t"
  shows "clientOperationId t = clientOperationId c" "requestHash t = requestHash c"
    "journalRecordId t = journalRecordId c" "visibility t = visibility c"
    "projectedJournalVersion t = projectedJournalVersion c"
    "tAccountBinding t = tAccountBinding c" "officialStatus t = officialStatus c"
  using assms by (auto simp: applyProductMutation_def split: mutation_input.splits if_splits sum.splits)

lemma mutate_shape:
  assumes "mutateTask now tid v m key d = Inr (t, out)"
  shows "\<exists>e d' c. out = Some d' \<and> task_put d key t e d' \<and> taskId t = tid \<and> e_kind e = TaskMutated
    \<and> find_task tid (tasks d) = Some c \<and> v = version c
    \<and> (\<exists>n. applyProductMutation c m = Inr n \<and> t = n\<lparr>taskId := tid, version := v + 1\<rparr>)"
proof -
  from assms obtain c where c: "find_task tid (tasks d) = Some c" "version c = v"
    by (auto simp: mutateTask_def split: if_splits option.splits)
  moreover have "parseProductMutation m = Inr m' \<Longrightarrow> m' = m" for m'
    by (auto simp: parseProductMutation_def split: mutation_input.splits if_splits task_event.splits)
  ultimately show ?thesis
    using assms applyProductMutation_keeps[of c m]
    by (auto simp: mutateTask_def task_put_def task_successor_def
        split: if_splits sum.splits dest!: normalizeTask_Inr normalizeEffect_Inr)
qed

lemma task_put_valid:
  assumes d: "valid_disk cfg d" and p: "task_put d key t e d'" and own: "key_owned d key (taskId t)"
    and cap: "\<not> over_capacity cfg d'"
  shows "valid_disk cfg d'"
proof -
  let ?d1 = "d\<lparr>tasks := put_task t d\<rparr>"
  have len: "length (put_task t d) \<le> maxTasks cfg" "length (outbox d) < maxEffects cfg"
    using cap p by (auto simp: over_capacity_def task_put_def)
  have "valid_disk cfg ?d1"
    using d p len by (intro valid_put_task) (auto simp: task_put_def)
  moreover have "e_taskId e \<in> taskId ` set (tasks ?d1)" "key_owned ?d1 key (taskId t)"
    using p put_task_ids[of t d] own by (auto simp: task_put_def key_owned_def)
  ultimately have "valid_disk cfg (?d1\<lparr>outbox := outbox ?d1 @ [e]\<rparr>)"
    using p len by (intro valid_add_effect) (auto simp: task_put_def)
  then show ?thesis using p by (simp add: task_put_def)
qed

lemma task_put_progress:
  assumes "valid_disk cfg d" "task_put d key t e d'" "valid_disk cfg d'"
  shows "store_progression d (committed cfg d')"
  using assms progression_put_task[where cfg = cfg and d = d and t = t and e = e] by (auto simp: task_put_def)

text \<open>Updating the one pending delivery an operation has found.\<close>

definition item_updated ::
  "disk \<Rightarrow> (inbox_record \<Rightarrow> bool) \<Rightarrow> inbox_record \<Rightarrow> (inbox_record \<Rightarrow> inbox_record) \<Rightarrow> disk \<Rightarrow> bool" where
  "item_updated d P i f d' \<longleftrightarrow> d' = d\<lparr>inbox := update_first P f (inbox d)\<rparr>
     \<and> find P (inbox d) = Some i \<and> (\<forall>x. same_delivery (f x) x)
     \<and> validInbox (f i) \<and> inboxProgresses i (f i)"

lemma item_updated_valid:
  "valid_disk cfg d \<Longrightarrow> item_updated d P i f d' \<Longrightarrow> valid_disk cfg d'"
  using valid_update_item[of cfg d P i f] by (auto simp: item_updated_def)

lemma item_updated_progress:
  assumes "valid_disk cfg d" "item_updated d P i f d'"
    and "\<And>j. j \<in> set (inbox d) \<Longrightarrow> P j \<Longrightarrow> consumerId j = consumerId i \<and> i_effectKey j = i_effectKey i"
  shows "store_progression d (committed cfg d')"
  using assms item_updated_valid[OF assms(1,2)]
    progression_update_item[OF assms(1), of P f i] delivery_unique[OF assms(1)]
  by (auto simp: item_updated_def dest: find_Some_set)

section \<open>Leasing a delivery\<close>

definition counters_ok :: "disk \<Rightarrow> bool" where
  "counters_ok d \<longleftrightarrow> safe_integer (revision d + 1)
     \<and> list_all (\<lambda>i. safe_integer (fence i + 1)) (inbox d)"

definition new_delivery :: "string \<Rightarrow> string \<Rightarrow> string \<Rightarrow> string \<Rightarrow> string \<Rightarrow> inbox_record" where
  "new_delivery c tid k token expires =
     \<lparr>consumerId = c, i_taskId = tid, i_effectKey = k, i_state = InPending, fence = 1,
      leaseToken = Some token, leaseExpiresAt = Some expires, completedAt = None,
      releasedAt = None, i_result = None\<rparr>"

definition lease_again :: "bool \<Rightarrow> string \<Rightarrow> string \<Rightarrow> inbox_record \<Rightarrow> inbox_record" where
  "lease_again clear token expires i =
     i\<lparr>i_state := InPending, fence := fence i + 1, leaseToken := Some token,
       leaseExpiresAt := Some expires, completedAt := None, releasedAt := None,
       i_result := (if clear then None else i_result i)\<rparr>"

lemma lease_item_None:
  "find (delivery_of c k) is = None \<Longrightarrow>
   lease_item clear c tid k token expires is = is @ [new_delivery c tid k token expires]"
  by (simp add: lease_item_def new_delivery_def)

lemma lease_item_Some:
  "find (delivery_of c k) is = Some i \<Longrightarrow>
   lease_item clear c tid k token expires is =
     update_first (delivery_of c k) (lease_again clear token expires) is"
  by (simp add: lease_item_def lease_again_def[abs_def])

lemma same_delivery_lease_again: "same_delivery (lease_again clear token expires i) i"
  by (simp add: same_delivery_def lease_again_def)

lemma valid_new_delivery:
  "safeOpaqueId 1 120 c \<Longrightarrow> safeTaskId tid \<Longrightarrow> validEffectKeyValue k \<Longrightarrow> uuid_ok token \<Longrightarrow>
   date_ok expires \<Longrightarrow> validInbox (new_delivery c tid k token expires)"
  by (simp add: validInbox_def new_delivery_def positive_version_def safe_integer_def)

lemma valid_lease_again:
  assumes "validInbox i" "i_state i \<noteq> InCompleted" "uuid_ok token" "date_ok expires"
    "safe_integer (fence i + 1)"
  shows "validInbox (lease_again clear token expires i)"
    "inboxProgresses i (lease_again clear token expires i)"
  using assms
  by (cases "i_state i"; simp add: validInbox_def lease_again_def positive_version_def
      inboxProgresses_def)+

lemma lease_item_ok:
  assumes d: "valid_disk cfg d" and cnt: "counters_ok d"
    and ids: "safeOpaqueId 1 120 c" "safeTaskId tid" "validEffectKeyValue k"
    and lease: "uuid_ok token" "date_ok expires"
    and item: "\<And>i. find (delivery_of c k) (inbox d) = Some i \<Longrightarrow> i_state i \<noteq> InCompleted"
    and link: "inbox_linked d (new_delivery c tid k token expires)"
    and cap: "length (lease_item clear c tid k token expires (inbox d)) \<le> maxEffects cfg"
  defines "d' \<equiv> d\<lparr>inbox := lease_item clear c tid k token expires (inbox d)\<rparr>"
  shows "valid_disk cfg d'"
    "p \<in> set (inbox d) \<Longrightarrow> \<exists>n \<in> set (inbox d'). inbox_key n = inbox_key p \<and> inboxProgresses p n"
proof (atomize (full), cases "find (delivery_of c k) (inbox d)")
  case None
  let ?n = "new_delivery c tid k token expires"
  have n: "validInbox ?n" using ids lease by (intro valid_new_delivery)
  have new: "inbox_key ?n \<notin> inbox_key ` set (inbox d)"
    using None inbox_key_eq[OF n] valid_diskD(6)[OF d]
    by (auto simp: find_None_all delivery_of_def new_delivery_def)
  have "valid_disk cfg d'" unfolding d'_def lease_item_None[OF None]
  proof (rule valid_set_inbox[OF d])
    show "length (inbox d @ [?n]) \<le> maxEffects cfg" using cap by (simp add: lease_item_None[OF None])
    show "distinct (map inbox_key (inbox d @ [?n]))" using new valid_diskD(8)[OF d] by simp
    show "validInbox x \<and> inbox_linked d x" if "x \<in> set (inbox d @ [?n])" for x
      using that n link valid_diskD(6,7)[OF d] by auto
  qed
  then show "valid_disk cfg d' \<and> (p \<in> set (inbox d) \<longrightarrow>
      (\<exists>n \<in> set (inbox d'). inbox_key n = inbox_key p \<and> inboxProgresses p n))"
    using inboxProgresses_refl valid_diskD(6)[OF d] by (auto simp: d'_def lease_item_None[OF None])
next
  case (Some i)
  let ?f = "lease_again clear token expires"
  have i: "i \<in> set (inbox d)" using Some find_Some_set by fast
  have f: "validInbox (?f i)" "inboxProgresses i (?f i)"
    using valid_lease_again[of i token expires clear] valid_diskD(6)[OF d i] item[OF Some] lease cnt i
    by (auto simp: counters_ok_def list_all_iff)
  have "valid_disk cfg d'"
    unfolding d'_def lease_item_Some[OF Some]
    by (rule valid_update_item[OF d Some f(1) same_delivery_lease_again])
  moreover have "\<exists>n \<in> set (inbox d'). inbox_key n = inbox_key p \<and> inboxProgresses p n"
    if p: "p \<in> set (inbox d)"
  proof (cases "p = i")
    case True
    with f(2) update_first_mem[OF Some, of ?f] same_delivery_key[OF same_delivery_lease_again]
    have "?f i \<in> set (inbox d')" "inbox_key (?f i) = inbox_key p" "inboxProgresses p (?f i)"
      by (simp_all add: d'_def lease_item_Some[OF Some])
    then show ?thesis by blast
  next
    case False
    with delivery_unique[OF d p i] find_delivery_mem[OF Some] have "\<not> delivery_of c k p"
      by (auto simp: delivery_of_def)
    with update_first_keep[OF p, of "delivery_of c k" ?f]
    have "p \<in> set (inbox d')" by (simp add: d'_def lease_item_Some[OF Some])
    with inboxProgresses_refl[OF valid_diskD(6)[OF d p]] show ?thesis by blast
  qed
  ultimately show "valid_disk cfg d' \<and> (p \<in> set (inbox d) \<longrightarrow>
      (\<exists>n \<in> set (inbox d'). inbox_key n = inbox_key p \<and> inboxProgresses p n))" by blast
qed

section \<open>Every operation commits\<close>

text \<open>What the operations rely on: the clock is in the range \<open>toISOString\<close> writes with four digits,
  the token is a UUID, an effect key belongs to one task, and a renewal does not shorten the
  lease.\<close>

definition renewal_extends :: "disk \<Rightarrow> string \<Rightarrow> string \<Rightarrow> string \<Rightarrow> int \<Rightarrow> bool" where
  "renewal_extends d c tid k until = (case find (lease_of c tid k) (inbox d) of
     None \<Rightarrow> True
   | Some i \<Rightarrow> (case Option.bind (leaseExpiresAt i) date_parse of None \<Rightarrow> True | Some x \<Rightarrow> x \<le> until))"

fun op_env_ok :: "disk \<Rightarrow> store_op \<Rightarrow> bool" where
  "op_env_ok d (OpProject now tid v t e) = (iso_time now \<and> key_owned d (in_effectKey e) tid)"
| "op_env_ok d (OpMutate now tid v m k) = (iso_time now \<and> key_owned d k tid)"
| "op_env_ok d (OpClaimOutbox now tok c k ms) = (iso_time (now + ms) \<and> uuid_ok tok)"
| "op_env_ok d (OpClaimProduct now tok c tid k ms) =
     (iso_time now \<and> iso_time (now + ms) \<and> uuid_ok tok \<and> key_owned d k tid)"
| "op_env_ok d (OpRenew now c tid k tok f ms) =
     (iso_time (now + ms) \<and> renewal_extends d c tid k (now + ms))"
| "op_env_ok d (OpComplete now c tid k tok f res) = iso_time now"
| "op_env_ok d (OpRelease now c tid k tok f) = iso_time now"
| "op_env_ok d (OpCompleteOutbox now c k tok) = iso_time now"

lemma date_ok_iso: "iso_time t \<Longrightarrow> date_ok (to_iso_string t)"
  by (simp add: date_ok_def date_parse_to_iso_string)

definition commits :: "store_config \<Rightarrow> disk \<Rightarrow> disk \<Rightarrow> bool" where
  "commits cfg d d' \<longleftrightarrow> valid_disk cfg d' \<and> store_progression d (committed cfg d')
     \<and> revision d' = revision d"

lemma commits_task_put:
  assumes "valid_disk cfg d" "task_put d key t e d'" "key_owned d key (taskId t)"
    "\<not> over_capacity cfg d'"
  shows "commits cfg d d'"
  using task_put_valid[OF assms] task_put_progress[OF assms(1,2)] assms(2)
  by (auto simp: commits_def task_put_def)

lemma commits_item_updated:
  assumes "valid_disk cfg d" "item_updated d P i f d'"
    and "\<And>j. j \<in> set (inbox d) \<Longrightarrow> P j \<Longrightarrow> consumerId j = consumerId i \<and> i_effectKey j = i_effectKey i"
  shows "commits cfg d d'"
  using item_updated_valid[OF assms(1,2)] item_updated_progress[OF assms] assms(2)
  by (auto simp: commits_def item_updated_def)

lemma commits_leased:
  assumes "valid_disk cfg d1" "revision d1 = revision d" "tasks d1 = tasks d"
    "set (outbox d) \<subseteq> set (outbox d1)"
    "\<And>p. p \<in> set (inbox d) \<Longrightarrow> \<exists>n \<in> set (inbox d1). inbox_key n = inbox_key p \<and> inboxProgresses p n"
  shows "commits cfg d d1"
proof -
  have "store_progression d (committed cfg d1)"
  proof (rule progression_committed[OF assms(1,2)])
    fix p assume "p \<in> set (tasks d)"
    then show "\<exists>n \<in> set (tasks d1). taskId n = taskId p \<and> task_successor p n"
      using assms(3) by auto
  qed (use assms(4,5) in auto)
  with assms(1,2) show ?thesis by (simp add: commits_def)
qed

lemma project_commits:
  assumes "valid_disk cfg d" "compareAndSwapTask now tid v inp eff d = Inr (t, Some d')"
    "key_owned d (in_effectKey eff) tid" "\<not> over_capacity cfg d'"
  shows "commits cfg d d'"
  using project_shape[OF assms(2)] assms(1,3,4) by (auto intro: commits_task_put)

lemma mutate_commits:
  assumes "valid_disk cfg d" "mutateTask now tid v m key d = Inr (t, Some d')"
    "key_owned d key tid" "\<not> over_capacity cfg d'"
  shows "commits cfg d d'"
  using mutate_shape[OF assms(2)] assms(1,3,4) by (auto intro: commits_task_put)

text \<open>What a successful claim did.\<close>

lemma claim_outbox_shape:
  assumes "claimOutboxEffect now token c k ms d = Inr (r, Some d')"
  shows "\<exists>e. find_effect k (outbox d) = Some e \<and> r = Some (token, to_iso_string (now + ms))
    \<and> safeOpaqueId 1 120 c \<and> validEffectKeyValue k
    \<and> (\<forall>i. find (delivery_of c k) (inbox d) = Some i \<longrightarrow> i_taskId i = e_taskId e
         \<and> i_state i \<noteq> InCompleted \<and> \<not> (i_state i = InPending \<and> lease_live now i))
    \<and> d' = d\<lparr>inbox := lease_item False c (e_taskId e) k token (to_iso_string (now + ms)) (inbox d)\<rparr>"
  using assms by (auto simp: claimOutboxEffect_def Let_def split: if_splits option.splits)

definition product_effect :: "int \<Rightarrow> stored_task \<Rightarrow> string \<Rightarrow> outbox_effect" where
  "product_effect now t k = \<lparr>effectKey = k, e_kind = ProductEffect, e_taskId = taskId t,
     journalVersion = None, taskVersion = version t, e_createdAt = to_iso_string now\<rparr>"

lemma claim_product_shape:
  assumes "claimProductEffect now token c tid k ms d = Inr (r, Some d')"
  shows "\<exists>t. find_task tid (tasks d) = Some t \<and> visibility t \<noteq> Some Deleted
    \<and> r = Claimed token (to_iso_string (now + ms)) (next_fence (find (delivery_of c k) (inbox d)))
    \<and> safeOpaqueId 1 120 c \<and> safeTaskId tid \<and> validEffectKeyValue k
    \<and> (\<forall>i. find (delivery_of c k) (inbox d) = Some i \<longrightarrow> i_taskId i = tid
         \<and> i_state i \<noteq> InCompleted \<and> \<not> (i_state i = InPending \<and> lease_live now i))
    \<and> (\<forall>e. find_effect k (outbox d) = Some e \<longrightarrow> e_kind e = ProductEffect \<and> e_taskId e = tid)
    \<and> d' = d\<lparr>outbox := (if find_effect k (outbox d) = None then outbox d @ [product_effect now t k]
                          else outbox d),
             inbox := lease_item True c tid k token (to_iso_string (now + ms)) (inbox d)\<rparr>"
  using assms
  by (auto simp: claimProductEffect_def Let_def product_effect_def split: if_splits option.splits
      dest: find_task_mem)

lemma claim_outbox_commits:
  assumes d: "valid_disk cfg d" and cnt: "counters_ok d"
    and op: "claimOutboxEffect now token c k ms d = Inr (r, Some d')"
    and env: "iso_time (now + ms)" "uuid_ok token" and cap: "\<not> over_capacity cfg d'"
  shows "commits cfg d d'"
proof -
  from claim_outbox_shape[OF op] obtain e where e: "find_effect k (outbox d) = Some e"
    and ids: "safeOpaqueId 1 120 c" "validEffectKeyValue k"
    and item: "\<And>i. find (delivery_of c k) (inbox d) = Some i \<Longrightarrow> i_state i \<noteq> InCompleted"
    and d': "d' = d\<lparr>inbox := lease_item False c (e_taskId e) k token (to_iso_string (now + ms)) (inbox d)\<rparr>"
    by auto
  have mem: "e \<in> set (outbox d)" using find_effect_mem[OF e] by simp
  have link: "inbox_linked d (new_delivery c (e_taskId e) k token (to_iso_string (now + ms)))"
    using e valid_diskD(4)[OF d mem] by (simp add: inbox_linked_def new_delivery_def)
  have tid: "safeTaskId (e_taskId e)" using valid_diskD(3)[OF d mem] by (simp add: validEffect_def)
  have len: "length (lease_item False c (e_taskId e) k token (to_iso_string (now + ms)) (inbox d))
      \<le> maxEffects cfg" using cap by (simp add: d' over_capacity_def)
  note ok = lease_item_ok[OF d cnt ids(1) tid ids(2) env(2) date_ok_iso[OF env(1)] item link len]
  show ?thesis unfolding d' by (rule commits_leased[OF ok(1) _ _ _ ok(2)]) simp_all
qed

lemma claim_product_commits:
  assumes d: "valid_disk cfg d" and cnt: "counters_ok d"
    and op: "claimProductEffect now token c tid k ms d = Inr (r, Some d')"
    and env: "iso_time now" "iso_time (now + ms)" "uuid_ok token" "key_owned d k tid"
    and cap: "\<not> over_capacity cfg d'"
  shows "commits cfg d d'"
proof -
  let ?is = "lease_item True c tid k token (to_iso_string (now + ms)) (inbox d)"
  from claim_product_shape[OF op] obtain t where t: "find_task tid (tasks d) = Some t"
    and ids: "safeOpaqueId 1 120 c" "safeTaskId tid" "validEffectKeyValue k"
    and item: "\<And>i. find (delivery_of c k) (inbox d) = Some i \<Longrightarrow> i_state i \<noteq> InCompleted"
    and eff: "\<And>e. find_effect k (outbox d) = Some e \<Longrightarrow> e_taskId e = tid"
    and d': "d' = d\<lparr>outbox := (if find_effect k (outbox d) = None
        then outbox d @ [product_effect now t k] else outbox d), inbox := ?is\<rparr>"
    by auto
  have mem: "t \<in> set (tasks d)" "taskId t = tid" using find_task_mem[OF t] by simp_all
  define d0 where "d0 = d\<lparr>outbox := outbox d'\<rparr>"
  have len: "length (outbox d') \<le> maxEffects cfg" "length ?is \<le> maxEffects cfg"
    using cap by (simp_all add: d' over_capacity_def)
  have pe: "validEffect (product_effect now t k)"
    using valid_diskD(1)[OF d mem(1)] ids mem(2) date_ok_iso[OF env(1)]
    by (simp add: validEffect_def product_effect_def validStoredTask_def)
  have d0: "valid_disk cfg d0"
  proof (cases "find_effect k (outbox d) = None")
    case True
    have "valid_disk cfg (d\<lparr>outbox := outbox d @ [product_effect now t k]\<rparr>)"
      using mem env(4) len(1) True
      by (intro valid_add_effect[OF d pe]) (auto simp: product_effect_def d')
    then show ?thesis by (simp add: d0_def d' True)
  next
    case False
    then have "d0 = d" by (simp add: d0_def d')
    with d show ?thesis by simp
  qed
  have cnt0: "counters_ok d0" and item0: "\<And>i. find (delivery_of c k) (inbox d0) = Some i \<Longrightarrow> i_state i \<noteq> InCompleted"
    and same: "inbox d0 = inbox d"
    using cnt item by (simp_all add: counters_ok_def d0_def)
  have link: "inbox_linked d0 (new_delivery c tid k token (to_iso_string (now + ms)))"
    using eff mem by (auto simp: inbox_linked_def new_delivery_def d0_def d' find_effect_append
        product_effect_def split: option.splits)
  have len0: "length (lease_item True c tid k token (to_iso_string (now + ms)) (inbox d0)) \<le> maxEffects cfg"
    using len(2) by (simp add: same)
  note ok = lease_item_ok[OF d0 cnt0 ids env(3) date_ok_iso[OF env(2)] item0 link len0]
  have "d' = d0\<lparr>inbox := lease_item True c tid k token (to_iso_string (now + ms)) (inbox d0)\<rparr>"
    by (simp add: d0_def d')
  with ok have ok': "valid_disk cfg d'"
    "\<And>p. p \<in> set (inbox d) \<Longrightarrow> \<exists>n \<in> set (inbox d'). inbox_key n = inbox_key p \<and> inboxProgresses p n"
    by (simp_all add: same)
  show ?thesis by (rule commits_leased[OF ok'(1) _ _ _ ok'(2)]) (auto simp: d')
qed

text \<open>Renewing, completing and releasing update the pending delivery the lease names.\<close>

definition renew_item :: "string \<Rightarrow> inbox_record \<Rightarrow> inbox_record" where
  "renew_item expires x = x\<lparr>leaseExpiresAt := Some expires\<rparr>"

definition close_item :: "string \<Rightarrow> inbox_record \<Rightarrow> inbox_record" where
  "close_item at x = x\<lparr>i_state := InCompleted, completedAt := Some at, leaseToken := None,
     leaseExpiresAt := None\<rparr>"

lemma renew_shape:
  assumes "renewProductEffect now c tid k token f ms d = Inr (r, Some d')"
  shows "\<exists>i. find (lease_of c tid k) (inbox d) = Some i \<and> i_state i = InPending
    \<and> leaseToken i = Some token \<and> fence i = f \<and> \<not> lease_expired now i
    \<and> r = Some (to_iso_string (now + ms), f)
    \<and> d' = d\<lparr>inbox := update_first (lease_of c tid k) (renew_item (to_iso_string (now + ms))) (inbox d)\<rparr>"
  using assms by (auto simp: renewProductEffect_def Let_def renew_item_def[abs_def]
      split: if_splits option.splits)

lemma finish_shape:
  assumes "finishProductEffect now c tid k token f res rel d = Inr (r, Some d')"
  shows "\<exists>i. find (lease_of c tid k) (inbox d) = Some i \<and> i_state i = InPending
    \<and> leaseToken i = Some token \<and> fence i = f \<and> \<not> lease_expired now i \<and> r
    \<and> d' = d\<lparr>inbox := update_first (lease_of c tid k) (finish_item rel (to_iso_string now) res) (inbox d)\<rparr>"
  using assms by (auto simp: finishProductEffect_def split: if_splits option.splits)

lemma close_shape:
  assumes "completeOutboxEffect now c k token d = Inr (r, Some d')"
  shows "\<exists>i. find (delivery_of c k) (inbox d) = Some i \<and> i_state i = InPending
    \<and> leaseToken i = Some token \<and> \<not> lease_expired now i \<and> r
    \<and> d' = d\<lparr>inbox := update_first (delivery_of c k) (close_item (to_iso_string now)) (inbox d)\<rparr>"
  using assms by (auto simp: completeOutboxEffect_def close_item_def[abs_def]
      split: if_splits option.splits)

lemma renewed_item_ok:
  assumes "validInbox i" "i_state i = InPending" "iso_time u"
    and "case Option.bind (leaseExpiresAt i) date_parse of None \<Rightarrow> True | Some x \<Rightarrow> x \<le> u"
  shows "validInbox (renew_item (to_iso_string u) i)"
    "inboxProgresses i (renew_item (to_iso_string u) i)"
  using assms date_parse_to_iso_string[of u]
  by (auto simp: renew_item_def validInbox_def inboxProgresses_def date_ge_def date_ok_def opt_ok_def)

lemma finished_item_ok:
  assumes "validInbox i" "i_state i = InPending" "date_ok at" "rel \<or> validEffectResult res"
  shows "validInbox (finish_item rel at res i)" "inboxProgresses i (finish_item rel at res i)"
  using assms by (auto simp: finish_item_def validInbox_def inboxProgresses_def)

lemma closed_item_ok:
  assumes "validInbox i" "i_state i = InPending" "date_ok at"
  shows "validInbox (close_item at i)" "inboxProgresses i (close_item at i)"
  using assms by (auto simp: close_item_def validInbox_def inboxProgresses_def)

lemma same_delivery_updates:
  "same_delivery (renew_item e i) i" "same_delivery (finish_item rel at res i) i"
  "same_delivery (close_item at i) i"
  by (simp_all add: same_delivery_def renew_item_def finish_item_def close_item_def)

lemma item_commits:
  assumes d: "valid_disk cfg d" and i: "find P (inbox d) = Some i"
    and P: "\<And>j. P j \<Longrightarrow> consumerId j = c \<and> i_effectKey j = k"
    and f: "validInbox i \<Longrightarrow> validInbox (f i)" "validInbox i \<Longrightarrow> inboxProgresses i (f i)"
      "\<And>x. same_delivery (f x) x"
  shows "commits cfg d (d\<lparr>inbox := update_first P f (inbox d)\<rparr>)"
proof -
  have "i \<in> set (inbox d)" "P i" using i find_Some_set by fast+
  with valid_diskD(6)[OF d] P f i
  show ?thesis
    by (intro commits_item_updated[OF d, of P i f]) (auto simp: item_updated_def)
qed

lemma renew_commits:
  assumes "valid_disk cfg d" "renewProductEffect now c tid k token f ms d = Inr (r, Some d')"
    "iso_time (now + ms)" "renewal_extends d c tid k (now + ms)"
  shows "commits cfg d d'"
proof -
  from renew_shape[OF assms(2)] obtain i where i: "find (lease_of c tid k) (inbox d) = Some i"
    "i_state i = InPending"
    and d': "d' = d\<lparr>inbox := update_first (lease_of c tid k) (renew_item (to_iso_string (now + ms))) (inbox d)\<rparr>"
    by auto
  show ?thesis unfolding d'
    using assms(4) i renewed_item_ok[OF _ i(2) assms(3)]
    by (intro item_commits[OF assms(1) i(1), of c k])
      (auto simp: lease_of_def renewal_extends_def same_delivery_updates)
qed

lemma finish_commits:
  assumes "valid_disk cfg d" "finishProductEffect now c tid k token f res rel d = Inr (r, Some d')"
    "iso_time now" "rel \<or> validEffectResult res"
  shows "commits cfg d d'"
proof -
  from finish_shape[OF assms(2)] obtain i where i: "find (lease_of c tid k) (inbox d) = Some i"
    "i_state i = InPending"
    and d': "d' = d\<lparr>inbox := update_first (lease_of c tid k) (finish_item rel (to_iso_string now) res) (inbox d)\<rparr>"
    by auto
  show ?thesis unfolding d'
    using finished_item_ok[OF _ i(2) date_ok_iso[OF assms(3)] assms(4)]
    by (intro item_commits[OF assms(1) i(1), of c k]) (auto simp: lease_of_def same_delivery_updates)
qed

lemma close_commits:
  assumes "valid_disk cfg d" "completeOutboxEffect now c k token d = Inr (r, Some d')" "iso_time now"
  shows "commits cfg d d'"
proof -
  from close_shape[OF assms(2)] obtain i where i: "find (delivery_of c k) (inbox d) = Some i"
    "i_state i = InPending"
    and d': "d' = d\<lparr>inbox := update_first (delivery_of c k) (close_item (to_iso_string now)) (inbox d)\<rparr>"
    by auto
  show ?thesis unfolding d'
    using closed_item_ok[OF _ i(2) date_ok_iso[OF assms(3)]]
    by (intro item_commits[OF assms(1) i(1), of c k]) (auto simp: delivery_of_def same_delivery_updates)
qed

lemma bindE_snd: "bindE r (\<lambda>x. Inr (snd x)) = Inr y \<longleftrightarrow> (\<exists>a. r = Inr (a, y))"
  by (cases r) auto

lemma op_commits:
  assumes d: "valid_disk cfg d" "counters_ok d" and env: "op_env_ok d op"
    and op: "op_action op d = Inr (Some d')" and cap: "\<not> over_capacity cfg d'"
  shows "commits cfg d d'"
proof (cases op)
  case (OpComplete now c tid k tok f res)
  then show ?thesis using assms
    by (auto simp: bindE_snd completeProductEffect_def split: if_splits intro: finish_commits)
next
  case (OpRelease now c tid k tok f)
  then show ?thesis using assms
    by (auto simp: bindE_snd releaseProductEffect_def intro: finish_commits)
qed (use assms in \<open>auto simp: bindE_snd intro: project_commits mutate_commits claim_outbox_commits
    claim_product_commits renew_commits close_commits\<close>)

end
