(* ===== verification/TaskStoreSafety.thy ===== *)
theory TaskStoreSafety
  imports TaskStoreProofs
begin

text \<open>
  What holds along whole runs of the store, compaction included: the result of a product effect is
  kept for ever once it is completed, a lease that was taken over is void for ever, and a task's
  final result is final.
\<close>

section \<open>Runs\<close>

inductive store_run ::
  "store_config \<Rightarrow> (store_op \<Rightarrow> disk \<Rightarrow> bool) \<Rightarrow> disk \<Rightarrow> disk \<Rightarrow> bool" for cfg ok where
  start: "store_run cfg ok d d"
| step: "store_run cfg ok d d' \<Longrightarrow> store_step cfg (Some d') op = Inr (Some d'') \<Longrightarrow> ok op d'' \<Longrightarrow>
    store_run cfg ok d d''"

lemma store_step_cases:
  assumes "store_step cfg (Some d) op = Inr (Some d')"
  shows "valid_disk cfg d"
    "d' = d \<or> (\<exists>d1. op_action op d = Inr (Some d1) \<and> persist cfg d1 = Inr d')"
  using assms
  by (auto simp: store_step_def withExclusiveDisk_def readStoreDisk_def
      split: if_splits sum.splits option.splits)

text \<open>An invariant of runs: kept by every action, and by persisting its result.\<close>

locale run_invariant =
  fixes cfg :: store_config
    and ok :: "store_op \<Rightarrow> disk \<Rightarrow> bool"
    and Q :: "disk \<Rightarrow> bool"
  assumes keep: "Q d \<Longrightarrow> valid_disk cfg d \<Longrightarrow> op_action op d = Inr (Some d1) \<Longrightarrow>
    persist cfg d1 = Inr d' \<Longrightarrow> ok op d' \<Longrightarrow> Q d'"
begin

lemma step_keeps: "Q d \<Longrightarrow> store_step cfg (Some d) op = Inr (Some d') \<Longrightarrow> ok op d' \<Longrightarrow> Q d'"
  using store_step_cases[of cfg d op d'] keep by blast

lemma run_keeps: "store_run cfg ok d d' \<Longrightarrow> Q d \<Longrightarrow> Q d'"
  by (induction rule: store_run.induct) (auto intro: step_keeps)

end

section \<open>What persisting can remove\<close>

definition within :: "disk \<Rightarrow> disk \<Rightarrow> bool" where
  "within d x \<longleftrightarrow> set (tasks x) \<subseteq> set (tasks d) \<and> set (outbox x) \<subseteq> set (outbox d)
     \<and> set (inbox x) \<subseteq> set (inbox d)"

lemma within_refl: "within d d"
  by (simp add: within_def)

lemma within_trans: "within d x \<Longrightarrow> within x y \<Longrightarrow> within d y"
  by (auto simp: within_def)

lemma set_remove_first: "set (remove_first P xs) \<subseteq> set xs"
  by (induction xs) auto

lemma remove_first_keep: "x \<in> set xs \<Longrightarrow> \<not> P x \<Longrightarrow> x \<in> set (remove_first P xs)"
  by (induction xs) auto

lemma drop_within:
  "within d (drop_task tid d)" "within d (drop_effect e d)" "within d (drop_delivery c d)"
  using set_remove_first[of "fst c" "inbox d"]
  by (auto simp: within_def drop_task_def drop_effect_def drop_delivery_def Let_def)

lemma compact_tasks_within: "within d (compact_tasks cfg ts d)"
  by (induction cfg ts d rule: compact_tasks.induct)
    (auto intro: within_refl within_trans[OF drop_within(1)])

lemma compact_outbox_within: "within d (compact_outbox cfg d)"
proof (induction cfg d rule: compact_outbox.induct)
  case (1 cfg d)
  then show ?case
    by (subst compact_outbox.simps)
      (auto split: option.split intro: within_refl within_trans[OF drop_within(2)])
qed

lemma compact_inbox_within: "within d (compact_inbox cfg d)"
proof (induction cfg d rule: compact_inbox.induct)
  case (1 cfg d)
  then show ?case
    by (subst compact_inbox.simps)
      (auto split: option.split intro: within_refl within_trans[OF drop_within(3)])
qed

text \<open>Any predicate that the three compaction passes keep is kept by persisting.\<close>

lemma persist_keeps:
  assumes "persist cfg d = Inr d'" "Q d"
    and "\<And>x. Q x \<Longrightarrow> tasks x = tasks d \<Longrightarrow> Q (compact_tasks cfg (deleted_by_age cfg d) x)"
    and "\<And>x. Q x \<Longrightarrow> Q (compact_outbox cfg x)" "\<And>x. Q x \<Longrightarrow> Q (compact_inbox cfg x)"
    and "\<And>x y :: disk. Q x \<Longrightarrow> set (tasks y) = set (tasks x) \<Longrightarrow> outbox y = outbox x \<Longrightarrow>
      set (inbox y) = set (inbox x) \<Longrightarrow> Q y"
  shows "Q d'"
proof -
  from assms(1) obtain c where c: "compactStoreDisk cfg d = Inr c"
    and d': "d' = committed cfg c"
    by (auto simp: persist_def committed_def split: sum.splits)
  have "Q c" using c assms(2-5) by (auto simp: compactStoreDisk_def Let_def split: if_splits)
  then show ?thesis unfolding d' by (rule assms(6)) simp_all
qed

lemma persist_within_disk:
  assumes "persist cfg d = Inr d'"
  shows "within d d'"
proof (rule persist_keeps[OF assms, where Q = "within d"])
  fix x y :: disk
  assume "within d x" "set (tasks y) = set (tasks x)" "outbox y = outbox x" "set (inbox y) = set (inbox x)"
  then show "within d y" by (simp add: within_def)
qed (auto intro: within_refl within_trans compact_tasks_within compact_outbox_within compact_inbox_within)

section \<open>Completed product effects stay completed\<close>

definition live :: "disk \<Rightarrow> string \<Rightarrow> bool" where
  "live d tid \<longleftrightarrow> (\<forall>t \<in> set (tasks d). taskId t = tid \<longrightarrow> visibility t \<noteq> Some Deleted)"

definition alive :: "string \<Rightarrow> disk \<Rightarrow> bool" where
  "alive tid d \<longleftrightarrow> (\<exists>t \<in> set (tasks d). taskId t = tid \<and> visibility t \<noteq> Some Deleted)"

text \<open>Product effect keys are used for product effects only.\<close>

definition product_keys_ok :: "disk \<Rightarrow> bool" where
  "product_keys_ok d \<longleftrightarrow>
     (\<forall>e \<in> set (outbox d). isProductEffectKey (effectKey e) \<longrightarrow> e_kind e = ProductEffect)"

definition durable :: "inbox_record \<Rightarrow> disk \<Rightarrow> bool" where
  "durable i d \<longleftrightarrow> i \<in> set (inbox d) \<and> i_state i = InCompleted
     \<and> isProductEffectKey (i_effectKey i) \<and> product_keys_ok d \<and> live d (i_taskId i)"

fun op_key_ok :: "store_op \<Rightarrow> bool" where
  "op_key_ok (OpProject now tid v t e) = (\<not> isProductEffectKey (in_effectKey e))"
| "op_key_ok (OpMutate now tid v m k) = (\<not> isProductEffectKey k)"
| "op_key_ok op = True"

lemma durable_compact_tasks:
  assumes "durable i d" "\<And>t. t \<in> set ts \<Longrightarrow> taskId t \<noteq> i_taskId i"
  shows "durable i (compact_tasks cfg ts d)"
  using assms
proof (induction cfg ts d rule: compact_tasks.induct)
  case (2 cfg t ts d)
  then have "taskId t \<noteq> i_taskId i" by simp
  with 2(3) have "durable i (drop_task (taskId t) d)"
    by (auto simp: durable_def drop_task_def product_keys_ok_def live_def)
  with 2 show ?case by simp
qed simp

lemma durable_compact_outbox: "durable i d \<Longrightarrow> durable i (compact_outbox cfg d)"
proof (induction cfg d rule: compact_outbox.induct)
  case (1 cfg d)
  have "durable i (drop_effect e d)" if "outbox_candidate d = Some e" for e
    using outbox_candidate_mem[OF that] 1(2)
    by (auto simp: durable_def drop_effect_def Let_def product_keys_ok_def live_def)
  with 1 show ?case by (subst compact_outbox.simps) (simp split: option.split)
qed

lemma durable_not_candidate:
  assumes "durable i d" "inbox_candidate d = Some c"
  shows "\<not> fst c i"
proof -
  have "\<not> compactable_delivery d i"
    using assms(1) find_effect_mem[of "i_effectKey i" "outbox d"] find_task_mem[of "i_taskId i" "tasks d"]
    by (auto simp: durable_def compactable_delivery_def product_keys_ok_def live_def Let_def
        split: option.splits)
  with assms show ?thesis by (auto simp: inbox_candidate_def durable_def split: option.splits)
qed

lemma durable_compact_inbox: "durable i d \<Longrightarrow> durable i (compact_inbox cfg d)"
proof (induction cfg d rule: compact_inbox.induct)
  case (1 cfg d)
  have "durable i (drop_delivery c d)" if "inbox_candidate d = Some c" for c
    using durable_not_candidate[OF 1(2) that] 1(2)
    by (auto simp: durable_def drop_delivery_def product_keys_ok_def live_def intro: remove_first_keep)
  with 1 show ?case by (subst compact_inbox.simps) (simp split: option.split)
qed

lemma durable_persist:
  assumes "persist cfg d = Inr d'" "durable i d"
  shows "durable i d'"
proof (rule persist_keeps[OF assms(1), where Q = "durable i"])
  fix x assume "durable i x" "tasks x = tasks d"
  then show "durable i (compact_tasks cfg (deleted_by_age cfg d) x)"
    by (intro durable_compact_tasks) (auto simp: deleted_by_age_def durable_def live_def)
next
  fix x y :: disk
  assume "durable i x" "set (tasks y) = set (tasks x)" "outbox y = outbox x" "set (inbox y) = set (inbox x)"
  then show "durable i y" by (auto simp: durable_def product_keys_ok_def live_def)
qed (auto simp: assms(2) durable_compact_outbox durable_compact_inbox)

section \<open>What one action changes\<close>

text \<open>A task action puts one task with its effect; a delivery action leaves the tasks alone and
  changes one delivery, which was not completed.\<close>

definition delivery_action :: "disk \<Rightarrow> (inbox_record \<Rightarrow> bool) \<Rightarrow> disk \<Rightarrow> bool" where
  "delivery_action d P d1 \<longleftrightarrow> tasks d1 = tasks d
     \<and> (\<forall>j \<in> set (inbox d). \<not> P j \<longrightarrow> j \<in> set (inbox d1))
     \<and> (\<forall>e \<in> set (outbox d1). e \<in> set (outbox d) \<or> e_kind e = ProductEffect)
     \<and> (\<exists>c k. \<forall>j. P j \<longrightarrow> consumerId j = c \<and> i_effectKey j = k)
     \<and> (\<forall>j. find P (inbox d) = Some j \<longrightarrow> i_state j \<noteq> InCompleted)"

lemma lease_item_keep:
  "j \<in> set is \<Longrightarrow> \<not> delivery_of c k j \<Longrightarrow> j \<in> set (lease_item clear c tid k tok ex is)"
  by (auto simp: lease_item_def Let_def intro: update_first_keep)

lemma claim_outbox_action:
  assumes "claimOutboxEffect now tok c k ms d = Inr (r, Some d1)"
  shows "delivery_action d (delivery_of c k) d1"
  using claim_outbox_shape[OF assms]
  by (auto simp: delivery_action_def delivery_of_def
      intro!: lease_item_keep split: if_splits)

lemma claim_product_action:
  assumes "claimProductEffect now tok c tid k ms d = Inr (r, Some d1)"
  shows "delivery_action d (delivery_of c k) d1"
  using claim_product_shape[OF assms]
  by (auto simp: delivery_action_def delivery_of_def product_effect_def
      intro!: lease_item_keep split: if_splits)

lemma renew_action:
  assumes "renewProductEffect now c tid k tok f ms d = Inr (r, Some d1)"
  shows "delivery_action d (lease_of c tid k) d1"
  using renew_shape[OF assms]
  by (auto simp: delivery_action_def lease_of_def
      intro!: update_first_keep split: if_splits)

lemma finish_action:
  assumes "finishProductEffect now c tid k tok f res rel d = Inr (r, Some d1)"
  shows "delivery_action d (lease_of c tid k) d1"
  using finish_shape[OF assms]
  by (auto simp: delivery_action_def lease_of_def
      intro!: update_first_keep split: if_splits)

lemma close_action:
  assumes "completeOutboxEffect now c k tok d = Inr (r, Some d1)"
  shows "delivery_action d (delivery_of c k) d1"
  using close_shape[OF assms]
  by (auto simp: delivery_action_def delivery_of_def
      intro!: update_first_keep split: if_splits)

lemmas delivery_actions = claim_outbox_action claim_product_action renew_action finish_action close_action

text \<open>The task and effect key an operation that puts a task writes.\<close>

fun op_put :: "store_op \<Rightarrow> (string \<times> string) option" where
  "op_put (OpProject now tid v t e) = Some (tid, in_effectKey e)"
| "op_put (OpMutate now tid v m k) = Some (tid, k)"
| "op_put op = None"

lemma action_cases:
  assumes "op_action op d = Inr (Some d1)"
  shows "(\<exists>tid k t e. op_put op = Some (tid, k) \<and> task_put d k t e d1 \<and> taskId t = tid
            \<and> e_kind e \<noteq> ProductEffect)
       \<or> (op_put op = None \<and> (\<exists>P. delivery_action d P d1))"
proof (cases op)
  case (OpProject now tid v t e)
  with assms show ?thesis by (fastforce simp: bindE_snd dest: project_shape)
next
  case (OpMutate now tid v m k)
  with assms show ?thesis by (fastforce simp: bindE_snd dest: mutate_shape)
next
  case (OpComplete now c tid k tok f res)
  with assms show ?thesis
    by (auto simp: bindE_snd completeProductEffect_def split: if_splits dest: delivery_actions)
next
  case (OpRelease now c tid k tok f)
  with assms show ?thesis by (auto simp: bindE_snd releaseProductEffect_def dest: delivery_actions)
qed (use assms in \<open>auto simp: bindE_snd dest: delivery_actions\<close>)

lemma delivery_action_keeps:
  assumes "valid_disk cfg d" "delivery_action d P d1" "i \<in> set (inbox d)" "i_state i = InCompleted"
  shows "i \<in> set (inbox d1)"
proof (cases "P i")
  case True
  then obtain j where j: "find P (inbox d) = Some j"
    using assms(3) by (cases "find P (inbox d)") (auto simp: find_None_all)
  then have "j \<in> set (inbox d)" "P j" using find_Some_set by fast+
  with True assms delivery_unique[OF assms(1), of i j] have "j = i"
    by (fastforce simp: delivery_action_def)
  with j assms show ?thesis by (auto simp: delivery_action_def)
qed (use assms in \<open>simp add: delivery_action_def\<close>)

lemma action_completed:
  assumes "valid_disk cfg d" "op_action op d = Inr (Some d1)" "i \<in> set (inbox d)"
    "i_state i = InCompleted"
  shows "i \<in> set (inbox d1)"
  using action_cases[OF assms(2)] delivery_action_keeps[OF assms(1) _ assms(3,4)] assms(3)
  by (auto simp: task_put_def)

lemma op_key_put: "op_key_ok op \<Longrightarrow> op_put op = Some (tid, k) \<Longrightarrow> \<not> isProductEffectKey k"
  by (cases op) auto

lemma action_product_keys:
  assumes "op_action op d = Inr (Some d1)" "op_key_ok op" "product_keys_ok d"
  shows "product_keys_ok d1"
  using action_cases[OF assms(1)] op_key_put[OF assms(2)] assms(3)
  by (auto simp: product_keys_ok_def task_put_def delivery_action_def)

lemma action_distinct:
  assumes "valid_disk cfg d" "op_action op d = Inr (Some d1)"
  shows "distinct (map taskId (tasks d1))"
  using action_cases[OF assms(2)] valid_diskD(2)[OF assms(1)] put_task_distinct
  by (auto simp: task_put_def delivery_action_def)

lemma alive_live:
  assumes "within d1 d'" "distinct (map taskId (tasks d1))" "alive tid d'"
  shows "live d1 tid"
  using assms by (auto simp: within_def alive_def live_def distinct_map inj_on_def)

lemma action_durable:
  assumes "durable i d" "valid_disk cfg d" "op_action op d = Inr (Some d1)" "op_key_ok op"
    "persist cfg d1 = Inr d'" "alive (i_taskId i) d'"
  shows "durable i d'"
proof (rule durable_persist[OF assms(5)])
  have "live d1 (i_taskId i)"
    using alive_live[OF persist_within_disk[OF assms(5)] action_distinct[OF assms(2,3)] assms(6)] .
  then show "durable i d1"
    using assms(1) action_completed[OF assms(2,3)] action_product_keys[OF assms(3,4)]
    by (simp add: durable_def)
qed

interpretation completed: run_invariant cfg "\<lambda>op d. op_key_ok op \<and> alive (i_taskId i) d" "durable i"
  for cfg i
  by unfold_locales (blast intro: action_durable)

interpretation product_keys: run_invariant cfg "\<lambda>op d. op_key_ok op" product_keys_ok for cfg
proof unfold_locales
  fix d d1 d' op
  assume "product_keys_ok d" "op_action op d = Inr (Some d1)" "persist cfg d1 = Inr d'" "op_key_ok op"
  then show "product_keys_ok d'"
    using action_product_keys persist_within_disk[of cfg d1 d']
    by (auto simp: product_keys_ok_def within_def)
qed

section \<open>Lease tokens\<close>

fun op_token :: "store_op \<Rightarrow> string option" where
  "op_token (OpClaimOutbox now tok c k ms) = Some tok"
| "op_token (OpClaimProduct now tok c tid k ms) = Some tok"
| "op_token op = None"

definition token_free :: "string \<Rightarrow> disk \<Rightarrow> bool" where
  "token_free tok d \<longleftrightarrow> (\<forall>i \<in> set (inbox d). leaseToken i \<noteq> Some tok)"

lemma set_lease_item:
  "i \<in> set (lease_item clear c tid k tok ex is) \<Longrightarrow> i \<in> set is \<or> leaseToken i = Some tok"
proof (cases "find (delivery_of c k) is")
  case (Some j)
  assume "i \<in> set (lease_item clear c tid k tok ex is)"
  with set_update_first[OF Some] show ?thesis
    by (fastforce simp: lease_item_Some[OF Some] lease_again_def)
qed (auto simp: lease_item_None new_delivery_def)

lemma update_tokens:
  assumes "i \<in> set (update_first P f is)" "find P is = Some j"
    "leaseToken (f j) = leaseToken j \<or> leaseToken (f j) = None" "leaseToken i = Some x"
  shows "\<exists>m \<in> set is. leaseToken m = Some x"
proof -
  have "j \<in> set is" using assms(2) find_Some_set by fast
  moreover have "i = f j \<or> i \<in> set is" using set_update_first[OF assms(2), of f] assms(1) by auto
  ultimately show ?thesis using assms(3,4) by auto
qed

lemma item_tokens [simp]:
  "leaseToken (renew_item e x) = leaseToken x" "leaseToken (finish_item rel at res x) = None"
  "leaseToken (close_item at x) = None"
  by (simp_all add: renew_item_def finish_item_def close_item_def)

lemma action_tokens:
  assumes "op_action op d = Inr (Some d1)" "i \<in> set (inbox d1)" "leaseToken i = Some x"
  shows "(\<exists>j \<in> set (inbox d). leaseToken j = Some x) \<or> op_token op = Some x"
proof (cases op)
  case (OpProject now tid v t e)
  with assms show ?thesis by (auto simp: bindE_snd task_put_def dest!: project_shape)
next
  case (OpMutate now tid v m k)
  with assms show ?thesis by (auto simp: bindE_snd task_put_def dest!: mutate_shape)
next
  case (OpClaimOutbox now tok c k ms)
  with assms show ?thesis by (auto simp: bindE_snd dest!: claim_outbox_shape set_lease_item)
next
  case (OpClaimProduct now tok c tid k ms)
  with assms show ?thesis by (auto simp: bindE_snd dest!: claim_product_shape set_lease_item)
next
  case (OpRenew now c tid k tok f ms)
  with assms show ?thesis
    by (auto simp: bindE_snd dest!: renew_shape) (erule update_tokens; simp)
next
  case (OpComplete now c tid k tok f res)
  with assms show ?thesis
    by (auto simp: bindE_snd completeProductEffect_def dest!: finish_shape split: if_splits)
      (erule update_tokens; simp)
next
  case (OpRelease now c tid k tok f)
  with assms show ?thesis
    by (auto simp: bindE_snd releaseProductEffect_def dest!: finish_shape)
      (erule update_tokens; simp)
next
  case (OpCompleteOutbox now c k tok)
  with assms show ?thesis
    by (auto simp: bindE_snd dest!: close_shape) (erule update_tokens; simp)
qed

interpretation void_token: run_invariant cfg "\<lambda>op d. op_token op \<noteq> Some tok" "token_free tok" for cfg tok
proof unfold_locales
  fix d d1 d' op
  assume "token_free tok d" "op_action op d = Inr (Some d1)" "persist cfg d1 = Inr d'"
    "op_token op \<noteq> Some tok"
  then show "token_free tok d'"
    using action_tokens persist_within_disk[of cfg d1 d']
    by (fastforce simp: token_free_def within_def)
qed

text \<open>A token that no delivery carries finishes and renews nothing.\<close>

lemma free_token_idle:
  assumes "token_free tok d"
  shows "finishProductEffect now c tid k tok f res rel d = Inr (b, out) \<Longrightarrow> \<not> b \<and> out = None"
    "renewProductEffect now c tid k tok f ms d = Inr (r, out) \<Longrightarrow> r = None \<and> out = None"
    "completeOutboxEffect now c k tok d = Inr (b, out) \<Longrightarrow> \<not> b \<and> out = None"
  using assms
  by (auto simp: token_free_def finishProductEffect_def renewProductEffect_def
      completeOutboxEffect_def Let_def split: if_splits option.splits dest!: find_Some_set)

section \<open>Tasks that persisting keeps\<close>

lemma compact_tasks_keeps:
  assumes "t \<in> set (tasks d)" "\<And>x. x \<in> set ts \<Longrightarrow> taskId x \<noteq> taskId t"
  shows "t \<in> set (tasks (compact_tasks cfg ts d))"
  using assms
proof (induction cfg ts d rule: compact_tasks.induct)
  case (2 cfg u ts d)
  have "taskId u \<noteq> taskId t" using 2(4) by simp
  then have "t \<in> set (tasks (drop_task (taskId u) d))" using 2(3) by (simp add: drop_task_def)
  with 2 show ?case by simp
qed simp

lemma compact_outbox_tasks [simp]: "tasks (compact_outbox cfg d) = tasks d"
proof (induction cfg d rule: compact_outbox.induct)
  case (1 cfg d)
  then show ?case
    by (subst compact_outbox.simps) (auto simp: drop_effect_def Let_def split: option.split)
qed

lemma compact_inbox_tasks [simp]: "tasks (compact_inbox cfg d) = tasks d"
proof (induction cfg d rule: compact_inbox.induct)
  case (1 cfg d)
  then show ?case
    by (subst compact_inbox.simps) (auto simp: drop_delivery_def split: option.split)
qed

lemma persist_keeps_task:
  assumes "persist cfg d = Inr d'" "distinct (map taskId (tasks d))" "t \<in> set (tasks d)"
    "visibility t \<noteq> Some Deleted"
  shows "t \<in> set (tasks d')"
proof (rule persist_keeps[OF assms(1), where Q = "\<lambda>x. t \<in> set (tasks x)"])
  have other: "taskId x \<noteq> taskId t" if "x \<in> set (tasks d)" "visibility x = Some Deleted" for x
    using that assms(2-4) by (auto simp: distinct_map inj_on_def)
  fix x :: disk assume "t \<in> set (tasks x)" "tasks x = tasks d"
  with other show "t \<in> set (tasks (compact_tasks cfg (deleted_by_age cfg d) x))"
    by (intro compact_tasks_keeps) (auto simp: deleted_by_age_def)
qed (auto simp: assms(3))

lemma compact_tasks_distinct:
  "distinct (map taskId (tasks d)) \<Longrightarrow> distinct (map taskId (tasks (compact_tasks cfg ts d)))"
  by (induction cfg ts d rule: compact_tasks.induct)
    (auto simp: drop_task_def distinct_map_filter)

lemma persist_distinct:
  assumes "persist cfg d = Inr d'" "distinct (map taskId (tasks d))"
  shows "distinct (map taskId (tasks d'))"
proof -
  from assms(1) obtain c where c: "compactStoreDisk cfg d = Inr c" and d': "d' = committed cfg c"
    by (auto simp: persist_def committed_def split: sum.splits)
  have "distinct (map taskId (tasks c))"
    using c assms(2) compact_tasks_distinct by (auto simp: compactStoreDisk_def Let_def split: if_splits)
  then show ?thesis by (simp add: d')
qed

section \<open>Final results\<close>

definition final_result :: "string \<Rightarrow> result_state \<Rightarrow> task_output list \<Rightarrow> disk \<Rightarrow> bool" where
  "final_result tid r os d \<longleftrightarrow>
     (\<exists>t. find_task tid (tasks d) = Some t \<and> tResultState t = r \<and> tOutputs t = os)"

lemma product_event_result:
  assumes "parseProductMutation (MutEvent e at) = Inr m" "reduceDreaminaTask s e = Inr s'"
  shows "resultState s' = resultState s \<and> outputs s' = outputs s"
  using assms
  by (cases e) (auto simp: parseProductMutation_def assertSafeErrorCode_def split: if_splits sum.splits)

lemma mutation_result_final:
  assumes "parseProductMutation m = Inr m'" "applyProductMutation cur m' = Inr t"
    "tResultState cur \<in> {READY, FAILED_PERMANENT}"
  shows "tResultState t = tResultState cur \<and> tOutputs t = tOutputs cur"
proof (cases m)
  case (MutEvent e at)
  with assms(1) have m': "m' = MutEvent e at"
    by (auto simp: parseProductMutation_def split: if_splits task_event.splits)
  with assms(2) obtain s where "reduceDreaminaTask (storedTaskState cur) e = Inr s"
    "tResultState t = resultState s" "tOutputs t = outputs s"
    by (auto simp: applyProductMutation_def split: if_splits sum.splits)
  with product_event_result assms(1) MutEvent show ?thesis
    by (fastforce simp: storedTaskState_def)
qed (use assms in \<open>auto simp: parseProductMutation_def applyProductMutation_def split: if_splits\<close>)

lemma projection_result_final:
  assumes "projection_allowed (Some cur) t" "tResultState cur \<in> {READY, FAILED_PERMANENT}"
  shows "tResultState t = tResultState cur \<and> tOutputs t = tOutputs cur"
  using assms by (auto simp: projectionOutputsAllowed_def)

lemma find_put_task:
  assumes "distinct (map taskId (tasks d))"
  shows "find_task tid (put_task t d) = (if taskId t = tid then Some t else find_task tid (tasks d))"
proof (cases "taskId t = tid")
  case True
  with put_task_mem[of t d] put_task_distinct[OF assms, of t] show ?thesis
    by (simp add: find_task_def find_key_iff)
next
  case False
  then have "find (\<lambda>x. taskId x = tid) (update_first (\<lambda>x. taskId x = taskId t) (\<lambda>_. t) (tasks d))
      = find (\<lambda>x. taskId x = tid) (tasks d)"
    by (intro find_update_first_other) auto
  with False show ?thesis
    by (auto simp: put_task_def find_task_def find_append split: option.split)
qed

lemma action_final:
  assumes d: "valid_disk cfg d" and r: "r \<in> {READY, FAILED_PERMANENT}" "final_result tid r os d"
    and op: "op_action op d = Inr (Some d1)"
  shows "final_result tid r os d1"
proof -
  from r(2) obtain c where c: "find_task tid (tasks d) = Some c" "tResultState c = r" "tOutputs c = os"
    by (auto simp: final_result_def)
  note put = find_put_task[OF valid_diskD(2)[OF d]]
  have keep: "map_option fst (op_put op) \<noteq> Some tid \<Longrightarrow> ?thesis"
    using action_cases[OF op] c put
    by (auto simp: final_result_def task_put_def delivery_action_def)
  show ?thesis
  proof (cases op)
    case (OpProject now tid' v t e)
    then obtain u e' where u: "task_put d (in_effectKey e) u e' d1" "taskId u = tid'"
      "projection_allowed (find_task tid' (tasks d)) u"
      using op by (auto simp: bindE_snd dest!: project_shape)
    show ?thesis
    proof (cases "tid' = tid")
      case True
      then have "projection_allowed (Some c) u" using u(3) c(1) by (simp del: projection_allowed.simps)
      from projection_result_final[OF this] have "tResultState u = r \<and> tOutputs u = os"
        using c(2,3) r(1) by blast
      moreover have "tasks d1 = put_task u d" using u(1) by (simp add: task_put_def)
      ultimately show ?thesis using put[of tid u] u(2) True by (simp add: final_result_def)
    qed (use keep OpProject in simp)
  next
    case (OpMutate now tid' v m k)
    then obtain t out where m: "mutateTask now tid' v m k d = Inr (t, Some d1)"
      using op by (auto simp: bindE_snd)
    show ?thesis
    proof (cases "tid' = tid")
      case True
      have "tResultState t = r \<and> tOutputs t = os"
        using m True c mutation_result_final[of m _ c] r(1)
        by (auto simp: mutateTask_def split: if_splits sum.splits dest!: normalizeTask_Inr)
      moreover have "\<exists>e. task_put d k t e d1 \<and> taskId t = tid"
        using mutate_shape[OF m] True by auto
      ultimately show ?thesis using put[of tid t] by (auto simp: final_result_def task_put_def)
    qed (use keep OpMutate in simp)
  qed (use keep in simp_all)
qed

interpretation final_results: run_invariant cfg "\<lambda>op d. alive tid d"
    "\<lambda>d. r \<in> {READY, FAILED_PERMANENT} \<and> final_result tid r os d" for cfg tid r os
proof unfold_locales
  fix d d1 d' op
  assume a: "r \<in> {READY, FAILED_PERMANENT} \<and> final_result tid r os d" "valid_disk cfg d"
    "op_action op d = Inr (Some d1)" "persist cfg d1 = Inr d'" "alive tid d'"
  then have "final_result tid r os d1" using action_final by blast
  then obtain t where t: "find_task tid (tasks d1) = Some t" "tResultState t = r" "tOutputs t = os"
    by (auto simp: final_result_def)
  note w = persist_within_disk[OF a(4)] and dist = action_distinct[OF a(2,3)]
  from a(5) obtain x where x: "x \<in> set (tasks d')" "taskId x = tid"
    by (auto simp: alive_def)
  with w have "x \<in> set (tasks d1)" by (auto simp: within_def)
  with x find_task_mem[OF t(1)] dist have "x = t" by (auto simp: distinct_map inj_on_def)
  moreover have "distinct (map taskId (tasks d'))"
    by (rule persist_distinct[OF a(4) dist])
  ultimately have "find_task tid (tasks d') = Some t" using x by (simp add: find_task_def find_key_iff)
  with t a(1) show "r \<in> {READY, FAILED_PERMANENT} \<and> final_result tid r os d'"
    by (auto simp: final_result_def)
qed

end
