(* ===== verification/TaskStoreClaims.thy ===== *)
theory TaskStoreClaims
  imports TaskStoreSafety
begin

text \<open>
  The guarantees of the task store over whole calls (\<open>withExclusiveDisk\<close>) and runs of calls, each
  applied to a concrete document.
\<close>

section \<open>Calls\<close>

lemma update_first_cong:
  "(\<And>x. x \<in> set xs \<Longrightarrow> P x = Q x) \<Longrightarrow> update_first P f xs = update_first Q f xs"
  by (induction xs) auto

lemma update_first_eq:
  "distinct xs \<Longrightarrow> i \<in> set (update_first (\<lambda>x. x = j) f xs) \<Longrightarrow> i = f j \<or> i \<in> set xs \<and> i \<noteq> j"
  by (induction xs) (auto split: if_splits)

lemma withExclusive_valid:
  assumes "valid_disk cfg d"
  shows "withExclusiveDisk cfg act (Some d) = bindE (act d) (\<lambda>(res, out).
    case out of None \<Rightarrow> Inr (res, Some d)
              | Some d1 \<Rightarrow> bindE (persist cfg d1) (\<lambda>d'. Inr (res, Some d')))"
  using assms by (simp add: withExclusiveDisk_def)

lemma withExclusive_Inr:
  assumes "withExclusiveDisk cfg act (Some d) = Inr (r, f)"
  shows "valid_disk cfg d \<and> (act d = Inr (r, None) \<and> f = Some d
    \<or> (\<exists>d1 d'. act d = Inr (r, Some d1) \<and> persist cfg d1 = Inr d' \<and> f = Some d'))"
  using assms by (auto simp: withExclusiveDisk_def readStoreDisk_def
      split: if_splits sum.splits option.splits prod.splits)

lemma run_final: "store_run cfg ok d d' \<Longrightarrow> P d \<Longrightarrow> (\<And>op x. ok op x \<Longrightarrow> P x) \<Longrightarrow> P d'"
  by (induction rule: store_run.induct) auto

lemma find_completed:
  assumes "valid_disk cfg d" "i \<in> set (inbox d)"
  shows "find (delivery_of (consumerId i) (i_effectKey i)) (inbox d) = Some i"
    "find (lease_of (consumerId i) (i_taskId i) (i_effectKey i)) (inbox d) = Some i"
  using assms delivery_unique[OF assms(1) _ assms(2)]
  by (auto intro!: find_unique simp: delivery_of_def lease_of_def)

lemma durable_claim:
  assumes "valid_disk cfg d" "durable i d"
    and "lease_ms_ok ms"
  shows "claimProductEffect now tok (consumerId i) (i_taskId i) (i_effectKey i) ms d =
    Inr (ClaimCompleted (case i_result i of None \<Rightarrow> None | Some r \<Rightarrow> r), None)"
proof -
  have i: "i \<in> set (inbox d)" "i_state i = InCompleted" using assms(2) by (auto simp: durable_def)
  have "validInbox i" "inbox_linked d i" using valid_diskD(6,7)[OF assms(1)] i(1) by blast+
  then obtain t where t: "find_task (i_taskId i) (tasks d) = Some t"
    by (cases "find_task (i_taskId i) (tasks d)") (auto simp: inbox_linked_def find_task_None)
  with assms(2) have "visibility t \<noteq> Some Deleted"
    by (auto simp: durable_def live_def dest: find_task_mem)
  with t \<open>validInbox i\<close> find_completed(1)[OF assms(1) i(1)] i(2) assms(3) show ?thesis
    by (simp add: claimProductEffect_def Let_def validInbox_def)
qed

lemma completed_finish:
  assumes "valid_disk cfg d" "i \<in> set (inbox d)" "i_state i = InCompleted"
    "uuid_ok tok" "positive_version f"
  shows "finishProductEffect now (consumerId i) (i_taskId i) (i_effectKey i) tok f res rel d =
    Inr (False, None)"
  using assms(3-) find_completed(2)[OF assms(1,2)] valid_diskD(6)[OF assms(1,2)]
  by (simp add: finishProductEffect_def validInbox_def)

lemma claimed_writes: "claimProductEffect now tok c tid k ms d \<noteq> Inr (Claimed t e f, None)"
  by (simp add: claimProductEffect_def Let_def split: option.split)

lemma exclusive_claim:
  assumes "withExclusiveDisk cfg (claimProductEffect now tok c tid k ms) (Some d) = Inr (Claimed t e f, x)"
  shows "valid_disk cfg d \<and> (\<exists>d0 d1. claimProductEffect now tok c tid k ms d = Inr (Claimed t e f, Some d0)
    \<and> persist cfg d0 = Inr d1 \<and> x = Some d1)"
  using withExclusive_Inr[OF assms] claimed_writes by blast

lemma claimed_delivery:
  assumes "\<And>i. find (delivery_of c k) is = Some i \<Longrightarrow> i_taskId i = tid"
  shows "\<exists>i \<in> set (lease_item clear c tid k tok ex is). consumerId i = c \<and> i_taskId i = tid
    \<and> i_effectKey i = k \<and> i_state i = InPending \<and> leaseToken i = Some tok \<and> leaseExpiresAt i = Some ex
    \<and> fence i = next_fence (find (delivery_of c k) is)"
proof (cases "find (delivery_of c k) is")
  case None
  then show ?thesis by (simp add: lease_item_None new_delivery_def next_fence_def)
next
  case (Some i)
  then have "lease_again clear tok ex i \<in> set (lease_item clear c tid k tok ex is)"
    by (simp add: lease_item_Some update_first_mem)
  then show ?thesis
    using assms[OF Some] find_delivery_mem[OF Some] Some
    by (intro bexI[of _ "lease_again clear tok ex i"]) (simp_all add: lease_again_def next_fence_def)
qed

text \<open>After a claim the claimed delivery carries the new token, every other one its old one.\<close>

lemma lease_item_token_free:
  assumes "valid_disk cfg d" "i \<in> set (lease_item clear c tid k tok ex (inbox d))"
  shows "leaseToken i = Some tok \<or> i \<in> set (inbox d) \<and> \<not> delivery_of c k i"
proof (cases "find (delivery_of c k) (inbox d)")
  case None
  with assms(2) show ?thesis
    by (auto simp: lease_item_None new_delivery_def find_None_all)
next
  case (Some j)
  have j: "j \<in> set (inbox d)" "delivery_of c k j" using find_Some_set[OF Some] by simp_all
  have "i \<in> set (update_first (\<lambda>x. x = j) (lease_again clear tok ex) (inbox d))"
  proof -
    have "delivery_of c k x \<longleftrightarrow> x = j" if "x \<in> set (inbox d)" for x
      using delivery_unique[OF assms(1) that j(1)] j(2) by (auto simp: delivery_of_def)
    then have "update_first (delivery_of c k) g (inbox d) = update_first (\<lambda>x. x = j) g (inbox d)" for g
      by (rule update_first_cong)
    with assms(2) show ?thesis by (simp add: lease_item_Some[OF Some])
  qed
  then have "i = lease_again clear tok ex j \<or> i \<in> set (inbox d) \<and> i \<noteq> j"
    using valid_diskD(8)[OF assms(1)] by (intro update_first_eq) (simp_all add: distinct_map)
  then show ?thesis
    using delivery_unique[OF assms(1) _ j(1)] j(2) by (auto simp: lease_again_def delivery_of_def)
qed

section \<open>A concrete document\<close>

definition ex_config :: store_config where
  "ex_config = \<lparr>maxTasks = 3, maxEffects = 4, localeLe = (\<lambda>a b. length a \<le> length b)\<rparr>"

definition ex_task :: stored_task where
  "ex_task = \<lparr>taskId = ''dreamina:task-0001'', visibility = None, clientOperationId = ''operation-1'',
     tLifecycle = TERMINAL, tTerminalOutcome = Some SUCCEEDED, tSyncState = SYNC_OK,
     tResultState = READY,
     requestHash = ''0123456789abcdef0123456789abcdef0123456789abcdef0123456789abcdef'',
     version = 3, tOutputs = [], tContext = LegacyUnscoped, tAccountBinding = None,
     officialStatus = None, tLastSyncErrorCode = None, mode = None, operation = None, model = None,
     createdAt = None, updatedAt = ''2026-01-02T03:04:05.000Z'', journalRecordId = ''record-0001'',
     projectedJournalVersion = 2\<rparr>"

definition ex_disk :: disk where
  "ex_disk = \<lparr>revision = 7, tasks = [ex_task], outbox = [], inbox = []\<rparr>"

definition ex_tok :: "char \<Rightarrow> string" where
  "ex_tok c = ''00000000-0000-4000-8000-00000000000'' @ [c]"

abbreviation ex_now :: int where "ex_now \<equiv> 1767323045000"
abbreviation ex_key :: string where "ex_key \<equiv> ''materialize:task-0001:0''"
abbreviation ex_id :: string where "ex_id \<equiv> ''dreamina:task-0001''"

definition ex_claim :: "char \<Rightarrow> int \<Rightarrow> store_op" where
  "ex_claim c now = OpClaimProduct now (ex_tok c) ''materializer'' ex_id ex_key 60000"

definition ex_delivery :: "char \<Rightarrow> int \<Rightarrow> inbox_record" where
  "ex_delivery c f = \<lparr>consumerId = ''materializer'', i_taskId = ex_id, i_effectKey = ex_key,
     i_state = InPending, fence = f, leaseToken = Some (ex_tok c),
     leaseExpiresAt = Some ''2026-01-02T03:05:05.000Z'', completedAt = None, releasedAt = None,
     i_result = None\<rparr>"

definition ex_claimed :: disk where
  "ex_claimed = ex_disk\<lparr>revision := 8, outbox := [product_effect ex_now ex_task ex_key],
     inbox := [ex_delivery CHR ''1'' 1]\<rparr>"

definition ex_done :: "int \<Rightarrow> inbox_record" where
  "ex_done f = (ex_delivery CHR ''1'' f)\<lparr>i_state := InCompleted, leaseToken := None, leaseExpiresAt := None,
     completedAt := Some ''2026-01-02T03:04:06.000Z'', i_result := Some (Some ''asset-1'')\<rparr>"

definition ex_completed :: disk where
  "ex_completed = ex_claimed\<lparr>revision := 9, inbox := [ex_done 1]\<rparr>"

lemma ex_now_text: "to_iso_string ex_now = ''2026-01-02T03:04:05.000Z''"
  "to_iso_string (ex_now + 1000) = ''2026-01-02T03:04:06.000Z''"
  "to_iso_string (ex_now + 60000) = ''2026-01-02T03:05:05.000Z''"
  by code_simp+

lemma ex_disk_valid: "valid_disk ex_config ex_disk"
  by code_simp

lemma ex_claimed_valid: "valid_disk ex_config ex_claimed"
  by code_simp

lemma ex_completed_valid: "valid_disk ex_config ex_completed"
  by code_simp

lemma ex_claim_call:
  "claimProductEffect ex_now (ex_tok CHR ''1'') ''materializer'' ex_id ex_key 60000 ex_disk
   = Inr (Claimed (ex_tok CHR ''1'') ''2026-01-02T03:05:05.000Z'' 1, Some (ex_claimed\<lparr>revision := 7\<rparr>))"
  by code_simp

lemma ex_persist:
  "persist ex_config (ex_claimed\<lparr>revision := 7\<rparr>) = Inr ex_claimed"
  "persist ex_config (ex_completed\<lparr>revision := 8\<rparr>) = Inr ex_completed"
  by code_simp+

lemma ex_complete_call:
  "completeProductEffect (ex_now + 1000) ''materializer'' ex_id ex_key (ex_tok CHR ''1'') 1 (Some ''asset-1'')
     ex_claimed = Inr (True, Some (ex_completed\<lparr>revision := 8\<rparr>))"
  by code_simp

section \<open>Writing the document\<close>

text \<open>C1: When the clock is in range, a new lease token is a UUID, the effect key is not in use for
  another task, counters are below the largest safe integer and a renewal does not move the expiry of
  its lease back: a store operation that succeeds within capacity on a valid document leaves a document that the next
  reader accepts, one revision further, and whatever rename of the file replacement the process
  crashes at, recovery accepts the two files and leaves the old or the new document, never an error or
  a mix. (A renewal that moves the expiry back is not safe in this way: \<open>renewal_can_shorten\<close>.)\<close>

theorem store_commit_crash_safe:
  assumes "valid_disk cfg d" "counters_ok d" "op_env_ok d op"
    and "op_action op d = Inr (Some d1)" "\<not> over_capacity cfg d1"
  shows "\<exists>n. store_step cfg (Some d) op = Inr (Some n) \<and> valid_disk cfg n
    \<and> revision n = revision d + 1 \<and> store_progression d n
    \<and> (\<forall>how st. st \<in> set (replaceStoreFile_states how n \<lparr>primary = Some d, backup = None\<rparr>) \<longrightarrow>
         recoverStoreReplacement cfg st = Inr \<lparr>primary = Some d, backup = None\<rparr>
         \<or> recoverStoreReplacement cfg st = Inr \<lparr>primary = Some n, backup = None\<rparr>)"
proof -
  note c = op_commits[OF assms]
  let ?n = "committed cfg d1"
  have n: "valid_disk cfg ?n" "store_progression d ?n" "revision ?n = revision d + 1"
    using c assms(2) by (auto simp: commits_def counters_ok_def intro: committed_valid)
  have "store_step cfg (Some d) op = Inr (Some ?n)"
    using assms(1,4) persist_within[OF assms(5)]
    by (simp add: store_step_def withExclusive_valid)
  with n recover_replacement[OF assms(1) n(1,2)] show ?thesis by blast
qed

theorem store_commit_crash_safe_witness:
  "\<exists>n. store_step ex_config (Some ex_disk) (ex_claim CHR ''1'' ex_now) = Inr (Some n)
    \<and> valid_disk ex_config n
    \<and> revision n = revision ex_disk + 1 \<and> store_progression ex_disk n
    \<and> (\<forall>how st. st \<in> set (replaceStoreFile_states how n \<lparr>primary = Some ex_disk, backup = None\<rparr>) \<longrightarrow>
         recoverStoreReplacement ex_config st = Inr \<lparr>primary = Some ex_disk, backup = None\<rparr>
         \<or> recoverStoreReplacement ex_config st = Inr \<lparr>primary = Some n, backup = None\<rparr>)"
proof (rule store_commit_crash_safe[of ex_config ex_disk _ "ex_claimed\<lparr>revision := 7\<rparr>", OF ex_disk_valid])
  show "counters_ok ex_disk" by code_simp
  show "op_env_ok ex_disk (ex_claim CHR ''1'' ex_now)" by code_simp
  show "op_action (ex_claim CHR ''1'' ex_now) ex_disk = Inr (Some (ex_claimed\<lparr>revision := 7\<rparr>))"
    by (simp add: ex_claim_def ex_claim_call)
  show "\<not> over_capacity ex_config (ex_claimed\<lparr>revision := 7\<rparr>)" by code_simp
qed

section \<open>Effects happen once\<close>

text \<open>C2: Exactly once: when a consumer has completed a product effect, then after any further run
  of the store (other claims, renewals, projections, mutations, and the compaction each write does),
  as long as the task is not deleted, claiming the effect again hands back the recorded result
  without writing, and no token or fence completes it a second time. Task projections and mutations
  do not use product effect keys.\<close>

theorem product_effect_exactly_once:
  assumes "withExclusiveDisk cfg (completeProductEffect now c tid k tok f res) (Some d) = Inr (True, Some d1)"
    and "isProductEffectKey k" "product_keys_ok d" "alive tid d1"
    and "store_run cfg (\<lambda>op x. op_key_ok op \<and> alive tid x) d1 d2" "valid_disk cfg d2"
    and "lease_ms_ok ms" "uuid_ok tok'" "positive_version f'" "validEffectResult res'"
  shows "withExclusiveDisk cfg (claimProductEffect now' new c tid k ms) (Some d2)
      = Inr (ClaimCompleted res, Some d2)
    \<and> withExclusiveDisk cfg (completeProductEffect now' c tid k tok' f' res') (Some d2)
      = Inr (False, Some d2)"
proof -
  let ?P = "lease_of c tid k" and ?f = "finish_item False (to_iso_string now) res"
  from withExclusive_Inr[OF assms(1)] obtain d0 where d: "valid_disk cfg d"
    and fin: "finishProductEffect now c tid k tok f res False d = Inr (True, Some d0)"
    and d1: "persist cfg d0 = Inr d1" and res: "validEffectResult res"
    by (auto simp: completeProductEffect_def finishProductEffect_def split: if_splits option.splits)
  from finish_shape[OF fin] obtain i where i: "find ?P (inbox d) = Some i"
    and d0: "d0 = d\<lparr>inbox := update_first ?P ?f (inbox d)\<rparr>" by auto
  have same: "consumerId (?f i) = c" "i_taskId (?f i) = tid" "i_effectKey (?f i) = k"
    "i_state (?f i) = InCompleted" "i_result (?f i) = Some res"
    using find_lease_mem[OF i] by (auto simp: finish_item_def)
  have "live d0 tid"
    using alive_live[OF persist_within_disk[OF d1] _ assms(4)] valid_diskD(2)[OF d] by (simp add: d0)
  then have "durable (?f i) d0"
    using assms(2,3) update_first_mem[OF i] same
    by (auto simp: durable_def d0 product_keys_ok_def)
  from durable_persist[OF d1 this] have "durable (?f i) d2"
    using completed.run_keeps[where i = "?f i" and cfg = cfg and d = d1 and d' = d2] assms(5) same(2)
    by simp
  note claim = durable_claim[OF assms(6) this assms(7), of now' new, unfolded same]
    and finish = completed_finish[OF assms(6) _ same(4) assms(8,9), of now' res' False, unfolded same(1-3)]
  have mem: "?f i \<in> set (inbox d2)" using \<open>durable (?f i) d2\<close> by (simp add: durable_def)
  show ?thesis
    using claim finish[OF mem] assms(6,10)
    by (simp add: withExclusive_valid completeProductEffect_def)
qed

theorem product_effect_exactly_once_witness:
  "withExclusiveDisk ex_config (claimProductEffect (ex_now + 100000) (ex_tok CHR ''2'') ''materializer'' ex_id ex_key 60000)
      (Some ex_completed) = Inr (ClaimCompleted (Some ''asset-1''), Some ex_completed)
   \<and> withExclusiveDisk ex_config (completeProductEffect (ex_now + 100000) ''materializer'' ex_id ex_key (ex_tok CHR ''1'') 1 None)
      (Some ex_completed) = Inr (False, Some ex_completed)"
proof (rule product_effect_exactly_once)
  show "withExclusiveDisk ex_config (completeProductEffect (ex_now + 1000) ''materializer'' ex_id ex_key
      (ex_tok CHR ''1'') 1 (Some ''asset-1'')) (Some ex_claimed) = Inr (True, Some ex_completed)"
    by (subst withExclusive_valid[OF ex_claimed_valid], subst ex_complete_call) (simp add: ex_persist)
  show "store_run ex_config (\<lambda>op x. op_key_ok op \<and> alive ex_id x) ex_completed ex_completed"
    by (rule store_run.start)
  show "isProductEffectKey ex_key" by code_simp
  show "product_keys_ok ex_claimed" by code_simp
  show "alive ex_id ex_completed" by code_simp
  show "valid_disk ex_config ex_completed" by (rule ex_completed_valid)
  show "lease_ms_ok 60000" "uuid_ok (ex_tok CHR ''1'')" "positive_version 1" "validEffectResult None"
    by code_simp+
qed

section \<open>Leases\<close>

definition ex_retaken :: disk where
  "ex_retaken = ex_claimed\<lparr>revision := 9,
     inbox := [(ex_delivery CHR ''2'' 2)\<lparr>leaseExpiresAt := Some ''2026-01-02T03:06:45.000Z''\<rparr>]\<rparr>"

lemma ex_retaken_valid: "valid_disk ex_config ex_retaken"
  by code_simp

lemma ex_retake_call:
  "claimProductEffect (ex_now + 100000) (ex_tok CHR ''2'') ''materializer'' ex_id ex_key 60000 ex_claimed
   = Inr (Claimed (ex_tok CHR ''2'') ''2026-01-02T03:06:45.000Z'' 2, Some (ex_retaken\<lparr>revision := 8\<rparr>))"
  "persist ex_config (ex_retaken\<lparr>revision := 8\<rparr>) = Inr ex_retaken"
  by code_simp+

text \<open>C7: A lease that was taken over is void for ever: once another caller has claimed the delivery
  under a new token, then after any run in which the old token is not drawn again, nothing the old
  holder calls with its token (complete, release, renew, complete the outbox entry; any key and
  fence) has an effect, whatever compaction and later claims did to the delivery.\<close>

theorem superseded_lease_void:
  assumes "withExclusiveDisk cfg (claimProductEffect now tok c tid k ms) (Some d) = Inr (Claimed tok e f, Some d1)"
    and "old \<noteq> tok" "\<forall>i \<in> set (inbox d). leaseToken i = Some old \<longrightarrow> delivery_of c k i"
    and "store_run cfg (\<lambda>op _. op_token op \<noteq> Some old) d1 d2"
  shows "(withExclusiveDisk cfg (completeProductEffect now' c' tid' k' old f' res) (Some d2) = Inr (b, x)
            \<longrightarrow> \<not> b \<and> x = Some d2)
    \<and> (withExclusiveDisk cfg (releaseProductEffect now' c' tid' k' old f') (Some d2) = Inr (b, x)
            \<longrightarrow> \<not> b \<and> x = Some d2)
    \<and> (withExclusiveDisk cfg (renewProductEffect now' c' tid' k' old f' ms') (Some d2) = Inr (r, y)
            \<longrightarrow> r = None \<and> y = Some d2)
    \<and> (withExclusiveDisk cfg (completeOutboxEffect now' c' k' old) (Some d2) = Inr (b, x)
            \<longrightarrow> \<not> b \<and> x = Some d2)"
proof -
  let ?is = "lease_item True c tid k tok (to_iso_string (now + ms)) (inbox d)"
  from exclusive_claim[OF assms(1)] obtain d0 where d: "valid_disk cfg d"
    and claim: "claimProductEffect now tok c tid k ms d = Inr (Claimed tok e f, Some d0)"
    and d1: "persist cfg d0 = Inr d1"
    by blast
  from claim_product_shape[OF claim] have d0: "inbox d0 = ?is" by (elim exE conjE) simp
  have "leaseToken i \<noteq> Some old" if i: "i \<in> set ?is" for i
    using lease_item_token_free[OF d i] assms(2,3) by (elim disjE conjE) auto
  then have "token_free old d0" by (simp add: token_free_def d0)
  then have "token_free old d1"
    using persist_within_disk[OF d1] by (auto simp: token_free_def within_def)
  then have free: "token_free old d2"
    using void_token.run_keeps[where cfg = cfg and tok = old] assms(4) by blast
  have idle: "withExclusiveDisk cfg act (Some d2) = Inr (v, z) \<Longrightarrow> (\<And>out. act d2 = Inr (v, out) \<Longrightarrow> R \<and> out = None)
      \<Longrightarrow> R \<and> z = Some d2" for act v z R
    using withExclusive_Inr[of cfg act d2 v z] by blast
  have complete: "completeProductEffect now' c' tid' k' old f' res d2 = Inr (b, out) \<Longrightarrow> \<not> b \<and> out = None" for out
    by (rule free_token_idle(1)[OF free]) (simp add: completeProductEffect_def split: if_split_asm)
  have release: "releaseProductEffect now' c' tid' k' old f' d2 = Inr (b, out) \<Longrightarrow> \<not> b \<and> out = None" for out
    by (rule free_token_idle(1)[OF free]) (simp add: releaseProductEffect_def)
  show ?thesis
    by (intro conjI impI; drule idle)
      (assumption | erule complete release free_token_idle[OF free] | simp)+
qed

theorem superseded_lease_void_witness:
  "withExclusiveDisk ex_config (completeProductEffect (ex_now + 100001) ''materializer'' ex_id ex_key
       (ex_tok CHR ''1'') 1 None) (Some ex_retaken) \<noteq> Inr (True, Some ex_retaken)
   \<and> completeProductEffect (ex_now + 100001) ''materializer'' ex_id ex_key (ex_tok CHR ''2'') 2 None ex_retaken
     \<noteq> Inr (False, None)"
proof (intro conjI)
  have claim: "withExclusiveDisk ex_config (claimProductEffect (ex_now + 100000) (ex_tok CHR ''2'')
      ''materializer'' ex_id ex_key 60000) (Some ex_claimed)
    = Inr (Claimed (ex_tok CHR ''2'') ''2026-01-02T03:06:45.000Z'' 2, Some ex_retaken)"
    by (subst withExclusive_valid[OF ex_claimed_valid], subst ex_retake_call(1)) (simp add: ex_retake_call(2))
  have "ex_tok CHR ''1'' \<noteq> ex_tok CHR ''2''" by code_simp
  moreover have "\<forall>i \<in> set (inbox ex_claimed). leaseToken i = Some (ex_tok CHR ''1'')
      \<longrightarrow> delivery_of ''materializer'' ex_key i" by code_simp
  ultimately show "withExclusiveDisk ex_config (completeProductEffect (ex_now + 100001) ''materializer'' ex_id ex_key
       (ex_tok CHR ''1'') 1 None) (Some ex_retaken) \<noteq> Inr (True, Some ex_retaken)"
    using superseded_lease_void[OF claim _ _ store_run.start] by blast
  show "completeProductEffect (ex_now + 100001) ''materializer'' ex_id ex_key (ex_tok CHR ''2'') 2 None ex_retaken
     \<noteq> Inr (False, None)" by code_simp
qed

text \<open>Claiming a product effect excludes everybody else until the lease ends, and leads to its result:
  while the lease runs another claim answers busy with the expiry, its holder completes it with the
  token and fence it was given, and from then on a claim returns the result that was recorded.\<close>

theorem claim_complete_claim:
  assumes "valid_disk cfg d" "counters_ok d" "safe_integer (revision d + 2)"
    and "length (outbox d) < maxEffects cfg" "length (inbox d) < maxEffects cfg"
    and "iso_time now" "iso_time (now + ms)" "uuid_ok tok" "key_owned d k tid"
    and "withExclusiveDisk cfg (claimProductEffect now tok c tid k ms) (Some d) = Inr (Claimed tok e f, Some d1)"
    and "now' < now + ms" "iso_time now'" "validEffectResult res" "lease_ms_ok ms'"
  shows "\<exists>d2. withExclusiveDisk cfg (claimProductEffect now' tok' c tid k ms') (Some d1)
        = Inr (Busy e, Some d1)
    \<and> withExclusiveDisk cfg (completeProductEffect now' c tid k tok f res) (Some d1) = Inr (True, Some d2)
    \<and> withExclusiveDisk cfg (claimProductEffect now'' tok'' c tid k ms') (Some d2)
        = Inr (ClaimCompleted res, Some d2)"
proof -
  let ?P = "delivery_of c k" and ?L = "lease_of c tid k"
  from exclusive_claim[OF assms(10)] obtain d0 where
    claim: "claimProductEffect now tok c tid k ms d = Inr (Claimed tok e f, Some d0)"
    and d1: "persist cfg d0 = Inr d1"
    by blast
  from claim_product_shape[OF claim] obtain t where t: "find_task tid (tasks d) = Some t"
    "visibility t \<noteq> Some Deleted"
    and e: "e = to_iso_string (now + ms)" "f = next_fence (find ?P (inbox d))"
    and args: "safeOpaqueId 1 120 c" "safeTaskId tid" "validEffectKeyValue k"
    and own: "\<And>i. find ?P (inbox d) = Some i \<Longrightarrow> i_taskId i = tid"
    and d0: "tasks d0 = tasks d" "inbox d0 = lease_item True c tid k tok e (inbox d)"
      "length (outbox d0) \<le> Suc (length (outbox d))" "revision d0 = revision d"
    by (elim exE conjE) simp
  have cap: "\<not> over_capacity cfg d0"
    using d0 assms(1,4,5) by (auto simp: over_capacity_def valid_disk_def lease_item_def Let_def)
  note commit = claim_product_commits[OF assms(1,2) claim assms(6-9) cap]
  have d1': "d1 = committed cfg d0" using d1 persist_within[OF cap] by simp
  have v1: "valid_disk cfg d1"
    using commit assms(2) d0(4) unfolding d1' by (intro committed_valid) (auto simp: commits_def counters_ok_def)
  obtain i where i: "i \<in> set (inbox d1)" "consumerId i = c" "i_taskId i = tid" "i_effectKey i = k"
    "i_state i = InPending" "leaseToken i = Some tok" "leaseExpiresAt i = Some e" "fence i = f"
    using claimed_delivery[of c k "inbox d" tid True tok e] own e(2) d0(2) by (auto simp: d1')
  note find = find_completed[OF v1 i(1), unfolded i(2-4)]
  have live: "lease_live now' i" "\<not> lease_expired now' i"
    using i(7) assms(7,11) date_parse_to_iso_string[of "now + ms"]
    by (simp_all add: lease_live_def lease_expired_def e(1))
  have t1: "find_task tid (tasks d1) = Some t"
    using t(1) valid_diskD(2)[OF assms(1)] by (simp add: d1' d0 committed_def find_task_def find_key_sort_by)
  have busy: "claimProductEffect now' tok' c tid k ms' d1 = Inr (Busy e, None)"
    using args t(2) t1 find(1) i live assms(14) by (simp add: claimProductEffect_def Let_def)
  define d2 where "d2 = d1\<lparr>inbox := update_first ?L (finish_item False (to_iso_string now') res) (inbox d1)\<rparr>"
  have fpos: "positive_version f" using valid_diskD(6)[OF v1 i(1)] i(8) by (simp add: validInbox_def)
  have fin: "finishProductEffect now' c tid k tok f res False d1 = Inr (True, Some d2)"
    using args assms(8) fpos find(2) i live by (simp add: finishProductEffect_def d2_def)
  have cap2: "\<not> over_capacity cfg d2"
    using v1 by (simp add: over_capacity_def d2_def valid_disk_def)
  have c2: "commits cfg d1 d2"
    using finish_commits[OF v1 fin assms(12)] assms(13) by simp
  have v2: "valid_disk cfg (committed cfg d2)"
    using c2 assms(3) by (intro committed_valid) (auto simp: commits_def d1' d0(4) add.assoc)
  let ?j = "finish_item False (to_iso_string now') res i"
  have mem: "?j \<in> set (inbox (committed cfg d2))"
    using update_first_mem[OF find(2)] by (simp add: d2_def)
  have j: "consumerId ?j = c" "i_taskId ?j = tid" "i_effectKey ?j = k"
    "i_state ?j = InCompleted" "i_result ?j = Some res"
    using i by (simp_all add: finish_item_def)
  have t2: "find_task tid (tasks (committed cfg d2)) = Some t"
    using t1 valid_diskD(2)[OF v1] by (simp add: d2_def committed_def find_task_def find_key_sort_by)
  have again: "claimProductEffect now'' tok'' c tid k ms' (committed cfg d2) = Inr (ClaimCompleted res, None)"
    using args t(2) t2 find_completed(1)[OF v2 mem, unfolded j(1-3)] j own assms(14)
    by (simp add: claimProductEffect_def Let_def)
  show ?thesis
    using busy fin persist_within[OF cap2] again assms(13)
    by (simp add: withExclusive_valid[OF v1] withExclusive_valid[OF v2] completeProductEffect_def)
qed

theorem claim_complete_claim_witness:
  "\<exists>d2. withExclusiveDisk ex_config (claimProductEffect (ex_now + 1000) (ex_tok CHR ''2'') ''materializer'' ex_id ex_key 60000)
        (Some ex_claimed) = Inr (Busy ''2026-01-02T03:05:05.000Z'', Some ex_claimed)
    \<and> withExclusiveDisk ex_config (completeProductEffect (ex_now + 1000) ''materializer'' ex_id ex_key
        (ex_tok CHR ''1'') 1 (Some ''asset-1'')) (Some ex_claimed) = Inr (True, Some d2)
    \<and> withExclusiveDisk ex_config (claimProductEffect (ex_now + 200000) (ex_tok CHR ''3'') ''materializer'' ex_id ex_key 60000)
        (Some d2) = Inr (ClaimCompleted (Some ''asset-1''), Some d2)"
proof (rule claim_complete_claim[OF ex_disk_valid])
  show "withExclusiveDisk ex_config (claimProductEffect ex_now (ex_tok CHR ''1'') ''materializer'' ex_id ex_key 60000)
      (Some ex_disk) = Inr (Claimed (ex_tok CHR ''1'') ''2026-01-02T03:05:05.000Z'' 1, Some ex_claimed)"
    by (subst withExclusive_valid[OF ex_disk_valid], subst ex_claim_call) (simp add: ex_persist)
  show "counters_ok ex_disk" "safe_integer (revision ex_disk + 2)"
    "length (outbox ex_disk) < maxEffects ex_config" "length (inbox ex_disk) < maxEffects ex_config"
    "key_owned ex_disk ex_key ex_id" "validEffectResult (Some ''asset-1'')" "lease_ms_ok 60000"
    "uuid_ok (ex_tok CHR ''1'')" "iso_time ex_now" "iso_time (ex_now + 60000)" "iso_time (ex_now + 1000)"
    by code_simp+
qed simp

section \<open>Tasks\<close>

text \<open>C14: A projection that succeeds raises the task's version by exactly one and stores the task, and no
  second writer that read the same version can overwrite it: its compare-and-swap and its mutation
  both end in an error and leave the file as it is (a task that is written as deleted may be
  compacted away, so it is excluded).\<close>

theorem no_lost_update:
  assumes "withExclusiveDisk cfg (compareAndSwapTask now tid v t e) (Some d) = Inr (u, Some d1)"
    and "visibility u \<noteq> Some Deleted"
  shows "version u = v + 1 \<and> find_task tid (tasks d1) = Some u
    \<and> withExclusiveDisk cfg (compareAndSwapTask now' tid v t' e') (Some d1) \<noteq> Inr x
    \<and> withExclusiveDisk cfg (mutateTask now' tid v m k) (Some d1) \<noteq> Inr x"
proof -
  from withExclusive_Inr[OF assms(1)] obtain d0 where d: "valid_disk cfg d"
    and cas: "compareAndSwapTask now tid v t e d = Inr (u, Some d0)" and d1: "persist cfg d0 = Inr d1"
    using project_shape[of now tid v t e d u None] by blast
  from project_shape[OF cas] obtain eff where put: "task_put d (in_effectKey e) u eff d0" "taskId u = tid"
    and v: "v = (case find_task tid (tasks d) of None \<Rightarrow> 0 | Some c \<Rightarrow> version c)"
    by auto
  have ver: "version u = v + 1" using put v by (auto simp: task_put_def split: option.split)
  have dist: "distinct (map taskId (tasks d0))"
    using put(1) put_task_distinct[OF valid_diskD(2)[OF d]] by (simp add: task_put_def)
  have "u \<in> set (tasks d0)" using put(1) put_task_mem by (simp add: task_put_def)
  then have "u \<in> set (tasks d1)" by (rule persist_keeps_task[OF d1 dist _ assms(2)])
  with persist_distinct[OF d1 dist] put(2) have found: "find_task tid (tasks d1) = Some u"
    by (simp add: find_task_def find_key_iff)
  have "compareAndSwapTask now' tid v t' e' d1 \<noteq> Inr y" for y
    using found ver by (simp add: compareAndSwapTask_def)
  moreover have "mutateTask now' tid v m k d1 \<noteq> Inr y" for y
    using found ver by (simp add: mutateTask_def)
  ultimately have "withExclusiveDisk cfg (compareAndSwapTask now' tid v t' e') (Some d1) \<noteq> Inr x"
    "withExclusiveDisk cfg (mutateTask now' tid v m k) (Some d1) \<noteq> Inr x"
    using withExclusive_Inr[of cfg _ d1 "fst x" "snd x"] by (metis prod.collapse)+
  with ver found show ?thesis by blast
qed

definition ex_next :: stored_task where
  "ex_next = ex_task\<lparr>projectedJournalVersion := 3, tSyncState := SYNC_RETRY_WAIT\<rparr>"

definition ex_effect :: effect_input where
  "ex_effect = \<lparr>in_effectKey = ''project:record-0001:3'', in_kind = TaskProjected, in_taskId = ex_id,
     in_journalVersion = Some 3\<rparr>"

definition ex_projected :: disk where
  "ex_projected = ex_disk\<lparr>revision := 8, tasks := [ex_next\<lparr>version := 4\<rparr>],
     outbox := [\<lparr>effectKey = ''project:record-0001:3'', e_kind = TaskProjected, e_taskId = ex_id,
       journalVersion = Some 3, taskVersion = 4, e_createdAt = ''2026-01-02T03:04:05.000Z''\<rparr>]\<rparr>"

lemma ex_project_call:
  "compareAndSwapTask ex_now ex_id 3 ex_next ex_effect ex_disk
     = Inr (ex_next\<lparr>version := 4\<rparr>, Some (ex_projected\<lparr>revision := 7\<rparr>))"
  "persist ex_config (ex_projected\<lparr>revision := 7\<rparr>) = Inr ex_projected"
  "visibility ex_next \<noteq> Some Deleted"
  by code_simp+

lemma ex_project_exclusive:
  "withExclusiveDisk ex_config (compareAndSwapTask ex_now ex_id 3 ex_next ex_effect) (Some ex_disk)
   = Inr (ex_next\<lparr>version := 4\<rparr>, Some ex_projected)"
  by (subst withExclusive_valid[OF ex_disk_valid], subst ex_project_call(1)) (simp add: ex_project_call(2))

theorem no_lost_update_witness:
  "find_task ex_id (tasks ex_projected) = Some (ex_next\<lparr>version := 4\<rparr>)
   \<and> withExclusiveDisk ex_config (compareAndSwapTask ex_now ex_id 3 ex_next ex_effect) (Some ex_projected)
     \<noteq> Inr (ex_next, None)"
  using no_lost_update[OF ex_project_exclusive] ex_project_call(3) by simp

text \<open>C17: A final result is final: once a task's result is \<open>READY\<close> or \<open>FAILED_PERMANENT\<close>, no run of store
  operations (projections of newer journal versions and product mutations included) changes the
  result or its outputs while the task stays undeleted.\<close>

theorem final_result_kept:
  assumes "store_run cfg (\<lambda>op x. alive tid x) d d'"
    and "find_task tid (tasks d) = Some t" "tResultState t \<in> {READY, FAILED_PERMANENT}"
  shows "\<exists>u. find_task tid (tasks d') = Some u \<and> tResultState u = tResultState t
    \<and> tOutputs u = tOutputs t"
  using final_results.run_keeps[OF assms(1), of "tResultState t" "tOutputs t"] assms(2,3)
  by (auto simp: final_result_def)

theorem final_result_kept_witness:
  "\<exists>u. find_task ex_id (tasks ex_projected) = Some u \<and> tResultState u = tResultState ex_task
    \<and> tOutputs u = tOutputs ex_task"
proof (rule final_result_kept)
  have "store_step ex_config (Some ex_disk) (OpProject ex_now ex_id 3 ex_next ex_effect) = Inr (Some ex_projected)"
    by (simp add: store_step_def withExclusive_valid[OF ex_disk_valid] ex_project_call)
  moreover have "alive ex_id ex_projected" by code_simp
  ultimately show "store_run ex_config (\<lambda>op x. alive ex_id x) ex_disk ex_projected"
    by (rule store_run.step[OF store_run.start])
  show "find_task ex_id (tasks ex_disk) = Some ex_task" by code_simp
  show "tResultState ex_task \<in> {READY, FAILED_PERMANENT}" by code_simp
qed

section \<open>Gaps\<close>

text \<open>A renewal with a shorter duration moves the expiry back. The file replacement then rejects its
  own new document: a crash between its two renames leaves files that recovery refuses.\<close>

lemma renewal_can_shorten:
  "renewProductEffect ex_now ''materializer'' ex_id ex_key (ex_tok CHR ''1'') 1 100 ex_claimed
     = Inr (Some (''2026-01-02T03:04:05.100Z'', 1),
            Some (ex_claimed\<lparr>inbox := [(ex_delivery CHR ''1'' 1)\<lparr>leaseExpiresAt := Some ''2026-01-02T03:04:05.100Z''\<rparr>]\<rparr>))"
  "recoverStoreReplacement ex_config \<lparr>primary = Some (ex_claimed\<lparr>revision := 9,
       inbox := [(ex_delivery CHR ''1'' 1)\<lparr>leaseExpiresAt := Some ''2026-01-02T03:04:05.100Z''\<rparr>]\<rparr>),
     backup = Some ex_claimed\<rparr> = Inl StateInvalid"
  by code_simp+

text \<open>When the inbox is over capacity, compaction drops a completed delivery together with its outbox
  entry while another consumer still holds a delivery of the same effect: the document that is
  written is one that no later call reads.\<close>

definition ex_shared :: disk where
  "ex_shared = \<lparr>revision = 4, tasks = [ex_task],
     outbox = [\<lparr>effectKey = ''mutate:1'', e_kind = TaskMutated, e_taskId = ex_id, journalVersion = None,
                taskVersion = 3, e_createdAt = ''2026-01-02T03:04:05.000Z''\<rparr>],
     inbox = [(ex_done 1)\<lparr>i_effectKey := ''mutate:1'', consumerId := ''a''\<rparr>,
              (ex_delivery CHR ''1'' 1)\<lparr>i_effectKey := ''mutate:1'', consumerId := ''b''\<rparr>]\<rparr>"

lemma rev_case_file:
  "(case r of Inr (Some d) \<Rightarrow> P d | _ \<Rightarrow> False) \<Longrightarrow> (\<And>d. P d \<Longrightarrow> Q d) \<Longrightarrow>
   case r of Inr (Some d) \<Rightarrow> Q d | _ \<Rightarrow> False"
  by (cases r) (auto split: option.splits)

lemma compaction_strands_delivery:
  "valid_disk (ex_config\<lparr>maxEffects := 2\<rparr>) ex_shared"
  "case store_step (ex_config\<lparr>maxEffects := 2\<rparr>) (Some ex_shared)
       (OpClaimOutbox ex_now (ex_tok CHR ''2'') ''c'' ''mutate:1'' 60000) of
     Inr (Some d) \<Rightarrow> store_step (ex_config\<lparr>maxEffects := 2\<rparr>) (Some d) op = Inl StateInvalid
   | _ \<Rightarrow> False"
proof -
  show "valid_disk (ex_config\<lparr>maxEffects := 2\<rparr>) ex_shared" by code_simp
  have "case store_step (ex_config\<lparr>maxEffects := 2\<rparr>) (Some ex_shared)
       (OpClaimOutbox ex_now (ex_tok CHR ''2'') ''c'' ''mutate:1'' 60000) of
     Inr (Some d) \<Rightarrow> \<not> valid_disk (ex_config\<lparr>maxEffects := 2\<rparr>) d | _ \<Rightarrow> False"
    by code_simp
  moreover have "store_step cfg (Some d) x = Inl StateInvalid" if "\<not> valid_disk cfg d" for cfg d x
    using that by (simp add: store_step_def withExclusiveDisk_def readStoreDisk_def)
  ultimately show "case store_step (ex_config\<lparr>maxEffects := 2\<rparr>) (Some ex_shared)
       (OpClaimOutbox ex_now (ex_tok CHR ''2'') ''c'' ''mutate:1'' 60000) of
     Inr (Some d) \<Rightarrow> store_step (ex_config\<lparr>maxEffects := 2\<rparr>) (Some d) op = Inl StateInvalid
   | _ \<Rightarrow> False"
    by (rule rev_case_file) blast
qed

end
