(* ===== verification/Arbiter.thy ===== *)
theory Arbiter
  imports Complex_Main DevPrelude
begin

text \<open>
  The cross-process arbiter of the Dreamina CLI (\<open>canvas-agent/src/dreamina-cli-arbiter.ts\<close>): one
  state document, read, updated and persisted under a file lock, holds a ticket queue, the active
  lease with its fence epoch and the account session. Each critical section of the class is an
  update here; \<open>mutate\<close> reads, runs it, raises the revision and persists. An error of the update
  leaves the file as it was. Clock values, request ids and options are arguments; the polling loop
  of \<open>acquire\<close> is the sequence of \<open>OpGrant\<close> calls a process makes. The checks that a JSON value has
  the declared shape hold by typing.
\<close>

section \<open>Data\<close>

record queue_entry =
  q_requestId :: string
  ticket :: int
  q_expiresAt :: int

record active_lease =
  a_requestId :: string
  fenceEpoch :: int
  a_expiresAt :: int

record arbiter =
  revision :: int
  nextTicket :: int
  nextFenceEpoch :: int
  sessionEpoch :: int
  accountBinding :: "string option"
  queue :: "queue_entry list"
  active :: "active_lease option"

record session_snapshot =
  s_epoch :: int
  s_binding :: "string option"

datatype arb_error = ArbBusy | ArbFenced | ArbAccountChanged | ArbInvalid

definition MAX_QUEUE :: nat where "MAX_QUEUE = 1000"

definition emptyState :: arbiter where
  "emptyState = \<lparr>revision = 0, nextTicket = 1, nextFenceEpoch = 1, sessionEpoch = 0,
     accountBinding = None, queue = [], active = None\<rparr>"

section \<open>Validation\<close>

definition positiveInteger :: "int \<Rightarrow> bool" where
  "positiveInteger n \<longleftrightarrow> safe_integer n \<and> 1 \<le> n"

definition nonNegativeInteger :: "int \<Rightarrow> bool" where
  "nonNegativeInteger n \<longleftrightarrow> safe_integer n \<and> 0 \<le> n"

definition safeBinding :: "string \<Rightarrow> bool" where
  "safeBinding s \<longleftrightarrow> chars_ok hex_char 64 64 s"

text \<open>\<open>/^[a-f0-9-]{36}$/\<close>: 36 characters, each a hexadecimal digit or a hyphen.\<close>

definition uuid :: "string \<Rightarrow> bool" where
  "uuid s \<longleftrightarrow> chars_ok (\<lambda>c. hex_char c \<or> c = CHR ''-'') 36 36 s"

definition validQueueEntry :: "queue_entry \<Rightarrow> bool" where
  "validQueueEntry e \<longleftrightarrow> uuid (q_requestId e) \<and> positiveInteger (ticket e)"

definition validActive :: "active_lease \<Rightarrow> bool" where
  "validActive a \<longleftrightarrow> uuid (a_requestId a) \<and> positiveInteger (fenceEpoch a)"

definition validState :: "arbiter \<Rightarrow> bool" where
  "validState s \<longleftrightarrow> nonNegativeInteger (revision s) \<and> positiveInteger (nextTicket s)
     \<and> positiveInteger (nextFenceEpoch s) \<and> nonNegativeInteger (sessionEpoch s)
     \<and> length (queue s) \<le> MAX_QUEUE
     \<and> opt_ok safeBinding (accountBinding s)
     \<and> list_all validQueueEntry (queue s)
     \<and> distinct (map q_requestId (queue s)) \<and> distinct (map ticket (queue s))
     \<and> opt_ok validActive (active s)"

section \<open>Updates\<close>

definition pruneExpired :: "int \<Rightarrow> arbiter \<Rightarrow> arbiter" where
  "pruneExpired now s = s\<lparr>queue := filter (\<lambda>e. now < q_expiresAt e) (queue s),
     active := (case active s of None \<Rightarrow> None | Some a \<Rightarrow> if a_expiresAt a \<le> now then None else Some a)\<rparr>"

definition assertExpectedSession :: "session_snapshot option \<Rightarrow> arbiter \<Rightarrow> arb_error + unit" where
  "assertExpectedSession expected s = (case expected of None \<Rightarrow> Inr ()
     | Some x \<Rightarrow> if sessionEpoch s \<noteq> s_epoch x \<or> accountBinding s \<noteq> s_binding x
                then Inl ArbAccountChanged else Inr ())"

definition assertLeaseState :: "int \<Rightarrow> int \<Rightarrow> arbiter \<Rightarrow> arb_error + unit" where
  "assertLeaseState f now s = (case active s of None \<Rightarrow> Inl ArbFenced
     | Some a \<Rightarrow> if fenceEpoch a \<noteq> f \<or> a_expiresAt a \<le> now then Inl ArbFenced else Inr ())"

definition snapshotSession :: "arbiter \<Rightarrow> session_snapshot" where
  "snapshotSession s = \<lparr>s_epoch = sessionEpoch s,
     s_binding = (if truthy (accountBinding s) then accountBinding s else None)\<rparr>"

definition drop_request :: "string \<Rightarrow> queue_entry list \<Rightarrow> queue_entry list" where
  "drop_request r q = filter (\<lambda>e. q_requestId e \<noteq> r) q"

text \<open>Joining the queue: the first critical section of \<open>acquire\<close>.\<close>

definition enqueue :: "int \<Rightarrow> string \<Rightarrow> int \<Rightarrow> arbiter \<Rightarrow> arb_error + (int \<times> arbiter)" where
  "enqueue now r deadline s =
     (let s = pruneExpired now s in
      if MAX_QUEUE \<le> length (queue s) then Inl ArbBusy
      else Inr (nextTicket s, s\<lparr>nextTicket := nextTicket s + 1,
        queue := queue s @ [\<lparr>q_requestId = r, ticket = nextTicket s, q_expiresAt = deadline\<rparr>]\<rparr>))"

text \<open>\<open>state.queue.reduce(...)\<close>: the entry with the least ticket, the earliest one on a tie.\<close>

fun first_ticket :: "queue_entry option \<Rightarrow> queue_entry list \<Rightarrow> queue_entry option" where
  "first_ticket best [] = best"
| "first_ticket best (e # es) =
     first_ticket (case best of None \<Rightarrow> Some e | Some b \<Rightarrow> if ticket e < ticket b then Some e else Some b) es"

text \<open>One poll: the second critical section of \<open>acquire\<close>. \<open>None\<close> is \<open>undefined\<close>, to be polled again.\<close>

definition try_grant ::
  "int \<Rightarrow> string \<Rightarrow> int \<Rightarrow> session_snapshot option \<Rightarrow> int \<Rightarrow> arbiter
   \<Rightarrow> arb_error + ((int \<times> session_snapshot) option \<times> arbiter)" where
  "try_grant now r t expected leaseMs s =
     (let s = pruneExpired now s in
      if find (\<lambda>e. q_requestId e = r \<and> ticket e = t) (queue s) = None then Inl ArbBusy
      else if active s \<noteq> None \<or> map_option q_requestId (first_ticket None (queue s)) \<noteq> Some r
      then Inr (None, s)
      else bindE (assertExpectedSession expected s) (\<lambda>_.
        Inr (Some (nextFenceEpoch s, snapshotSession s),
             s\<lparr>nextFenceEpoch := nextFenceEpoch s + 1, queue := drop_request r (queue s),
               active := Some \<lparr>a_requestId = r, fenceEpoch = nextFenceEpoch s, a_expiresAt = now + leaseMs\<rparr>\<rparr>)))"

definition removeQueued :: "string \<Rightarrow> arbiter \<Rightarrow> arbiter" where
  "removeQueued r s = s\<lparr>queue := drop_request r (queue s)\<rparr>"

definition holds_lease :: "string \<Rightarrow> int \<Rightarrow> arbiter \<Rightarrow> bool" where
  "holds_lease r f s \<longleftrightarrow> (case active s of None \<Rightarrow> False | Some a \<Rightarrow> a_requestId a = r \<and> fenceEpoch a = f)"

definition refreshLease ::
  "int \<Rightarrow> string \<Rightarrow> int \<Rightarrow> session_snapshot option \<Rightarrow> int \<Rightarrow> arbiter \<Rightarrow> arb_error + arbiter" where
  "refreshLease now r f expected leaseMs s =
     (if \<not> holds_lease r f s then Inl ArbFenced
      else bindE (assertExpectedSession expected s) (\<lambda>_.
        Inr (s\<lparr>active := map_option (\<lambda>a. a\<lparr>a_expiresAt := now + leaseMs\<rparr>) (active s)\<rparr>)))"

definition releaseLease :: "string \<Rightarrow> int \<Rightarrow> arbiter \<Rightarrow> arbiter" where
  "releaseLease r f s = (if holds_lease r f s then s\<lparr>active := None\<rparr> else s)"

definition commitSession ::
  "int \<Rightarrow> int \<Rightarrow> string option \<Rightarrow> arbiter \<Rightarrow> arb_error + (session_snapshot \<times> arbiter)" where
  "commitSession f now binding s =
     (if \<not> opt_ok safeBinding binding then Inl ArbInvalid
      else bindE (assertLeaseState f now s) (\<lambda>_.
        let s' = (if accountBinding s \<noteq> binding
                  then s\<lparr>sessionEpoch := sessionEpoch s + 1, accountBinding := binding\<rparr> else s)
        in Inr (snapshotSession s', s')))"

definition advanceSession :: "int \<Rightarrow> int \<Rightarrow> arbiter \<Rightarrow> arb_error + (session_snapshot \<times> arbiter)" where
  "advanceSession f now s =
     bindE (assertLeaseState f now s) (\<lambda>_.
       let s' = s\<lparr>sessionEpoch := sessionEpoch s + 1, accountBinding := None\<rparr>
       in Inr (snapshotSession s', s'))"

section \<open>The document under the lock\<close>

definition readState :: "arbiter option \<Rightarrow> arb_error + arbiter" where
  "readState f = (case f of None \<Rightarrow> Inr emptyState
     | Some s \<Rightarrow> if validState s then Inr s else Inl ArbInvalid)"

definition persistState :: "arbiter \<Rightarrow> arb_error + arbiter" where
  "persistState s = (if validState s then Inr s else Inl ArbInvalid)"

definition mutate ::
  "(arbiter \<Rightarrow> arb_error + ('r \<times> arbiter)) \<Rightarrow> arbiter option \<Rightarrow> arb_error + ('r \<times> arbiter option)" where
  "mutate update f =
     bindE (readState f) (\<lambda>s.
     bindE (update s) (\<lambda>(r, s').
     bindE (persistState (s'\<lparr>revision := revision s' + 1\<rparr>)) (\<lambda>d. Inr (r, Some d))))"

definition inspect :: "(arbiter \<Rightarrow> arb_error + 'r) \<Rightarrow> arbiter option \<Rightarrow> arb_error + 'r" where
  "inspect rd f = bindE (readState f) rd"

definition readSession :: "arbiter option \<Rightarrow> arb_error + session_snapshot" where
  "readSession f = inspect (\<lambda>s. Inr (snapshotSession s)) f"

section \<open>The lease a process holds\<close>

text \<open>The closure of \<open>createLease\<close>: its own \<open>released\<close> and \<open>lost\<close> flags guard the shared state.\<close>

record held_lease =
  h_requestId :: string
  h_fence :: int
  h_expected :: "session_snapshot option"
  released :: bool
  lost :: bool

definition heartbeat :: "int \<Rightarrow> int \<Rightarrow> held_lease \<Rightarrow> arbiter option \<Rightarrow> held_lease \<times> arbiter option" where
  "heartbeat now leaseMs h f =
     (if released h \<or> lost h then (h, f)
      else case mutate (\<lambda>s. bindE (refreshLease now (h_requestId h) (h_fence h) (h_expected h) leaseMs s)
                              (\<lambda>s'. Inr ((), s'))) f of
             Inl e \<Rightarrow> (h\<lparr>lost := True\<rparr>, f)
           | Inr (u, f') \<Rightarrow> (h, f'))"

definition assertCurrent ::
  "int \<Rightarrow> session_snapshot option \<Rightarrow> held_lease \<Rightarrow> arbiter option \<Rightarrow> arb_error + unit" where
  "assertCurrent now expected h f =
     (if released h \<or> lost h then Inl ArbFenced
      else inspect (\<lambda>s.
        if \<not> holds_lease (h_requestId h) (h_fence h) s
           \<or> (case active s of None \<Rightarrow> True | Some a \<Rightarrow> a_expiresAt a \<le> now)
        then Inl ArbFenced
        else assertExpectedSession expected s) f)"

definition release :: "held_lease \<Rightarrow> arbiter option \<Rightarrow> held_lease \<times> (arb_error + arbiter option)" where
  "release h f =
     (if released h then (h, Inr f)
      else (h\<lparr>released := True\<rparr>,
            bindE (mutate (\<lambda>s. Inr ((), releaseLease (h_requestId h) (h_fence h) s)) f)
              (\<lambda>(u, f'). Inr f')))"

text \<open>\<open>Math.min(max, Math.max(min, Math.trunc(value)))\<close>, the clamping of the options.\<close>

definition trunc :: "rat \<Rightarrow> int" where
  "trunc x = (if x < 0 then - floor (- x) else floor x)"

definition bounded :: "rat option \<Rightarrow> int \<Rightarrow> int \<Rightarrow> int \<Rightarrow> int" where
  "bounded v lo hi fallback = (case v of None \<Rightarrow> fallback | Some x \<Rightarrow> min hi (max lo (trunc x)))"

section \<open>The two files\<close>

definition assertArbiterProgression :: "arbiter \<Rightarrow> arbiter \<Rightarrow> bool" where
  "assertArbiterProgression prev cur \<longleftrightarrow>
     \<not> (nextTicket cur < nextTicket prev \<or> nextFenceEpoch cur < nextFenceEpoch prev
        \<or> sessionEpoch cur < sessionEpoch prev
        \<or> (sessionEpoch cur = sessionEpoch prev \<and> accountBinding cur \<noteq> accountBinding prev))"

record arbiter_files =
  primary :: "arbiter option"
  backup :: "arbiter option"

definition recoverArbiterReplacement :: "arbiter_files \<Rightarrow> arb_error + arbiter_files" where
  "recoverArbiterReplacement fs =
     (if backup fs = None then Inr fs
      else bindE (readState (backup fs)) (\<lambda>previous.
        if primary fs = None then Inr \<lparr>primary = backup fs, backup = None\<rparr>
        else bindE (readState (primary fs)) (\<lambda>current.
          if revision current < revision previous then Inl ArbInvalid
          else if revision current = revision previous
          then (if previous = current then Inr (fs\<lparr>backup := None\<rparr>) else Inl ArbInvalid)
          else if assertArbiterProgression previous current then Inr (fs\<lparr>backup := None\<rparr>)
          else Inl ArbInvalid)))"

text \<open>The states the two files pass through while \<open>replaceArbiterState\<close> writes \<open>new\<close>: the rename
  works; or it is denied and the primary is moved aside first; \<open>stuck\<close> when the second rename
  fails and the backup is restored; \<open>kept\<close> when the backup cannot be removed at the end.\<close>

datatype arb_rename = ArbDirect | ArbDenied | ArbStuck | ArbKept

definition replaceArbiterState_states :: "arb_rename \<Rightarrow> arbiter \<Rightarrow> arbiter_files \<Rightarrow> arbiter_files list" where
  "replaceArbiterState_states how new fs =
     (if how = ArbDirect then [fs, fs\<lparr>primary := Some new\<rparr>]
      else if backup fs \<noteq> None then [fs]
      else
        let moved = \<lparr>primary = None, backup = primary fs\<rparr>;
            written = moved\<lparr>primary := Some new\<rparr> in
        if how = ArbStuck then [fs, moved, fs]
        else if how = ArbKept then [fs, moved, written]
        else [fs, moved, written, \<lparr>primary = Some new, backup = None\<rparr>])"

end
