(* ===== verification/ArbiterProofs.thy ===== *)
theory ArbiterProofs
  imports Arbiter
begin

text \<open>
  The arbiter as a machine over its file, what every critical section keeps, and the guarantees of
  runs: fences only grow, a live lease excludes other grants, a fenced caller stays fenced, and an
  unchanged session epoch means that the account never changed.
\<close>

section \<open>The machine\<close>

datatype arb_op =
    OpEnqueue int string int
  | OpGrant int string int "session_snapshot option" int
  | OpRemove string
  | OpRefresh int string int "session_snapshot option" int
  | OpRelease string int
  | OpCommit int int "string option"
  | OpAdvance int int

text \<open>What an operation hands out: a lease (request and fence) when it grants one.\<close>

fun arb_call :: "arb_op \<Rightarrow> arbiter \<Rightarrow> arb_error + ((string \<times> int) option \<times> arbiter)" where
  "arb_call (OpEnqueue now r deadline) s = bindE (enqueue now r deadline s) (\<lambda>x. Inr (None, snd x))"
| "arb_call (OpGrant now r t expected ms) s =
     bindE (try_grant now r t expected ms s) (\<lambda>x. Inr (map_option (\<lambda>g. (r, fst g)) (fst x), snd x))"
| "arb_call (OpRemove r) s = Inr (None, removeQueued r s)"
| "arb_call (OpRefresh now r f expected ms) s =
     bindE (refreshLease now r f expected ms s) (\<lambda>x. Inr (None, x))"
| "arb_call (OpRelease r f) s = Inr (None, releaseLease r f s)"
| "arb_call (OpCommit f now b) s = bindE (commitSession f now b s) (\<lambda>x. Inr (None, snd x))"
| "arb_call (OpAdvance f now) s = bindE (advanceSession f now s) (\<lambda>x. Inr (None, snd x))"

definition arb_step :: "arbiter option \<Rightarrow> arb_op \<Rightarrow> arb_error + arbiter option" where
  "arb_step f op = bindE (mutate (arb_call op) f) (\<lambda>x. Inr (snd x))"

text \<open>The leases handed out along a run in which callers catch their errors.\<close>

fun arb_grants :: "arbiter option \<Rightarrow> arb_op list \<Rightarrow> (string \<times> int) list" where
  "arb_grants f [] = []"
| "arb_grants f (op # ops) = (case mutate (arb_call op) f of
       Inl e \<Rightarrow> arb_grants f ops
     | Inr (g, f') \<Rightarrow> (case g of None \<Rightarrow> [] | Some x \<Rightarrow> [x]) @ arb_grants f' ops)"

definition content :: "arbiter option \<Rightarrow> arbiter" where
  "content f = (case f of None \<Rightarrow> emptyState | Some s \<Rightarrow> s)"

lemma mutate_Inr:
  assumes "mutate u f = Inr (r, f')"
  shows "validState (content f)
    \<and> (\<exists>s. u (content f) = Inr (r, s) \<and> f' = Some (s\<lparr>revision := revision s + 1\<rparr>)
         \<and> validState (s\<lparr>revision := revision s + 1\<rparr>))"
proof -
  have "validState emptyState" by code_simp
  then show ?thesis using assms
    by (auto simp: mutate_def readState_def persistState_def content_def
        split: option.splits if_splits sum.splits prod.splits)
qed

section \<open>One critical section\<close>

lemma prune_simps [simp]:
  "revision (pruneExpired now s) = revision s" "nextTicket (pruneExpired now s) = nextTicket s"
  "nextFenceEpoch (pruneExpired now s) = nextFenceEpoch s"
  "sessionEpoch (pruneExpired now s) = sessionEpoch s"
  "accountBinding (pruneExpired now s) = accountBinding s"
  by (simp_all add: pruneExpired_def)

text \<open>Tickets and fences in the document were handed out by its counters.\<close>

definition counters_ahead :: "arbiter \<Rightarrow> bool" where
  "counters_ahead s \<longleftrightarrow> list_all (\<lambda>e. ticket e < nextTicket s) (queue s)
     \<and> opt_ok (\<lambda>a. fenceEpoch a < nextFenceEpoch s) (active s)"

lemma prune_ahead: "counters_ahead s \<Longrightarrow> counters_ahead (pruneExpired now s)"
  by (auto simp: counters_ahead_def pruneExpired_def list_all_iff split: option.split)

lemmas arb_defs = enqueue_def try_grant_def removeQueued_def refreshLease_def releaseLease_def
  commitSession_def advanceSession_def drop_request_def Let_def

lemma call_ahead:
  assumes "arb_call op s = Inr (g, t)" "counters_ahead s"
  shows "counters_ahead t"
proof (cases op)
  case (OpEnqueue now r deadline)
  with assms prune_ahead[OF assms(2), of now] show ?thesis
    by (fastforce simp: counters_ahead_def list_all_iff enqueue_def Let_def split: if_splits)
next
  case (OpGrant now r t' expected ms)
  with assms prune_ahead[OF assms(2), of now] show ?thesis
    by (auto simp: counters_ahead_def list_all_iff try_grant_def Let_def drop_request_def
        split: if_splits sum.splits)
next
  case (OpRefresh now r f expected ms)
  with assms show ?thesis
    by (auto simp: counters_ahead_def list_all_iff refreshLease_def holds_lease_def
        split: if_splits sum.splits option.splits)
qed (use assms in \<open>auto simp: counters_ahead_def list_all_iff removeQueued_def releaseLease_def
    commitSession_def advanceSession_def drop_request_def Let_def split: if_splits sum.splits\<close>)

text \<open>What one critical section does to the counters, the session and the lease.\<close>

definition arb_progress :: "arbiter \<Rightarrow> arbiter \<Rightarrow> bool" where
  "arb_progress s t \<longleftrightarrow> nextTicket s \<le> nextTicket t \<and> nextFenceEpoch s \<le> nextFenceEpoch t
     \<and> sessionEpoch s \<le> sessionEpoch t
     \<and> (sessionEpoch s = sessionEpoch t \<longrightarrow> accountBinding t = accountBinding s)"

lemma arb_progress_refl: "arb_progress s s"
  by (simp add: arb_progress_def)

lemma arb_progress_trans: "arb_progress s t \<Longrightarrow> arb_progress t u \<Longrightarrow> arb_progress s u"
  by (auto simp: arb_progress_def)

lemma call_progress:
  assumes "arb_call op s = Inr (g, t)"
  shows "arb_progress s t \<and> revision t = revision s"
proof (cases op)
  case (OpCommit f now b)
  with assms show ?thesis
    by (auto simp: arb_progress_def commitSession_def Let_def split: if_splits sum.splits)
next
  case (OpAdvance f now)
  with assms show ?thesis by (auto simp: arb_progress_def advanceSession_def Let_def split: sum.splits)
next
  case (OpRefresh now r f expected ms)
  with assms show ?thesis
    by (auto simp: arb_progress_def refreshLease_def split: if_splits sum.splits)
qed (use assms in \<open>auto simp: arb_progress_def enqueue_def try_grant_def removeQueued_def
    releaseLease_def Let_def split: if_splits sum.splits\<close>)

lemma grant_shape:
  assumes "arb_call op s = Inr (Some (r, f), t)"
  shows "f = nextFenceEpoch s \<and> nextFenceEpoch t = f + 1
    \<and> (\<exists>now tk ex ms. op = OpGrant now r tk ex ms \<and> active (pruneExpired now s) = None
         \<and> assertExpectedSession ex s = Inr ()
         \<and> map_option q_requestId (first_ticket None (queue (pruneExpired now s))) = Some r
         \<and> active t = Some \<lparr>a_requestId = r, fenceEpoch = f, a_expiresAt = now + ms\<rparr>)"
proof -
  obtain now r' tk ex ms where op: "op = OpGrant now r' tk ex ms"
    using assms by (cases op) (auto split: sum.splits)
  have "assertExpectedSession ex (pruneExpired now s) = assertExpectedSession ex s"
    by (simp add: assertExpectedSession_def split: option.split)
  with assms show ?thesis unfolding op
    by (auto simp: try_grant_def Let_def split: if_splits sum.splits)
qed

section \<open>Runs\<close>

definition file_ok :: "arbiter option \<Rightarrow> bool" where
  "file_ok f \<longleftrightarrow> counters_ahead (content f)"

lemma bump_simps [simp]:
  "counters_ahead (s\<lparr>revision := n\<rparr>) = counters_ahead s"
  "arb_progress s (t\<lparr>revision := n\<rparr>) = arb_progress s t"
  by (simp_all add: counters_ahead_def arb_progress_def)

lemma step_content:
  assumes "arb_step f op = Inr f'"
  shows "validState (content f) \<and> validState (content f')
    \<and> (\<exists>g s. arb_call op (content f) = Inr (g, s) \<and> content f' = s\<lparr>revision := revision s + 1\<rparr>)"
  using assms mutate_Inr[of "arb_call op" f]
  by (fastforce simp: arb_step_def content_def split: sum.splits)

interpretation arb: guarded_machine arb_step file_ok "\<lambda>f g. arb_progress (content f) (content g)"
proof unfold_locales
  fix f op f' assume "file_ok f" "arb_step f op = Inr f'"
  then show "file_ok f'" "arb_progress (content f) (content f')"
    using step_content[of f op f'] call_ahead call_progress by (fastforce simp: file_ok_def)+
qed (auto intro: arb_progress_refl arb_progress_trans)

lemma assert_pruned [simp]:
  "assertExpectedSession ex (pruneExpired now s) = assertExpectedSession ex s"
  by (simp add: assertExpectedSession_def split: option.split)

lemma step_progress: "arb_step f op = Inr f' \<Longrightarrow> arb_progress (content f) (content f')"
  using step_content[of f op f'] call_progress by fastforce

section \<open>Queue order\<close>

lemma first_ticket_Some:
  "first_ticket best es = Some b \<Longrightarrow>
   (best = Some b \<or> b \<in> set es) \<and> (\<forall>e \<in> set es. ticket b \<le> ticket e)
   \<and> (\<forall>x. best = Some x \<longrightarrow> ticket b \<le> ticket x)"
proof (induction best es rule: first_ticket.induct)
  case (2 best e es)
  then show ?case by (fastforce split: option.splits if_splits)
qed simp

lemma first_ticket_None: "first_ticket best es = None \<longleftrightarrow> best = None \<and> es = []"
  by (induction best es rule: first_ticket.induct) (auto split: option.split)

lemma set_pruned_queue: "set (queue (pruneExpired now s)) = {e \<in> set (queue s). now < q_expiresAt e}"
  by (simp add: pruneExpired_def)

lemma pruned_active_None:
  "active (pruneExpired now s) = None \<longleftrightarrow> (\<forall>a. active s = Some a \<longrightarrow> a_expiresAt a \<le> now)"
  by (simp add: pruneExpired_def split: option.split)

text \<open>The head of the pruned queue is the live entry with the least ticket.\<close>

lemma first_iff_least:
  assumes "validState s" "e \<in> set (queue s)" "now < q_expiresAt e"
  shows "map_option q_requestId (first_ticket None (queue (pruneExpired now s))) = Some (q_requestId e)
    \<longleftrightarrow> (\<forall>x \<in> set (queue s). now < q_expiresAt x \<longrightarrow> ticket e \<le> ticket x)"
proof -
  let ?q = "queue (pruneExpired now s)"
  have e: "e \<in> set ?q" using assms(2,3) by (simp add: set_pruned_queue)
  then obtain b where b: "first_ticket None ?q = Some b"
    using first_ticket_None[of None ?q] by fastforce
  note least = first_ticket_Some[OF b]
  have same: "b = e" if "q_requestId b = q_requestId e \<or> ticket b = ticket e"
    using that least assms by (auto simp: validState_def set_pruned_queue distinct_map inj_on_def)
  show ?thesis
  proof
    assume "map_option q_requestId (first_ticket None ?q) = Some (q_requestId e)"
    with b same least show "\<forall>x \<in> set (queue s). now < q_expiresAt x \<longrightarrow> ticket e \<le> ticket x"
      by (auto simp: set_pruned_queue)
  next
    assume "\<forall>x \<in> set (queue s). now < q_expiresAt x \<longrightarrow> ticket e \<le> ticket x"
    with least have "ticket e \<le> ticket b" "ticket b \<le> ticket e" using e by (auto simp: set_pruned_queue)
    with same b show "map_option q_requestId (first_ticket None ?q) = Some (q_requestId e)" by simp
  qed
qed

section \<open>Persisting never rejects an update\<close>

definition counters_room :: "arbiter \<Rightarrow> bool" where
  "counters_room s \<longleftrightarrow> safe_integer (revision s + 1) \<and> safe_integer (nextTicket s + 1)
     \<and> safe_integer (nextFenceEpoch s + 1) \<and> safe_integer (sessionEpoch s + 1)"

fun op_args_ok :: "arb_op \<Rightarrow> arbiter \<Rightarrow> bool" where
  "op_args_ok (OpEnqueue now r deadline) s = (uuid r \<and> r \<notin> q_requestId ` set (queue s))"
| "op_args_ok op s = True"

lemma valid_prune: "validState s \<Longrightarrow> validState (pruneExpired now s)"
  by (auto simp: validState_def pruneExpired_def list_all_iff distinct_map_filter
      split: option.split intro: le_trans[OF length_filter_le])

lemma valid_drop: "validState s \<Longrightarrow> validState (s\<lparr>queue := drop_request r (queue s)\<rparr>)"
  by (auto simp: validState_def drop_request_def list_all_iff distinct_map_filter
      intro: le_trans[OF length_filter_le])

lemma enqueue_valid:
  assumes "validState s" "counters_ahead s" "safe_integer (nextTicket s + 1)" "uuid r"
    "r \<notin> q_requestId ` set (queue s)" "enqueue now r deadline s = Inr (t, u)"
  shows "validState u"
proof -
  let ?p = "pruneExpired now s"
  have p: "validState ?p" "counters_ahead ?p" using assms valid_prune prune_ahead by blast+
  have fresh: "r \<notin> q_requestId ` set (queue ?p)" "nextTicket s \<notin> ticket ` set (queue ?p)"
    using assms(5) p(2) by (auto simp: set_pruned_queue counters_ahead_def list_all_iff)
  have u: "u = ?p\<lparr>nextTicket := nextTicket s + 1,
      queue := queue ?p @ [\<lparr>q_requestId = r, ticket = nextTicket s, q_expiresAt = deadline\<rparr>]\<rparr>"
    "length (queue ?p) < MAX_QUEUE"
    using assms(6) by (auto simp: enqueue_def Let_def split: if_splits)
  show ?thesis
    using p(1) fresh u(2) assms(3,4) unfolding u(1)
    by (auto simp: validState_def validQueueEntry_def positiveInteger_def)
qed

lemma grant_valid:
  assumes "validState s" "safe_integer (nextFenceEpoch s + 1)"
    "try_grant now r t ex ms s = Inr (g, u)"
  shows "validState u"
proof -
  let ?p = "pruneExpired now s"
  have p: "validState ?p" by (rule valid_prune[OF assms(1)])
  show ?thesis
  proof (cases g)
    case None
    with assms(3) have "u = ?p" by (auto simp: try_grant_def Let_def split: if_splits sum.splits)
    with p show ?thesis by simp
  next
    case (Some x)
    with assms(3) have u: "u = ?p\<lparr>nextFenceEpoch := nextFenceEpoch s + 1, queue := drop_request r (queue ?p),
        active := Some \<lparr>a_requestId = r, fenceEpoch = nextFenceEpoch s, a_expiresAt = now + ms\<rparr>\<rparr>"
      and "\<exists>e \<in> set (queue ?p). q_requestId e = r"
      by (auto simp: try_grant_def Let_def find_None_all split: if_splits sum.splits)
    then have "uuid r" using p by (auto simp: validState_def list_all_iff validQueueEntry_def)
    then show ?thesis using valid_drop[OF p, of r] assms(2) unfolding u
      by (auto simp: validState_def validActive_def positiveInteger_def)
  qed
qed

lemma call_valid:
  assumes "validState s" "counters_ahead s" "counters_room s" "op_args_ok op s"
    "arb_call op s = Inr (g, t)"
  shows "validState t"
proof (cases op)
  case (OpEnqueue now r deadline)
  with assms enqueue_valid[OF assms(1,2), of r now deadline] show ?thesis
    by (auto simp: counters_room_def split: sum.splits prod.splits)
next
  case (OpGrant now r tk ex ms)
  with assms grant_valid[OF assms(1), of now r tk ex ms] show ?thesis
    by (auto simp: counters_room_def split: sum.splits prod.splits)
next
  case (OpRemove r)
  with assms valid_drop show ?thesis by (auto simp: removeQueued_def)
next
  case (OpRefresh now r f ex ms)
  with assms show ?thesis
    by (auto simp: refreshLease_def holds_lease_def validState_def validActive_def
        split: if_splits sum.splits option.splits)
next
  case (OpRelease r f)
  with assms show ?thesis by (auto simp: releaseLease_def validState_def split: if_splits)
next
  case (OpCommit f now b)
  with assms show ?thesis
    by (auto simp: commitSession_def Let_def validState_def counters_room_def nonNegativeInteger_def
        split: if_splits sum.splits)
next
  case (OpAdvance f now)
  with assms show ?thesis
    by (auto simp: advanceSession_def Let_def validState_def counters_room_def nonNegativeInteger_def
        split: sum.splits)
qed

lemma recover_arbiter:
  assumes "validState old" "validState new" "revision new = revision old + 1" "arb_progress old new"
    and "st \<in> set (replaceArbiterState_states how new \<lparr>primary = Some old, backup = None\<rparr>)"
  shows "recoverArbiterReplacement st \<in> {Inr \<lparr>primary = Some old, backup = None\<rparr>,
    Inr \<lparr>primary = Some new, backup = None\<rparr>}"
  using assms
  by (cases how) (auto simp: replaceArbiterState_states_def recoverArbiterReplacement_def Let_def
      readState_def assertArbiterProgression_def arb_progress_def)

section \<open>Grants along runs\<close>

lemma grants_fences:
  "sorted_wrt (<) (map snd (arb_grants f ops))
   \<and> (\<forall>x \<in> set (arb_grants f ops). nextFenceEpoch (content f) \<le> snd x)"
proof (induction ops arbitrary: f)
  case (Cons op ops)
  show ?case
  proof (cases "mutate (arb_call op) f")
    case (Inl e)
    with Cons show ?thesis by simp
  next
    case (Inr p)
    obtain g f' where p: "p = (g, f')" by fastforce
    with Inr have m: "mutate (arb_call op) f = Inr (g, f')" by simp
    from mutate_Inr[OF m] obtain s where s: "arb_call op (content f) = Inr (g, s)"
      "content f' = s\<lparr>revision := revision s + 1\<rparr>" by (auto simp: content_def)
    note IH = Cons.IH[of f']
    have mono: "nextFenceEpoch (content f) \<le> nextFenceEpoch (content f')"
      using call_progress[OF s(1)] s(2) by (simp add: arb_progress_def)
    show ?thesis
    proof (cases g)
      case None
      with m IH mono show ?thesis by fastforce
    next
      case (Some x)
      with grant_shape[of op "content f" "fst x" "snd x" s] s
      have "snd x = nextFenceEpoch (content f)" "nextFenceEpoch (content f') = snd x + 1" by auto
      with m Some IH show ?thesis by fastforce
    qed
  qed
qed simp

text \<open>A live lease: no operation below its expiry, other than its own release, ends it.\<close>

definition lease_until :: "string \<Rightarrow> int \<Rightarrow> int \<Rightarrow> arbiter option \<Rightarrow> bool" where
  "lease_until r f T x \<longleftrightarrow> (case active (content x) of None \<Rightarrow> False
     | Some a \<Rightarrow> a_requestId a = r \<and> fenceEpoch a = f \<and> T \<le> a_expiresAt a)"

fun below :: "string \<Rightarrow> int \<Rightarrow> int \<Rightarrow> arb_op \<Rightarrow> bool" where
  "below r f T (OpEnqueue now r' deadline) = (now < T)"
| "below r f T (OpGrant now r' t ex ms) = (now < T)"
| "below r f T (OpRefresh now r' f' ex ms) = ((r', f') \<noteq> (r, f) \<or> T \<le> now + ms)"
| "below r f T (OpRelease r' f') = ((r', f') \<noteq> (r, f))"
| "below r f T op = True"

lemma prune_live:
  "lease_until r f T (Some s) \<Longrightarrow> now < T \<Longrightarrow> active (pruneExpired now s) = active s"
  by (auto simp: lease_until_def content_def pruneExpired_def split: option.splits)

lemma call_keeps_lease:
  assumes "lease_until r f T (Some s)" "below r f T op" "arb_call op s = Inr (g, t)"
  shows "g = None \<and> lease_until r f T (Some t)"
proof (cases op)
  case (OpEnqueue now r' deadline)
  with assms prune_live[OF assms(1)] show ?thesis
    by (auto simp: lease_until_def content_def enqueue_def Let_def split: if_splits)
next
  case (OpGrant now r' tk ex ms)
  with assms prune_live[OF assms(1), of now] have "active (pruneExpired now s) = active s" by simp
  with OpGrant assms show ?thesis
    by (auto simp: lease_until_def content_def try_grant_def Let_def split: if_splits option.splits sum.splits)
next
  case (OpRefresh now r' f' ex ms)
  with assms show ?thesis
    by (auto simp: lease_until_def content_def refreshLease_def holds_lease_def
        split: if_splits option.splits sum.splits)
next
  case (OpRelease r' f')
  with assms show ?thesis
    by (auto simp: lease_until_def content_def releaseLease_def holds_lease_def
        split: if_splits option.splits)
qed (use assms in \<open>auto simp: lease_until_def content_def removeQueued_def commitSession_def
    advanceSession_def Let_def split: if_splits sum.splits\<close>)

lemma lease_excludes_grants:
  "lease_until r f T x \<Longrightarrow> list_all (below r f T) ops \<Longrightarrow>
   arb_grants x ops = [] \<and> lease_until r f T (run_try arb_step x ops)"
proof (induction ops arbitrary: x)
  case (Cons op ops)
  show ?case
  proof (cases "mutate (arb_call op) x")
    case (Inl e)
    with Cons show ?thesis by (simp add: arb_step_def)
  next
    case (Inr p)
    then obtain g y where p: "mutate (arb_call op) x = Inr (g, y)" by (cases p) simp
    from mutate_Inr[OF p] obtain s where s: "arb_call op (content x) = Inr (g, s)"
      "content y = s\<lparr>revision := revision s + 1\<rparr>" by (auto simp: content_def)
    have "lease_until r f T (Some (content x))" using Cons.prems(1) by (simp add: lease_until_def content_def)
    from call_keeps_lease[OF this _ s(1)] Cons.prems(2) have "g = None" "lease_until r f T (Some s)" by simp_all
    then have "lease_until r f T y" using s(2) by (simp add: lease_until_def content_def)
    with Cons.IH[OF this] Cons.prems(2) p \<open>g = None\<close> show ?thesis by (simp add: arb_step_def)
  qed
qed simp

section \<open>A lease that ended\<close>

definition lease_gone :: "int \<Rightarrow> arbiter \<Rightarrow> bool" where
  "lease_gone f s \<longleftrightarrow> f < nextFenceEpoch s
     \<and> (case active s of None \<Rightarrow> True | Some a \<Rightarrow> fenceEpoch a \<noteq> f)"

lemma call_gone:
  assumes "lease_gone f s" "arb_call op s = Inr (g, t)"
  shows "lease_gone f t"
proof (cases op)
  case (OpEnqueue now r deadline)
  with assms show ?thesis
    by (auto simp: lease_gone_def enqueue_def pruneExpired_def Let_def split: if_splits option.splits)
next
  case (OpGrant now r tk ex ms)
  with assms show ?thesis
    by (auto simp: lease_gone_def try_grant_def pruneExpired_def Let_def split: if_splits option.splits sum.splits)
next
  case (OpRefresh now r f' ex ms)
  with assms show ?thesis
    by (auto simp: lease_gone_def refreshLease_def split: if_splits option.splits sum.splits)
qed (use assms in \<open>auto simp: lease_gone_def removeQueued_def releaseLease_def commitSession_def
    advanceSession_def Let_def split: if_splits sum.splits\<close>)

interpretation gone: guarded_machine arb_step "\<lambda>x. lease_gone f (content x)" "\<lambda>_ _. True" for f
proof unfold_locales
  fix x op y assume gone: "lease_gone f (content x)" and step: "arb_step x op = Inr y"
  from step_content[OF step] obtain g s where s: "arb_call op (content x) = Inr (g, s)"
    "content y = s\<lparr>revision := revision s + 1\<rparr>" by blast
  from call_gone[OF gone s(1)] show "lease_gone f (content y)" by (simp add: s(2) lease_gone_def)
qed simp_all

lemma gone_fenced:
  assumes "lease_gone f s"
  shows "assertLeaseState f now s = Inl ArbFenced" "\<not> holds_lease r f s"
  using assms by (auto simp: lease_gone_def assertLeaseState_def holds_lease_def split: option.split)

section \<open>Guarantees\<close>

definition ex_req :: "char \<Rightarrow> string" where
  "ex_req c = ''00000000-0000-4000-8000-00000000000'' @ [c]"

definition ex_arbiter :: arbiter where
  "ex_arbiter = \<lparr>revision = 5, nextTicket = 8, nextFenceEpoch = 4, sessionEpoch = 2, accountBinding = None,
     queue = [\<lparr>q_requestId = ex_req CHR ''7'', ticket = 7, q_expiresAt = 900\<rparr>,
              \<lparr>q_requestId = ex_req CHR ''6'', ticket = 6, q_expiresAt = 50\<rparr>],
     active = Some \<lparr>a_requestId = ex_req CHR ''5'', fenceEpoch = 3, a_expiresAt = 200\<rparr>\<rparr>"

definition ex_ops :: "arb_op list" where
  "ex_ops = [OpGrant 100 (ex_req CHR ''7'') 7 None 500, OpRefresh 120 (ex_req CHR ''5'') 3 None 100,
     OpEnqueue 150 (ex_req CHR ''8'') 800, OpCommit 3 160 None]"

text \<open>C20: Every critical section that succeeds on a valid state is persisted: the document it writes is
  valid again (so no reader rejects it), one revision further, and a crash at any rename of the file
  replacement is recovered to the old or the new document. Counters are below the largest safe
  integer and a joining request has a fresh id.\<close>

theorem arbiter_commit_crash_safe:
  assumes "validState s" "counters_ahead s" "counters_room s" "op_args_ok op s"
    and "arb_call op s = Inr (g, t)"
  shows "\<exists>n. arb_step (Some s) op = Inr (Some n) \<and> validState n \<and> revision n = revision s + 1
    \<and> (\<forall>how. \<forall>st \<in> set (replaceArbiterState_states how n \<lparr>primary = Some s, backup = None\<rparr>).
         recoverArbiterReplacement st \<in> {Inr \<lparr>primary = Some s, backup = None\<rparr>,
           Inr \<lparr>primary = Some n, backup = None\<rparr>})"
proof -
  let ?n = "t\<lparr>revision := revision t + 1\<rparr>"
  have rev: "revision t = revision s" "arb_progress s t" using call_progress[OF assms(5)] by simp_all
  have v: "validState ?n"
    using call_valid[OF assms] assms(1,3) rev(1)
    by (auto simp: validState_def counters_room_def nonNegativeInteger_def)
  have step: "arb_step (Some s) op = Inr (Some ?n)"
    using assms(1,5) v by (simp add: arb_step_def mutate_def readState_def persistState_def)
  have "recoverArbiterReplacement st \<in> {Inr \<lparr>primary = Some s, backup = None\<rparr>,
      Inr \<lparr>primary = Some ?n, backup = None\<rparr>}"
    if "st \<in> set (replaceArbiterState_states how ?n \<lparr>primary = Some s, backup = None\<rparr>)" for how st
    using recover_arbiter[OF assms(1) v _ _ that] rev by simp
  with step v rev(1) show ?thesis by (intro exI[of _ ?n]) simp
qed

theorem arbiter_commit_crash_safe_witness:
  "\<exists>n. arb_step (Some ex_arbiter) (OpCommit 3 100 (Some (replicate 64 CHR ''a''))) = Inr (Some n)
    \<and> validState n \<and> revision n = 6
    \<and> (\<forall>how. \<forall>st \<in> set (replaceArbiterState_states how n \<lparr>primary = Some ex_arbiter, backup = None\<rparr>).
         recoverArbiterReplacement st \<in> {Inr \<lparr>primary = Some ex_arbiter, backup = None\<rparr>,
           Inr \<lparr>primary = Some n, backup = None\<rparr>})"
proof -
  have v: "validState ex_arbiter" "counters_ahead ex_arbiter" "counters_room ex_arbiter" by code_simp+
  have call: "arb_call (OpCommit 3 100 (Some (replicate 64 CHR ''a''))) ex_arbiter
    = Inr (None, ex_arbiter\<lparr>sessionEpoch := 3, accountBinding := Some (replicate 64 CHR ''a'')\<rparr>)"
    by code_simp
  have "revision ex_arbiter + 1 = 6" by code_simp
  with arbiter_commit_crash_safe[OF v _ call] show ?thesis by simp
qed

text \<open>C18: Fence epochs order the leases: along any run of critical sections, interleaved in any way and
  with any failing calls, the fence epochs handed out are strictly increasing and never below the
  counter the run started with.\<close>

theorem fences_strictly_increase:
  "sorted_wrt (<) (map snd (arb_grants x ops))
   \<and> list_all (\<lambda>g. nextFenceEpoch (content x) \<le> snd g) (arb_grants x ops)"
  using grants_fences[of x ops] by (simp add: list_all_iff)

text \<open>C19: Mutual exclusion: while a lease runs to at least \<open>T\<close>, no operation whose clock is before \<open>T\<close> is
  granted a lease or takes this one away, whatever the other processes call, until its holder
  releases it or refreshes it to an earlier time.\<close>

theorem live_lease_excludes:
  assumes "active (content x) = Some a" "T \<le> a_expiresAt a"
    and "list_all (below (a_requestId a) (fenceEpoch a) T) ops"
  shows "arb_grants x ops = []
    \<and> holds_lease (a_requestId a) (fenceEpoch a) (content (run_try arb_step x ops))
    \<and> (\<exists>b. active (content (run_try arb_step x ops)) = Some b \<and> T \<le> a_expiresAt b)"
  using lease_excludes_grants[of "a_requestId a" "fenceEpoch a" T x ops] assms
  by (auto simp: lease_until_def holds_lease_def split: option.splits)

theorem live_lease_excludes_witness:
  "arb_grants (Some ex_arbiter) ex_ops = []
    \<and> holds_lease (ex_req CHR ''5'') 3 (content (run_try arb_step (Some ex_arbiter) ex_ops))
    \<and> (\<exists>b. active (content (run_try arb_step (Some ex_arbiter) ex_ops)) = Some b \<and> 200 \<le> a_expiresAt b)"
proof -
  have "active (content (Some ex_arbiter)) = Some \<lparr>a_requestId = ex_req CHR ''5'', fenceEpoch = 3, a_expiresAt = 200\<rparr>"
    by code_simp
  moreover have "list_all (below (ex_req CHR ''5'') 3 200) ex_ops" by code_simp
  ultimately show ?thesis using live_lease_excludes[of "Some ex_arbiter" _ 200 ex_ops] by simp
qed

text \<open>A lease that ended is fenced for ever: when fence \<open>f\<close> was handed out and is not the active one,
  then after any further run its holder cannot commit or advance the session, refresh, or pass
  \<open>assertCurrent\<close>, and its release changes nothing.\<close>

theorem ended_lease_fenced:
  assumes "lease_gone f (content x)"
  shows "commitSession f now b (content (run_try arb_step x ops)) \<in> {Inl ArbFenced, Inl ArbInvalid}
    \<and> advanceSession f now (content (run_try arb_step x ops)) = Inl ArbFenced
    \<and> refreshLease now r f ex ms (content (run_try arb_step x ops)) = Inl ArbFenced
    \<and> releaseLease r f (content (run_try arb_step x ops)) = content (run_try arb_step x ops)
    \<and> (h_requestId h = r \<and> h_fence h = f \<longrightarrow>
         assertCurrent now ex h (run_try arb_step x ops) \<in> {Inl ArbFenced, Inl ArbInvalid})"
proof -
  have "lease_gone f (content (run_try arb_step x ops))"
    using gone.run_try_inv[of f x ops] assms by simp
  note f = gone_fenced[OF this]
  show ?thesis
    using f(1)[of now] f(2)[of r]
    by (auto simp: commitSession_def advanceSession_def refreshLease_def releaseLease_def
        assertCurrent_def inspect_def readState_def content_def split: option.splits)
qed

theorem ended_lease_fenced_witness:
  "advanceSession 2 0 (content (run_try arb_step (Some ex_arbiter) ex_ops)) = Inl ArbFenced
   \<and> assertCurrent 0 None \<lparr>h_requestId = ex_req CHR ''4'', h_fence = 2, h_expected = None, released = False,
        lost = False\<rparr> (run_try arb_step (Some ex_arbiter) ex_ops) \<in> {Inl ArbFenced, Inl ArbInvalid}"
proof -
  have "lease_gone 2 (content (Some ex_arbiter))" by code_simp
  from ended_lease_fenced[OF this, of 0 None ex_ops "ex_req CHR ''4''" None 0
      "\<lparr>h_requestId = ex_req CHR ''4'', h_fence = 2, h_expected = None, released = False, lost = False\<rparr>"]
  show ?thesis by simp
qed

text \<open>An unchanged session means an unchanged account: if a process took a session snapshot and the
  expected-session check passes later, then at every moment in between the document had this very
  session epoch and account binding.\<close>

theorem expected_session_unchanged:
  assumes "validState (content x)"
    and "assertExpectedSession (Some (snapshotSession (content x)))
           (content (run_try arb_step (run_try arb_step x ops) ops')) = Inr ()"
  shows "sessionEpoch (content (run_try arb_step x ops)) = sessionEpoch (content x)
    \<and> accountBinding (content (run_try arb_step x ops)) = accountBinding (content x)"
proof -
  let ?y = "run_try arb_step x ops"
  have keep: "arb_progress (content u) (content (run_try arb_step u os))" for u os
    by (induction os arbitrary: u)
      (auto intro: arb_progress_refl arb_progress_trans dest: step_progress split: sum.split)
  have "truthy (accountBinding (content x)) \<or> accountBinding (content x) = None"
    using assms(1) by (cases "accountBinding (content x)")
      (auto simp: validState_def safeBinding_def chars_ok_def)
  then show ?thesis
    using keep[of x ops] keep[of ?y ops'] assms(2)
    by (auto simp: arb_progress_def assertExpectedSession_def snapshotSession_def split: if_splits)
qed

theorem expected_session_unchanged_witness:
  "sessionEpoch (content (run_try arb_step (Some ex_arbiter) [OpCommit 3 100 None])) = 2
   \<and> accountBinding (content (run_try arb_step (Some ex_arbiter) [OpCommit 3 100 None])) = None"
proof -
  have v: "validState (content (Some ex_arbiter))" by code_simp
  have "assertExpectedSession (Some (snapshotSession (content (Some ex_arbiter))))
      (content (run_try arb_step (run_try arb_step (Some ex_arbiter) [OpCommit 3 100 None]) [OpRemove (ex_req CHR ''7'')])) = Inr ()"
    by code_simp
  moreover have "sessionEpoch (content (Some ex_arbiter)) = 2" "accountBinding (content (Some ex_arbiter)) = None"
    by code_simp+
  ultimately show ?thesis using expected_session_unchanged[OF v, of "[OpCommit 3 100 None]"] by metis
qed

text \<open>The queue is fair: a poll by a live queue entry is granted exactly when no live lease is held
  and no live entry has a smaller ticket (given that its expected session still holds); expired
  entries and leases never block it.\<close>

theorem queue_turn:
  assumes "validState s" "e \<in> set (queue s)" "now < q_expiresAt e"
    and "assertExpectedSession ex s = Inr ()"
  shows "(\<exists>t. try_grant now (q_requestId e) (ticket e) ex ms s
              = Inr (Some (nextFenceEpoch s, snapshotSession s), t)
            \<and> holds_lease (q_requestId e) (nextFenceEpoch s) t)
    \<longleftrightarrow> (\<forall>a. active s = Some a \<longrightarrow> a_expiresAt a \<le> now)
      \<and> (\<forall>x \<in> set (queue s). now < q_expiresAt x \<longrightarrow> ticket e \<le> ticket x)"
proof -
  let ?p = "pruneExpired now s"
  have mem: "find (\<lambda>x. q_requestId x = q_requestId e \<and> ticket x = ticket e) (queue ?p) \<noteq> None"
    using assms(2,3) by (auto simp: find_None_all set_pruned_queue)
  have same: "assertExpectedSession ex ?p = Inr ()" "snapshotSession ?p = snapshotSession s"
    using assms(4) assert_pruned[of ex now s] by (simp_all add: snapshotSession_def)
  show ?thesis
    using mem same first_iff_least[OF assms(1-3)] pruned_active_None[of now s]
    by (auto simp: try_grant_def Let_def holds_lease_def)
qed

theorem queue_turn_witness:
  "\<exists>t. try_grant 300 (ex_req CHR ''7'') 7 None 500 ex_arbiter
      = Inr (Some (4, snapshotSession ex_arbiter), t) \<and> holds_lease (ex_req CHR ''7'') 4 t"
proof -
  let ?e = "\<lparr>q_requestId = ex_req CHR ''7'', ticket = 7, q_expiresAt = 900\<rparr>"
  have "validState ex_arbiter" "nextFenceEpoch ex_arbiter = 4" by code_simp+
  moreover have "?e \<in> set (queue ex_arbiter)"
    "\<forall>x \<in> set (queue ex_arbiter). 300 < q_expiresAt x \<longrightarrow> ticket ?e \<le> ticket x"
    "\<forall>a. active ex_arbiter = Some a \<longrightarrow> a_expiresAt a \<le> 300"
    "assertExpectedSession None ex_arbiter = Inr ()"
    by (simp_all add: ex_arbiter_def assertExpectedSession_def)
  ultimately show ?thesis using queue_turn[of ex_arbiter ?e 300 None 500] by simp
qed

end
