(* ===== verification/TaskProjection.thy ===== *)
theory TaskProjection
  imports TaskStoreSafety
begin

text \<open>
  The projector (\<open>canvas-agent/src/dreamina-task-projection.ts\<close>): it turns a version of a runtime
  journal record into the product task and writes it with the store's compare-and-swap, trying again
  when another writer was faster. The journal read under its own lock is an argument.
\<close>

section \<open>Data\<close>

record provider_output =
  po_index :: int
  po_media :: media_type
  po_ref :: string

record journal_record =
  recordId :: string
  journal_version :: int
  jr_requestHash :: string
  jr_clientOperationId :: "string option"
  jr_context :: "task_context option"
  jr_state :: journal_state
  jr_hasProviderTask :: bool
  jr_taskVersion :: "int option"
  jr_operation :: "string option"
  jr_mode :: "task_mode option"
  jr_model :: "string option"
  jr_createdAt :: "string option"
  jr_updatedAt :: string
  jr_errorCode :: "string option"
  jr_officialStatus :: "provider_status option"
  jr_accountBinding :: "string option"
  jr_fenceEpoch :: "int option"
  jr_providerOutputs :: "provider_output list option"
  jr_hidden :: bool

datatype projection_error =
    RecordInvalid | RecordIdInvalid | VersionInvalid | IdentityInvalid | IdentityChanged
  | AccountBindingChanged | StoreFailed store_error

section \<open>Validation\<close>

definition validateRecordId :: "string \<Rightarrow> bool" where
  "validateRecordId s \<longleftrightarrow> chars_ok id_char 8 160 s"

definition alnum_char :: "char \<Rightarrow> bool" where
  "alnum_char c \<longleftrightarrow> is_lower c \<or> is_upper c \<or> is_digit c"

text \<open>\<open>/^[A-Za-z0-9][A-Za-z0-9._:-]{0,119}$/\<close>\<close>

definition label_ok :: "string \<Rightarrow> bool" where
  "label_ok s \<longleftrightarrow> chars_ok id_char 1 120 s \<and> list_all alnum_char (take 1 s)"

definition plain_text :: "string \<Rightarrow> bool" where
  "plain_text s \<longleftrightarrow> 1 \<le> length s \<and> length s \<le> 200
     \<and> list_all (\<lambda>c. \<not> char_between CHR 0x00 CHR 0x1F c \<and> c \<noteq> CHR 0x7F) s"

fun validTaskContext :: "task_context \<Rightarrow> bool" where
  "validTaskContext LegacyUnscoped = True"
| "validTaskContext (Scoped c) =
     (list_all (opt_ok plain_text)
        [projectId c, nodeId c, conversationId c, messageId c, retryOf c, attemptGroupId c]
      \<and> opt_ok (\<lambda>n. safe_integer n \<and> 0 \<le> n) (batchIndex c)
      \<and> opt_ok (\<lambda>n. safe_integer n \<and> 1 \<le> n) (batchCount c))"

definition ARTIFACT_PREFIX :: string where
  "ARTIFACT_PREFIX = ''dreamina-provider-artifact:''"

text \<open>\<open>/^dreamina-provider-artifact:[a-f0-9-]{36}:[0-3]$/\<close>\<close>

definition artifact_ref_ok :: "string \<Rightarrow> bool" where
  "artifact_ref_ok s \<longleftrightarrow> starts_with s ARTIFACT_PREFIX
     \<and> (let t = drop (length ARTIFACT_PREFIX) s in
        length t = 38 \<and> list_all (\<lambda>c. hex_char c \<or> c = CHR ''-'') (take 36 t)
        \<and> take 1 (drop 36 t) = '':'' \<and> list_all (char_between CHR ''0'' CHR ''3'') (drop 37 t))"

fun media_of_mode :: "task_mode \<Rightarrow> media_type" where
  "media_of_mode ImageMode = ImageMedia"
| "media_of_mode VideoMode = VideoMedia"

definition provider_outputs_ok :: "journal_record \<Rightarrow> provider_output list \<Rightarrow> bool" where
  "provider_outputs_ok r os \<longleftrightarrow> jr_state r = JSucceeded \<and> jr_officialStatus r = Some Completed
     \<and> os \<noteq> [] \<and> length os \<le> 4
     \<and> list_all2 (\<lambda>i x. po_index x = int i \<and> Some (po_media x) = map_option media_of_mode (jr_mode r)
          \<and> artifact_ref_ok (po_ref x)) [0..<length os] os"

definition validateJournalRecord :: "journal_record \<Rightarrow> projection_error + unit" where
  "validateJournalRecord r =
     (if \<not> validateRecordId (recordId r) then Inl RecordIdInvalid
      else if \<not> positive_version (journal_version r)
         \<or> \<not> chars_ok hex_char 64 64 (jr_requestHash r)
         \<or> \<not> date_ok (jr_updatedAt r)
         \<or> \<not> opt_ok (\<lambda>v. v = 1) (jr_taskVersion r)
         \<or> \<not> opt_ok (chars_ok id_char 16 120) (jr_clientOperationId r)
         \<or> \<not> opt_ok validTaskContext (jr_context r)
         \<or> \<not> opt_ok label_ok (jr_operation r) \<or> \<not> opt_ok label_ok (jr_model r)
         \<or> \<not> opt_ok date_ok (jr_createdAt r)
         \<or> \<not> opt_ok error_code_ok (jr_errorCode r)
         \<or> \<not> opt_ok (chars_ok hex_char 64 64) (jr_accountBinding r)
         \<or> \<not> opt_ok positive_version (jr_fenceEpoch r)
         \<or> \<not> opt_ok (provider_outputs_ok r) (jr_providerOutputs r)
      then Inl RecordInvalid else Inr ())"

section \<open>The projected task\<close>

definition task_id_of :: "journal_record \<Rightarrow> string" where
  "task_id_of r = ''dreamina:'' @ recordId r"

text \<open>The decimal digits of a non-negative integer.\<close>

function decimal :: "nat \<Rightarrow> string" where
  "decimal n = (if n < 10 then [digit_char (int n)] else decimal (n div 10) @ [digit_char (int (n mod 10))])"
  by pat_completeness auto
termination by (relation "measure id") auto

declare decimal.simps [simp del]

definition projectionEffectKey :: "string \<Rightarrow> int \<Rightarrow> string" where
  "projectionEffectKey rid v = ''task.projected:dreamina-cli:'' @ rid @ '':'' @ decimal (nat v)"

definition laterTimestamp :: "string option \<Rightarrow> string \<Rightarrow> string" where
  "laterTimestamp cur inc = (case cur of None \<Rightarrow> inc
     | Some c \<Rightarrow> if c \<noteq> [] \<and> date_less inc c then c else inc)"

definition orElse :: "'a option \<Rightarrow> 'a option \<Rightarrow> 'a option" where
  "orElse a b = (case a of None \<Rightarrow> b | Some x \<Rightarrow> Some x)"

text \<open>\<open>a ? { f: a } : b ? { f: b } : {}\<close> for string fields.\<close>

definition orTruthy :: "string option \<Rightarrow> string option \<Rightarrow> string option" where
  "orTruthy a b = (if truthy a then a else if truthy b then b else None)"

definition mergeProviderState :: "stored_task option \<Rightarrow> task_state \<Rightarrow> task_state" where
  "mergeProviderState current incoming =
     (case current of None \<Rightarrow> incoming
      | Some c \<Rightarrow>
          let sync = (if tSyncState c = SYNC_CONFLICT then SYNC_CONFLICT else syncState incoming);
              (life, out, sync) =
                (if tLifecycle c = TERMINAL
                 then (TERMINAL, tTerminalOutcome c,
                       if lifecycle incoming = TERMINAL \<and> terminalOutcome incoming \<noteq> tTerminalOutcome c
                       then SYNC_CONFLICT else sync)
                 else if lifecycleRank (lifecycle incoming) < lifecycleRank (tLifecycle c)
                 then (tLifecycle c, tTerminalOutcome c, sync)
                 else (lifecycle incoming, terminalOutcome incoming, sync))
          in incoming\<lparr>lifecycle := life, terminalOutcome := out, syncState := sync,
               lastSyncErrorCode := (if sync = SYNC_CONFLICT \<and> truthy (tLastSyncErrorCode c)
                                        \<and> \<not> truthy (lastSyncErrorCode incoming)
                                     then tLastSyncErrorCode c else lastSyncErrorCode incoming)\<rparr>)"

definition to_output :: "provider_output \<Rightarrow> task_output" where
  "to_output p = \<lparr>outputIndex = po_index p, mediaType = po_media p, providerArtifactRef = Some (po_ref p),
     materializedAssetId = None, materializationErrorCode = None\<rparr>"

definition journal_snapshot_of :: "journal_record \<Rightarrow> journal_snapshot" where
  "journal_snapshot_of r = \<lparr>snap_state = jr_state r, submitId = None, receiptRecorded = jr_hasProviderTask r,
     snap_errorCode = jr_errorCode r, snap_officialStatus = jr_officialStatus r\<rparr>"

definition identity_changed :: "journal_record \<Rightarrow> stored_task \<Rightarrow> bool" where
  "identity_changed r c \<longleftrightarrow> requestHash c \<noteq> jr_requestHash r \<or> journalRecordId c \<noteq> recordId r"

definition account_changed :: "journal_record \<Rightarrow> stored_task \<Rightarrow> bool" where
  "account_changed r c \<longleftrightarrow> truthy (tAccountBinding c) \<and> truthy (jr_accountBinding r)
     \<and> tAccountBinding c \<noteq> jr_accountBinding r"

definition can_project_outputs :: "journal_record \<Rightarrow> stored_task option \<Rightarrow> bool" where
  "can_project_outputs r cur \<longleftrightarrow> jr_providerOutputs r \<noteq> None \<and> jr_providerOutputs r \<noteq> Some []
     \<and> (case cur of None \<Rightarrow> True
         | Some c \<Rightarrow> tOutputs c = [] \<and> (tResultState c = NOT_AVAILABLE \<or> tResultState c = PENDING_MATERIALIZATION))"

text \<open>\<open>preserveProductResult\<close>: the task whose result is kept.\<close>

definition preserved_result :: "journal_record \<Rightarrow> stored_task option \<Rightarrow> stored_task option" where
  "preserved_result r cur = (case cur of None \<Rightarrow> None
     | Some c \<Rightarrow> if tResultState c \<noteq> NOT_AVAILABLE \<and> \<not> can_project_outputs r cur then Some c else None)"

definition projected_visibility :: "journal_record \<Rightarrow> stored_task option \<Rightarrow> visibility" where
  "projected_visibility r cur =
     (case Option.bind cur visibility of
        Some Deleted \<Rightarrow> Deleted
      | Some Hidden \<Rightarrow> Hidden
      | _ \<Rightarrow> if jr_hidden r then Hidden else Visible)"

text \<open>\<open>version\<close> is the store's to set; the projection leaves it 0.\<close>

definition projectRecord :: "journal_record \<Rightarrow> stored_task option \<Rightarrow> projection_error + stored_task" where
  "projectRecord r cur =
     (if (case cur of None \<Rightarrow> False | Some c \<Rightarrow> identity_changed r c) then Inl IdentityChanged
      else if (case cur of None \<Rightarrow> False | Some c \<Rightarrow> account_changed r c) then Inl AccountBindingChanged
      else
        let state = mergeProviderState cur (dreaminaTaskFromRuntimeJournal (journal_snapshot_of r));
            outs = map to_output (case jr_providerOutputs r of None \<Rightarrow> [] | Some os \<Rightarrow> os);
            can = can_project_outputs r cur;
            preserved = preserved_result r cur
        in Inr \<lparr>taskId = task_id_of r,
             visibility = Some (projected_visibility r cur),
             clientOperationId = (case orElse (jr_clientOperationId r) (map_option clientOperationId cur) of
                None \<Rightarrow> recordId r | Some x \<Rightarrow> x),
             tLifecycle = lifecycle state, tTerminalOutcome = terminalOutcome state,
             tSyncState = syncState state,
             tResultState = (case preserved of Some c \<Rightarrow> tResultState c
                | None \<Rightarrow> if can then PENDING_MATERIALIZATION else resultState state),
             requestHash = jr_requestHash r, version = 0,
             tOutputs = (case preserved of Some c \<Rightarrow> tOutputs c
                | None \<Rightarrow> if can then outs else outputs state),
             tContext = (case orElse (jr_context r) (map_option tContext cur) of
                None \<Rightarrow> LegacyUnscoped | Some x \<Rightarrow> x),
             tAccountBinding = orTruthy (Option.bind cur tAccountBinding) (jr_accountBinding r),
             officialStatus = orElse (jr_officialStatus r) (Option.bind cur officialStatus),
             tLastSyncErrorCode = (if truthy (lastSyncErrorCode state) then lastSyncErrorCode state
                else if syncState state = SYNC_CONFLICT \<and> truthy (Option.bind cur tLastSyncErrorCode)
                then Option.bind cur tLastSyncErrorCode else None),
             mode = orElse (jr_mode r) (Option.bind cur mode),
             operation = orTruthy (jr_operation r) (Option.bind cur operation),
             model = orTruthy (jr_model r) (Option.bind cur model),
             createdAt = orTruthy (jr_createdAt r) (Option.bind cur createdAt),
             updatedAt = laterTimestamp (map_option updatedAt cur) (jr_updatedAt r),
             journalRecordId = recordId r,
             projectedJournalVersion = journal_version r\<rparr>)"

definition deletedProviderState :: "journal_record \<Rightarrow> journal_state" where
  "deletedProviderState r = (case jr_officialStatus r of
       Some Completed \<Rightarrow> JSucceeded | Some Failed \<Rightarrow> JFailed | Some Cancelled \<Rightarrow> JCancelled
     | _ \<Rightarrow> if jr_hasProviderTask r then JAccepted else JQueued)"

definition projectDeletedRecord ::
  "journal_record \<Rightarrow> stored_task option \<Rightarrow> projection_error + stored_task" where
  "projectDeletedRecord r cur =
     (case cur of
        Some c \<Rightarrow> Inr (c\<lparr>visibility := Some Deleted, projectedJournalVersion := journal_version r,
                      updatedAt := laterTimestamp (Some (updatedAt c)) (jr_updatedAt r)\<rparr>)
      | None \<Rightarrow> bindE (projectRecord (r\<lparr>jr_state := deletedProviderState r\<rparr>) None) (\<lambda>t.
          Inr (t\<lparr>visibility := Some Deleted, projectedJournalVersion := journal_version r\<rparr>)))"

section \<open>Writing it\<close>

definition project_next :: "journal_record \<Rightarrow> stored_task option \<Rightarrow> projection_error + stored_task" where
  "project_next r cur =
     (if jr_state r = JDeleted then projectDeletedRecord r cur else projectRecord r cur)"

definition projection_effect :: "journal_record \<Rightarrow> effect_input" where
  "projection_effect r = \<lparr>in_effectKey = projectionEffectKey (recordId r) (journal_version r),
     in_kind = TaskProjected, in_taskId = task_id_of r, in_journalVersion = Some (journal_version r)\<rparr>"

text \<open>The attempts of \<open>projectJournalVersion\<close>: each reads the task, then swaps. \<open>others\<close> lists, for each
  attempt, the store operations other writers complete in between; its length is the number of
  attempts.\<close>

fun project_attempts :: "store_config \<Rightarrow> int \<Rightarrow> journal_record \<Rightarrow> store_op list list \<Rightarrow> disk option
    \<Rightarrow> (projection_error + stored_task) \<times> disk option" where
  "project_attempts cfg now r [] f = (Inl (StoreFailed VersionConflict), f)"
| "project_attempts cfg now r (ops # others) f =
     (case getTask cfg (task_id_of r) f of
        Inl e \<Rightarrow> (Inl (StoreFailed e), f)
      | Inr cur \<Rightarrow>
          if (case cur of None \<Rightarrow> False | Some c \<Rightarrow> identity_changed r c) then (Inl IdentityChanged, f)
          else if (case cur of None \<Rightarrow> False | Some c \<Rightarrow> journal_version r \<le> projectedJournalVersion c)
          then (Inr (the cur), f)
          else case project_next r cur of
            Inl e \<Rightarrow> (Inl e, f)
          | Inr t \<Rightarrow>
              let f' = run_try (store_step cfg) f ops in
              case withExclusiveDisk cfg (compareAndSwapTask now (task_id_of r)
                     (case cur of None \<Rightarrow> 0 | Some c \<Rightarrow> version c) t (projection_effect r)) f' of
                Inr (u, f'') \<Rightarrow> (Inr u, f'')
              | Inl VersionConflict \<Rightarrow> project_attempts cfg now r others f'
              | Inl e \<Rightarrow> (Inl (StoreFailed e), f'))"

definition projectJournalVersion ::
  "store_config \<Rightarrow> int \<Rightarrow> string \<Rightarrow> int \<Rightarrow> journal_record \<Rightarrow> store_op list list \<Rightarrow> disk option
   \<Rightarrow> (projection_error + stored_task) \<times> disk option" where
  "projectJournalVersion cfg now rid v r others f =
     (if \<not> validateRecordId rid then (Inl RecordIdInvalid, f)
      else if \<not> positive_version v then (Inl VersionInvalid, f)
      else case validateJournalRecord r of
        Inl e \<Rightarrow> (Inl e, f)
      | Inr u \<Rightarrow> if recordId r \<noteq> rid \<or> journal_version r \<noteq> v then (Inl IdentityInvalid, f)
                else project_attempts cfg now r (take 4 others) f)"

text \<open>\<open>recover\<close>: every record in order of its id, stopping at the first error.\<close>

fun recover_records :: "store_config \<Rightarrow> int \<Rightarrow> journal_record list \<Rightarrow> disk option
    \<Rightarrow> (projection_error + unit) \<times> disk option" where
  "recover_records cfg now [] f = (Inr (), f)"
| "recover_records cfg now (r # rs) f =
     (case projectJournalVersion cfg now (recordId r) (journal_version r) r (replicate 4 []) f of
        (Inl e, f') \<Rightarrow> (Inl e, f')
      | (Inr t, f') \<Rightarrow> recover_records cfg now rs f')"

definition recover :: "store_config \<Rightarrow> int \<Rightarrow> journal_record list \<Rightarrow> disk option
    \<Rightarrow> (projection_error + unit) \<times> disk option" where
  "recover cfg now rs f =
     recover_records cfg now (sort_by (\<lambda>a b. localeLe cfg (recordId a) (recordId b)) rs) f"

end
