(* ===== verification/TaskProjectionProofs.thy ===== *)
theory TaskProjectionProofs
  imports TaskProjection TaskStoreClaims
begin

text \<open>
  The projector writes what the store accepts, never moves a task backwards, and records each
  journal version once.
\<close>

section \<open>Strings\<close>

lemma chars_okD: "chars_ok P lo hi s \<Longrightarrow> lo \<le> length s \<and> length s \<le> hi \<and> list_all P s"
  by (simp add: chars_ok_def)

lemma list_all_mono: "list_all P xs \<Longrightarrow> (\<And>x. P x \<Longrightarrow> Q x) \<Longrightarrow> list_all Q xs"
  by (auto simp: list_all_iff)

lemma digit_chars: "list_all (\<lambda>d. is_digit (digit_char d)) [0..9]"
  by code_simp

lemma digit_char_digit: "0 \<le> d \<Longrightarrow> d < 10 \<Longrightarrow> is_digit (digit_char d)"
proof -
  assume "0 \<le> d" "d < 10"
  then have "d \<in> set [0..9]" by simp
  with digit_chars show ?thesis unfolding list_all_iff by blast
qed

lemma decimal_digits: "list_all is_digit (decimal n)"
proof (induction n rule: decimal.induct)
  case (1 n)
  then show ?case by (subst decimal.simps) (auto simp: digit_char_digit)
qed

lemma decimal_length: "n < 10 ^ Suc k \<Longrightarrow> length (decimal n) \<le> Suc k"
proof (induction k arbitrary: n)
  case 0
  then show ?case by (subst decimal.simps) simp
next
  case (Suc k)
  then show ?case by (subst decimal.simps) auto
qed

lemma projection_key_valid:
  assumes "validateRecordId rid" "positive_version v"
  shows "validEffectKeyValue (projectionEffectKey rid v)" "\<not> isProductEffectKey (projectionEffectKey rid v)"
proof -
  have "nat v < 10 ^ Suc 15"
    using assms(2) by (simp add: positive_version_def safe_integer_def nat_less_iff abs_le_iff)
  from decimal_length[OF this] have "length (decimal (nat v)) \<le> 16" by simp
  moreover have "list_all id_char (decimal (nat v))"
    by (rule list_all_mono[OF decimal_digits]) (simp add: id_char_def)
  moreover have "list_all id_char ''task.projected:dreamina-cli:''" by code_simp
  ultimately show "validEffectKeyValue (projectionEffectKey rid v)"
    using chars_okD[of id_char 8 160 rid] assms(1)
    by (simp add: validEffectKeyValue_def projectionEffectKey_def chars_ok_def validateRecordId_def
        id_char_def[of "CHR '':''"])
  show "\<not> isProductEffectKey (projectionEffectKey rid v)"
    by (simp add: isProductEffectKey_def projectionEffectKey_def)
qed

section \<open>Merging the provider state\<close>

lemma merge_keeps:
  "resultState (mergeProviderState cur i) = resultState i" "outputs (mergeProviderState cur i) = outputs i"
  by (simp_all add: mergeProviderState_def Let_def split: option.split)

lemma merge_none [simp]: "mergeProviderState None i = i"
  by (simp add: mergeProviderState_def)

lemma merge_life:
  fixes c :: stored_task and i :: task_state
  defines "m \<equiv> mergeProviderState (Some c) i"
  shows "lifecycleRank (tLifecycle c) \<le> lifecycleRank (lifecycle m)"
    "tLifecycle c = TERMINAL \<Longrightarrow> lifecycle m = TERMINAL \<and> terminalOutcome m = tTerminalOutcome c"
    "tLifecycle c = TERMINAL \<Longrightarrow> lifecycle i = TERMINAL \<Longrightarrow> terminalOutcome i \<noteq> tTerminalOutcome c
       \<Longrightarrow> syncState m = SYNC_CONFLICT"
    "tSyncState c = SYNC_CONFLICT \<Longrightarrow> syncState m = SYNC_CONFLICT"
    "life_of m \<in> {(tLifecycle c, tTerminalOutcome c), life_of i}"
    "lastSyncErrorCode m \<in> {tLastSyncErrorCode c, lastSyncErrorCode i}"
  by (auto simp: m_def mergeProviderState_def life_of_def Let_def)

lemma journal_result:
  "outputs (dreaminaTaskFromRuntimeJournal j) = []"
  "lastSyncErrorCode (dreaminaTaskFromRuntimeJournal j) \<in> {None, snap_errorCode j}"
  by (cases "snap_state j"; simp add: journal_base_def Let_def)+

declare dreaminaTaskFromRuntimeJournal.simps [simp del]

section \<open>What a projected task looks like\<close>

lemma laterTimestamp_ok:
  "date_ok a \<Longrightarrow> opt_ok date_ok c \<Longrightarrow> date_ok (laterTimestamp c a)"
  by (auto simp: laterTimestamp_def split: option.split)

lemma date_parse_empty [simp]: "date_parse [] = None"
  by code_simp

lemma laterTimestamp_later: "\<not> date_less (laterTimestamp (Some c) a) c"
  by (auto simp: laterTimestamp_def date_less_def split: option.splits)

lemma orTruthy_ok: "opt_ok P a \<Longrightarrow> opt_ok P b \<Longrightarrow> opt_ok P (orTruthy a b)"
  by (simp add: orTruthy_def)

lemma label_safe: "label_ok s \<Longrightarrow> safeOpaqueId 1 120 s"
  by (auto simp: label_ok_def safeOpaqueId_def chars_ok_def)

lemma hash_safe: "chars_ok hex_char 64 64 s \<Longrightarrow> safeOpaqueId 8 160 s"
  by (auto simp: safeOpaqueId_def chars_ok_def intro: list_all_mono hex_char_id)

lemma artifact_ref_safe:
  assumes "artifact_ref_ok s"
  shows "safeOpaqueId 1 256 s"
proof -
  define t where "t = drop (length ARTIFACT_PREFIX) s"
  have s: "s = ARTIFACT_PREFIX @ t"
    using assms starts_with_split unfolding t_def by (simp add: artifact_ref_ok_def)
  have t: "length t = 38" "list_all (\<lambda>c. hex_char c \<or> c = CHR ''-'') (take 36 t)"
    "take 1 (drop 36 t) = '':''" "list_all (char_between CHR ''0'' CHR ''3'') (drop 37 t)"
    using assms by (simp_all add: artifact_ref_ok_def Let_def t_def)
  have split3: "t = take 36 t @ take 1 (drop 36 t) @ drop 37 t"
    using append_take_drop_id[of 36 t] append_take_drop_id[of 1 "drop 36 t"] by simp
  have "list_all id_char (take 36 t)"
    by (rule list_all_mono[OF t(2)]) (auto dest: hex_char_id simp: id_char_def[of "CHR ''-''"])
  moreover have "list_all id_char (drop 37 t)"
    by (rule list_all_mono[OF t(4)]) (auto simp: id_char_def char_between_def)
  moreover have "list_all id_char (take 1 (drop 36 t))" by (simp only: t(3)) code_simp
  ultimately have "list_all id_char t" by (subst split3) simp
  moreover have "list_all id_char ARTIFACT_PREFIX" "length ARTIFACT_PREFIX = 27" by code_simp+
  ultimately show ?thesis using t(1) by (auto simp: s safeOpaqueId_def chars_ok_def)
qed

section \<open>The store accepts the projection\<close>

text \<open>What the projection of a record onto the current task relies on: the record is valid, its context
  is one the store can hold, it continues the current task (same identity, account, operation id and
  context, a newer version).\<close>

definition projectable :: "journal_record \<Rightarrow> stored_task option \<Rightarrow> bool" where
  "projectable r cur \<longleftrightarrow> validateJournalRecord r = Inr () \<and> opt_ok validContext (jr_context r)
     \<and> (case cur of None \<Rightarrow> True
         | Some c \<Rightarrow> validStoredTask c \<and> safe_integer (version c + 1) \<and> taskId c = task_id_of r
             \<and> \<not> identity_changed r c \<and> \<not> account_changed r c
             \<and> jr_clientOperationId r \<in> {None, Some (clientOperationId c)}
             \<and> jr_context r \<in> {None, Some (tContext c)}
             \<and> projectedJournalVersion c < journal_version r
             \<and> (tResultState c = NOT_AVAILABLE \<longrightarrow> tOutputs c = []))"

lemma recordD:
  assumes "validateJournalRecord r = Inr ()"
  shows "validateRecordId (recordId r)" "positive_version (journal_version r)"
    "chars_ok hex_char 64 64 (jr_requestHash r)" "date_ok (jr_updatedAt r)"
    "opt_ok (chars_ok id_char 16 120) (jr_clientOperationId r)"
    "opt_ok label_ok (jr_operation r)" "opt_ok label_ok (jr_model r)" "opt_ok date_ok (jr_createdAt r)"
    "opt_ok error_code_ok (jr_errorCode r)" "opt_ok (chars_ok hex_char 64 64) (jr_accountBinding r)"
    "opt_ok (provider_outputs_ok r) (jr_providerOutputs r)"
  using assms by (auto simp: validateJournalRecord_def split: if_splits)

lemma opt_ok_mono: "opt_ok P x \<Longrightarrow> (\<And>v. P v \<Longrightarrow> Q v) \<Longrightarrow> opt_ok Q x"
  by (cases x) auto

lemma opt_ok_orElse: "opt_ok P a \<Longrightarrow> opt_ok P b \<Longrightarrow> opt_ok P (orElse a b)"
  by (cases a) (simp_all add: orElse_def)

lemma opt_ok_bind: "(\<And>c. x = Some c \<Longrightarrow> opt_ok P (f c)) \<Longrightarrow> opt_ok P (Option.bind x f)"
  by (cases x) auto

lemma provider_outputs_valid:
  assumes "provider_outputs_ok r os"
  shows "list_all validOutput (map to_output os)" "distinct (map outputIndex (map to_output os))"
    "length os \<le> 4" "os \<noteq> []"
proof -
  have all: "list_all2 (\<lambda>i x. po_index x = int i \<and> artifact_ref_ok (po_ref x)) [0..<length os] os"
    using assms unfolding provider_outputs_ok_def by (auto elim: list_all2_mono)
  then have nth: "po_index (os ! i) = int i \<and> artifact_ref_ok (po_ref (os ! i))" if "i < length os" for i
    using that by (auto simp: list_all2_conv_all_nth)
  show len: "length os \<le> 4" "os \<noteq> []" using assms by (simp_all add: provider_outputs_ok_def)
  show "list_all validOutput (map to_output os)"
    using nth len by (auto simp: list_all_length validOutput_def to_output_def safe_integer_def
        artifact_ref_safe[unfolded One_nat_def])
  have "map outputIndex (map to_output os) = map int [0..<length os]"
    using nth by (intro nth_equalityI) (auto simp: to_output_def)
  then show "distinct (map outputIndex (map to_output os))"
    by (simp add: distinct_map)
qed

lemma projected_life:
  assumes "case cur of None \<Rightarrow> True | Some c \<Rightarrow> validStoredTask c"
    and "opt_ok error_code_ok (snap_errorCode j)"
  defines "m \<equiv> mergeProviderState cur (dreaminaTaskFromRuntimeJournal j)"
  shows "lifecycle m = TERMINAL \<longleftrightarrow> terminalOutcome m \<noteq> None"
    "opt_ok error_code_ok (lastSyncErrorCode m)"
proof -
  let ?i = "dreaminaTaskFromRuntimeJournal j"
  have wf: "lifecycle ?i = TERMINAL \<longleftrightarrow> terminalOutcome ?i \<noteq> None"
    using journal_task_wf[of j] by (auto simp: task_wf_def)
  have err: "opt_ok error_code_ok (lastSyncErrorCode ?i)"
    using journal_result(2)[of j] assms(2) by auto
  have "(lifecycle m = TERMINAL \<longleftrightarrow> terminalOutcome m \<noteq> None)
      \<and> opt_ok error_code_ok (lastSyncErrorCode m)"
  proof (cases cur)
    case None
    with wf err show ?thesis by (simp add: m_def)
  next
    case (Some c)
    then have c: "tLifecycle c = TERMINAL \<longleftrightarrow> tTerminalOutcome c \<noteq> None"
      "opt_ok error_code_ok (tLastSyncErrorCode c)"
      using assms(1) by (simp_all add: validStoredTask_def)
    have "life_of m \<in> {(tLifecycle c, tTerminalOutcome c), life_of ?i}"
      "lastSyncErrorCode m \<in> {tLastSyncErrorCode c, lastSyncErrorCode ?i}"
      unfolding m_def Some by (rule merge_life)+
    with c wf err show ?thesis by (auto simp: life_of_def)
  qed
  then show "lifecycle m = TERMINAL \<longleftrightarrow> terminalOutcome m \<noteq> None"
    "opt_ok error_code_ok (lastSyncErrorCode m)" by blast+
qed

lemma projectRecord_Inr:
  assumes "projectRecord r cur = Inr t"
  shows "taskId t = task_id_of r" "requestHash t = jr_requestHash r" "journalRecordId t = recordId r"
    "projectedJournalVersion t = journal_version r"
    "tLifecycle t = lifecycle (mergeProviderState cur (dreaminaTaskFromRuntimeJournal (journal_snapshot_of r)))"
    "tTerminalOutcome t = terminalOutcome (mergeProviderState cur (dreaminaTaskFromRuntimeJournal (journal_snapshot_of r)))"
    "tSyncState t = syncState (mergeProviderState cur (dreaminaTaskFromRuntimeJournal (journal_snapshot_of r)))"
    "visibility t = Some (projected_visibility r cur)"
    "updatedAt t = laterTimestamp (map_option updatedAt cur) (jr_updatedAt r)"
    "tAccountBinding t = orTruthy (Option.bind cur tAccountBinding) (jr_accountBinding r)"
    "clientOperationId t = (case orElse (jr_clientOperationId r) (map_option clientOperationId cur) of
       None \<Rightarrow> recordId r | Some x \<Rightarrow> x)"
    "tContext t = (case orElse (jr_context r) (map_option tContext cur) of None \<Rightarrow> LegacyUnscoped | Some x \<Rightarrow> x)"
    "operation t = orTruthy (jr_operation r) (Option.bind cur operation)"
    "model t = orTruthy (jr_model r) (Option.bind cur model)"
    "createdAt t = orTruthy (jr_createdAt r) (Option.bind cur createdAt)"
    "tLastSyncErrorCode t \<in> {None, Option.bind cur tLastSyncErrorCode,
       lastSyncErrorCode (mergeProviderState cur (dreaminaTaskFromRuntimeJournal (journal_snapshot_of r)))}"
  using assms by (simp_all add: projectRecord_def Let_def split: if_split_asm) auto

lemma projectRecord_result:
  assumes "projectRecord r cur = Inr t"
  shows "tOutputs t = (case preserved_result r cur of Some c \<Rightarrow> tOutputs c
      | None \<Rightarrow> if can_project_outputs r cur
        then map to_output (case jr_providerOutputs r of None \<Rightarrow> [] | Some os \<Rightarrow> os) else [])"
    "preserved_result r cur = Some c \<Longrightarrow> tResultState t = tResultState c"
    "preserved_result r cur = None \<Longrightarrow> can_project_outputs r cur \<Longrightarrow> tResultState t = PENDING_MATERIALIZATION"
  using assms
  by (auto simp: projectRecord_def merge_keeps journal_result(1) Let_def
      split: if_split_asm option.split)

lemma projectRecord_outputs:
  assumes "projectRecord r cur = Inr t"
  shows "if can_project_outputs r cur
    then tResultState t = PENDING_MATERIALIZATION \<and> jr_providerOutputs r \<noteq> None
      \<and> tOutputs t = map to_output (the (jr_providerOutputs r))
    else (case cur of None \<Rightarrow> tOutputs t = []
          | Some c \<Rightarrow> if tResultState c \<noteq> NOT_AVAILABLE
                     then tResultState t = tResultState c \<and> tOutputs t = tOutputs c else tOutputs t = [])"
proof (cases "can_project_outputs r cur")
  case True
  then have "preserved_result r cur = None" "jr_providerOutputs r \<noteq> None"
    by (auto simp: preserved_result_def can_project_outputs_def split: option.split)
  with True projectRecord_result[OF assms] show ?thesis by (auto split: option.splits)
next
  case False
  with projectRecord_result[OF assms] show ?thesis
    by (cases cur) (auto simp: preserved_result_def)
qed

lemma clientOperation_ok:
  assumes "validateRecordId rid" "opt_ok (chars_ok id_char 16 120) a" "opt_ok safeOperationId b"
  shows "safeOperationId (case orElse a b of None \<Rightarrow> rid | Some x \<Rightarrow> x)"
  using assms by (cases a; cases b)
    (auto simp: orElse_def safeOperationId_def validateRecordId_def chars_ok_def)

lemma projected_valid:
  assumes r: "validateJournalRecord r = Inr ()" "opt_ok validContext (jr_context r)"
    and c: "case cur of None \<Rightarrow> True | Some c \<Rightarrow> validStoredTask c
      \<and> (tResultState c = NOT_AVAILABLE \<longrightarrow> tOutputs c = [])"
    and t: "projectRecord r cur = Inr t" and v: "positive_version v"
  shows "validStoredTask (t\<lparr>taskId := task_id_of r, version := v\<rparr>)"
proof -
  note p = projectRecord_Inr[OF t] and rec = recordD[OF r(1)]
  have cv: "\<And>x. cur = Some x \<Longrightarrow> validStoredTask x" using c by auto
  have id: "safeTaskId (task_id_of r)" "safeOperationId (recordId r)"
    using rec(1) by (simp_all add: safeTaskId_def safeOperationId_def task_id_of_def validateRecordId_def)
  have "opt_ok (safeOpaqueId 8 160) (tAccountBinding t)" unfolding p(10)
    by (intro orTruthy_ok opt_ok_bind opt_ok_mono[OF rec(10)] hash_safe)
      (auto dest: cv simp: validStoredTask_def)
  moreover have "opt_ok (safeOpaqueId 1 120) (operation t)" "opt_ok (safeOpaqueId 1 120) (model t)"
    unfolding p(13,14)
    by (intro orTruthy_ok opt_ok_bind opt_ok_mono[OF rec(6)] opt_ok_mono[OF rec(7)] label_safe;
        auto dest: cv simp: validStoredTask_def)+
  moreover have "opt_ok date_ok (createdAt t)" unfolding p(15)
    by (intro orTruthy_ok opt_ok_bind rec(8)) (auto dest: cv simp: validStoredTask_def)
  moreover have "date_ok (updatedAt t)" unfolding p(9)
    using rec(4) cv by (intro laterTimestamp_ok) (cases cur; auto simp: validStoredTask_def)+
  moreover have "safeOperationId (clientOperationId t)" unfolding p(11)
    using rec(1,5) cv by (intro clientOperation_ok) (cases cur; auto simp: validStoredTask_def)+
  moreover have "validContext (tContext t)" unfolding p(12)
    using r(2) cv by (cases "jr_context r"; cases cur) (auto simp: orElse_def validStoredTask_def)
  moreover have "tLifecycle t = TERMINAL \<longleftrightarrow> tTerminalOutcome t \<noteq> None"
    "opt_ok error_code_ok (tLastSyncErrorCode t)"
    using p(5,6,16) projected_life[of cur "journal_snapshot_of r"] rec(9) c cv
    by (cases cur; auto simp: journal_snapshot_of_def validStoredTask_def)+
  moreover have "length (tOutputs t) \<le> 32 \<and> list_all validOutput (tOutputs t) \<and> distinct (map outputIndex (tOutputs t))"
  proof (cases "can_project_outputs r cur")
    case True
    with projectRecord_outputs[OF t] rec(11) obtain os where "tOutputs t = map to_output os" "provider_outputs_ok r os"
      by auto
    with provider_outputs_valid[of r os] show ?thesis by simp
  next
    case False
    with projectRecord_outputs[OF t] cv show ?thesis
      by (cases cur) (auto simp: validStoredTask_def split: if_splits)
  qed
  ultimately show ?thesis using p(2,3,4) id rec(2,3) v by (simp add: validStoredTask_def)
qed

lemma projected_allowed:
  assumes "projectable r (Some c)" "projectRecord r (Some c) = Inr t"
  shows "projection_allowed (Some c) (t\<lparr>taskId := i, version := v\<rparr>)"
proof -
  note p = projectRecord_Inr[OF assms(2)]
  have c: "validStoredTask c" "\<not> identity_changed r c" "\<not> account_changed r c"
    "jr_clientOperationId r \<in> {None, Some (clientOperationId c)}"
    "jr_context r \<in> {None, Some (tContext c)}" "projectedJournalVersion c < journal_version r"
    "tResultState c = NOT_AVAILABLE \<Longrightarrow> tOutputs c = []"
    and rec: "validateJournalRecord r = Inr ()"
    using assms(1) by (auto simp: projectable_def)
  have "clientOperationId t = clientOperationId c" "tContext t = tContext c"
    using p(11,12) c(4,5) by (auto simp: orElse_def)
  moreover have "tAccountBinding c \<noteq> None \<longrightarrow> tAccountBinding t = tAccountBinding c"
    using p(10) c(1) by (auto simp: orTruthy_def validStoredTask_def safeOpaqueId_def)
  moreover have "\<not> visibilityResurrected (visibility c) (visibility t)"
    using p(8) by (cases "visibility c" rule: option.exhaust[OF _ ])
      (auto simp: projected_visibility_def split: visibility.splits)
  moreover have "projectionOutputsAllowed c t \<and> (tResultState c \<noteq> NOT_AVAILABLE
      \<and> \<not> (tResultState c = PENDING_MATERIALIZATION \<and> tResultState t = PENDING_MATERIALIZATION)
      \<longrightarrow> tResultState t = tResultState c)"
  proof (cases "can_project_outputs r (Some c)")
    case True
    then obtain os where os: "jr_providerOutputs r = Some os" "os \<noteq> []"
      by (auto simp: can_project_outputs_def)
    with projectRecord_outputs[OF assms(2)] True recordD(11)[OF rec]
    have "tOutputs t = map to_output os" "tResultState t = PENDING_MATERIALIZATION"
      "\<forall>x \<in> set os. artifact_ref_ok (po_ref x)"
      by (auto simp: provider_outputs_ok_def list_all2_conv_all_nth in_set_conv_nth)
    moreover have "artifact_ref_ok s \<Longrightarrow> s \<noteq> []" for s
      using artifact_ref_safe[of s] by (auto simp: safeOpaqueId_def)
    ultimately show ?thesis using True os
      by (auto simp: projectionOutputsAllowed_def can_project_outputs_def list_all_iff to_output_def)
  next
    case False
    with projectRecord_outputs[OF assms(2)] c(7) show ?thesis
      by (auto simp: projectionOutputsAllowed_def split: if_splits)
  qed
  ultimately show ?thesis using p(2-4) c(2,6)
    by (simp add: identity_changed_def projectionOutputsAllowed_def)
qed

definition task_version :: "stored_task option \<Rightarrow> int" where
  "task_version cur = (case cur of None \<Rightarrow> 0 | Some c \<Rightarrow> version c)"

lemma next_version_ok:
  "projectable r cur \<Longrightarrow> positive_version (task_version cur + 1) \<and> safe_integer (task_version cur) \<and> 0 \<le> task_version cur"
  by (cases cur) (auto simp: projectable_def task_version_def positive_version_def safe_integer_def validStoredTask_def)

lemma deleted_record_valid:
  assumes "validateJournalRecord r = Inr ()" "jr_state r = JDeleted"
  shows "validateJournalRecord (r\<lparr>jr_state := s\<rparr>) = Inr ()"
proof -
  have "jr_providerOutputs r = None"
    using recordD(11)[OF assms(1)] assms(2) by (cases "jr_providerOutputs r") (auto simp: provider_outputs_ok_def)
  with assms(1) show ?thesis by (simp add: validateJournalRecord_def split: if_split_asm)
qed

lemma next_accepted:
  assumes "projectable r cur"
  defines "v \<equiv> task_version cur + 1"
  shows "\<exists>t. project_next r cur = Inr t \<and> projectedJournalVersion t = journal_version r
    \<and> validStoredTask (t\<lparr>taskId := task_id_of r, version := v\<rparr>)
    \<and> projection_allowed cur (t\<lparr>taskId := task_id_of r, version := v\<rparr>)"
proof -
  have v: "positive_version v" using next_version_ok[OF assms(1)] by (simp add: v_def)
  have rec: "validateJournalRecord r = Inr ()" "opt_ok validContext (jr_context r)"
    and cur: "case cur of None \<Rightarrow> True | Some c \<Rightarrow> validStoredTask c
      \<and> (tResultState c = NOT_AVAILABLE \<longrightarrow> tOutputs c = [])"
    using assms(1) by (auto simp: projectable_def split: option.split)
  have total: "\<exists>t. projectRecord q x = Inr t"
    if "case x of None \<Rightarrow> True | Some c \<Rightarrow> \<not> identity_changed q c \<and> \<not> account_changed q c" for q x
    using that by (auto simp: projectRecord_def Let_def split: option.splits)
  show ?thesis
  proof (cases "jr_state r = JDeleted")
    case False
    from total[of r cur] assms(1) obtain t where t: "projectRecord r cur = Inr t"
      by (auto simp: projectable_def split: option.splits)
    have "projection_allowed cur (t\<lparr>taskId := task_id_of r, version := v\<rparr>)"
    proof (cases cur)
      case (Some c)
      with assms(1) t show ?thesis by (auto intro: projected_allowed simp del: projection_allowed.simps)
    qed simp
    with t False projected_valid[OF rec cur t v] projectRecord_Inr(4)[OF t] show ?thesis
      by (auto simp: project_next_def simp del: projection_allowed.simps)
  next
    case True
    show ?thesis
    proof (cases cur)
      case None
      let ?q = "r\<lparr>jr_state := deletedProviderState r\<rparr>"
      from total[of ?q None] obtain t where t: "projectRecord ?q None = Inr t" by auto
      have "validStoredTask (t\<lparr>taskId := task_id_of ?q, version := v\<rparr>)"
        using projected_valid[OF deleted_record_valid[OF rec(1) True] _ _ t v] rec(2) by simp
      then have "validStoredTask (t\<lparr>visibility := Some Deleted, projectedJournalVersion := journal_version r,
          taskId := task_id_of r, version := v\<rparr>)"
        using recordD(2)[OF rec(1)] by (simp add: validStoredTask_def task_id_of_def)
      with t True None show ?thesis by (simp add: project_next_def projectDeletedRecord_def)
    next
      case (Some c)
      let ?t = "c\<lparr>visibility := Some Deleted, projectedJournalVersion := journal_version r,
        updatedAt := laterTimestamp (Some (updatedAt c)) (jr_updatedAt r)\<rparr>"
      have c: "validStoredTask c" "taskId c = task_id_of r" "projectedJournalVersion c < journal_version r"
        using assms(1) Some by (simp_all add: projectable_def)
      have "date_ok (laterTimestamp (Some (updatedAt c)) (jr_updatedAt r))"
        using c(1) recordD(4)[OF rec(1)] by (intro laterTimestamp_ok) (simp_all add: validStoredTask_def)
      with c v recordD(2)[OF rec(1)] have "validStoredTask (?t\<lparr>taskId := task_id_of r, version := v\<rparr>)"
        by (auto simp: validStoredTask_def)
      moreover have "\<not> visibilityResurrected x (Some Deleted)" for x
        by (cases "(x, Some Deleted :: visibility option)" rule: visibilityResurrected.cases) auto
      then have "projection_allowed cur (?t\<lparr>taskId := task_id_of r, version := v\<rparr>)"
        using c(3) Some by (auto simp: projectionOutputsAllowed_def)
      ultimately show ?thesis using True Some by (simp add: project_next_def projectDeletedRecord_def)
    qed
  qed
qed

lemma projection_key_unused:
  assumes d: "valid_disk cfg d" and "find_effect k (outbox d) = None" "\<not> isProductEffectKey k"
  shows "key_owned d k tid"
proof -
  have False if "i \<in> set (inbox d)" "i_effectKey i = k" for i
    using valid_diskD(7)[OF d that(1)] that(2) assms(2,3) by (simp add: inbox_linked_def)
  then show ?thesis by (auto simp: key_owned_def list_all_iff)
qed

lemma cas_projects:
  assumes d: "valid_disk cfg d" and r: "projectable r (find_task (task_id_of r) (tasks d))"
    and now: "iso_time now"
    and key: "find_effect (projectionEffectKey (recordId r) (journal_version r)) (outbox d) = None"
  defines "cur \<equiv> find_task (task_id_of r) (tasks d)"
  shows "\<exists>t u e. project_next r cur = Inr t \<and> projectedJournalVersion u = journal_version r
    \<and> taskId u = task_id_of r
    \<and> compareAndSwapTask now (task_id_of r) (task_version cur) t (projection_effect r) d
        = Inr (u, Some (d\<lparr>tasks := put_task u d, outbox := outbox d @ [e]\<rparr>))"
proof -
  have rec: "validateJournalRecord r = Inr ()" using r by (simp add: projectable_def)
  note rd = recordD(1,2)[OF rec]
  have r': "projectable r cur" using r by (simp add: cur_def)
  obtain t where t: "project_next r cur = Inr t" "projectedJournalVersion t = journal_version r"
    and ok: "validStoredTask (t\<lparr>taskId := task_id_of r, version := task_version cur + 1\<rparr>)"
      "projection_allowed cur (t\<lparr>taskId := task_id_of r, version := task_version cur + 1\<rparr>)"
    using next_accepted[OF r'] by blast
  define u where "u = t\<lparr>taskId := task_id_of r, version := task_version cur + 1\<rparr>"
  define e where "e = \<lparr>effectKey = projectionEffectKey (recordId r) (journal_version r), e_kind = TaskProjected,
    e_taskId = task_id_of r, journalVersion = Some (journal_version r), taskVersion = task_version cur + 1,
    e_createdAt = to_iso_string now\<rparr>"
  have tid: "safeTaskId (task_id_of r)" using ok(1) by (simp add: validStoredTask_def)
  have norm: "normalizeTask (task_id_of r) t (task_version cur + 1) = Inr u"
    using ok(1) by (simp add: normalizeTask_def u_def)
  have "validEffect e"
    using projection_key_valid(1)[OF rd] tid rd(2) next_version_ok[OF r'] date_ok_iso[OF now]
    by (simp add: validEffect_def e_def)
  then have eff: "normalizeEffect (projection_effect r) u (to_iso_string now) = Inr e"
    using t(2) by (simp add: normalizeEffect_def projection_effect_def e_def[symmetric] u_def
        Let_def) (simp add: e_def)
  have "compareAndSwapTask now (task_id_of r) (task_version cur) t (projection_effect r) d
      = Inr (u, Some (d\<lparr>tasks := put_task u d, outbox := outbox d @ [e]\<rparr>))"
    using tid next_version_ok[OF r'] norm eff ok(2) key
    by (simp add: compareAndSwapTask_def Let_def cur_def[symmetric] task_version_def[symmetric]
        projection_effect_def[unfolded atomize_eq] u_def[symmetric] e_def del: projection_allowed.simps)
  with t show ?thesis by (auto simp: u_def)
qed

lemma next_identity:
  assumes "project_next r cur = Inr t" "case cur of None \<Rightarrow> True | Some c \<Rightarrow> \<not> identity_changed r c"
  shows "\<not> identity_changed r t \<and> projectedJournalVersion t = journal_version r"
proof (cases "jr_state r = JDeleted")
  case False
  with assms(1) show ?thesis using projectRecord_Inr(2-4)[of r cur t]
    by (simp add: project_next_def identity_changed_def)
next
  case True
  show ?thesis
  proof (cases cur)
    case (Some c)
    with True assms show ?thesis
      by (auto simp: project_next_def projectDeletedRecord_def identity_changed_def)
  next
    case None
    with True assms(1) obtain t' where "projectRecord (r\<lparr>jr_state := deletedProviderState r\<rparr>) None = Inr t'"
      "t = t'\<lparr>visibility := Some Deleted, projectedJournalVersion := journal_version r\<rparr>"
      by (auto simp: project_next_def projectDeletedRecord_def split: sum.splits)
    with projectRecord_Inr(2,3)[of "r\<lparr>jr_state := deletedProviderState r\<rparr>" None t'] show ?thesis
      by (simp add: identity_changed_def)
  qed
qed

lemma cas_identity:
  assumes "compareAndSwapTask now tid v t e d = Inr (u, out)"
  shows "identity_changed r u = identity_changed r t \<and> projectedJournalVersion u = projectedJournalVersion t"
  using assms
  by (auto simp: compareAndSwapTask_def Let_def identity_changed_def split: if_splits sum.splits
      dest!: normalizeTask_Inr)

lemma exclusive_result:
  assumes "withExclusiveDisk cfg act f = Inr (r, f')"
  shows "\<exists>d out. act d = Inr (r, out)"
  using assms by (auto simp: withExclusiveDisk_def split: sum.splits option.splits prod.splits)

lemma attempts_result:
  "project_attempts cfg now r others f = (Inr u, f') \<Longrightarrow>
   \<not> identity_changed r u \<and> journal_version r \<le> projectedJournalVersion u"
proof (induction cfg now r others f rule: project_attempts.induct)
  case (2 cfg now r ops others f)
  from 2(2) obtain cur where cur: "getTask cfg (task_id_of r) f = Inr cur"
    by (auto split: sum.splits)
  have id: "case cur of None \<Rightarrow> True | Some c \<Rightarrow> \<not> identity_changed r c"
    using 2(2) cur by (auto split: option.splits if_splits)
  show ?case
  proof (cases "case cur of None \<Rightarrow> False | Some c \<Rightarrow> journal_version r \<le> projectedJournalVersion c")
    case True
    with 2(2) cur id show ?thesis by (auto split: option.splits)
  next
    case False
    with 2(2) cur id obtain t where t: "project_next r cur = Inr t"
      by (auto split: option.splits sum.splits)
    note t_id = next_identity[OF t id]
    let ?f = "run_try (store_step cfg) f ops"
    let ?c = "withExclusiveDisk cfg (compareAndSwapTask now (task_id_of r)
                (case cur of None \<Rightarrow> 0 | Some c \<Rightarrow> version c) t (projection_effect r)) ?f"
    have nf: "\<not> (case cur of None \<Rightarrow> False | Some c \<Rightarrow> identity_changed r c)"
      using id by (simp split: option.splits)
    show ?thesis
    proof (cases ?c)
      case (Inr p)
      with 2(2) cur nf False t have "?c = Inr (u, f')" by (cases p) (simp add: Let_def)
      from exclusive_result[OF this] obtain d out where
        "compareAndSwapTask now (task_id_of r) (case cur of None \<Rightarrow> 0 | Some c \<Rightarrow> version c) t (projection_effect r) d
          = Inr (u, out)" by blast
      from cas_identity[OF this] t_id show ?thesis by simp
    next
      case (Inl e)
      with 2(2) cur nf False t have "e = VersionConflict" "project_attempts cfg now r others ?f = (Inr u, f')"
        by (cases e; simp add: Let_def)+
      with 2(1)[OF cur nf False t refl] Inl show ?thesis by simp
    qed
  qed
qed simp

definition ex_record :: journal_record where
  "ex_record = \<lparr>recordId = ''task-0001'', journal_version = 2,
     jr_requestHash = ''0123456789abcdef0123456789abcdef0123456789abcdef0123456789abcdef'',
     jr_clientOperationId = None, jr_context = None, jr_state = JFailed, jr_hasProviderTask = True,
     jr_taskVersion = None, jr_operation = None, jr_mode = None, jr_model = None, jr_createdAt = None,
     jr_updatedAt = ''2026-01-02T03:04:05.000Z'', jr_errorCode = None, jr_officialStatus = Some Failed,
     jr_accountBinding = None, jr_fenceEpoch = None, jr_providerOutputs = None, jr_hidden = False\<rparr>"

definition ex_current :: stored_task where
  "ex_current = ex_task\<lparr>journalRecordId := ''task-0001''\<rparr>"

lemma ex_current_valid: "valid_disk ex_config (ex_disk\<lparr>tasks := [ex_current]\<rparr>)"
  by code_simp

section \<open>Guarantees\<close>

text \<open>C21: A journal version that continues the stored task is recorded: the projector's swap is accepted
  by the store's validation and projection rules, the document written is valid and holds the task
  projected from this version, and projecting the version again returns that task without writing
  (the journal record's context is one the store can hold, the effect is new and the store has room).\<close>

theorem projection_recorded:
  assumes "valid_disk cfg d" "safe_integer (revision d + 1)"
    and "projectable r (find_task (task_id_of r) (tasks d))" "iso_time now"
    and "find_effect (projectionEffectKey (recordId r) (journal_version r)) (outbox d) = None"
    and "length (tasks d) < maxTasks cfg" "length (outbox d) < maxEffects cfg"
  shows "\<exists>u d'. projectJournalVersion cfg now (recordId r) (journal_version r) r (replicate 4 []) (Some d)
        = (Inr u, Some d')
    \<and> valid_disk cfg d' \<and> find_task (task_id_of r) (tasks d') = Some u
    \<and> projectedJournalVersion u = journal_version r
    \<and> projectJournalVersion cfg now' (recordId r) (journal_version r) r (replicate 4 []) (Some d')
        = (Inr u, Some d')"
proof -
  let ?cur = "find_task (task_id_of r) (tasks d)"
  have rec: "validateJournalRecord r = Inr ()" using assms(3) by (simp add: projectable_def)
  note rd = recordD(1,2)[OF rec]
  have id: "case ?cur of None \<Rightarrow> True | Some c \<Rightarrow> \<not> identity_changed r c"
    and older: "\<not> (case ?cur of None \<Rightarrow> False | Some c \<Rightarrow> journal_version r \<le> projectedJournalVersion c)"
    using assms(3) by (auto simp: projectable_def split: option.splits)
  from cas_projects[OF assms(1,3,4,5)] obtain t u e where t: "project_next r ?cur = Inr t"
    and u: "projectedJournalVersion u = journal_version r" "taskId u = task_id_of r"
    and cas: "compareAndSwapTask now (task_id_of r) (task_version ?cur) t (projection_effect r) d
        = Inr (u, Some (d\<lparr>tasks := put_task u d, outbox := outbox d @ [e]\<rparr>))"
    by blast
  let ?d1 = "d\<lparr>tasks := put_task u d, outbox := outbox d @ [e]\<rparr>"
  have cap: "\<not> over_capacity cfg ?d1"
    using assms(1,6,7) by (auto simp: over_capacity_def valid_disk_def put_task_def)
  have own: "key_owned d (in_effectKey (projection_effect r)) (task_id_of r)"
    using projection_key_unused[OF assms(1,5) projection_key_valid(2)[OF rd]]
    by (simp add: projection_effect_def)
  have v1: "valid_disk cfg ?d1"
    using project_commits[OF assms(1) cas own cap] by (simp add: commits_def)
  let ?d' = "committed cfg ?d1"
  have v': "valid_disk cfg ?d'" using committed_valid[OF v1] assms(2) by simp
  have swap: "withExclusiveDisk cfg (compareAndSwapTask now (task_id_of r) (task_version ?cur) t (projection_effect r)) (Some d)
      = Inr (u, Some ?d')"
    using cas persist_within[OF cap] by (simp add: withExclusive_valid[OF assms(1)])
  have safe: "safeTaskId (task_id_of r)"
    using rd(1) by (simp add: safeTaskId_def task_id_of_def validateRecordId_def)
  have found: "find_task (task_id_of r) (tasks ?d') = Some u"
    using find_put_task[OF valid_diskD(2)[OF assms(1)], of "task_id_of r" u] u(2)
      put_task_distinct[OF valid_diskD(2)[OF assms(1)]]
    by (simp add: committed_def find_task_def find_key_sort_by)
  have not_changed: "\<not> identity_changed r u"
    using next_identity[OF t id] cas_identity[OF cas] by simp
  have first: "project_attempts cfg now r ([] # os) (Some d) = (Inr u, Some ?d')" for os
    using t id older swap safe
    by (simp add: getTask_def assms(1) task_version_def Let_def split: option.splits)
  have second: "project_attempts cfg now' r ([] # os) (Some ?d') = (Inr u, Some ?d')" for os
    using found not_changed u(1) safe by (simp add: getTask_def v')
  have four: "replicate 4 ([] :: store_op list) = [] # replicate 3 []"
    by (simp add: eval_nat_numeral)
  have run: "projectJournalVersion cfg n (recordId r) (journal_version r) r (replicate 4 []) x
      = project_attempts cfg n r ([] # replicate 3 []) x" for n x
    using rec rd by (simp add: projectJournalVersion_def four[symmetric])
  show ?thesis unfolding run using first second v' found u(1) by blast
qed

theorem projection_recorded_witness:
  "\<exists>u d'. projectJournalVersion ex_config ex_now ''task-0001'' 5 (ex_record\<lparr>journal_version := 5\<rparr>) (replicate 4 [])
        (Some (ex_disk\<lparr>tasks := [ex_current]\<rparr>)) = (Inr u, Some d')
    \<and> valid_disk ex_config d' \<and> find_task (task_id_of (ex_record\<lparr>journal_version := 5\<rparr>)) (tasks d') = Some u
    \<and> projectedJournalVersion u = 5
    \<and> projectJournalVersion ex_config ex_now ''task-0001'' 5 (ex_record\<lparr>journal_version := 5\<rparr>) (replicate 4 []) (Some d')
        = (Inr u, Some d')"
proof -
  let ?r = "ex_record\<lparr>journal_version := 5\<rparr>" and ?d = "ex_disk\<lparr>tasks := [ex_current]\<rparr>"
  have "safe_integer (revision ?d + 1)" by code_simp
  moreover have "projectable ?r (find_task (task_id_of ?r) (tasks ?d))" by code_simp
  moreover have "iso_time ex_now" by code_simp
  moreover have "find_effect (projectionEffectKey (recordId ?r) (journal_version ?r)) (outbox ?d) = None"
    by (simp add: find_effect_def ex_disk_def)
  moreover have "length (tasks ?d) < maxTasks ex_config" "length (outbox ?d) < maxEffects ex_config"
    by code_simp+
  moreover have "recordId ?r = ''task-0001''" "journal_version ?r = 5" by (simp_all add: ex_record_def)
  ultimately show ?thesis
    using projection_recorded[OF ex_current_valid, of ?r ex_now ex_now] by metis
qed

text \<open>Whatever other writers do between the projector's read and its swap, in each of its four
  attempts, a task it returns belongs to the record and shows this journal version or a newer one:
  the projector never reports an older state as recorded.\<close>

theorem projection_never_stale:
  assumes "projectJournalVersion cfg now rid v r others f = (Inr u, f')"
  shows "requestHash u = jr_requestHash r \<and> journalRecordId u = rid \<and> v \<le> projectedJournalVersion u"
  using assms attempts_result[of cfg now r "take 4 others" f u f']
  by (auto simp: projectJournalVersion_def identity_changed_def split: if_splits sum.splits)

theorem projection_never_stale_witness:
  "journalRecordId ex_current = ''task-0001'' \<and> 2 \<le> projectedJournalVersion ex_current"
proof -
  let ?d = "ex_disk\<lparr>tasks := [ex_current]\<rparr>"
  have "projectJournalVersion ex_config ex_now ''task-0001'' 2 ex_record [[], [], [], []] (Some ?d)
      = (Inr ex_current, Some ?d)"
    by code_simp
  from projection_never_stale[OF this] show ?thesis by simp
qed

text \<open>C22: Projecting never moves a task back: the life cycle keeps or raises its rank, an ended task stays
  ended with its outcome (a contradicting end is flagged as a conflict), a conflict and the account
  stay, a hidden or deleted task does not become visible, and the time of the last update does not
  go back.\<close>

theorem projection_never_regresses:
  assumes "projectRecord r (Some c) = Inr t"
  shows "lifecycleRank (tLifecycle c) \<le> lifecycleRank (tLifecycle t)
    \<and> (tLifecycle c = TERMINAL \<longrightarrow> tLifecycle t = TERMINAL \<and> tTerminalOutcome t = tTerminalOutcome c)
    \<and> (tSyncState c = SYNC_CONFLICT \<longrightarrow> tSyncState t = SYNC_CONFLICT)
    \<and> (truthy (tAccountBinding c) \<longrightarrow> tAccountBinding t = tAccountBinding c)
    \<and> \<not> visibilityResurrected (visibility c) (visibility t)
    \<and> \<not> date_less (updatedAt t) (updatedAt c)"
proof -
  note p = projectRecord_Inr[OF assms]
  have "\<not> visibilityResurrected (visibility c) (Some (projected_visibility r (Some c)))"
    by (cases "visibility c" rule: option.exhaust) (auto simp: projected_visibility_def split: visibility.splits)
  then show ?thesis
    using p(5-10) merge_life[of c "dreaminaTaskFromRuntimeJournal (journal_snapshot_of r)"]
      laterTimestamp_later[of "updatedAt c" "jr_updatedAt r"]
    by (auto simp: orTruthy_def)
qed

theorem projection_never_regresses_witness:
  "\<exists>t. projectRecord ex_record (Some ex_current) = Inr t \<and> tLifecycle t = TERMINAL
    \<and> tTerminalOutcome t = Some SUCCEEDED \<and> lifecycleRank TERMINAL \<le> lifecycleRank (tLifecycle t)"
proof -
  have "case projectRecord ex_record (Some ex_current) of Inl _ \<Rightarrow> False | Inr _ \<Rightarrow> True" by code_simp
  then obtain t where t: "projectRecord ex_record (Some ex_current) = Inr t" by (auto split: sum.splits)
  have "tLifecycle ex_current = TERMINAL" "tTerminalOutcome ex_current = Some SUCCEEDED" by code_simp+
  with t projection_never_regresses[OF t] show ?thesis by auto
qed

section \<open>Gaps\<close>

text \<open>The store accepts binding more of the context to a scoped task, but the journal record keeps the
  context it was submitted with. The next journal version is then rejected by the store, and
  \<open>recover\<close> stops at this record for good.\<close>

definition ex_scoped :: scoped_context where
  "ex_scoped = \<lparr>projectId = Some ''project-1'', nodeId = None, conversationId = None, messageId = None,
     batchIndex = None, batchCount = None, retryOf = None, attemptGroupId = None\<rparr>"

lemma bound_context_blocks_projection:
  "case mutateTask ex_now ex_id 3 (MutEvent (BindContext None (ex_scoped\<lparr>nodeId := Some ''node-1''\<rparr>))
        ''2026-01-02T03:04:05.000Z'') ''mutate:bind''
        (ex_disk\<lparr>tasks := [ex_current\<lparr>tContext := Scoped ex_scoped\<rparr>]\<rparr>) of
     Inr (t, Some d) \<Rightarrow>
       fst (recover ex_config ex_now [ex_record\<lparr>journal_version := 5, jr_context := Some (Scoped ex_scoped)\<rparr>] (Some d))
         = Inl (StoreFailed StateInvalid)
   | _ \<Rightarrow> False"
  by code_simp

text \<open>The projector accepts a context with any printable characters, the store only identifiers.\<close>

lemma printable_context_rejected:
  "validateJournalRecord (ex_record\<lparr>journal_version := 5,
      jr_context := Some (Scoped (ex_scoped\<lparr>projectId := Some ''my project''\<rparr>))\<rparr>) = Inr ()"
  "fst (recover ex_config ex_now [ex_record\<lparr>journal_version := 5,
      jr_context := Some (Scoped (ex_scoped\<lparr>projectId := Some ''my project''\<rparr>))\<rparr>] None)
     = Inl (StoreFailed StateInvalid)"
  by code_simp+

end
