(* ===== verification/RuntimeJournal.thy ===== *)
theory RuntimeJournal
  imports TaskProjection
begin

text \<open>
  The runtime's own journal (\<open>canvas-agent/src/dreamina-cli-state.ts\<close>): the record kept for every
  submission, the validation a reader applies to the file, the progression every write must show
  against the document on disk, the journal versions a write assigns, and the replacement of the file
  with its recovery after a crash. \<open>readSafeJournal\<close> of the projector, which copies the records, is
  here too.

  The document is typed: the checks that a JSON value has the declared shape (object, known keys, enum
  member, string or number) hold by typing, every other check is a conjunct. The lock, temporary
  files, fsync and symlink checks are I/O.
\<close>

section \<open>Data\<close>

record poll_lease =
  pl_leaseId :: string
  pl_ownerId :: string
  pl_expiresAt :: string

datatype submission_phase = Reserved | SpawnPermitted

record runtime_record =
  rr_ownerId :: string
  rr_idempotencyKey :: string
  rr_clientOperationId :: "string option"
  rr_context :: "task_context option"
  rr_requestHash :: string
  rr_state :: journal_state
  rr_journalVersion :: "int option"
  rr_fenceEpoch :: "int option"
  rr_accountBinding :: "string option"
  rr_sessionEpoch :: "int option"
  rr_reservationId :: "string option"
  rr_reservationOwnerId :: "string option"
  rr_reservationExpiresAt :: "string option"
  rr_submissionPhase :: "submission_phase option"
  rr_queueOwnerId :: "string option"
  rr_queueExpiresAt :: "string option"
  rr_queueTicket :: "int option"
  rr_updatedAt :: string
  rr_submitId :: "string option"
  rr_taskVersion :: "int option"
  rr_operation :: "string option"
  rr_mode :: "task_mode option"
  rr_model :: "string option"
  rr_createdAt :: "string option"
  rr_errorCode :: "string option"
  rr_officialStatus :: "provider_status option"
  rr_nextPollAt :: "string option"
  rr_pollLease :: "poll_lease option"
  rr_retryCount :: "int option"
  rr_lastObservedAt :: "string option"
  rr_providerOutputs :: "provider_output list option"
  rr_hidden :: bool

record runtime_disk =
  rd_records :: "runtime_record list"
  rd_nextQueueTicket :: "int option"

datatype journal_error =
  JournalStateInvalid | PollFenced | QueryResponseInvalid | TaskIdInvalid | PollOwnerInvalid

text \<open>The key of a record, \<open>`${ownerId}\u0000${idempotencyKey}`\<close>.\<close>

definition recordKey :: "string \<Rightarrow> string \<Rightarrow> string" where
  "recordKey owner k = owner @ CHR 0x00 # k"

abbreviation rr_key :: "runtime_record \<Rightarrow> string" where
  "rr_key r \<equiv> recordKey (rr_ownerId r) (rr_idempotencyKey r)"

fun stateRank :: "journal_state \<Rightarrow> nat" where
  "stateRank JQueued = 0"
| "stateRank JPending = 1"
| "stateRank JAccepted = 2"
| "stateRank _ = 3"

fun isTerminal :: "journal_state \<Rightarrow> bool" where
  "isTerminal s = (s \<in> {JSucceeded, JFailed, JCancelled, JUnknown, JDeleted})"

section \<open>Validation\<close>

text \<open>The pattern of random identifiers: hexadecimal groups with a version and a variant digit.\<close>

definition random_uuid_ok :: "string \<Rightarrow> bool" where
  "random_uuid_ok s \<longleftrightarrow> uuid_ok s
     \<and> list_all (char_between CHR ''1'' CHR ''5'') (take 1 (drop 14 s))
     \<and> list_all (\<lambda>c. c \<in> set ''89ab'') (take 1 (drop 19 s))"

text \<open>\<open>[A-Za-z0-9._-]\<close>, the alphabet of owners.\<close>

definition owner_char :: "char \<Rightarrow> bool" where
  [js_defs]: "owner_char c \<longleftrightarrow> is_lower c \<or> is_upper c \<or> is_digit c \<or> c \<in> set ''._-''"

text \<open>A present value that passes a check.\<close>

definition has_ok :: "('a \<Rightarrow> bool) \<Rightarrow> 'a option \<Rightarrow> bool" where
  [js_defs]: "has_ok P x = (case x of None \<Rightarrow> False | Some v \<Rightarrow> P v)"

lemma has_ok_simps [simp]: "\<not> has_ok P None" "has_ok P (Some v) = P v"
  by (simp_all add: has_ok_def)

fun validJournalContext :: "task_context \<Rightarrow> bool" where
  "validJournalContext LegacyUnscoped = True"
| "validJournalContext (Scoped c) =
     (list_all (opt_ok plain_text)
        [projectId c, nodeId c, conversationId c, messageId c, retryOf c, attemptGroupId c]
      \<and> opt_ok (\<lambda>n. safe_integer n \<and> 0 \<le> n) (batchIndex c)
      \<and> opt_ok (\<lambda>n. safe_integer n \<and> 1 \<le> n) (batchCount c))"

definition provider_index_ok :: "int \<Rightarrow> bool" where
  "provider_index_ok i \<longleftrightarrow> safe_integer i \<and> 0 \<le> i \<and> i \<le> 3"

definition journal_outputs_ok :: "task_mode option \<Rightarrow> provider_output list \<Rightarrow> bool" where
  "journal_outputs_ok m os \<longleftrightarrow> os \<noteq> [] \<and> length os \<le> 4 \<and> m \<noteq> None
     \<and> distinct (map po_index os)
     \<and> list_all (\<lambda>x. provider_index_ok (po_index x) \<and> Some (po_media x) = map_option media_of_mode m
          \<and> artifact_ref_ok (po_ref x)) os
     \<and> (m = Some ImageMode \<or> length os = 1)"

definition validPollLease :: "poll_lease \<Rightarrow> bool" where
  "validPollLease l \<longleftrightarrow> random_uuid_ok (pl_leaseId l) \<and> random_uuid_ok (pl_ownerId l)
     \<and> date_ok (pl_expiresAt l)"

definition hasSubmitId :: "runtime_record \<Rightarrow> bool" where
  "hasSubmitId r \<longleftrightarrow> has_ok (chars_ok id_char 8 160) (rr_submitId r)"

definition hasReservation :: "runtime_record \<Rightarrow> bool" where
  "hasReservation r \<longleftrightarrow> has_ok random_uuid_ok (rr_reservationId r)
     \<and> has_ok random_uuid_ok (rr_reservationOwnerId r)
     \<and> has_ok date_ok (rr_reservationExpiresAt r)
     \<and> rr_submissionPhase r \<noteq> None
     \<and> (rr_submissionPhase r \<noteq> Some SpawnPermitted
        \<or> has_ok (\<lambda>e. safe_integer e \<and> 1 \<le> e) (rr_fenceEpoch r))"

definition noReservation :: "runtime_record \<Rightarrow> bool" where
  "noReservation r \<longleftrightarrow> rr_reservationId r = None \<and> rr_reservationOwnerId r = None
     \<and> rr_reservationExpiresAt r = None \<and> rr_submissionPhase r = None"

definition legacyReservation :: "runtime_record \<Rightarrow> bool" where
  "legacyReservation r \<longleftrightarrow> rr_state r = JPending \<and> has_ok random_uuid_ok (rr_reservationId r)
     \<and> rr_reservationOwnerId r = None \<and> has_ok date_ok (rr_reservationExpiresAt r)
     \<and> rr_submissionPhase r = None"

definition reservationShapeValid :: "runtime_record \<Rightarrow> bool" where
  "reservationShapeValid r \<longleftrightarrow>
     noReservation r \<or> legacyReservation r \<or> (rr_state r = JPending \<and> hasReservation r)"

definition noQueueLease :: "runtime_record \<Rightarrow> bool" where
  "noQueueLease r \<longleftrightarrow> rr_queueOwnerId r = None \<and> rr_queueExpiresAt r = None"

definition hasQueueLease :: "runtime_record \<Rightarrow> bool" where
  "hasQueueLease r \<longleftrightarrow> rr_state r = JQueued \<and> has_ok random_uuid_ok (rr_queueOwnerId r)
     \<and> has_ok date_ok (rr_queueExpiresAt r)"

text \<open>The checks of \<open>baseValid\<close>, in three parts: identity, the runtime's fields, the poll fields.\<close>

definition identity_valid :: "runtime_record \<Rightarrow> bool" where
  "identity_valid r \<longleftrightarrow> chars_ok owner_char 16 120 (rr_ownerId r)
     \<and> chars_ok id_char 8 160 (rr_idempotencyKey r)
     \<and> opt_ok (chars_ok id_char 16 120) (rr_clientOperationId r)
     \<and> opt_ok validJournalContext (rr_context r)
     \<and> chars_ok hex_char 64 64 (rr_requestHash r)"

definition runtime_fields_valid :: "runtime_record \<Rightarrow> bool" where
  "runtime_fields_valid r \<longleftrightarrow> opt_ok positive_version (rr_journalVersion r)
     \<and> opt_ok positive_version (rr_fenceEpoch r)
     \<and> opt_ok (chars_ok hex_char 64 64) (rr_accountBinding r)
     \<and> opt_ok (\<lambda>e. safe_integer e \<and> 0 \<le> e) (rr_sessionEpoch r)
     \<and> (rr_accountBinding r = None \<longleftrightarrow> rr_sessionEpoch r = None)
     \<and> reservationShapeValid r \<and> (noQueueLease r \<or> hasQueueLease r)
     \<and> opt_ok positive_version (rr_queueTicket r)"

definition poll_fields_valid :: "runtime_record \<Rightarrow> bool" where
  "poll_fields_valid r \<longleftrightarrow> opt_ok date_ok (rr_nextPollAt r)
     \<and> opt_ok validPollLease (rr_pollLease r)
     \<and> opt_ok (\<lambda>n. safe_integer n \<and> 0 \<le> n \<and> n \<le> 1000000) (rr_retryCount r)
     \<and> opt_ok date_ok (rr_lastObservedAt r)
     \<and> opt_ok (journal_outputs_ok (rr_mode r)) (rr_providerOutputs r)"

definition baseValid :: "runtime_record \<Rightarrow> bool" where
  "baseValid r \<longleftrightarrow> identity_valid r \<and> runtime_fields_valid r \<and> poll_fields_valid r
     \<and> date_ok (rr_updatedAt r)
     \<and> (rr_state r \<in> {JQueued, JPending} \<longrightarrow> rr_submitId r = None)
     \<and> (rr_state r = JAccepted \<longrightarrow> hasSubmitId r)"

definition legacy_valid :: "runtime_record \<Rightarrow> bool" where
  "legacy_valid r \<longleftrightarrow> rr_state r \<in> {JPending, JAccepted, JUnknown}
     \<and> rr_clientOperationId r = None \<and> rr_context r = None \<and> rr_operation r = None
     \<and> rr_mode r = None \<and> rr_model r = None \<and> rr_createdAt r = None
     \<and> rr_nextPollAt r = None \<and> rr_pollLease r = None \<and> rr_retryCount r = None
     \<and> rr_lastObservedAt r = None \<and> rr_providerOutputs r = None
     \<and> (rr_errorCode r = None
        \<or> rr_state r = JAccepted \<and> rr_errorCode r = Some ''dreamina_reference_cleanup_failed'')"

definition OPERATIONS :: "string list" where
  "OPERATIONS = [''text2image'', ''image2image'', ''image_upscale'', ''text2video'', ''image2video'',
     ''frames2video'', ''multiframe2video'', ''multimodal2video'']"

definition task_fields_valid :: "runtime_record \<Rightarrow> bool" where
  "task_fields_valid r \<longleftrightarrow> rr_taskVersion r = Some 1
     \<and> has_ok (\<lambda>x. x \<in> set OPERATIONS) (rr_operation r)
     \<and> rr_mode r \<noteq> None \<and> has_ok label_ok (rr_model r) \<and> has_ok date_ok (rr_createdAt r)
     \<and> (rr_state r \<in> {JAccepted, JSucceeded} \<longrightarrow> hasSubmitId r)
     \<and> (rr_providerOutputs r = None
        \<or> rr_state r = JSucceeded \<and> rr_officialStatus r = Some Completed)
     \<and> opt_ok error_code_ok (rr_errorCode r)"

definition validRecord :: "runtime_record \<Rightarrow> bool" where
  "validRecord r \<longleftrightarrow> baseValid r
     \<and> (if rr_taskVersion r = None then legacy_valid r else task_fields_valid r)"

definition validRuntimeDiskState :: "string \<Rightarrow> runtime_disk \<Rightarrow> bool" where
  "validRuntimeDiskState owner d \<longleftrightarrow> length (rd_records d) \<le> 10000
     \<and> opt_ok positive_version (rd_nextQueueTicket d)
     \<and> list_all (\<lambda>r. validRecord r \<and> rr_ownerId r = owner) (rd_records d)
     \<and> distinct (map rr_key (rd_records d))"

text \<open>Reading the file: \<open>None\<close> is a missing file.\<close>

definition readRuntimeDiskState ::
  "string \<Rightarrow> runtime_disk option \<Rightarrow> journal_error + runtime_disk option" where
  "readRuntimeDiskState owner f = (case f of None \<Rightarrow> Inr None
     | Some d \<Rightarrow> if validRuntimeDiskState owner d then Inr (Some d) else Inl JournalStateInvalid)"

section \<open>Progression\<close>

definition sameProviderOutputs ::
  "provider_output list option \<Rightarrow> provider_output list option \<Rightarrow> bool" where
  "sameProviderOutputs l r = (case (l, r) of
     (Some xs, Some ys) \<Rightarrow> length xs = length ys
       \<and> list_all2 (\<lambda>x y. po_index y = po_index x \<and> po_media y = po_media x
            \<and> po_ref y = po_ref x) xs ys
   | _ \<Rightarrow> l = r)"

definition samePollLease :: "poll_lease option \<Rightarrow> poll_lease option \<Rightarrow> bool" where
  "samePollLease l r = (case (l, r) of
     (Some x, Some y) \<Rightarrow> pl_leaseId x = pl_leaseId y \<and> pl_ownerId x = pl_ownerId y
       \<and> pl_expiresAt x = pl_expiresAt y
   | _ \<Rightarrow> l = r)"

definition sameJournalRecord :: "runtime_record \<Rightarrow> runtime_record \<Rightarrow> bool" where
  "sameJournalRecord l r \<longleftrightarrow>
     rr_ownerId l = rr_ownerId r \<and> rr_idempotencyKey l = rr_idempotencyKey r
     \<and> rr_clientOperationId l = rr_clientOperationId r \<and> rr_requestHash l = rr_requestHash r
     \<and> rr_state l = rr_state r \<and> rr_updatedAt l = rr_updatedAt r
     \<and> rr_fenceEpoch l = rr_fenceEpoch r \<and> rr_accountBinding l = rr_accountBinding r
     \<and> rr_sessionEpoch l = rr_sessionEpoch r \<and> rr_reservationId l = rr_reservationId r
     \<and> rr_reservationOwnerId l = rr_reservationOwnerId r
     \<and> rr_reservationExpiresAt l = rr_reservationExpiresAt r
     \<and> rr_submissionPhase l = rr_submissionPhase r \<and> rr_queueOwnerId l = rr_queueOwnerId r
     \<and> rr_queueExpiresAt l = rr_queueExpiresAt r \<and> rr_queueTicket l = rr_queueTicket r
     \<and> rr_submitId l = rr_submitId r \<and> rr_taskVersion l = rr_taskVersion r
     \<and> rr_operation l = rr_operation r \<and> rr_mode l = rr_mode r \<and> rr_model l = rr_model r
     \<and> rr_createdAt l = rr_createdAt r \<and> rr_errorCode l = rr_errorCode r
     \<and> rr_officialStatus l = rr_officialStatus r \<and> rr_nextPollAt l = rr_nextPollAt r
     \<and> rr_retryCount l = rr_retryCount r \<and> rr_lastObservedAt l = rr_lastObservedAt r
     \<and> rr_hidden l = rr_hidden r
     \<and> rr_context l = rr_context r
     \<and> sameProviderOutputs (rr_providerOutputs l) (rr_providerOutputs r)
     \<and> samePollLease (rr_pollLease l) (rr_pollLease r)"

fun status_explains :: "journal_state \<Rightarrow> provider_status option \<Rightarrow> bool" where
  "status_explains JAccepted s = (s = Some Pending \<or> s = Some Processing)"
| "status_explains JSucceeded s = (s = Some Completed)"
| "status_explains JFailed s = (s = Some Failed)"
| "status_explains JCancelled s = (s = Some Cancelled)"
| "status_explains _ s = False"

definition reliableUncertainReconciliation :: "runtime_record \<Rightarrow> bool" where
  "reliableUncertainReconciliation r \<longleftrightarrow>
     truthy (rr_lastObservedAt r) \<and> has_ok date_ok (rr_lastObservedAt r)
     \<and> status_explains (rr_state r) (rr_officialStatus r)"

definition reconciledUncertain :: "runtime_record \<Rightarrow> runtime_record \<Rightarrow> bool" where
  "reconciledUncertain p i \<longleftrightarrow> rr_state p = JUnknown \<and> truthy (rr_submitId p)
     \<and> rr_submitId i = rr_submitId p \<and> reliableUncertainReconciliation i"

text \<open>\<open>Date.parse(a ?? "") < Date.parse(b ?? "")\<close>, false when either is NaN.\<close>

definition expiry_less :: "string option \<Rightarrow> string option \<Rightarrow> bool" where
  "expiry_less a b = date_less (case a of None \<Rightarrow> [] | Some x \<Rightarrow> x) (case b of None \<Rightarrow> [] | Some x \<Rightarrow> x)"

definition queue_kept :: "runtime_record \<Rightarrow> runtime_record \<Rightarrow> bool" where
  "queue_kept p i \<longleftrightarrow>
     (rr_state p = JQueued \<and> rr_state i = JQueued \<and> rr_queueOwnerId p \<noteq> None \<longrightarrow>
        rr_queueOwnerId i = rr_queueOwnerId p \<and> rr_queueTicket i = rr_queueTicket p
        \<and> \<not> expiry_less (rr_queueExpiresAt i) (rr_queueExpiresAt p))"

definition reservation_kept :: "runtime_record \<Rightarrow> runtime_record \<Rightarrow> bool" where
  "reservation_kept p i \<longleftrightarrow>
     (rr_state p = JPending \<and> rr_state i = JPending \<and> rr_reservationId p \<noteq> None \<longrightarrow>
        rr_reservationId i = rr_reservationId p
        \<and> rr_reservationOwnerId i = rr_reservationOwnerId p
        \<and> \<not> (rr_submissionPhase p = Some SpawnPermitted \<and> rr_submissionPhase i \<noteq> Some SpawnPermitted)
        \<and> \<not> expiry_less (rr_reservationExpiresAt i) (rr_reservationExpiresAt p))"

definition identity_kept :: "runtime_record \<Rightarrow> runtime_record \<Rightarrow> bool" where
  "identity_kept p i \<longleftrightarrow> rr_taskVersion i = rr_taskVersion p
     \<and> rr_clientOperationId i = rr_clientOperationId p \<and> rr_context i = rr_context p
     \<and> rr_operation i = rr_operation p \<and> rr_mode i = rr_mode p \<and> rr_model i = rr_model p
     \<and> rr_createdAt i = rr_createdAt p"

definition int_or :: "int \<Rightarrow> int option \<Rightarrow> int" where
  [js_defs]: "int_or a x = (case x of None \<Rightarrow> a | Some v \<Rightarrow> v)"

text \<open>\<open>assertRecordProgression\<close>: true when it does not throw.\<close>

definition record_progression :: "runtime_record \<Rightarrow> runtime_record \<Rightarrow> bool" where
  "record_progression p i \<longleftrightarrow>
     rr_requestHash i = rr_requestHash p
     \<and> (reconciledUncertain p i \<or> stateRank (rr_state p) \<le> stateRank (rr_state i))
     \<and> identity_kept p i
     \<and> (reconciledUncertain p i \<or> \<not> isTerminal (rr_state p) \<or> rr_state i = rr_state p
        \<or> rr_state i = JDeleted)
     \<and> (truthy (rr_submitId p) \<longrightarrow> rr_submitId i = rr_submitId p)
     \<and> (rr_hidden p \<longrightarrow> rr_hidden i)
     \<and> (rr_providerOutputs p \<noteq> None \<longrightarrow>
          sameProviderOutputs (rr_providerOutputs p) (rr_providerOutputs i))
     \<and> opt_ok (\<lambda>e. e \<le> int_or 0 (rr_fenceEpoch i)) (rr_fenceEpoch p)
     \<and> (rr_accountBinding p \<noteq> None \<longrightarrow> rr_accountBinding i = rr_accountBinding p)
     \<and> opt_ok (\<lambda>e. e \<le> int_or (- 1) (rr_sessionEpoch i)) (rr_sessionEpoch p)
     \<and> queue_kept p i \<and> reservation_kept p i"

definition journal_version_of :: "runtime_record \<Rightarrow> int" where
  "journal_version_of r = int_or 1 (rr_journalVersion r)"

definition removablePreSpawnIntent :: "runtime_record \<Rightarrow> bool" where
  "removablePreSpawnIntent r \<longleftrightarrow> rr_state r = JPending \<and> rr_submitId r = None"

text \<open>\<open>assertProgression\<close>: true when it does not throw.\<close>

definition journal_progression :: "runtime_disk \<Rightarrow> runtime_disk \<Rightarrow> bool" where
  "journal_progression prev cur \<longleftrightarrow>
     int_or 1 (rd_nextQueueTicket prev) \<le> int_or 1 (rd_nextQueueTicket cur)
     \<and> list_all (\<lambda>p. case map_get rr_key (rd_records cur) (rr_key p) of
            None \<Rightarrow> False
          | Some i \<Rightarrow> record_progression p i
              \<and> journal_version_of p \<le> journal_version_of i
              \<and> (journal_version_of i = journal_version_of p \<longrightarrow> sameJournalRecord p i))
         (rd_records prev)"

section \<open>Writing\<close>

text \<open>The version a write gives a record, against the document on disk (\<open>prior\<close>).\<close>

definition assign_version :: "runtime_record option \<Rightarrow> runtime_record \<Rightarrow> journal_error + runtime_record" where
  "assign_version prior r = (case prior of
     None \<Rightarrow> Inr (r\<lparr>rr_journalVersion := Some 1\<rparr>)
   | Some p \<Rightarrow>
       if \<not> record_progression p r then Inl JournalStateInvalid
       else Inr (r\<lparr>rr_journalVersion := Some (if sameJournalRecord p r then journal_version_of p
                                           else journal_version_of p + 1)\<rparr>))"

text \<open>The loop over the incoming records; \<open>seen\<close> is \<open>incomingKeys\<close>.\<close>

fun assign_versions ::
  "runtime_record list \<Rightarrow> string list \<Rightarrow> runtime_record list \<Rightarrow> journal_error + runtime_record list" where
  "assign_versions old seen [] = Inr []"
| "assign_versions old seen (r # rs) =
     (if rr_key r \<in> set seen then Inl JournalStateInvalid
      else bindE (assign_version (map_get rr_key old (rr_key r)) r) (\<lambda>r'.
           bindE (assign_versions old (rr_key r # seen) rs) (\<lambda>rs'. Inr (r' # rs'))))"

definition assignJournalVersions ::
  "runtime_disk option \<Rightarrow> runtime_disk \<Rightarrow> journal_error + runtime_disk" where
  "assignJournalVersions previous payload =
     (let old = (case previous of None \<Rightarrow> [] | Some d \<Rightarrow> rd_records d) in
      bindE (assign_versions old [] (rd_records payload)) (\<lambda>rs.
        if list_all (\<lambda>p. rr_key p \<in> set (map rr_key rs) \<or> removablePreSpawnIntent p) old
        then Inr (payload\<lparr>rd_records := rs\<rparr>) else Inl JournalStateInvalid))"

record journal_files =
  j_primary :: "runtime_disk option"
  j_backup :: "runtime_disk option"

definition recoverStateReplacement :: "string \<Rightarrow> journal_files \<Rightarrow> journal_error + journal_files" where
  "recoverStateReplacement owner fs =
     bindE (readRuntimeDiskState owner (j_backup fs)) (\<lambda>previous.
       case previous of None \<Rightarrow> Inr fs
       | Some p \<Rightarrow> bindE (readRuntimeDiskState owner (j_primary fs)) (\<lambda>current.
           case current of
             None \<Rightarrow> Inr \<lparr>j_primary = j_backup fs, j_backup = None\<rparr>
           | Some c \<Rightarrow> if journal_progression p c then Inr (fs\<lparr>j_backup := None\<rparr>)
                      else Inl JournalStateInvalid))"

text \<open>The document a write puts in place of the one on disk; recovery runs first.\<close>

definition persistRuntimeDiskState ::
  "string \<Rightarrow> journal_files \<Rightarrow> runtime_disk \<Rightarrow> journal_error + runtime_disk" where
  "persistRuntimeDiskState owner fs payload =
     bindE (recoverStateReplacement owner fs) (\<lambda>fs'.
     bindE (readRuntimeDiskState owner (j_primary fs')) (\<lambda>previous.
     bindE (assignJournalVersions previous payload) (\<lambda>d.
       if validRuntimeDiskState owner d then Inr d else Inl JournalStateInvalid)))"

text \<open>A whole write under the lock: the files a lock owner finds after recovery, and the document that
  is in place when the write returns.\<close>

definition write_journal ::
  "string \<Rightarrow> runtime_disk option \<Rightarrow> runtime_disk \<Rightarrow> journal_error + runtime_disk option" where
  "write_journal owner d payload =
     map_sum id Some (persistRuntimeDiskState owner \<lparr>j_primary = d, j_backup = None\<rparr> payload)"

text \<open>The states of the two files that a replacement passes through, where a crash can leave them.\<close>

definition replaceStateFile_states ::
  "rename_outcome \<Rightarrow> runtime_disk \<Rightarrow> journal_files \<Rightarrow> journal_files list" where
  "replaceStateFile_states how new fs =
     (case how of
        RenameDirect \<Rightarrow> [fs, fs\<lparr>j_primary := Some new\<rparr>]
      | _ \<Rightarrow>
          if j_backup fs \<noteq> None \<or> j_primary fs = None then [fs]
          else
            let moved = \<lparr>j_primary = None, j_backup = j_primary fs\<rparr> in
            if how = RenameDeniedTwice then [fs, moved, \<lparr>j_primary = j_primary fs, j_backup = None\<rparr>]
            else [fs, moved, moved\<lparr>j_primary := Some new\<rparr>,
                  \<lparr>j_primary = Some new, j_backup = None\<rparr>])"

section \<open>The copy the projector reads\<close>

definition truthy_int :: "int option \<Rightarrow> int option" where
  [js_defs]: "truthy_int x = (if x = Some 0 then None else x)"

definition truthy_str :: "string option \<Rightarrow> string option" where
  [js_defs]: "truthy_str x = (if truthy x then x else None)"

definition safe_journal_record :: "runtime_record \<Rightarrow> journal_record" where
  "safe_journal_record r =
     \<lparr>recordId = rr_idempotencyKey r, journal_version = journal_version_of r,
      jr_requestHash = rr_requestHash r, jr_clientOperationId = truthy_str (rr_clientOperationId r),
      jr_context = rr_context r, jr_state = rr_state r, jr_hasProviderTask = truthy (rr_submitId r),
      jr_taskVersion = truthy_int (rr_taskVersion r), jr_operation = truthy_str (rr_operation r),
      jr_mode = rr_mode r, jr_model = truthy_str (rr_model r),
      jr_createdAt = truthy_str (rr_createdAt r), jr_updatedAt = rr_updatedAt r,
      jr_errorCode = truthy_str (rr_errorCode r), jr_officialStatus = rr_officialStatus r,
      jr_accountBinding = truthy_str (rr_accountBinding r), jr_fenceEpoch = truthy_int (rr_fenceEpoch r),
      jr_providerOutputs = rr_providerOutputs r, jr_hidden = rr_hidden r\<rparr>"

definition readSafeJournal ::
  "string \<Rightarrow> journal_files \<Rightarrow> journal_error + journal_record list" where
  "readSafeJournal owner fs =
     bindE (recoverStateReplacement owner fs) (\<lambda>fs'.
     bindE (readRuntimeDiskState owner (j_primary fs')) (\<lambda>d.
       Inr (map safe_journal_record (case d of None \<Rightarrow> [] | Some x \<Rightarrow> rd_records x))))"

end
