(* ===== verification/RuntimeJournalClaims.thy ===== *)
theory RuntimeJournalClaims
  imports RuntimeJournal TaskProjectionProofs
begin

text \<open>
  What the journal promises: a write is crash safe as long as it withdraws nothing, a record that
  carries a receipt or has ended is kept by every later write whatever its author does, and the
  projector accepts what the journal holds. A write is any document handed to
  \<open>persistRuntimeDiskState\<close>, so the promises hold for the runtime and the reconciler alike.
\<close>

section \<open>Comparisons\<close>

lemma sameProviderOutputs_eq [simp]: "sameProviderOutputs l r \<longleftrightarrow> l = r"
proof -
  have *: "(\<lambda>x y. po_index y = po_index x \<and> po_media y = po_media x \<and> po_ref y = po_ref x)
      = ((=) :: provider_output \<Rightarrow> provider_output \<Rightarrow> bool)" by (auto intro!: ext)
  show ?thesis unfolding sameProviderOutputs_def *
    by (auto simp: list_all2_eq[symmetric] split: option.splits)
qed

lemma samePollLease_eq [simp]: "samePollLease l r \<longleftrightarrow> l = r"
  by (auto simp: samePollLease_def split: option.splits)

lemma sameJournalRecord_iff:
  "sameJournalRecord l r \<longleftrightarrow> l\<lparr>rr_journalVersion := None\<rparr> = r\<lparr>rr_journalVersion := None\<rparr>"
  by (cases l, cases r) (auto simp: sameJournalRecord_def)

lemma sameJournalRecord_refl [simp]: "sameJournalRecord r r"
  by (simp add: sameJournalRecord_iff)

lemma sameJournalRecord_version [simp]:
  "sameJournalRecord p (r\<lparr>rr_journalVersion := v\<rparr>) = sameJournalRecord p r"
  by (simp add: sameJournalRecord_iff)

lemma sameJournalRecord_trans:
  "sameJournalRecord a b \<Longrightarrow> sameJournalRecord b c \<Longrightarrow> sameJournalRecord a c"
  by (simp add: sameJournalRecord_iff)

lemma status_explains_version [simp]:
  "reliableUncertainReconciliation (r\<lparr>rr_journalVersion := v\<rparr>) = reliableUncertainReconciliation r"
  by (simp add: reliableUncertainReconciliation_def)

lemma record_progression_version [simp]:
  "record_progression p (r\<lparr>rr_journalVersion := v\<rparr>) = record_progression p r"
  by (simp add: record_progression_def reconciledUncertain_def identity_kept_def queue_kept_def
      reservation_kept_def)

section \<open>A write\<close>

lemma assign_versionD:
  assumes "assign_version prior r = Inr r'"
  shows "r'\<lparr>rr_journalVersion := None\<rparr> = r\<lparr>rr_journalVersion := None\<rparr>" "rr_key r' = rr_key r"
    "prior = Some p \<Longrightarrow> record_progression p r' \<and> journal_version_of p \<le> journal_version_of r'
       \<and> (journal_version_of r' = journal_version_of p \<longrightarrow> sameJournalRecord p r')"
  using assms by (auto simp: assign_version_def journal_version_of_def int_or_def
      split: option.splits if_splits)

lemma assign_versionsD:
  "assign_versions old seen rs = Inr rs' \<Longrightarrow>
   list_all2 (\<lambda>r r'. assign_version (map_get rr_key old (rr_key r)) r = Inr r') rs rs'
   \<and> distinct (map rr_key rs) \<and> (\<forall>r \<in> set rs. rr_key r \<notin> set seen)"
proof (induction old seen rs arbitrary: rs' rule: assign_versions.induct)
  case (2 old seen r rs)
  then obtain r' rs'' where r: "rr_key r \<notin> set seen"
    "assign_version (map_get rr_key old (rr_key r)) r = Inr r'"
    "assign_versions old (rr_key r # seen) rs = Inr rs''" "rs' = r' # rs''"
    by (auto split: sum.splits if_splits)
  from 2(1)[OF r(1,2,3)] r show ?case by (auto simp: image_iff)
qed simp

lemma list_all2_keys:
  assumes "list_all2 (\<lambda>r r'. assign_version (f r) r = Inr r') rs rs'"
  shows "map rr_key rs' = map rr_key rs"
  using assms by (induction rule: list_all2_induct) (auto dest: assign_versionD(2))

abbreviation disk_records :: "runtime_disk option \<Rightarrow> runtime_record list" where
  "disk_records d \<equiv> (case d of None \<Rightarrow> [] | Some x \<Rightarrow> rd_records x)"

abbreviation disk_ticket :: "runtime_disk option \<Rightarrow> int" where
  "disk_ticket d \<equiv> (case d of None \<Rightarrow> 1 | Some x \<Rightarrow> int_or 1 (rd_nextQueueTicket x))"

text \<open>What a successful write did.\<close>

lemma assignD:
  assumes "assignJournalVersions prev payload = Inr d"
    and "distinct (map rr_key (disk_records prev))"
  shows "map (\<lambda>r. r\<lparr>rr_journalVersion := None\<rparr>) (rd_records d)
      = map (\<lambda>r. r\<lparr>rr_journalVersion := None\<rparr>) (rd_records payload)"
    "rd_nextQueueTicket d = rd_nextQueueTicket payload"
    "distinct (map rr_key (rd_records d))"
    "\<And>p. p \<in> set (disk_records prev) \<Longrightarrow>
      (\<exists>i \<in> set (rd_records d). rr_key i = rr_key p \<and> record_progression p i
         \<and> journal_version_of p \<le> journal_version_of i
         \<and> (journal_version_of i = journal_version_of p \<longrightarrow> sameJournalRecord p i))
      \<or> removablePreSpawnIntent p \<and> rr_key p \<notin> rr_key ` set (rd_records payload)"
proof -
  let ?old = "disk_records prev"
  obtain rs where rs: "assign_versions ?old [] (rd_records payload) = Inr rs"
    "list_all (\<lambda>p. rr_key p \<in> set (map rr_key rs) \<or> removablePreSpawnIntent p) ?old"
    "d = payload\<lparr>rd_records := rs\<rparr>"
    using assms(1) by (auto simp: assignJournalVersions_def Let_def split: sum.splits if_splits)
  from assign_versionsD[OF rs(1)] have all:
    "list_all2 (\<lambda>r r'. assign_version (map_get rr_key ?old (rr_key r)) r = Inr r') (rd_records payload) rs"
    and dist: "distinct (map rr_key (rd_records payload))" by auto
  from list_all2_keys[OF all] have keys: "map rr_key rs = map rr_key (rd_records payload)" .
  have "map (\<lambda>r. r\<lparr>rr_journalVersion := None\<rparr>) rs
      = map (\<lambda>r. r\<lparr>rr_journalVersion := None\<rparr>) (rd_records payload)"
    using all
  proof (induction rule: list_all2_induct)
    case (Cons x xs y ys)
    with assign_versionD(1)[OF Cons(1)] show ?case by simp
  qed simp
  then show "map (\<lambda>r. r\<lparr>rr_journalVersion := None\<rparr>) (rd_records d)
      = map (\<lambda>r. r\<lparr>rr_journalVersion := None\<rparr>) (rd_records payload)"
    by (simp add: rs(3))
  show "rd_nextQueueTicket d = rd_nextQueueTicket payload" by (simp add: rs(3))
  show "distinct (map rr_key (rd_records d))" using dist keys by (simp add: rs(3))
  fix p assume p: "p \<in> set ?old"
  show "(\<exists>i \<in> set (rd_records d). rr_key i = rr_key p \<and> record_progression p i
         \<and> journal_version_of p \<le> journal_version_of i
         \<and> (journal_version_of i = journal_version_of p \<longrightarrow> sameJournalRecord p i))
      \<or> removablePreSpawnIntent p \<and> rr_key p \<notin> rr_key ` set (rd_records payload)"
  proof (cases "rr_key p \<in> set (map rr_key rs)")
    case True
    then obtain k where k: "k < length rs" "rr_key (rs ! k) = rr_key p"
      by (auto simp: in_set_conv_nth)
    let ?r = "rd_records payload ! k"
    have a: "assign_version (map_get rr_key ?old (rr_key ?r)) ?r = Inr (rs ! k)"
      using all k(1) by (auto simp: list_all2_conv_all_nth)
    from assign_versionD(2)[OF a] k(2) have "rr_key ?r = rr_key p" by simp
    with p assms(2) have "map_get rr_key ?old (rr_key ?r) = Some p"
      by (simp add: map_get_iff)
    from assign_versionD(3)[OF a this] k show ?thesis by (auto simp: rs(3))
  next
    case False
    have "rr_key ` set (rd_records payload) = set (map rr_key rs)" by (simp only: keys) simp
    with False p rs(2) show ?thesis by (auto simp: list_all_iff)
  qed
qed

section \<open>Crash safety\<close>

lemma read_validD: "readRuntimeDiskState owner f = Inr d \<Longrightarrow>
    f = d \<and> opt_ok (validRuntimeDiskState owner) d"
  by (auto simp: readRuntimeDiskState_def split: option.splits if_splits)

lemma read_validI [simp]: "opt_ok (validRuntimeDiskState owner) d \<Longrightarrow> readRuntimeDiskState owner d = Inr d"
  by (cases d) (auto simp: readRuntimeDiskState_def)

lemma recovered_backup: "recoverStateReplacement owner fs = Inr fs' \<Longrightarrow> j_backup fs' = None"
  by (auto simp: recoverStateReplacement_def readRuntimeDiskState_def
      split: sum.splits option.splits if_splits)

lemma recover_clean [simp]:
  "recoverStateReplacement owner \<lparr>j_primary = d, j_backup = None\<rparr> = Inr \<lparr>j_primary = d, j_backup = None\<rparr>"
  by (simp add: recoverStateReplacement_def)

lemma valid_distinct: "opt_ok (validRuntimeDiskState owner) d \<Longrightarrow> distinct (map rr_key (disk_records d))"
  by (cases d) (auto simp: validRuntimeDiskState_def)

lemma persistD:
  assumes "persistRuntimeDiskState owner fs payload = Inr new"
  obtains fs' where "recoverStateReplacement owner fs = Inr fs'" "j_backup fs' = None"
    "opt_ok (validRuntimeDiskState owner) (j_primary fs')"
    "assignJournalVersions (j_primary fs') payload = Inr new" "validRuntimeDiskState owner new"
proof -
  from assms obtain fs' prev where fs: "recoverStateReplacement owner fs = Inr fs'"
    "readRuntimeDiskState owner (j_primary fs') = Inr prev"
    "assignJournalVersions prev payload = Inr new" "validRuntimeDiskState owner new"
    unfolding persistRuntimeDiskState_def by (auto split: sum.splits if_splits)
  from read_validD[OF fs(2)] fs recovered_backup[OF fs(1)] show thesis by (intro that) auto
qed

lemma progression_of_write:
  assumes "opt_ok (validRuntimeDiskState owner) (Some old)" "assignJournalVersions (Some old) payload = Inr new"
    and "rr_key ` set (rd_records old) \<subseteq> rr_key ` set (rd_records payload)"
    and "disk_ticket (Some old) \<le> int_or 1 (rd_nextQueueTicket payload)"
  shows "journal_progression old new"
proof -
  note a = assignD[OF assms(2) valid_distinct[OF assms(1)], simplified]
  have "case map_get rr_key (rd_records new) (rr_key p) of None \<Rightarrow> False
      | Some i \<Rightarrow> record_progression p i \<and> journal_version_of p \<le> journal_version_of i
          \<and> (journal_version_of i = journal_version_of p \<longrightarrow> sameJournalRecord p i)"
    if p: "p \<in> set (rd_records old)" for p
  proof -
    have "rr_key p \<in> rr_key ` set (rd_records payload)" using assms(3) p by blast
    with a(4)[OF p] obtain i where i: "i \<in> set (rd_records new)" "rr_key i = rr_key p"
      "record_progression p i" "journal_version_of p \<le> journal_version_of i"
      "journal_version_of i = journal_version_of p \<longrightarrow> sameJournalRecord p i" by blast
    have "map_get rr_key (rd_records new) (rr_key p) = Some i" using a(3) i by (simp add: map_get_iff)
    with i show ?thesis by simp
  qed
  with assms(4) a(2) show ?thesis by (simp add: journal_progression_def list_all_iff)
qed

text \<open>C8: A write that withdraws no record and does not lower the queue ticket leaves a valid document
  with the records it was given, up to the versions it assigns, and a crash anywhere in the file
  replacement recovers to the document before or to the new one.\<close>

theorem journal_write_crash_safe:
  assumes "persistRuntimeDiskState owner fs payload = Inr new"
    and "recoverStateReplacement owner fs = Inr before"
    and "rr_key ` set (disk_records (j_primary before)) \<subseteq> rr_key ` set (rd_records payload)"
    and "disk_ticket (j_primary before) \<le> int_or 1 (rd_nextQueueTicket payload)"
    and "st \<in> set (replaceStateFile_states how new before)"
  shows "validRuntimeDiskState owner new
    \<and> map (\<lambda>r. r\<lparr>rr_journalVersion := None\<rparr>) (rd_records new)
      = map (\<lambda>r. r\<lparr>rr_journalVersion := None\<rparr>) (rd_records payload)
    \<and> (\<exists>d \<in> {j_primary before, Some new}.
      recoverStateReplacement owner st = Inr \<lparr>j_primary = d, j_backup = None\<rparr>)"
proof (intro conjI)
  obtain fs' where p: "recoverStateReplacement owner fs = Inr fs'" "j_backup fs' = None"
    "opt_ok (validRuntimeDiskState owner) (j_primary fs')"
    "assignJournalVersions (j_primary fs') payload = Inr new" "validRuntimeDiskState owner new"
    using persistD[OF assms(1)] by blast
  with assms(2) have [simp]: "fs' = before" by simp
  show "validRuntimeDiskState owner new" by (rule p(5))
  show "map (\<lambda>r. r\<lparr>rr_journalVersion := None\<rparr>) (rd_records new)
      = map (\<lambda>r. r\<lparr>rr_journalVersion := None\<rparr>) (rd_records payload)"
    by (rule assignD(1)[OF p(4) valid_distinct[OF p(3)]])
  obtain old where b: "before = \<lparr>j_primary = old, j_backup = None\<rparr>"
    using p(2) by (cases before) auto
  have prog: "journal_progression x new" if "old = Some x" for x
    using progression_of_write[of owner x payload new] p(3,4) assms(3,4) that by (simp add: b)
  show "\<exists>d \<in> {j_primary before, Some new}.
      recoverStateReplacement owner st = Inr \<lparr>j_primary = d, j_backup = None\<rparr>"
    using assms(5) p(3,5) prog
    by (cases how; cases old)
      (auto simp: b replaceStateFile_states_def recoverStateReplacement_def Let_def readRuntimeDiskState_def)
qed

text \<open>A task accepted by the provider, and the same task before its submission.\<close>

definition sample_record :: runtime_record where
  "sample_record =
     \<lparr>rr_ownerId = ''owner-0123456789'', rr_idempotencyKey = ''task-0001'',
      rr_clientOperationId = None, rr_context = Some LegacyUnscoped,
      rr_requestHash = replicate 64 CHR ''a'', rr_state = JAccepted, rr_journalVersion = Some 1,
      rr_fenceEpoch = None, rr_accountBinding = None, rr_sessionEpoch = None,
      rr_reservationId = None, rr_reservationOwnerId = None, rr_reservationExpiresAt = None,
      rr_submissionPhase = None, rr_queueOwnerId = None, rr_queueExpiresAt = None,
      rr_queueTicket = None, rr_updatedAt = ''2026-01-01T00:00:00.000Z'',
      rr_submitId = Some ''submit-0001'', rr_taskVersion = Some 1, rr_operation = Some ''text2image'',
      rr_mode = Some ImageMode, rr_model = Some ''5.0'',
      rr_createdAt = Some ''2026-01-01T00:00:00.000Z'', rr_errorCode = None, rr_officialStatus = None,
      rr_nextPollAt = None, rr_pollLease = None, rr_retryCount = None, rr_lastObservedAt = None,
      rr_providerOutputs = None, rr_hidden = False\<rparr>"

definition sample_intent :: runtime_record where
  "sample_intent = sample_record\<lparr>rr_idempotencyKey := ''task-0002'', rr_state := JPending,
     rr_submitId := None\<rparr>"

definition sample_disk :: runtime_disk where
  "sample_disk = \<lparr>rd_records = [sample_record], rd_nextQueueTicket = Some 2\<rparr>"

definition hidden_disk :: runtime_disk where
  "hidden_disk = sample_disk\<lparr>rd_records := [sample_record\<lparr>rr_hidden := True\<rparr>]\<rparr>"

lemma validRecord_hidden [simp]: "validRecord (r\<lparr>rr_hidden := h\<rparr>) = validRecord r"
  by (simp add: validRecord_def baseValid_def identity_valid_def runtime_fields_valid_def
      poll_fields_valid_def legacy_valid_def task_fields_valid_def hasSubmitId_def hasReservation_def
      noReservation_def legacyReservation_def reservationShapeValid_def noQueueLease_def
      hasQueueLease_def)

lemmas part_defs = identity_valid_def runtime_fields_valid_def poll_fields_valid_def legacy_valid_def
  task_fields_valid_def hasSubmitId_def hasReservation_def noReservation_def legacyReservation_def
  reservationShapeValid_def noQueueLease_def hasQueueLease_def

lemma validRecord_version:
  assumes "validRecord r" "positive_version v"
  shows "validRecord (r\<lparr>rr_journalVersion := Some v\<rparr>)"
proof -
  let ?r = "r\<lparr>rr_journalVersion := Some v\<rparr>"
  have "legacy_valid ?r = legacy_valid r" "task_fields_valid ?r = task_fields_valid r"
    "identity_valid ?r = identity_valid r" "poll_fields_valid ?r = poll_fields_valid r"
    "hasSubmitId ?r = hasSubmitId r"
    by (simp_all add: part_defs)
  moreover have "runtime_fields_valid r \<Longrightarrow> runtime_fields_valid ?r"
    using assms(2) by (simp add: part_defs)
  ultimately show ?thesis using assms(1) by (simp add: validRecord_def baseValid_def)
qed

lemma sample_valid: "validRecord sample_record" "validRecord sample_intent"
  by code_simp+

lemma sample_keys:
  "rr_ownerId sample_record = ''owner-0123456789''" "rr_ownerId sample_intent = ''owner-0123456789''"
  "rr_idempotencyKey sample_record = ''task-0001''" "rr_idempotencyKey sample_intent = ''task-0002''"
  "rr_journalVersion sample_record = Some 1" "rr_journalVersion sample_intent = Some 1"
  "rr_state sample_intent = JPending" "rr_submitId sample_intent = None"
  by (simp_all add: sample_intent_def sample_record_def)

lemma sample_progression:
  "record_progression sample_record (sample_record\<lparr>rr_hidden := True\<rparr>)"
  "record_progression sample_record sample_record"
  "\<not> sameJournalRecord sample_record (sample_record\<lparr>rr_hidden := True\<rparr>)"
  by code_simp+

lemma recordKey_inj [simp]: "recordKey a k = recordKey a l \<longleftrightarrow> k = l"
  by (simp add: recordKey_def)

lemma sample_disks_valid:
  "validRuntimeDiskState ''owner-0123456789'' sample_disk"
  "validRuntimeDiskState ''owner-0123456789''
     \<lparr>rd_records = [sample_record, sample_intent], rd_nextQueueTicket = Some 2\<rparr>"
  "validRuntimeDiskState ''owner-0123456789'' (sample_disk\<lparr>rd_records :=
     [sample_record\<lparr>rr_hidden := True, rr_journalVersion := Some 2\<rparr>]\<rparr>)"
  by (simp_all add: validRuntimeDiskState_def sample_disk_def sample_valid sample_keys
      positive_version_def safe_integer_def validRecord_version)

lemmas write_defs = persistRuntimeDiskState_def assignJournalVersions_def assign_version_def map_get_def
  journal_version_of_def int_or_def removablePreSpawnIntent_def

lemma sample_writes:
  "recoverStateReplacement ''owner-0123456789'' \<lparr>j_primary = Some sample_disk, j_backup = None\<rparr>
     = Inr \<lparr>j_primary = Some sample_disk, j_backup = None\<rparr>"
  "persistRuntimeDiskState ''owner-0123456789'' \<lparr>j_primary = Some sample_disk, j_backup = None\<rparr> hidden_disk
     = Inr (sample_disk\<lparr>rd_records := [sample_record\<lparr>rr_hidden := True, rr_journalVersion := Some 2\<rparr>]\<rparr>)"
  using sample_disks_valid
  by (simp_all add: write_defs Let_def sample_disk_def hidden_disk_def sample_keys sample_progression)

lemma journal_write_crash_safe_witness:
  "\<exists>d \<in> {Some sample_disk, Some (sample_disk\<lparr>rd_records := [sample_record\<lparr>rr_hidden := True, rr_journalVersion := Some 2\<rparr>]\<rparr>)}.
     recoverStateReplacement ''owner-0123456789'' \<lparr>j_primary = None, j_backup = Some sample_disk\<rparr>
       = Inr \<lparr>j_primary = d, j_backup = None\<rparr>"
  using journal_write_crash_safe[OF sample_writes(2,1), where how = RenameDenied
      and st = "\<lparr>j_primary = None, j_backup = Some sample_disk\<rparr>"]
  by (simp add: replaceStateFile_states_def hidden_disk_def sample_disk_def int_or_def)

text \<open>Withdrawing an intent that never spawned is a legal write, yet a crash between the second rename
  and the removal of the backup leaves two files that recovery refuses from then on.\<close>

lemma withdrawn_intent_strands_recovery:
  defines "old \<equiv> \<lparr>rd_records = [sample_record, sample_intent], rd_nextQueueTicket = Some 2\<rparr>"
  shows "persistRuntimeDiskState ''owner-0123456789'' \<lparr>j_primary = Some old, j_backup = None\<rparr> sample_disk
      = Inr sample_disk"
    "\<lparr>j_primary = Some sample_disk, j_backup = Some old\<rparr>
      \<in> set (replaceStateFile_states RenameDenied sample_disk \<lparr>j_primary = Some old, j_backup = None\<rparr>)"
    "recoverStateReplacement ''owner-0123456789'' \<lparr>j_primary = Some sample_disk, j_backup = Some old\<rparr>
      = Inl JournalStateInvalid"
  proof -
  have eq: "sample_record\<lparr>rr_journalVersion := Some 1\<rparr> = sample_record" by (simp add: sample_record_def)
  show "persistRuntimeDiskState ''owner-0123456789'' \<lparr>j_primary = Some old, j_backup = None\<rparr> sample_disk
      = Inr sample_disk"
    using sample_disks_valid unfolding old_def
    by (simp add: write_defs Let_def sample_disk_def sample_keys sample_progression eq)
  show "\<lparr>j_primary = Some sample_disk, j_backup = Some old\<rparr>
      \<in> set (replaceStateFile_states RenameDenied sample_disk \<lparr>j_primary = Some old, j_backup = None\<rparr>)"
    by (simp add: replaceStateFile_states_def)
  show "recoverStateReplacement ''owner-0123456789'' \<lparr>j_primary = Some sample_disk, j_backup = Some old\<rparr>
      = Inl JournalStateInvalid"
    using sample_disks_valid unfolding old_def
    by (simp add: recoverStateReplacement_def journal_progression_def map_get_def sample_disk_def
        sample_keys)
qed

section \<open>What every later write keeps\<close>

text \<open>A record that no write can withdraw or send back: it carries a receipt, or it has ended.\<close>

definition durable :: "runtime_record \<Rightarrow> bool" where
  "durable r \<longleftrightarrow> truthy (rr_submitId r) \<or> stateRank (rr_state r) = 3"

definition record_kept :: "runtime_record \<Rightarrow> runtime_record \<Rightarrow> bool" where
  "record_kept p i \<longleftrightarrow> rr_key i = rr_key p \<and> durable i
     \<and> rr_requestHash i = rr_requestHash p \<and> identity_kept p i
     \<and> (truthy (rr_submitId p) \<longrightarrow> rr_submitId i = rr_submitId p)
     \<and> (rr_hidden p \<longrightarrow> rr_hidden i)
     \<and> (rr_providerOutputs p \<noteq> None \<longrightarrow> rr_providerOutputs i = rr_providerOutputs p)
     \<and> (rr_accountBinding p \<noteq> None \<longrightarrow> rr_accountBinding i = rr_accountBinding p)
     \<and> (rr_state p \<in> {JSucceeded, JFailed, JCancelled, JDeleted} \<longrightarrow> rr_state i \<in> {rr_state p, JDeleted})
     \<and> journal_version_of p \<le> journal_version_of i
     \<and> (journal_version_of i = journal_version_of p \<longrightarrow> sameJournalRecord p i)"

lemma record_kept_refl: "durable p \<Longrightarrow> record_kept p p"
  by (simp add: record_kept_def identity_kept_def)

lemma identity_kept_trans: "identity_kept a b \<Longrightarrow> identity_kept b c \<Longrightarrow> identity_kept a c"
  unfolding identity_kept_def by simp

lemma record_keptD:
  assumes "record_kept p i"
  shows "rr_key i = rr_key p" "durable i" "rr_requestHash i = rr_requestHash p" "identity_kept p i"
    "truthy (rr_submitId p) \<longrightarrow> rr_submitId i = rr_submitId p"
    "rr_hidden p \<longrightarrow> rr_hidden i"
    "rr_providerOutputs p \<noteq> None \<longrightarrow> rr_providerOutputs i = rr_providerOutputs p"
    "rr_accountBinding p \<noteq> None \<longrightarrow> rr_accountBinding i = rr_accountBinding p"
    "rr_state p \<in> {JSucceeded, JFailed, JCancelled, JDeleted} \<longrightarrow> rr_state i \<in> {rr_state p, JDeleted}"
    "journal_version_of p \<le> journal_version_of i"
    "journal_version_of i = journal_version_of p \<longrightarrow> sameJournalRecord p i"
  using assms unfolding record_kept_def by - (elim conjE; assumption)+

lemma final_trans:
  assumes "s \<in> {JSucceeded, JFailed, JCancelled, JDeleted} \<longrightarrow> t \<in> {s, JDeleted}"
    and "t \<in> {JSucceeded, JFailed, JCancelled, JDeleted} \<longrightarrow> u \<in> {t, JDeleted}"
  shows "s \<in> {JSucceeded, JFailed, JCancelled, JDeleted} \<longrightarrow> u \<in> {s, JDeleted}"
  using assms by auto

lemma record_kept_trans:
  assumes "record_kept a b" "record_kept b c"
  shows "record_kept a c"
proof -
  note ab = record_keptD[OF assms(1)] and bc = record_keptD[OF assms(2)]
  have "journal_version_of c = journal_version_of a \<longrightarrow> sameJournalRecord a c"
  proof
    assume "journal_version_of c = journal_version_of a"
    then have "journal_version_of b = journal_version_of a" "journal_version_of c = journal_version_of b"
      using ab(10) bc(10) by linarith+
    with ab(11) bc(11) show "sameJournalRecord a c" by (blast intro: sameJournalRecord_trans)
  qed
  moreover have "truthy (rr_submitId a) \<longrightarrow> rr_submitId c = rr_submitId a"
    using ab(5) bc(5) by fastforce
  moreover have "rr_providerOutputs a \<noteq> None \<longrightarrow> rr_providerOutputs c = rr_providerOutputs a"
    using ab(7) bc(7) by fastforce
  moreover have "rr_accountBinding a \<noteq> None \<longrightarrow> rr_accountBinding c = rr_accountBinding a"
    using ab(8) bc(8) by fastforce
  moreover have "rr_hidden a \<longrightarrow> rr_hidden c" using ab(6) bc(6) by blast
  ultimately show ?thesis unfolding record_kept_def
    using final_trans[OF ab(9) bc(9)] trans[OF bc(1) ab(1)] trans[OF bc(3) ab(3)]
      order_trans[OF ab(10) bc(10)] identity_kept_trans[OF ab(4) bc(4)] bc(2)
    by (intro conjI)
qed

lemma final_not_uncertain: "rr_state p \<noteq> JUnknown \<Longrightarrow> \<not> reconciledUncertain p i"
  by (simp add: reconciledUncertain_def)

lemma stateRank_le: "stateRank s \<le> 3"
  by (cases s) auto

lemma progression_keeps:
  assumes "record_progression p i" "durable p" "rr_key i = rr_key p"
    and "journal_version_of p \<le> journal_version_of i"
    and "journal_version_of i = journal_version_of p \<longrightarrow> sameJournalRecord p i"
  shows "record_kept p i"
proof -
  have d: "durable i"
  proof (cases "truthy (rr_submitId p)")
    case True
    with assms(1) show ?thesis by (simp add: durable_def record_progression_def)
  next
    case False
    with assms(1,2) have "3 \<le> stateRank (rr_state i)"
      by (auto simp: durable_def record_progression_def reconciledUncertain_def)
    with stateRank_le[of "rr_state i"] show ?thesis by (simp add: durable_def)
  qed
  have "rr_state p \<in> {JSucceeded, JFailed, JCancelled, JDeleted} \<longrightarrow> rr_state i \<in> {rr_state p, JDeleted}"
    using assms(1) final_not_uncertain[of p i] by (auto simp: record_progression_def)
  moreover have "rr_requestHash i = rr_requestHash p" "identity_kept p i"
    "truthy (rr_submitId p) \<longrightarrow> rr_submitId i = rr_submitId p" "rr_hidden p \<longrightarrow> rr_hidden i"
    "rr_providerOutputs p \<noteq> None \<longrightarrow> rr_providerOutputs i = rr_providerOutputs p"
    "rr_accountBinding p \<noteq> None \<longrightarrow> rr_accountBinding i = rr_accountBinding p"
    using assms(1) unfolding record_progression_def by auto
  ultimately show ?thesis unfolding record_kept_def using d assms(3-5) by (intro conjI)
qed

definition journal_kept :: "runtime_disk option \<Rightarrow> runtime_disk option \<Rightarrow> bool" where
  "journal_kept d e \<longleftrightarrow> (\<forall>p \<in> set (disk_records d). durable p \<longrightarrow>
     (\<exists>i \<in> set (disk_records e). record_kept p i))"

lemma write_keeps:
  assumes "opt_ok (validRuntimeDiskState owner) d" "write_journal owner d payload = Inr e"
  shows "opt_ok (validRuntimeDiskState owner) e" "journal_kept d e"
proof -
  obtain new where n: "persistRuntimeDiskState owner \<lparr>j_primary = d, j_backup = None\<rparr> payload = Inr new"
    "e = Some new"
    using assms(2) unfolding write_journal_def
    by (cases "persistRuntimeDiskState owner \<lparr>j_primary = d, j_backup = None\<rparr> payload") auto
  have a: "assignJournalVersions d payload = Inr new" and v: "validRuntimeDiskState owner new"
    using persistD[OF n(1)] by auto
  show "opt_ok (validRuntimeDiskState owner) e" using v n(2) by simp
  show "journal_kept d e" unfolding journal_kept_def
  proof (intro ballI impI)
    fix p assume p: "p \<in> set (disk_records d)" "durable p"
    then have "\<not> removablePreSpawnIntent p" by (auto simp: durable_def removablePreSpawnIntent_def truthy_def)
    with assignD(4)[OF a valid_distinct[OF assms(1)] p(1)] progression_keeps p(2) n(2)
    show "\<exists>i \<in> set (disk_records e). record_kept p i" by fastforce
  qed
qed

interpretation journal: guarded_machine "write_journal owner"
  "opt_ok (validRuntimeDiskState owner)" journal_kept for owner
proof unfold_locales
  show "journal_kept d d" for d unfolding journal_kept_def using record_kept_refl by blast
  show "journal_kept d f" if "journal_kept d e" "journal_kept e f" for d e f
    unfolding journal_kept_def
  proof (intro ballI impI)
    fix p assume "p \<in> set (disk_records d)" "durable p"
    with that(1) obtain q where q: "q \<in> set (disk_records e)" "record_kept p q"
      unfolding journal_kept_def by blast
    moreover from q(2) have "durable q" by (simp add: record_kept_def)
    ultimately show "\<exists>i \<in> set (disk_records f). record_kept p i"
      using that(2) record_kept_trans unfolding journal_kept_def by blast
  qed
qed (fact write_keeps)+

lemma version_step:
  assumes "assignJournalVersions prev payload = Inr d" "distinct (map rr_key (disk_records prev))"
    and "p \<in> set (disk_records prev)" "i \<in> set (rd_records d)" "rr_key i = rr_key p"
  shows "journal_version_of i = journal_version_of p + (if sameJournalRecord p i then 0 else 1)"
proof -
  obtain rs where rs: "assign_versions (disk_records prev) [] (rd_records payload) = Inr rs"
    "d = payload\<lparr>rd_records := rs\<rparr>"
    using assms(1) by (auto simp: assignJournalVersions_def Let_def split: sum.splits if_splits)
  from assms(4) obtain k where k: "k < length rs" "i = rs ! k" by (auto simp: rs(2) in_set_conv_nth)
  let ?r = "rd_records payload ! k"
  have a: "assign_version (map_get rr_key (disk_records prev) (rr_key ?r)) ?r = Inr i"
    using assign_versionsD[OF rs(1)] k by (auto simp: list_all2_conv_all_nth)
  from assign_versionD(2)[OF a] assms(5) have "rr_key ?r = rr_key p" by simp
  with assms(2,3) have "map_get rr_key (disk_records prev) (rr_key ?r) = Some p" by (simp add: map_get_iff)
  with a show ?thesis by (auto simp: assign_version_def journal_version_of_def int_or_def split: if_splits)
qed

lemma write_keeps_version:
  assumes "opt_ok (validRuntimeDiskState owner) d" "write_journal owner d payload = Inr e"
    and "p \<in> set (disk_records d)" "durable p"
  obtains i where "i \<in> set (disk_records e)" "record_kept p i"
    "journal_version_of i = journal_version_of p + (if sameJournalRecord p i then 0 else 1)"
proof -
  obtain new where n: "persistRuntimeDiskState owner \<lparr>j_primary = d, j_backup = None\<rparr> payload = Inr new"
    "e = Some new"
    using assms(2) unfolding write_journal_def
    by (cases "persistRuntimeDiskState owner \<lparr>j_primary = d, j_backup = None\<rparr> payload") auto
  have a: "assignJournalVersions d payload = Inr new" using persistD[OF n(1)] by auto
  from write_keeps(2)[OF assms(1,2)] assms(3,4) obtain i where i: "i \<in> set (disk_records e)" "record_kept p i"
    unfolding journal_kept_def by blast
  from i(2) have "rr_key i = rr_key p" by (rule record_keptD(1))
  with version_step[OF a valid_distinct[OF assms(1)] assms(3), of i] i n(2) that show thesis by simp
qed

text \<open>C9: A record that carries a receipt or has ended is kept by every sequence of writes, whatever
  documents their authors hand in: its request, identity, receipt, account and outputs stay, it is not
  shown again once hidden, and a final state only becomes deleted. At each write (\<open>payload\<close>, after any
  others) its version goes up by one when its content changes and stays when it does not.\<close>

theorem durable_record_kept:
  assumes "opt_ok (validRuntimeDiskState owner) d" "p \<in> set (disk_records d)" "durable p"
  shows "let e = run_try (write_journal owner) d payloads;
             f = run_try (write_journal owner) d (payloads @ [payload]) in
    \<exists>i \<in> set (disk_records e). \<exists>j \<in> set (disk_records f). record_kept p i \<and> record_kept i j
      \<and> journal_version_of j = journal_version_of i + (if sameJournalRecord i j then 0 else 1)"
proof -
  let ?e = "run_try (write_journal owner) d payloads"
  from journal.run_try_inv[OF assms(1), of payloads] assms(2,3)
  obtain i where e: "opt_ok (validRuntimeDiskState owner) ?e"
    and i: "i \<in> set (disk_records ?e)" "record_kept p i" unfolding journal_kept_def by blast
  from i(2) have d: "durable i" by (rule record_keptD(2))
  show ?thesis
  proof (cases "write_journal owner ?e payload")
    case (Inl err)
    with i record_kept_refl[OF d] show ?thesis
      unfolding Let_def run_try_snoc by (intro bexI[of _ i] conjI) simp_all
  next
    case (Inr f)
    from write_keeps_version[OF e Inr i(1) d] obtain j where "j \<in> set (disk_records f)" "record_kept i j"
      "journal_version_of j = journal_version_of i + (if sameJournalRecord i j then 0 else 1)" .
    with i Inr show ?thesis unfolding Let_def run_try_snoc by (intro bexI[of _ i] bexI[of _ j] conjI) simp_all
  qed
qed

lemma sample_durable: "durable sample_record"
  by (simp add: durable_def sample_record_def)

lemma durable_record_kept_witness:
  "let e = run_try (write_journal ''owner-0123456789'') (Some sample_disk) [hidden_disk];
       f = run_try (write_journal ''owner-0123456789'') (Some sample_disk) ([hidden_disk] @ [sample_disk]) in
    \<exists>i \<in> set (disk_records e). \<exists>j \<in> set (disk_records f). record_kept sample_record i \<and> record_kept i j
      \<and> journal_version_of j = journal_version_of i + (if sameJournalRecord i j then 0 else 1)"
  by (rule durable_record_kept) (use sample_disks_valid(1) sample_durable in \<open>simp_all add: sample_disk_def\<close>)

section \<open>What the projector reads\<close>

abbreviation outputs_in_order :: "provider_output list \<Rightarrow> bool" where
  "outputs_in_order os \<equiv> map po_index os = map int [0..<length os]"

lemma operation_labels: "x \<in> set OPERATIONS \<Longrightarrow> label_ok x"
proof -
  have "list_all label_ok OPERATIONS" by code_simp
  then show "x \<in> set OPERATIONS \<Longrightarrow> label_ok x" by (simp add: list_all_iff)
qed

lemma cleanup_code_ok: "error_code_ok ''dreamina_reference_cleanup_failed''"
  by code_simp

lemma validJournalContext_eq: "validJournalContext = validTaskContext"
proof
  show "validJournalContext c = validTaskContext c" for c by (cases c) simp_all
qed

lemma truthy_str_ok: "opt_ok P x \<Longrightarrow> opt_ok P (truthy_str x)"
  by (simp add: truthy_str_def)

lemma truthy_int_ok: "opt_ok P x \<Longrightarrow> opt_ok P (truthy_int x)"
  by (simp add: truthy_int_def)

lemma has_ok_opt_ok: "has_ok P x \<Longrightarrow> opt_ok P x"
  by (cases x) auto

lemma task_partsD:
  assumes "validRecord r"
  shows "opt_ok (\<lambda>v. v = 1) (rr_taskVersion r)" "opt_ok label_ok (rr_operation r)"
    "opt_ok label_ok (rr_model r)" "opt_ok date_ok (rr_createdAt r)" "opt_ok error_code_ok (rr_errorCode r)"
    "rr_providerOutputs r = None \<or> rr_state r = JSucceeded \<and> rr_officialStatus r = Some Completed"
proof -
  have "(rr_taskVersion r = None \<and> legacy_valid r) \<or> task_fields_valid r"
    using assms by (simp add: validRecord_def split: if_splits)
  then show "opt_ok (\<lambda>v. v = 1) (rr_taskVersion r)" "opt_ok label_ok (rr_operation r)"
    "opt_ok label_ok (rr_model r)" "opt_ok date_ok (rr_createdAt r)" "opt_ok error_code_ok (rr_errorCode r)"
    "rr_providerOutputs r = None \<or> rr_state r = JSucceeded \<and> rr_officialStatus r = Some Completed"
    using operation_labels cleanup_code_ok
    by (auto simp: legacy_valid_def task_fields_valid_def has_ok_def split: option.splits)
qed

lemma list_all2_numbered:
  assumes "\<And>x. x \<in> set xs \<Longrightarrow> Q x"
  shows "list_all2 (\<lambda>i x. f x = int i \<and> Q x) [0..<length xs] xs \<longleftrightarrow> map f xs = map int [0..<length xs]"
proof -
  have q: "Q (xs ! i)" if "i < length xs" for i using assms nth_mem[OF that] by blast
  have "map f xs = map int [0..<length xs] \<longleftrightarrow> (\<forall>i < length xs. f (xs ! i) = int i)"
    unfolding list_eq_iff_nth_eq[of "map f xs"] by simp
  moreover have "list_all2 (\<lambda>i x. f x = int i \<and> Q x) [0..<length xs] xs
      \<longleftrightarrow> (\<forall>i < length xs. f (xs ! i) = int i \<and> Q (xs ! i))"
    unfolding list_all2_conv_all_nth by simp
  ultimately show ?thesis using q by blast
qed

lemma outputs_projectable:
  assumes "journal_outputs_ok m os" "jr_mode j = m" "jr_state j = JSucceeded"
    "jr_officialStatus j = Some Completed"
  shows "provider_outputs_ok j os \<longleftrightarrow> outputs_in_order os"
proof -
  have "list_all2 (\<lambda>i x. po_index x = int i \<and> Some (po_media x) = map_option media_of_mode (jr_mode j)
      \<and> artifact_ref_ok (po_ref x)) [0..<length os] os \<longleftrightarrow> outputs_in_order os"
  proof (rule list_all2_numbered)
    have "\<forall>x \<in> set os. Some (po_media x) = map_option media_of_mode m \<and> artifact_ref_ok (po_ref x)"
      using assms(1) unfolding journal_outputs_ok_def list_all_iff by meson
    then show "Some (po_media x) = map_option media_of_mode (jr_mode j) \<and> artifact_ref_ok (po_ref x)"
      if "x \<in> set os" for x using that unfolding assms(2) by (rule bspec)
  qed
  moreover have "os \<noteq> []" "length os \<le> 4" using assms(1) by (simp_all add: journal_outputs_ok_def)
  ultimately show ?thesis unfolding provider_outputs_ok_def using assms(3,4) by simp
qed

lemma record_projectable:
  assumes "validRecord r"
  shows "validateJournalRecord (safe_journal_record r) = Inr ()
    \<longleftrightarrow> opt_ok outputs_in_order (rr_providerOutputs r)"
proof -
  let ?j = "safe_journal_record r"
  note t = task_partsD[OF assms]
  have b: "identity_valid r" "runtime_fields_valid r" "poll_fields_valid r" "date_ok (rr_updatedAt r)"
    using assms by (simp_all add: validRecord_def baseValid_def)
  have "positive_version (journal_version_of r)"
    using b(2) by (auto simp: runtime_fields_valid_def journal_version_of_def int_or_def
        positive_version_def safe_integer_def split: option.splits)
  moreover have "opt_ok (provider_outputs_ok ?j) (rr_providerOutputs r)
      \<longleftrightarrow> opt_ok outputs_in_order (rr_providerOutputs r)"
  proof (cases "rr_providerOutputs r")
    case (Some os)
    with b(3) have "journal_outputs_ok (rr_mode r) os" by (simp add: poll_fields_valid_def)
    with outputs_projectable[of "rr_mode r" os ?j] t(6) Some show ?thesis
      by (simp add: safe_journal_record_def)
  qed simp
  ultimately show ?thesis
    using b t unfolding validateJournalRecord_def
    by (simp add: safe_journal_record_def validateRecordId_def truthy_str_ok truthy_int_ok
        identity_valid_def runtime_fields_valid_def validJournalContext_eq)
qed

text \<open>Every record the projector reads from the journal has its own id and passes the projector's
  validation, except exactly those whose outputs are not numbered from zero in order.\<close>

theorem journal_projectable:
  assumes "readSafeJournal owner fs = Inr js"
  shows "distinct (map recordId js) \<and> (\<forall>j \<in> set js.
    validateJournalRecord j = Inr () \<longleftrightarrow> opt_ok outputs_in_order (jr_providerOutputs j))"
proof -
  from assms obtain fs' where fs': "recoverStateReplacement owner fs = Inr fs'"
    by (cases "recoverStateReplacement owner fs") (auto simp: readSafeJournal_def)
  with assms obtain d where d: "readRuntimeDiskState owner (j_primary fs') = Inr d"
    "js = map safe_journal_record (disk_records d)"
    by (cases "readRuntimeDiskState owner (j_primary fs')") (auto simp: readSafeJournal_def)
  from read_validD[OF d(1)] have v: "opt_ok (validRuntimeDiskState owner) d" by simp
  then have all: "\<forall>r \<in> set (disk_records d). validRecord r \<and> rr_ownerId r = owner"
    by (cases d) (simp_all add: validRuntimeDiskState_def list_all_iff)
  then have "map rr_key (disk_records d) = map (recordKey owner) (map rr_idempotencyKey (disk_records d))"
    by simp
  with valid_distinct[OF v] have "distinct (map (recordKey owner) (map rr_idempotencyKey (disk_records d)))"
    by simp
  then have "distinct (map rr_idempotencyKey (disk_records d))" by (simp only: distinct_map)
  moreover have "map recordId js = map rr_idempotencyKey (disk_records d)"
    by (simp add: d(2) safe_journal_record_def)
  moreover have "validateJournalRecord (safe_journal_record r) = Inr ()
      \<longleftrightarrow> opt_ok outputs_in_order (jr_providerOutputs (safe_journal_record r))"
    if "r \<in> set (disk_records d)" for r
    using record_projectable[of r] all that by (simp add: safe_journal_record_def)
  moreover have "set js = safe_journal_record ` set (disk_records d)" by (simp add: d(2))
  ultimately show ?thesis by auto
qed

lemma journal_projectable_witness:
  "validateJournalRecord (safe_journal_record sample_record) = Inr ()"
proof -
  have "readSafeJournal ''owner-0123456789'' \<lparr>j_primary = Some sample_disk, j_backup = None\<rparr>
      = Inr [safe_journal_record sample_record]"
    using sample_disks_valid(1) by (simp add: readSafeJournal_def sample_disk_def)
  from journal_projectable[OF this] show ?thesis
    by (simp add: safe_journal_record_def sample_record_def)
qed

text \<open>The journal and the reconciler accept outputs in any order; the projector refuses them, and its
  recovery stops at such a record on every start.\<close>

definition swapped_outputs :: "provider_output list" where
  "swapped_outputs = map (\<lambda>i. \<lparr>po_index = i, po_media = ImageMedia,
     po_ref = ARTIFACT_PREFIX @ replicate 36 CHR ''a'' @ '':0''\<rparr>) [1, 0]"

lemma swapped_outputs_not_projected:
  defines "r \<equiv> sample_record\<lparr>rr_state := JSucceeded, rr_officialStatus := Some Completed,
    rr_providerOutputs := Some swapped_outputs\<rparr>"
  shows "validRecord r" "validateJournalRecord (safe_journal_record r) \<noteq> Inr ()"
proof -
  have ok: "journal_outputs_ok (Some ImageMode) swapped_outputs" by code_simp
  have f: "rr_mode sample_record = Some ImageMode" "rr_taskVersion sample_record = Some 1"
    "hasSubmitId sample_record"
    by (simp add: sample_record_def, simp add: sample_record_def, code_simp)
  have "baseValid sample_record" "task_fields_valid sample_record" "noReservation sample_record"
    "noQueueLease sample_record"
    using sample_valid(1) f by (simp_all add: validRecord_def noReservation_def noQueueLease_def)
      (simp_all add: sample_record_def)
  with ok f show v: "validRecord r"
    by (simp add: r_def validRecord_def baseValid_def part_defs)
  show "validateJournalRecord (safe_journal_record r) \<noteq> Inr ()"
    unfolding record_projectable[OF v] by (simp add: r_def swapped_outputs_def upt_rec)
qed

end
