(* ===== verification/Reconciler.thy ===== *)
theory Reconciler
  imports Complex_Main RuntimeJournal
begin

text \<open>
  The task reconciler (\<open>canvas-agent/src/dreamina-task-reconciler.ts\<close>): it polls the provider for
  accepted tasks. Every operation reads the journal under the state lock, changes at most one record
  (or all of a kind), and writes the journal back. A poll lease on a record keeps other reconcilers
  away while an observation is made; leases, due times and retries live in the journal, so several
  processes share them.

  The clock, the random lease id, the hash behind the jitter, the collation of \<open>localeCompare\<close> and the
  observation made at the provider are arguments. The loop around \<open>runDueOnce\<close>, its timers and the
  heartbeat's interval are not modelled; \<open>renewLease\<close>, what the heartbeat calls, is.
\<close>

section \<open>Options\<close>

text \<open>Numbers of the options are rationals (\<open>None\<close> for an absent option).\<close>

record reconciler_options =
  opt_ownerId :: string
  opt_pollIntervalMs :: "rat option"
  opt_retryBaseMs :: "rat option"
  opt_retryMaxMs :: "rat option"
  opt_pollLeaseMs :: "rat option"
  opt_pollLeaseHeartbeatMs :: "rat option"
  opt_startupSpreadMs :: "rat option"
  opt_idleMs :: "rat option"

record reconciler =
  rc_ownerId :: string
  rc_instanceId :: string
  pollIntervalMs :: int
  retryBaseMs :: int
  retryMaxMs :: int
  pollLeaseMs :: int
  pollLeaseHeartbeatMs :: int
  startupSpreadMs :: int
  idleMs :: int
  digest32 :: "string \<Rightarrow> int"
  rc_localeLe :: "string \<Rightarrow> string \<Rightarrow> bool"

definition DEFAULT_POLL_INTERVAL_MS :: int where "DEFAULT_POLL_INTERVAL_MS = 3000"
definition DEFAULT_RETRY_BASE_MS :: int where "DEFAULT_RETRY_BASE_MS = 2000"
definition DEFAULT_RETRY_MAX_MS :: int where "DEFAULT_RETRY_MAX_MS = 60000"
definition DEFAULT_POLL_LEASE_MS :: int where "DEFAULT_POLL_LEASE_MS = 30000"
definition DEFAULT_POLL_LEASE_HEARTBEAT_MS :: int where "DEFAULT_POLL_LEASE_HEARTBEAT_MS = 5000"
definition DEFAULT_STARTUP_SPREAD_MS :: int where "DEFAULT_STARTUP_SPREAD_MS = 2000"
definition DEFAULT_IDLE_MS :: int where "DEFAULT_IDLE_MS = 250"

lemmas default_defs = DEFAULT_POLL_INTERVAL_MS_def DEFAULT_RETRY_BASE_MS_def DEFAULT_RETRY_MAX_MS_def
  DEFAULT_POLL_LEASE_MS_def DEFAULT_POLL_LEASE_HEARTBEAT_MS_def DEFAULT_STARTUP_SPREAD_MS_def
  DEFAULT_IDLE_MS_def

text \<open>\<open>Math.trunc\<close>.\<close>

definition js_trunc :: "rat \<Rightarrow> int" where
  [js_defs]: "js_trunc x = (if 0 \<le> x then \<lfloor>x\<rfloor> else \<lceil>x\<rceil>)"

definition bounded :: "rat option \<Rightarrow> int \<Rightarrow> int \<Rightarrow> int \<Rightarrow> int" where
  "bounded v lo hi fallback = (case v of None \<Rightarrow> fallback | Some x \<Rightarrow> max lo (min hi (js_trunc x)))"

text \<open>The constructor; \<open>iid\<close> is the random \<open>instanceId\<close>.\<close>

definition new_reconciler ::
  "string \<Rightarrow> (string \<Rightarrow> int) \<Rightarrow> (string \<Rightarrow> string \<Rightarrow> bool) \<Rightarrow> reconciler_options
   \<Rightarrow> journal_error + reconciler" where
  "new_reconciler iid hash le x =
     (if \<not> chars_ok owner_char 16 120 (opt_ownerId x) then Inl PollOwnerInvalid
      else
        let base = bounded (opt_retryBaseMs x) 1 300000 DEFAULT_RETRY_BASE_MS;
            lease = bounded (opt_pollLeaseMs x) 50 300000 DEFAULT_POLL_LEASE_MS in
        Inr \<lparr>rc_ownerId = opt_ownerId x, rc_instanceId = iid,
             pollIntervalMs = bounded (opt_pollIntervalMs x) 1 300000 DEFAULT_POLL_INTERVAL_MS,
             retryBaseMs = base,
             retryMaxMs = bounded (opt_retryMaxMs x) base 3600000 DEFAULT_RETRY_MAX_MS,
             pollLeaseMs = lease,
             pollLeaseHeartbeatMs =
               (if opt_pollLeaseHeartbeatMs x = Some 0 then 0
                else bounded (opt_pollLeaseHeartbeatMs x) 10 lease
                  (min DEFAULT_POLL_LEASE_HEARTBEAT_MS (max 10 (lease div 3)))),
             startupSpreadMs = bounded (opt_startupSpreadMs x) 0 60000 DEFAULT_STARTUP_SPREAD_MS,
             idleMs = bounded (opt_idleMs x) 10 10000 DEFAULT_IDLE_MS,
             digest32 = hash, rc_localeLe = le\<rparr>)"

section \<open>Times\<close>

definition deterministicJitter :: "reconciler \<Rightarrow> string \<Rightarrow> int \<Rightarrow> int" where
  "deterministicJitter c v maxMs = (if maxMs \<le> 0 then 0 else digest32 c v mod (maxMs + 1))"

definition startupDelay :: "reconciler \<Rightarrow> string \<Rightarrow> int" where
  "startupDelay c k = deterministicJitter c k (startupSpreadMs c)"

definition nextPollAt :: "reconciler \<Rightarrow> int \<Rightarrow> string \<Rightarrow> string" where
  "nextPollAt c now k =
     to_iso_string (now + pollIntervalMs c
       + deterministicJitter c k (min 500 (pollIntervalMs c div 5)))"

definition retry_delay :: "reconciler \<Rightarrow> int \<Rightarrow> int" where
  "retry_delay c n =
     (let exponent = max 0 (min 20 (n - 1)) in min (retryMaxMs c) (retryBaseMs c * 2 ^ nat exponent))"

definition retryAt :: "reconciler \<Rightarrow> int \<Rightarrow> int \<Rightarrow> string" where
  "retryAt c now n = to_iso_string (now + retry_delay c n)"

section \<open>Which record is next\<close>

definition eligible :: "runtime_record \<Rightarrow> bool" where
  "eligible r \<longleftrightarrow> truthy_int (rr_taskVersion r) \<noteq> None \<and> truthy (rr_submitId r)
     \<and> (rr_state r = JAccepted \<or> rr_state r = JUnknown
        \<or> rr_state r = JSucceeded \<and> rr_providerOutputs r = None)"

text \<open>\<open>Date.parse(record.nextPollAt ?? "")\<close>\<close>

definition due_time :: "runtime_record \<Rightarrow> int option" where
  "due_time r = (case rr_nextPollAt r of None \<Rightarrow> None | Some t \<Rightarrow> date_parse t)"

text \<open>\<open>lastObservedAt\<close> as a number: \<open>Some None\<close> is negative infinity, \<open>None\<close> is NaN.\<close>

definition observed_time :: "runtime_record \<Rightarrow> int option option" where
  "observed_time r =
     (if truthy (rr_lastObservedAt r) then map_option Some (date_parse (the (rr_lastObservedAt r)))
      else Some None)"

fun earlier :: "int option \<Rightarrow> int option \<Rightarrow> bool" where
  "earlier None (Some b) = True"
| "earlier (Some a) (Some b) = (a < b)"
| "earlier _ None = False"

text \<open>\<open>compareDue(left, right) <= 0\<close>; a comparison with NaN counts as equal when sorting.\<close>

definition compareDue :: "reconciler \<Rightarrow> runtime_record \<Rightarrow> runtime_record \<Rightarrow> bool" where
  "compareDue c l r =
     (case (due_time l, due_time r) of
        (Some a, Some b) \<Rightarrow>
          if a \<noteq> b then a < b
          else (case (observed_time l, observed_time r) of
              (Some x, Some y) \<Rightarrow>
                if x \<noteq> y then earlier x y
                else rc_localeLe c (rr_idempotencyKey l) (rr_idempotencyKey r)
            | _ \<Rightarrow> True)
      | _ \<Rightarrow> True)"

definition lease_over :: "int \<Rightarrow> poll_lease option \<Rightarrow> bool" where
  "lease_over now l = (case l of None \<Rightarrow> True
     | Some x \<Rightarrow> (case date_parse (pl_expiresAt x) of None \<Rightarrow> False | Some t \<Rightarrow> t \<le> now))"

definition claimable :: "int \<Rightarrow> runtime_record \<Rightarrow> bool" where
  "claimable now r \<longleftrightarrow> eligible r
     \<and> (case due_time r of None \<Rightarrow> False | Some t \<Rightarrow> t \<le> now) \<and> lease_over now (rr_pollLease r)"

definition sameLease :: "poll_lease option \<Rightarrow> poll_lease \<Rightarrow> bool" where
  "sameLease cur l = (case cur of None \<Rightarrow> False
     | Some x \<Rightarrow> pl_leaseId x = pl_leaseId l \<and> pl_ownerId x = pl_ownerId l)"

section \<open>Observations\<close>

record poll_observation =
  ob_status :: provider_status
  ob_observedAt :: string
  ob_providerOutputs :: "provider_output list option"
  ob_retryCode :: "string option"

definition validProviderOutputs :: "provider_output list \<Rightarrow> bool" where
  "validProviderOutputs os \<longleftrightarrow> os \<noteq> [] \<and> length os \<le> 4 \<and> distinct (map po_index os)
     \<and> list_all (\<lambda>x. provider_index_ok (po_index x) \<and> po_media x \<in> {ImageMedia, VideoMedia}
          \<and> artifact_ref_ok (po_ref x)) os"

definition validateObservation :: "poll_observation \<Rightarrow> journal_error + unit" where
  "validateObservation ob =
     (if \<not> date_ok (ob_observedAt ob)
         \<or> \<not> opt_ok error_code_ok (ob_retryCode ob)
         \<or> \<not> opt_ok validProviderOutputs (ob_providerOutputs ob)
         \<or> (ob_providerOutputs ob \<noteq> None \<and> (ob_status ob \<noteq> Completed \<or> ob_retryCode ob \<noteq> None))
      then Inl QueryResponseInvalid else Inr ())"

definition clearSyncError :: "runtime_record \<Rightarrow> runtime_record" where
  "clearSyncError r =
     (if \<not> truthy (rr_errorCode r) \<or> rr_errorCode r = Some ''dreamina_reference_cleanup_failed'' then r
      else r\<lparr>rr_errorCode := None\<rparr>)"

definition retry_code :: "string \<Rightarrow> string" where
  "retry_code s = (if error_code_ok s then s else ''dreamina_query_failed'')"

definition applyObservation :: "runtime_record \<Rightarrow> poll_observation \<Rightarrow> runtime_record" where
  "applyObservation r ob =
     (if rr_state r = JSucceeded \<and> ob_status ob \<noteq> Completed
      then r\<lparr>rr_errorCode := Some ''dreamina_observation_conflict''\<rparr>
      else
        let r = r\<lparr>rr_officialStatus := Some (ob_status ob)\<rparr> in
        case ob_status ob of
          Pending \<Rightarrow> clearSyncError (r\<lparr>rr_state := JAccepted\<rparr>)
        | Processing \<Rightarrow> clearSyncError (r\<lparr>rr_state := JAccepted\<rparr>)
        | Completed \<Rightarrow>
            (let r = r\<lparr>rr_state := JSucceeded\<rparr>;
                 r = (if ob_providerOutputs ob \<noteq> None
                      then r\<lparr>rr_providerOutputs := ob_providerOutputs ob\<rparr> else r) in
             if truthy (ob_retryCode ob)
             then r\<lparr>rr_errorCode := Some (retry_code (the (ob_retryCode ob)))\<rparr>
             else clearSyncError r)
        | Cancelled \<Rightarrow> r\<lparr>rr_state := JCancelled, rr_errorCode := Some ''dreamina_official_cancelled''\<rparr>
        | Failed \<Rightarrow> r\<lparr>rr_state := JFailed, rr_errorCode := Some ''dreamina_official_failed''\<rparr>)"

definition next_retry_count :: "runtime_record \<Rightarrow> int" where
  "next_retry_count r = min (int_or 0 (rr_retryCount r) + 1) 1000000"

text \<open>The observation written into the record, when it is not older than the last one.\<close>

definition record_observation ::
  "reconciler \<Rightarrow> int \<Rightarrow> poll_observation \<Rightarrow> runtime_record \<Rightarrow> runtime_record" where
  "record_observation c now ob r =
     (let r = (applyObservation r ob)\<lparr>rr_lastObservedAt := Some (ob_observedAt ob),
                rr_updatedAt := to_iso_string now, rr_pollLease := None\<rparr> in
      if ob_status ob = Pending \<or> ob_status ob = Processing
      then r\<lparr>rr_retryCount := Some 0, rr_nextPollAt := Some (nextPollAt c now (rr_idempotencyKey r))\<rparr>
      else if ob_status ob = Completed \<and> truthy (ob_retryCode ob)
      then r\<lparr>rr_retryCount := Some (next_retry_count r),
             rr_errorCode := Some (retry_code (the (ob_retryCode ob))),
             rr_nextPollAt := Some (retryAt c now (next_retry_count r))\<rparr>
      else r\<lparr>rr_retryCount := Some 0, rr_nextPollAt := None\<rparr>)"

text \<open>An observation that is older than the last one only ends the poll.\<close>

definition skip_observation :: "reconciler \<Rightarrow> int \<Rightarrow> runtime_record \<Rightarrow> runtime_record" where
  "skip_observation c now r =
     (let r = r\<lparr>rr_pollLease := None\<rparr> in
      if eligible r then r\<lparr>rr_nextPollAt := Some (nextPollAt c now (rr_idempotencyKey r))\<rparr> else r)"

definition observation_stale :: "poll_observation \<Rightarrow> runtime_record \<Rightarrow> bool" where
  "observation_stale ob r =
     (case (date_parse (ob_observedAt ob), observed_time r) of
        (Some a, Some (Some b)) \<Rightarrow> a < b | _ \<Rightarrow> False)"

definition record_sync_error :: "reconciler \<Rightarrow> int \<Rightarrow> string \<Rightarrow> runtime_record \<Rightarrow> runtime_record" where
  "record_sync_error c now code r =
     (let n = next_retry_count r in
      r\<lparr>rr_pollLease := None, rr_errorCode := Some code, rr_retryCount := Some n,
        rr_nextPollAt := Some (retryAt c now n), rr_updatedAt := to_iso_string now\<rparr>)"

section \<open>Operations\<close>

definition validateTaskId :: "string \<Rightarrow> journal_error + unit" where
  "validateTaskId k = (if chars_ok id_char 8 160 k then Inr () else Inl TaskIdInvalid)"

definition find_record :: "string \<Rightarrow> runtime_disk option \<Rightarrow> runtime_record option" where
  "find_record k d = (case d of None \<Rightarrow> None
     | Some x \<Rightarrow> find (\<lambda>r. rr_idempotencyKey r = k) (rd_records x))"

text \<open>Change the record with key \<open>k\<close> and write the journal.\<close>

definition write_record ::
  "reconciler \<Rightarrow> string \<Rightarrow> (runtime_record \<Rightarrow> runtime_record) \<Rightarrow> runtime_disk option
   \<Rightarrow> journal_error + runtime_disk option" where
  "write_record c k f d = (case d of None \<Rightarrow> Inr None
     | Some x \<Rightarrow> write_journal (rc_ownerId c) d
         (x\<lparr>rd_records := update_first (\<lambda>r. rr_idempotencyKey r = k) f (rd_records x)\<rparr>))"

definition schedule_at :: "string \<Rightarrow> runtime_record \<Rightarrow> runtime_record" where
  "schedule_at t r = r\<lparr>rr_nextPollAt := Some t, rr_retryCount := Some (int_or 0 (rr_retryCount r))\<rparr>"

definition unscheduled :: "runtime_record \<Rightarrow> bool" where
  "unscheduled r \<longleftrightarrow> eligible r \<and> rr_nextPollAt r = None"

definition startup_schedule :: "reconciler \<Rightarrow> int \<Rightarrow> runtime_record \<Rightarrow> runtime_record" where
  "startup_schedule c now r =
     (if unscheduled r
      then schedule_at (to_iso_string (now + startupDelay c (rr_idempotencyKey r))) r else r)"

text \<open>\<open>ini\<close> is the flag \<open>this.initialized\<close> when the call begins; it is set when the call returns.\<close>

definition initialize ::
  "reconciler \<Rightarrow> bool \<Rightarrow> int \<Rightarrow> runtime_disk option \<Rightarrow> journal_error + runtime_disk option" where
  "initialize c ini now d =
     (if ini then Inr d
      else case d of None \<Rightarrow> Inr d
        | Some x \<Rightarrow>
            if list_ex unscheduled (rd_records x)
            then write_journal (rc_ownerId c) d (x\<lparr>rd_records := map (startup_schedule c now) (rd_records x)\<rparr>)
            else Inr d)"

definition scheduleBackground ::
  "reconciler \<Rightarrow> bool \<Rightarrow> int \<Rightarrow> string \<Rightarrow> runtime_disk option \<Rightarrow> journal_error + runtime_disk option" where
  "scheduleBackground c ini now k d =
     bindE (validateTaskId k) (\<lambda>_. bindE (initialize c ini now d) (\<lambda>d.
       case find_record k d of None \<Rightarrow> Inr d
       | Some r \<Rightarrow>
           if \<not> eligible r then Inr d
           else
             let scheduled = nextPollAt c now (rr_idempotencyKey r) in
             if truthy (rr_nextPollAt r) \<and> (case (due_time r, date_parse scheduled) of
                  (Some a, Some b) \<Rightarrow> a \<le> b | _ \<Rightarrow> False)
             then Inr d
             else write_record c k (schedule_at scheduled) d))"

definition requestNow ::
  "reconciler \<Rightarrow> bool \<Rightarrow> int \<Rightarrow> string \<Rightarrow> runtime_disk option \<Rightarrow> journal_error + runtime_disk option" where
  "requestNow c ini now k d =
     bindE (validateTaskId k) (\<lambda>_. bindE (initialize c ini now d) (\<lambda>d.
       case find_record k d of None \<Rightarrow> Inr d
       | Some r \<Rightarrow>
           if \<not> eligible r then Inr d
           else
             let priority = to_iso_string (now - 1) in
             if rr_nextPollAt r = Some priority then Inr d
             else write_record c k (schedule_at priority) d))"

definition poll_lease_for :: "reconciler \<Rightarrow> int \<Rightarrow> string \<Rightarrow> poll_lease" where
  "poll_lease_for c now lid =
     \<lparr>pl_leaseId = lid, pl_ownerId = rc_instanceId c, pl_expiresAt = to_iso_string (now + pollLeaseMs c)\<rparr>"

text \<open>The claimed record as it was written, and the lease.\<close>

definition claimDue ::
  "reconciler \<Rightarrow> int \<Rightarrow> string \<Rightarrow> runtime_disk option
   \<Rightarrow> journal_error + (runtime_record \<times> poll_lease) option \<times> runtime_disk option" where
  "claimDue c now lid d =
     (case d of None \<Rightarrow> Inr (None, d)
      | Some x \<Rightarrow>
          (case sort_by (compareDue c) (filter (claimable now) (rd_records x)) of
             [] \<Rightarrow> Inr (None, d)
           | r # _ \<Rightarrow>
               let lease = poll_lease_for c now lid; k = rr_idempotencyKey r in
               bindE (write_record c k (\<lambda>r. r\<lparr>rr_pollLease := Some lease\<rparr>) d) (\<lambda>d'.
                 Inr (map_option (\<lambda>r. (r, lease)) (find_record k d'), d'))))"

definition renewLease ::
  "reconciler \<Rightarrow> int \<Rightarrow> string \<Rightarrow> poll_lease \<Rightarrow> runtime_disk option
   \<Rightarrow> journal_error + poll_lease \<times> runtime_disk option" where
  "renewLease c now k lease d =
     (case find_record k d of None \<Rightarrow> Inl PollFenced
      | Some r \<Rightarrow>
          if \<not> sameLease (rr_pollLease r) lease then Inl PollFenced
          else
            let l = lease\<lparr>pl_expiresAt := to_iso_string (now + pollLeaseMs c)\<rparr> in
            bindE (write_record c k (\<lambda>r. r\<lparr>rr_pollLease := Some l\<rparr>) d) (\<lambda>d'. Inr (l, d')))"

text \<open>The common part of the operations that end a poll: nothing happens unless the lease is held.\<close>

definition with_lease ::
  "reconciler \<Rightarrow> string \<Rightarrow> poll_lease \<Rightarrow> (runtime_record \<Rightarrow> runtime_record) \<Rightarrow> runtime_disk option
   \<Rightarrow> journal_error + runtime_record option \<times> runtime_disk option" where
  "with_lease c k lease f d =
     (case find_record k d of None \<Rightarrow> Inr (None, d)
      | Some r \<Rightarrow>
          if \<not> sameLease (rr_pollLease r) lease then Inr (None, d)
          else bindE (write_record c k f d) (\<lambda>d'. Inr (find_record k d', d')))"

definition commitObservation ::
  "reconciler \<Rightarrow> int \<Rightarrow> string \<Rightarrow> poll_lease \<Rightarrow> poll_observation \<Rightarrow> runtime_disk option
   \<Rightarrow> journal_error + runtime_record option \<times> runtime_disk option" where
  "commitObservation c now k lease ob =
     with_lease c k lease (\<lambda>r. if observation_stale ob r then skip_observation c now r
                               else record_observation c now ob r)"

definition commitSyncError ::
  "reconciler \<Rightarrow> int \<Rightarrow> string \<Rightarrow> poll_lease \<Rightarrow> string \<Rightarrow> runtime_disk option
   \<Rightarrow> journal_error + runtime_record option \<times> runtime_disk option" where
  "commitSyncError c now k lease code = with_lease c k lease (record_sync_error c now code)"

definition releaseLease ::
  "reconciler \<Rightarrow> string \<Rightarrow> poll_lease \<Rightarrow> runtime_disk option \<Rightarrow> journal_error + runtime_disk option" where
  "releaseLease c k lease d =
     map_sum id snd (with_lease c k lease (\<lambda>r. r\<lparr>rr_pollLease := None\<rparr>) d)"

definition owns_lease :: "reconciler \<Rightarrow> runtime_record \<Rightarrow> bool" where
  "owns_lease c r \<longleftrightarrow> map_option pl_ownerId (rr_pollLease r) = Some (rc_instanceId c)"

definition releaseOwnedLeases ::
  "reconciler \<Rightarrow> runtime_disk option \<Rightarrow> journal_error + runtime_disk option" where
  "releaseOwnedLeases c d =
     (case d of None \<Rightarrow> Inr d
      | Some x \<Rightarrow>
          if list_ex (owns_lease c) (rd_records x)
          then write_journal (rc_ownerId c) d (x\<lparr>rd_records :=
            map (\<lambda>r. if owns_lease c r then r\<lparr>rr_pollLease := None\<rparr> else r) (rd_records x)\<rparr>)
          else Inr d)"

section \<open>One poll\<close>

text \<open>What the provider call gives: an observation, an error with its code if it has one, or the abort
  of the poll.\<close>

datatype observe_result = Observed poll_observation | ObserveFailed "string option" | ObserveAborted

definition safeSyncErrorCode :: "string option \<Rightarrow> string" where
  "safeSyncErrorCode code = (case code of None \<Rightarrow> ''dreamina_query_failed''
     | Some s \<Rightarrow> if error_code_ok s then s else ''dreamina_query_failed'')"

text \<open>The code an error of this module carries; a plain \<open>Error\<close> has none.\<close>

fun error_code :: "journal_error \<Rightarrow> string option" where
  "error_code JournalStateInvalid = Some ''dreamina_state_invalid''"
| "error_code PollFenced = Some ''dreamina_poll_fenced''"
| "error_code QueryResponseInvalid = Some ''dreamina_query_response_invalid''"
| "error_code TaskIdInvalid = None"
| "error_code PollOwnerInvalid = None"

text \<open>\<open>onApplied\<close> events: the record, with the observation or the error code.\<close>

datatype applied_event = AppliedObservation runtime_record poll_observation
  | AppliedSyncError runtime_record string

text \<open>The error branch of a poll: a failure to write is swallowed.\<close>

definition poll_failed ::
  "reconciler \<Rightarrow> int \<Rightarrow> string \<Rightarrow> poll_lease \<Rightarrow> string option \<Rightarrow> runtime_disk option
   \<Rightarrow> applied_event option \<times> runtime_disk option" where
  "poll_failed c now k lease err d =
     (let code = safeSyncErrorCode err in
      case commitSyncError c now k lease code d of
        Inl _ \<Rightarrow> (None, d)
      | Inr (x, d') \<Rightarrow> (map_option (\<lambda>r. AppliedSyncError r code) x, d'))"

text \<open>\<open>runDueOnce\<close>: claim a record, observe it, write the outcome; \<open>disposed\<close> is the flag of that name. An
  \<open>onApplied\<close> that throws finds its lease gone and changes nothing. \<open>others\<close> is what everyone else does
  to the journal while the provider is asked, heartbeats included. The result is whether a record was
  claimed, the event, and the journal.\<close>

definition runDueOnce ::
  "reconciler \<Rightarrow> bool \<Rightarrow> bool \<Rightarrow> int \<Rightarrow> int \<Rightarrow> string \<Rightarrow> (runtime_record \<Rightarrow> observe_result)
   \<Rightarrow> (runtime_disk option \<Rightarrow> runtime_disk option) \<Rightarrow> runtime_disk option
   \<Rightarrow> journal_error + bool \<times> applied_event option \<times> runtime_disk option" where
  "runDueOnce c disposed ini now later lid obs others d =
     (if disposed then Inr (False, None, d)
     else bindE (initialize c ini now d) (\<lambda>d.
     bindE (claimDue c now lid d) (\<lambda>(claimed, d).
       case claimed of None \<Rightarrow> Inr (False, None, d)
       | Some (r, lease) \<Rightarrow>
           let k = rr_idempotencyKey r; d = others d in
           case obs r of
             Observed ob \<Rightarrow>
               (case bindE (validateObservation ob) (\<lambda>_. commitObservation c later k lease ob d) of
                  Inr (x, d') \<Rightarrow> Inr (True, map_option (\<lambda>r. AppliedObservation r ob) x, d')
                | Inl e \<Rightarrow> Inr (True, poll_failed c later k lease (error_code e) d))
           | ObserveFailed e \<Rightarrow> Inr (True, poll_failed c later k lease e d)
           | ObserveAborted \<Rightarrow>
               Inr (True, None, (case releaseLease c k lease d of Inl _ \<Rightarrow> d | Inr d' \<Rightarrow> d')))))"

end
