(* ===== verification/ReconcilerProofs.thy ===== *)
theory ReconcilerProofs
  imports Reconciler RuntimeJournalClaims
begin

text \<open>
  The reconciler's operations as steps on the journal: what each step does to a single record
  (\<open>op_change\<close>), and that a step is a write that changes the records one by one, up to the versions
  the journal assigns. The properties of runs rest on these two facts.
\<close>

section \<open>Journal writes, record by record\<close>

abbreviation unversioned :: "runtime_record \<Rightarrow> runtime_record" where
  "unversioned r \<equiv> r\<lparr>rr_journalVersion := None\<rparr>"

lemma unversioned_fields:
  assumes "unversioned r = unversioned q"
  shows "rr_ownerId r = rr_ownerId q" "rr_idempotencyKey r = rr_idempotencyKey q"
    "rr_state r = rr_state q" "rr_pollLease r = rr_pollLease q" "rr_nextPollAt r = rr_nextPollAt q"
    "rr_lastObservedAt r = rr_lastObservedAt q" "rr_providerOutputs r = rr_providerOutputs q"
    "rr_taskVersion r = rr_taskVersion q" "rr_submitId r = rr_submitId q"
    "rr_officialStatus r = rr_officialStatus q" "rr_retryCount r = rr_retryCount q"
    "rr_errorCode r = rr_errorCode q" "rr_mode r = rr_mode q"
proof -
  have "f r = f q" if "\<And>x. f (unversioned x) = f x" for f :: "runtime_record \<Rightarrow> 'a"
    using that[of r] that[of q] assms by metis
  note this[of rr_ownerId] this[of rr_idempotencyKey] this[of rr_state] this[of rr_pollLease]
    this[of rr_nextPollAt] this[of rr_lastObservedAt] this[of rr_providerOutputs]
    this[of rr_taskVersion] this[of rr_submitId] this[of rr_officialStatus] this[of rr_retryCount]
    this[of rr_errorCode] this[of rr_mode]
  then show "rr_ownerId r = rr_ownerId q" "rr_idempotencyKey r = rr_idempotencyKey q"
    "rr_state r = rr_state q" "rr_pollLease r = rr_pollLease q" "rr_nextPollAt r = rr_nextPollAt q"
    "rr_lastObservedAt r = rr_lastObservedAt q" "rr_providerOutputs r = rr_providerOutputs q"
    "rr_taskVersion r = rr_taskVersion q" "rr_submitId r = rr_submitId q"
    "rr_officialStatus r = rr_officialStatus q" "rr_retryCount r = rr_retryCount q"
    "rr_errorCode r = rr_errorCode q" "rr_mode r = rr_mode q" by simp_all
qed

text \<open>What a write that returned has done.\<close>

lemma write_journalD:
  assumes "write_journal owner (Some x) payload = Inr e"
  shows "opt_ok (validRuntimeDiskState owner) (Some x)"
    "\<exists>y. e = Some y \<and> validRuntimeDiskState owner y
       \<and> map unversioned (rd_records y) = map unversioned (rd_records payload)"
proof -
  obtain y where y: "persistRuntimeDiskState owner \<lparr>j_primary = Some x, j_backup = None\<rparr> payload = Inr y"
    "e = Some y"
    using assms unfolding write_journal_def
    by (cases "persistRuntimeDiskState owner \<lparr>j_primary = Some x, j_backup = None\<rparr> payload") auto
  obtain fs' where "recoverStateReplacement owner \<lparr>j_primary = Some x, j_backup = None\<rparr> = Inr fs'"
    "opt_ok (validRuntimeDiskState owner) (j_primary fs')"
    "assignJournalVersions (j_primary fs') payload = Inr y" "validRuntimeDiskState owner y"
    using persistD[OF y(1)] by blast
  then have p: "opt_ok (validRuntimeDiskState owner) (Some x)"
    "assignJournalVersions (Some x) payload = Inr y" "validRuntimeDiskState owner y" by auto
  show "opt_ok (validRuntimeDiskState owner) (Some x)" by (rule p(1))
  show "\<exists>y. e = Some y \<and> validRuntimeDiskState owner y
      \<and> map unversioned (rd_records y) = map unversioned (rd_records payload)"
    using assignD(1)[OF p(2) valid_distinct[OF p(1)]] p(3) y(2) by blast
qed

text \<open>A write goes through when every record keeps its key, shows legal progress and is valid.\<close>

lemma record_progression_refl: "record_progression r r"
  by (auto simp: record_progression_def identity_kept_def queue_kept_def reservation_kept_def
      expiry_less_def date_less_def int_or_def opt_ok_def split: option.splits)

definition next_version :: "runtime_record \<Rightarrow> runtime_record \<Rightarrow> runtime_record" where
  "next_version p r = r\<lparr>rr_journalVersion :=
     Some (if sameJournalRecord p r then journal_version_of p else journal_version_of p + 1)\<rparr>"

lemma assign_versions_ok:
  assumes "list_all2 (\<lambda>p r. map_get rr_key old (rr_key r) = Some p \<and> record_progression p r) ps rs"
    and "distinct (map rr_key rs)" "\<forall>r \<in> set rs. rr_key r \<notin> set seen"
  shows "assign_versions old seen rs = Inr (map2 next_version ps rs)"
  using assms
proof (induction ps rs arbitrary: seen rule: list_all2_induct)
  case (Cons p ps r rs)
  have "assign_versions old (rr_key r # seen) rs = Inr (map2 next_version ps rs)"
    using Cons.prems by (intro Cons.IH) (auto simp: image_iff)
  with Cons.hyps Cons.prems show ?case by (simp add: assign_version_def next_version_def)
qed simp

definition version_room :: "runtime_record \<Rightarrow> bool" where
  "version_room p \<longleftrightarrow> journal_version_of p < 9007199254740991"

lemma journal_version_pos:
  assumes "validRecord p"
  shows "1 \<le> journal_version_of p"
proof -
  have "runtime_fields_valid p" using assms by (simp add: validRecord_def baseValid_def)
  then show ?thesis
    by (auto simp: runtime_fields_valid_def journal_version_of_def int_or_def positive_version_def
        split: option.splits)
qed

lemma next_version_valid:
  assumes "validRecord p" "version_room p" "validRecord r"
  shows "validRecord (next_version p r)"
  unfolding next_version_def using assms journal_version_pos[OF assms(1)]
  by (intro validRecord_version) (auto simp: version_room_def positive_version_def safe_integer_def)

lemma next_version_key [simp]: "rr_idempotencyKey (next_version p r) = rr_idempotencyKey r"
  "rr_ownerId (next_version p r) = rr_ownerId r" "unversioned (next_version p r) = unversioned r"
  by (simp_all add: next_version_def)

lemma write_journal_ok:
  assumes "validRuntimeDiskState owner x"
    and all: "list_all2 (\<lambda>p r. rr_key r = rr_key p \<and> rr_ownerId r = owner \<and> record_progression p r
      \<and> validRecord r \<and> version_room p) (rd_records x) rs"
  shows "write_journal owner (Some x) (x\<lparr>rd_records := rs\<rparr>)
      = Inr (Some (x\<lparr>rd_records := map2 next_version (rd_records x) rs\<rparr>))"
    "validRuntimeDiskState owner (x\<lparr>rd_records := map2 next_version (rd_records x) rs\<rparr>)"
proof -
  let ?ps = "rd_records x" and ?y = "x\<lparr>rd_records := map2 next_version (rd_records x) rs\<rparr>"
  have dist: "distinct (map rr_key ?ps)" and pv: "\<forall>p \<in> set ?ps. validRecord p"
    using assms(1) by (simp_all add: validRuntimeDiskState_def list_all_iff)
  have len: "length rs = length ?ps" using list_all2_lengthD[OF all] by simp
  have keys: "map rr_key rs = map rr_key ?ps"
    using all by (auto simp: list_all2_conv_all_nth intro!: nth_equalityI)
  have keys': "map rr_key (map2 next_version ?ps rs) = map rr_key rs"
    using len by (intro nth_equalityI) simp_all
  have get: "list_all2 (\<lambda>p r. map_get rr_key ?ps (rr_key r) = Some p \<and> record_progression p r) ?ps rs"
    using all dist by (auto simp: list_all2_conv_all_nth map_get_iff)
  have assign: "assignJournalVersions (Some x) (x\<lparr>rd_records := rs\<rparr>) = Inr ?y"
    using assign_versions_ok[OF get] dist keys keys'
    by (simp add: assignJournalVersions_def list_all_iff)
  have "validRecord (next_version (?ps ! i) (rs ! i)) \<and> rr_ownerId (next_version (?ps ! i) (rs ! i)) = owner"
    if "i < length rs" for i
    using all pv that len by (auto simp: list_all2_conv_all_nth intro: next_version_valid)
  then have "list_all (\<lambda>r. validRecord r \<and> rr_ownerId r = owner) (map2 next_version ?ps rs)"
    using len by (simp add: list_all_length)
  then show valid: "validRuntimeDiskState owner ?y"
    using assms(1) dist keys keys' len by (simp add: validRuntimeDiskState_def)
  show "write_journal owner (Some x) (x\<lparr>rd_records := rs\<rparr>) = Inr (Some ?y)"
    using assign valid assms(1) by (simp add: write_journal_def persistRuntimeDiskState_def)
qed

section \<open>The operations as steps\<close>

text \<open>Reconcilers that have initialized; a first call runs \<open>Initialize\<close> before its own step.\<close>

datatype poll_op =
    Initialize reconciler int
  | ScheduleBackground reconciler int string
  | RequestNow reconciler int string
  | ClaimDue reconciler int string
  | RenewLease reconciler int string poll_lease
  | CommitObservation reconciler int string poll_lease poll_observation
  | CommitSyncError reconciler int string poll_lease string
  | ReleaseLease reconciler string poll_lease
  | ReleaseOwnedLeases reconciler

fun op_reconciler :: "poll_op \<Rightarrow> reconciler" where
  "op_reconciler (Initialize c t) = c"
| "op_reconciler (ScheduleBackground c t k) = c"
| "op_reconciler (RequestNow c t k) = c"
| "op_reconciler (ClaimDue c t lid) = c"
| "op_reconciler (RenewLease c t k l) = c"
| "op_reconciler (CommitObservation c t k l ob) = c"
| "op_reconciler (CommitSyncError c t k l code) = c"
| "op_reconciler (ReleaseLease c k l) = c"
| "op_reconciler (ReleaseOwnedLeases c) = c"

fun run_op :: "poll_op \<Rightarrow> runtime_disk option \<Rightarrow> journal_error + runtime_disk option" where
  "run_op (Initialize c t) d = initialize c False t d"
| "run_op (ScheduleBackground c t k) d = scheduleBackground c True t k d"
| "run_op (RequestNow c t k) d = requestNow c True t k d"
| "run_op (ClaimDue c t lid) d = map_sum id snd (claimDue c t lid d)"
| "run_op (RenewLease c t k l) d = map_sum id snd (renewLease c t k l d)"
| "run_op (CommitObservation c t k l ob) d = map_sum id snd (commitObservation c t k l ob d)"
| "run_op (CommitSyncError c t k l code) d = map_sum id snd (commitSyncError c t k l code d)"
| "run_op (ReleaseLease c k l) d = releaseLease c k l d"
| "run_op (ReleaseOwnedLeases c) d = releaseOwnedLeases c d"

text \<open>The journal has one owner; a reconciler of another owner cannot read it.\<close>

definition poll_step :: "string \<Rightarrow> runtime_disk option \<Rightarrow> poll_op \<Rightarrow> journal_error + runtime_disk option" where
  "poll_step owner d x =
     (if rc_ownerId (op_reconciler x) = owner then run_op x d else Inl JournalStateInvalid)"

lemma first_call_initializes:
  "scheduleBackground c False t k d =
     bindE (validateTaskId k) (\<lambda>_. bindE (initialize c False t d) (scheduleBackground c True t k))"
  "requestNow c False t k d =
     bindE (validateTaskId k) (\<lambda>_. bindE (initialize c False t d) (requestNow c True t k))"
  by (auto simp: scheduleBackground_def requestNow_def initialize_def[of c True] validateTaskId_def
      split: sum.splits)

text \<open>What a step may do to one record.\<close>

inductive op_change :: "poll_op \<Rightarrow> runtime_record \<Rightarrow> runtime_record \<Rightarrow> bool" where
  untouched: "op_change x r r"
| started: "unscheduled r \<Longrightarrow> op_change (Initialize c t) r (startup_schedule c t r)"
| scheduled: "eligible r \<Longrightarrow>
    op_change (ScheduleBackground c t (rr_idempotencyKey r)) r
      (schedule_at (nextPollAt c t (rr_idempotencyKey r)) r)"
| requested: "eligible r \<Longrightarrow>
    op_change (RequestNow c t (rr_idempotencyKey r)) r (schedule_at (to_iso_string (t - 1)) r)"
| claimed: "claimable t r \<Longrightarrow>
    op_change (ClaimDue c t lid) r (r\<lparr>rr_pollLease := Some (poll_lease_for c t lid)\<rparr>)"
| renewed: "sameLease (rr_pollLease r) l \<Longrightarrow>
    op_change (RenewLease c t (rr_idempotencyKey r) l) r
      (r\<lparr>rr_pollLease := Some (l\<lparr>pl_expiresAt := to_iso_string (t + pollLeaseMs c)\<rparr>)\<rparr>)"
| skipped: "sameLease (rr_pollLease r) l \<Longrightarrow> observation_stale ob r \<Longrightarrow>
    op_change (CommitObservation c t (rr_idempotencyKey r) l ob) r (skip_observation c t r)"
| observed: "sameLease (rr_pollLease r) l \<Longrightarrow> \<not> observation_stale ob r \<Longrightarrow>
    op_change (CommitObservation c t (rr_idempotencyKey r) l ob) r (record_observation c t ob r)"
| failed: "sameLease (rr_pollLease r) l \<Longrightarrow>
    op_change (CommitSyncError c t (rr_idempotencyKey r) l code) r (record_sync_error c t code r)"
| released: "sameLease (rr_pollLease r) l \<Longrightarrow>
    op_change (ReleaseLease c (rr_idempotencyKey r) l) r (r\<lparr>rr_pollLease := None\<rparr>)"
| disowned: "owns_lease c r \<Longrightarrow>
    op_change (ReleaseOwnedLeases c) r (r\<lparr>rr_pollLease := None\<rparr>)"

abbreviation op_moves :: "poll_op \<Rightarrow> runtime_record \<Rightarrow> runtime_record \<Rightarrow> bool" where
  "op_moves x r r' \<equiv> \<exists>q. op_change x r q \<and> unversioned r' = unversioned q"

lemma list_all2_update_first:
  assumes "find P xs = Some r" "R r (f r)" "\<And>x. R x x"
  shows "list_all2 R xs (update_first P f xs)"
  using assms(1) by (induction xs) (auto simp: assms list.rel_refl split: if_splits)

lemma changes_written:
  assumes w: "write_journal owner (Some x) payload = Inr e"
    and "list_all2 (op_change z) (rd_records x) (rd_records payload)"
  shows "opt_ok (validRuntimeDiskState owner) e" "journal_kept (Some x) e"
    "list_all2 (op_moves z) (rd_records x) (disk_records e)"
proof -
  from write_journalD[OF w] obtain y where v: "opt_ok (validRuntimeDiskState owner) (Some x)"
    and y: "e = Some y" "validRuntimeDiskState owner y"
      "map unversioned (rd_records y) = map unversioned (rd_records payload)" by blast
  from write_keeps[OF v w] show "opt_ok (validRuntimeDiskState owner) e" "journal_kept (Some x) e" .
  have u: "length (rd_records y) = length (rd_records payload)"
    "unversioned (rd_records y ! i) = unversioned (rd_records payload ! i)"
    if "i < length (rd_records y)" for i
    using y(3) that by (metis length_map, metis length_map nth_map)
  have len: "length (rd_records y) = length (rd_records payload)" using y(3) by (metis length_map)
  with assms(2) u y(1) show "list_all2 (op_moves z) (rd_records x) (disk_records e)"
    unfolding list_all2_conv_all_nth by auto
qed

lemma kept_refl: "journal_kept d d"
  unfolding journal_kept_def using record_kept_refl by blast

lemma untouched_all: "list_all2 (op_moves z) rs rs"
  by (rule list.rel_refl) (use untouched in blast)

definition step_ok :: "string \<Rightarrow> poll_op \<Rightarrow> runtime_disk option \<Rightarrow> runtime_disk option \<Rightarrow> bool" where
  "step_ok owner z d e \<longleftrightarrow> opt_ok (validRuntimeDiskState owner) e \<and> journal_kept d e
     \<and> list_all2 (op_moves z) (disk_records d) (disk_records e)"

lemma step_ok_same: "opt_ok (validRuntimeDiskState owner) d \<Longrightarrow> step_ok owner z d d"
  by (simp add: step_ok_def kept_refl untouched_all)

lemma step_ok_write:
  assumes "write_journal owner (Some x) (x\<lparr>rd_records := rs\<rparr>) = Inr e"
    "list_all2 (op_change z) (rd_records x) rs"
  shows "step_ok owner z (Some x) e"
  using changes_written[OF assms(1)] assms(2) by (simp add: step_ok_def)

lemma step_ok_record:
  assumes "write_record c k f d = Inr e" "find_record k d = Some r" "op_change z r (f r)"
  shows "step_ok (rc_ownerId c) z d e"
proof -
  obtain x where x: "d = Some x" "find (\<lambda>r. rr_idempotencyKey r = k) (rd_records x) = Some r"
    using assms(2) by (auto simp: find_record_def split: option.splits)
  have "list_all2 (op_change z) (rd_records x)
      (update_first (\<lambda>r. rr_idempotencyKey r = k) f (rd_records x))"
    using x(2) by (rule list_all2_update_first[where R = "op_change z"]) (use assms(3) untouched in auto)
  with assms(1) show ?thesis unfolding x(1) write_record_def by (auto intro: step_ok_write)
qed

lemma find_recordD: "find_record k d = Some r \<Longrightarrow> r \<in> set (disk_records d) \<and> rr_idempotencyKey r = k"
  by (auto simp: find_record_def split: option.splits dest: find_Some_set)

lemma valid_ids: "opt_ok (validRuntimeDiskState owner) d \<Longrightarrow> distinct (map rr_idempotencyKey (disk_records d))"
proof (cases d)
  case (Some x)
  assume "opt_ok (validRuntimeDiskState owner) d"
  with Some have "distinct (map rr_key (rd_records x))" "\<forall>r \<in> set (rd_records x). rr_ownerId r = owner"
    by (auto simp: validRuntimeDiskState_def list_all_iff)
  moreover from this(2) have "map rr_key (rd_records x) = map (recordKey owner) (map rr_idempotencyKey (rd_records x))"
    by simp
  ultimately show ?thesis using Some by (simp only: distinct_map option.case)
qed simp

lemma find_record_iff:
  assumes "opt_ok (validRuntimeDiskState owner) d"
  shows "find_record k d = Some r \<longleftrightarrow> r \<in> set (disk_records d) \<and> rr_idempotencyKey r = k"
  using find_key_iff[OF valid_ids[OF assms], of k r] by (cases d) (auto simp: find_record_def)

lemma list_all2_map_change: "(\<And>r. R r (f r)) \<Longrightarrow> list_all2 R xs (map f xs)"
  by (simp add: list_all2_conv_all_nth)

lemma with_lease_step:
  assumes "map_sum id snd (with_lease c k l f d) = Inr e" "opt_ok (validRuntimeDiskState (rc_ownerId c)) d"
    and "\<And>r. rr_idempotencyKey r = k \<Longrightarrow> sameLease (rr_pollLease r) l \<Longrightarrow> op_change z r (f r)"
  shows "step_ok (rc_ownerId c) z d e"
proof (cases "find_record k d")
  case None
  with assms show ?thesis by (simp add: with_lease_def step_ok_same)
next
  case (Some r)
  show ?thesis
  proof (cases "sameLease (rr_pollLease r) l")
    case False
    with Some assms show ?thesis by (simp add: with_lease_def step_ok_same)
  next
    case True
    with Some assms(1) have "write_record c k f d = Inr e"
      by (auto simp: with_lease_def split: sum.splits)
    then show ?thesis using Some True find_recordD[OF Some] assms(3) by (auto intro: step_ok_record)
  qed
qed

lemma initialize_step:
  assumes "initialize c False t d = Inr e" "opt_ok (validRuntimeDiskState (rc_ownerId c)) d"
  shows "step_ok (rc_ownerId c) (Initialize c t) d e"
proof (cases d)
  case None
  with assms show ?thesis by (simp add: initialize_def step_ok_same)
next
  case (Some x)
  have "op_change (Initialize c t) r (startup_schedule c t r)" for r
    using started[of r c t] untouched[of "Initialize c t" r] by (simp add: startup_schedule_def)
  then have "list_all2 (op_change (Initialize c t)) (rd_records x) (map (startup_schedule c t) (rd_records x))"
    by (rule list_all2_map_change)
  with assms Some show ?thesis
    by (auto simp: initialize_def step_ok_same split: if_splits intro: step_ok_write)
qed

lemma schedule_step:
  assumes "scheduleBackground c True t k d = Inr e" "opt_ok (validRuntimeDiskState (rc_ownerId c)) d"
  shows "step_ok (rc_ownerId c) (ScheduleBackground c t k) d e"
proof (cases "find_record k d")
  case None
  with assms show ?thesis
    by (auto simp: scheduleBackground_def initialize_def step_ok_same split: sum.splits)
next
  case (Some r)
  note k = find_recordD[OF Some]
  obtain u where "validateTaskId k = Inr u"
    using assms(1) by (cases "validateTaskId k") (simp_all add: scheduleBackground_def)
  with assms(1) Some have "(if \<not> eligible r then Inr d
      else if truthy (rr_nextPollAt r) \<and> (case (due_time r, date_parse (nextPollAt c t (rr_idempotencyKey r))) of
          (Some a, Some b) \<Rightarrow> a \<le> b | _ \<Rightarrow> False) then Inr d
      else write_record c k (schedule_at (nextPollAt c t (rr_idempotencyKey r))) d) = Inr e"
    unfolding scheduleBackground_def initialize_def Let_def by simp
  then consider "e = d"
    | "eligible r" "write_record c k (schedule_at (nextPollAt c t (rr_idempotencyKey r))) d = Inr e"
    by (metis Inr_inject)
  then show ?thesis
  proof cases
    case 1
    with assms(2) show ?thesis by (simp add: step_ok_same)
  next
    case 2
    with k scheduled[of r c t] Some show ?thesis by (auto intro: step_ok_record)
  qed
qed

lemma request_step:
  assumes "requestNow c True t k d = Inr e" "opt_ok (validRuntimeDiskState (rc_ownerId c)) d"
  shows "step_ok (rc_ownerId c) (RequestNow c t k) d e"
proof (cases "find_record k d")
  case None
  with assms show ?thesis
    by (auto simp: requestNow_def initialize_def step_ok_same split: sum.splits)
next
  case (Some r)
  note k = find_recordD[OF Some]
  obtain u where "validateTaskId k = Inr u"
    using assms(1) by (cases "validateTaskId k") (simp_all add: requestNow_def)
  with assms(1) Some have "(if \<not> eligible r then Inr d
      else if rr_nextPollAt r = Some (to_iso_string (t - 1)) then Inr d
      else write_record c k (schedule_at (to_iso_string (t - 1))) d) = Inr e"
    unfolding requestNow_def initialize_def Let_def by simp
  then consider "e = d"
    | "eligible r" "write_record c k (schedule_at (to_iso_string (t - 1))) d = Inr e"
    by (metis Inr_inject)
  then show ?thesis
  proof cases
    case 1
    with assms(2) show ?thesis by (simp add: step_ok_same)
  next
    case 2
    with k requested[of r c t] Some show ?thesis by (auto intro: step_ok_record)
  qed
qed

text \<open>The claim takes the first record of the sorted queue.\<close>

definition due_queue :: "reconciler \<Rightarrow> int \<Rightarrow> runtime_disk option \<Rightarrow> runtime_record list" where
  "due_queue c t d = sort_by (compareDue c) (filter (claimable t) (disk_records d))"

lemma claimDue_queue:
  "claimDue c t lid d = (case due_queue c t d of [] \<Rightarrow> Inr (None, d)
     | r # _ \<Rightarrow> bindE (write_record c (rr_idempotencyKey r)
           (\<lambda>r. r\<lparr>rr_pollLease := Some (poll_lease_for c t lid)\<rparr>) d)
         (\<lambda>d'. Inr (map_option (\<lambda>r. (r, poll_lease_for c t lid)) (find_record (rr_idempotencyKey r) d'), d')))"
  by (cases d) (auto simp: claimDue_def due_queue_def Let_def split: list.splits)

lemma due_queueD: "r \<in> set (due_queue c t d) \<longleftrightarrow> r \<in> set (disk_records d) \<and> claimable t r"
  by (auto simp: due_queue_def)

lemma claim_step:
  assumes "map_sum id snd (claimDue c t lid d) = Inr e" "opt_ok (validRuntimeDiskState (rc_ownerId c)) d"
  shows "step_ok (rc_ownerId c) (ClaimDue c t lid) d e"
proof (cases "due_queue c t d")
  case Nil
  with assms show ?thesis by (simp add: claimDue_queue step_ok_same)
next
  case (Cons r rs)
  then have r: "r \<in> set (disk_records d)" "claimable t r" using due_queueD[of r c t d] by auto
  with find_record_iff[OF assms(2)] have "find_record (rr_idempotencyKey r) d = Some r" by blast
  moreover from assms(1) Cons have "write_record c (rr_idempotencyKey r)
      (\<lambda>r. r\<lparr>rr_pollLease := Some (poll_lease_for c t lid)\<rparr>) d = Inr e"
    by (auto simp: claimDue_queue split: sum.splits)
  ultimately show ?thesis using claimed[OF r(2)] by (auto intro: step_ok_record)
qed

lemma renew_step:
  assumes "map_sum id snd (renewLease c t k l d) = Inr e" "opt_ok (validRuntimeDiskState (rc_ownerId c)) d"
  shows "step_ok (rc_ownerId c) (RenewLease c t k l) d e"
proof (cases "find_record k d")
  case None
  with assms show ?thesis by (simp add: renewLease_def)
next
  case (Some r)
  with assms(1) have w: "sameLease (rr_pollLease r) l" "write_record c k
      (\<lambda>r. r\<lparr>rr_pollLease := Some (l\<lparr>pl_expiresAt := to_iso_string (t + pollLeaseMs c)\<rparr>)\<rparr>) d = Inr e"
    by (auto simp: renewLease_def Let_def split: sum.splits if_splits)
  from renewed[OF w(1), of c t] find_recordD[OF Some] step_ok_record[OF w(2) Some] show ?thesis by simp
qed

lemma disown_step:
  assumes "releaseOwnedLeases c d = Inr e" "opt_ok (validRuntimeDiskState (rc_ownerId c)) d"
  shows "step_ok (rc_ownerId c) (ReleaseOwnedLeases c) d e"
proof (cases d)
  case None
  with assms show ?thesis by (simp add: releaseOwnedLeases_def step_ok_same)
next
  case (Some x)
  have "op_change (ReleaseOwnedLeases c) r (if owns_lease c r then r\<lparr>rr_pollLease := None\<rparr> else r)" for r
    using disowned[of c r] untouched[of "ReleaseOwnedLeases c" r] by simp
  then have "list_all2 (op_change (ReleaseOwnedLeases c)) (rd_records x)
      (map (\<lambda>r. if owns_lease c r then r\<lparr>rr_pollLease := None\<rparr> else r) (rd_records x))"
    by (rule list_all2_map_change)
  with assms Some show ?thesis
    by (auto simp: releaseOwnedLeases_def step_ok_same split: if_splits intro: step_ok_write)
qed

lemma poll_step_ok:
  assumes "poll_step owner d z = Inr e" "opt_ok (validRuntimeDiskState owner) d"
  shows "step_ok owner z d e"
proof -
  have o: "rc_ownerId (op_reconciler z) = owner" and e: "run_op z d = Inr e"
    using assms(1) by (simp_all add: poll_step_def split: if_splits)
  note v = assms(2)[folded o]
  have "step_ok (rc_ownerId (op_reconciler z)) z d e"
  proof (cases z)
    case (CommitObservation c t k l ob)
    with e v show ?thesis
      by (auto simp: commitObservation_def intro!: with_lease_step intro: skipped observed)
  next
    case (CommitSyncError c t k l code)
    with e v show ?thesis by (auto simp: commitSyncError_def intro!: with_lease_step intro: failed)
  next
    case (ReleaseLease c k l)
    with e v show ?thesis by (auto simp: releaseLease_def intro!: with_lease_step intro: released)
  qed (use e v in \<open>auto intro: initialize_step schedule_step request_step claim_step renew_step disown_step\<close>)
  then show ?thesis by (simp add: o)
qed

section \<open>What a step keeps\<close>

lemma applyObservation_keeps [simp]:
  "rr_ownerId (applyObservation r ob) = rr_ownerId r"
  "rr_idempotencyKey (applyObservation r ob) = rr_idempotencyKey r"
  "rr_taskVersion (applyObservation r ob) = rr_taskVersion r"
  "rr_submitId (applyObservation r ob) = rr_submitId r"
  "rr_retryCount (applyObservation r ob) = rr_retryCount r"
  "rr_mode (applyObservation r ob) = rr_mode r"
  by (simp_all add: applyObservation_def clearSyncError_def Let_def split: provider_status.split)

lemma record_observation_simps [simp]:
  "rr_ownerId (record_observation c t ob r) = rr_ownerId r"
  "rr_idempotencyKey (record_observation c t ob r) = rr_idempotencyKey r"
  "rr_lastObservedAt (record_observation c t ob r) = Some (ob_observedAt ob)"
  "rr_pollLease (record_observation c t ob r) = None"
  "rr_state (record_observation c t ob r) = rr_state (applyObservation r ob)"
  "rr_officialStatus (record_observation c t ob r) = rr_officialStatus (applyObservation r ob)"
  "rr_providerOutputs (record_observation c t ob r) = rr_providerOutputs (applyObservation r ob)"
  "rr_taskVersion (record_observation c t ob r) = rr_taskVersion r"
  "rr_submitId (record_observation c t ob r) = rr_submitId r"
  by (simp_all add: record_observation_def Let_def)

lemma skip_observation_simps [simp]:
  "rr_ownerId (skip_observation c t r) = rr_ownerId r"
  "rr_idempotencyKey (skip_observation c t r) = rr_idempotencyKey r"
  "rr_lastObservedAt (skip_observation c t r) = rr_lastObservedAt r"
  "rr_pollLease (skip_observation c t r) = None"
  by (simp_all add: skip_observation_def Let_def)

lemma startup_schedule_simps [simp]:
  "rr_ownerId (startup_schedule c t r) = rr_ownerId r"
  "rr_idempotencyKey (startup_schedule c t r) = rr_idempotencyKey r"
  "rr_lastObservedAt (startup_schedule c t r) = rr_lastObservedAt r"
  "rr_pollLease (startup_schedule c t r) = rr_pollLease r"
  by (simp_all add: startup_schedule_def schedule_at_def)

lemma op_change_key:
  "op_change z r q \<Longrightarrow> rr_idempotencyKey q = rr_idempotencyKey r \<and> rr_ownerId q = rr_ownerId r"
  by (induction rule: op_change.induct) (simp_all add: schedule_at_def record_sync_error_def Let_def)

text \<open>The time of the last observation never moves back.\<close>

definition observed_le :: "runtime_record \<Rightarrow> runtime_record \<Rightarrow> bool" where
  "observed_le p i \<longleftrightarrow> (\<forall>a. observed_time p = Some (Some a) \<longrightarrow>
     (\<exists>b. observed_time i = Some (Some b) \<and> a \<le> b))"

lemma observed_le_same: "rr_lastObservedAt i = rr_lastObservedAt p \<Longrightarrow> observed_le p i"
  by (simp add: observed_le_def observed_time_def)

lemma observed_le_trans: "observed_le p q \<Longrightarrow> observed_le q r \<Longrightarrow> observed_le p r"
  unfolding observed_le_def by (meson order_trans)

lemma date_ok_nonempty: "date_ok s \<Longrightarrow> s \<noteq> []"
  by (auto simp: date_ok_def)

lemma op_change_observed:
  assumes "op_change z r q" "opt_ok date_ok (rr_lastObservedAt q)"
  shows "observed_le r q"
  using assms
proof (cases rule: op_change.cases)
  case (observed l ob c t)
  from assms(2) observed(2) obtain b where b: "date_parse (ob_observedAt ob) = Some b"
    by (auto simp: date_ok_def)
  then have "observed_time q = Some (Some b)"
    using observed(2) by (auto simp: observed_time_def)
  moreover have "a \<le> b" if "observed_time r = Some (Some a)" for a
    using observed(4) b that by (auto simp: observation_stale_def)
  ultimately show ?thesis by (simp add: observed_le_def)
qed (auto intro!: observed_le_same simp: schedule_at_def record_sync_error_def Let_def)

definition moves_forward :: "runtime_record \<Rightarrow> runtime_record \<Rightarrow> bool" where
  "moves_forward p i \<longleftrightarrow> rr_key i = rr_key p \<and> observed_le p i \<and> (durable p \<longrightarrow> record_kept p i)"

lemma moves_forward_refl: "moves_forward p p"
  by (simp add: moves_forward_def observed_le_same record_kept_refl)

lemma moves_forward_trans: "moves_forward p q \<Longrightarrow> moves_forward q r \<Longrightarrow> moves_forward p r"
  unfolding moves_forward_def using observed_le_trans record_kept_trans record_keptD(2) by metis

definition journal_forward :: "runtime_disk option \<Rightarrow> runtime_disk option \<Rightarrow> bool" where
  "journal_forward d e \<longleftrightarrow> (\<forall>p \<in> set (disk_records d). \<exists>i \<in> set (disk_records e). moves_forward p i)"

lemma valid_record_in:
  "opt_ok (validRuntimeDiskState owner) d \<Longrightarrow> r \<in> set (disk_records d) \<Longrightarrow> validRecord r \<and> rr_ownerId r = owner"
  by (cases d) (auto simp: validRuntimeDiskState_def list_all_iff)

lemma valid_observed: "validRecord r \<Longrightarrow> opt_ok date_ok (rr_lastObservedAt r)"
  by (simp add: validRecord_def baseValid_def poll_fields_valid_def)

lemma list_all2_memD: "list_all2 R xs ys \<Longrightarrow> x \<in> set xs \<Longrightarrow> \<exists>y \<in> set ys. R x y"
  by (induction rule: list_all2_induct) auto

lemma list_all2_memD2: "list_all2 R xs ys \<Longrightarrow> y \<in> set ys \<Longrightarrow> \<exists>x \<in> set xs. R x y"
  by (induction rule: list_all2_induct) auto

lemma op_moves_key:
  assumes "op_moves z p i"
  shows "rr_key i = rr_key p"
proof -
  from assms obtain q where "op_change z p q" "unversioned i = unversioned q" by blast
  with op_change_key[of z p q] unversioned_fields[of i q] show ?thesis by simp
qed

lemma step_forward:
  assumes "poll_step owner d z = Inr e" "opt_ok (validRuntimeDiskState owner) d"
  shows "opt_ok (validRuntimeDiskState owner) e" "journal_forward d e"
proof -
  note s = poll_step_ok[OF assms, unfolded step_ok_def]
  then show v: "opt_ok (validRuntimeDiskState owner) e" by blast
  show "journal_forward d e" unfolding journal_forward_def
  proof
    fix p assume p: "p \<in> set (disk_records d)"
    from s have all: "list_all2 (op_moves z) (disk_records d) (disk_records e)" by blast
    from list_all2_memD[OF all p] obtain i where i: "i \<in> set (disk_records e)" "op_moves z p i" by blast
    from i(2) obtain q where q: "op_change z p q" "unversioned i = unversioned q" by blast
    have key: "rr_key i = rr_key p" by (rule op_moves_key[OF i(2)])
    have "opt_ok date_ok (rr_lastObservedAt q)"
      using valid_observed[of i] valid_record_in[OF v i(1)] unversioned_fields(6)[OF q(2)] by simp
    from observed_le_trans[OF op_change_observed[OF q(1) this] observed_le_same] unversioned_fields(6)[OF q(2)]
    have "observed_le p i" by blast
    moreover have "record_kept p i" if durable: "durable p"
    proof -
      from s p durable obtain j where j: "j \<in> set (disk_records e)" "record_kept p j"
        unfolding journal_kept_def by blast
      from record_keptD(1)[OF j(2)] key have "rr_key j = rr_key i" by simp
      with valid_distinct[OF v] j(1) i(1) have "j = i" by (meson distinct_map inj_onD)
      with j(2) show ?thesis by simp
    qed
    ultimately show "\<exists>i \<in> set (disk_records e). moves_forward p i"
      using i(1) key unfolding moves_forward_def by blast
  qed
qed

interpretation polling: guarded_machine "poll_step owner"
  "opt_ok (validRuntimeDiskState owner)" journal_forward for owner
proof unfold_locales
  show "journal_forward d d" for d
    unfolding journal_forward_def using moves_forward_refl by blast
  show "journal_forward d f" if "journal_forward d e" "journal_forward e f" for d e f
    using that moves_forward_trans unfolding journal_forward_def by blast
qed (auto dest: step_forward)

end
