(* ===== verification/ReconcilerProgress.thy ===== *)
theory ReconcilerProgress
  imports ReconcilerProofs
begin

text \<open>
  The reconciler gets on: options are brought into range, the next poll comes neither too early nor
  too late, a claim takes the record that waits longest and every due record is claimed, a valid
  observation is always written, and no record that still needs polling is forgotten.
\<close>

section \<open>Options and times\<close>

lemma bounded_in: "lo \<le> hi \<Longrightarrow> lo \<le> fallback \<Longrightarrow> fallback \<le> hi \<Longrightarrow>
    lo \<le> bounded v lo hi fallback \<and> bounded v lo hi fallback \<le> hi"
  by (cases v) (auto simp: bounded_def)

text \<open>The largest delay defaults to a minute even where the first one is longer, so only its upper
  bound holds in general.\<close>

lemma options_in_range:
  assumes "new_reconciler iid hash le x = Inr c"
  shows "1 \<le> pollIntervalMs c" "pollIntervalMs c \<le> 300000" "1 \<le> retryBaseMs c" "retryBaseMs c \<le> 300000"
    "1 \<le> retryMaxMs c" "retryMaxMs c \<le> 3600000" "50 \<le> pollLeaseMs c" "pollLeaseMs c \<le> 300000"
    "0 \<le> startupSpreadMs c" "startupSpreadMs c \<le> 60000"
    "pollLeaseHeartbeatMs c = 0 \<or> 10 \<le> pollLeaseHeartbeatMs c"
    "pollLeaseHeartbeatMs c \<le> pollLeaseMs c" "rc_ownerId c = opt_ownerId x" "rc_instanceId c = iid"
proof -
  let ?base = "bounded (opt_retryBaseMs x) 1 300000 DEFAULT_RETRY_BASE_MS"
  let ?lease = "bounded (opt_pollLeaseMs x) 50 300000 DEFAULT_POLL_LEASE_MS"
  have base: "1 \<le> ?base \<and> ?base \<le> 300000" by (rule bounded_in) (simp_all add: default_defs)
  have lease: "50 \<le> ?lease \<and> ?lease \<le> 300000" by (rule bounded_in) (simp_all add: default_defs)
  have c: "pollIntervalMs c = bounded (opt_pollIntervalMs x) 1 300000 DEFAULT_POLL_INTERVAL_MS"
    "retryBaseMs c = ?base" "retryMaxMs c = bounded (opt_retryMaxMs x) ?base 3600000 DEFAULT_RETRY_MAX_MS"
    "pollLeaseMs c = ?lease"
    "startupSpreadMs c = bounded (opt_startupSpreadMs x) 0 60000 DEFAULT_STARTUP_SPREAD_MS"
    "pollLeaseHeartbeatMs c = (if opt_pollLeaseHeartbeatMs x = Some 0 then 0
       else bounded (opt_pollLeaseHeartbeatMs x) 10 ?lease
         (min DEFAULT_POLL_LEASE_HEARTBEAT_MS (max 10 (?lease div 3))))"
    "rc_ownerId c = opt_ownerId x" "rc_instanceId c = iid"
    using assms by (auto simp: new_reconciler_def Let_def split: if_splits)
  show "retryBaseMs c \<le> 300000" "1 \<le> retryBaseMs c" "50 \<le> pollLeaseMs c" "pollLeaseMs c \<le> 300000"
    using base lease c by simp_all
  have "1 \<le> pollIntervalMs c \<and> pollIntervalMs c \<le> 300000"
    unfolding c(1) by (rule bounded_in) (simp_all add: default_defs)
  then show "1 \<le> pollIntervalMs c" "pollIntervalMs c \<le> 300000" by blast+
  have "0 \<le> startupSpreadMs c \<and> startupSpreadMs c \<le> 60000"
    unfolding c(5) by (rule bounded_in) (simp_all add: default_defs)
  then show "0 \<le> startupSpreadMs c" "startupSpreadMs c \<le> 60000" by blast+
  have "1 \<le> retryMaxMs c \<and> retryMaxMs c \<le> 3600000"
  proof (cases "opt_retryMaxMs x")
    case None
    then show ?thesis unfolding c(3) by (simp add: bounded_def default_defs)
  next
    case (Some v)
    have "max b (min 3600000 w) \<le> 3600000 \<and> 1 \<le> max b (min 3600000 w)" if "1 \<le> b" "b \<le> 300000"
      for b w :: int using that by linarith
    moreover have "bounded (Some v) b 3600000 f = max b (min 3600000 (js_trunc v))" for b f
      by (simp add: bounded_def)
    ultimately show ?thesis using base unfolding c(3) Some by simp
  qed
  then show "1 \<le> retryMaxMs c" "retryMaxMs c \<le> 3600000" by blast+
  let ?beat = "min DEFAULT_POLL_LEASE_HEARTBEAT_MS (max 10 (?lease div 3))"
  have "10 \<le> w" "10 \<le> min 5000 (max 10 (w div 3))" "min 5000 (max 10 (w div 3)) \<le> w"
    if "50 \<le> w" for w :: int using that by linarith+
  note beat = this[of ?lease, folded DEFAULT_POLL_LEASE_HEARTBEAT_MS_def]
  have "10 \<le> bounded (opt_pollLeaseHeartbeatMs x) 10 ?lease ?beat
      \<and> bounded (opt_pollLeaseHeartbeatMs x) 10 ?lease ?beat \<le> ?lease"
    using lease by (intro bounded_in beat) blast+
  with lease show "pollLeaseHeartbeatMs c = 0 \<or> 10 \<le> pollLeaseHeartbeatMs c"
    "pollLeaseHeartbeatMs c \<le> pollLeaseMs c"
    unfolding c(4,6) by (simp_all split: if_split)
  show "rc_ownerId c = opt_ownerId x" "rc_instanceId c = iid" by (fact c)+
qed

lemma jitter_in: "0 \<le> deterministicJitter c v m \<and> deterministicJitter c v m \<le> max 0 m"
proof (cases "m \<le> 0")
  case False
  then have "0 \<le> digest32 c v mod (m + 1)" "digest32 c v mod (m + 1) < m + 1"
    using pos_mod_sign[of "m + 1" "digest32 c v"] pos_mod_bound[of "m + 1" "digest32 c v"] by linarith+
  moreover have "deterministicJitter c v m = digest32 c v mod (m + 1)"
    using False by (simp add: deterministicJitter_def)
  ultimately show ?thesis using False by linarith
qed (simp add: deterministicJitter_def)

lemma iso_between: "iso_time t \<Longrightarrow> iso_time (t + 4000000) \<Longrightarrow> 0 \<le> d \<Longrightarrow> d \<le> 4000000 \<Longrightarrow> iso_time (t + d)"
  by (auto simp: iso_time_def)

lemma nextPollAt_time:
  assumes "new_reconciler iid hash le x = Inr c" "iso_time t" "iso_time (t + 4000000)"
  obtains s where "date_parse (nextPollAt c t k) = Some s" "t + pollIntervalMs c \<le> s"
    "s \<le> t + pollIntervalMs c + min 500 (pollIntervalMs c div 5)"
proof -
  note r = options_in_range[OF assms(1)]
  let ?j = "deterministicJitter c k (min 500 (pollIntervalMs c div 5))"
  have m: "0 \<le> min 500 (pollIntervalMs c div 5)" using r(1) by (simp add: pos_imp_zdiv_nonneg_iff)
  with jitter_in[of c k "min 500 (pollIntervalMs c div 5)"]
  have j: "0 \<le> ?j" "?j \<le> min 500 (pollIntervalMs c div 5)" by linarith+
  then have "?j \<le> 500" by linarith
  have "iso_time (t + (pollIntervalMs c + ?j))"
    by (rule iso_between[OF assms(2,3)]) (use r(1,2) j \<open>?j \<le> 500\<close> in linarith)+
  then have "date_parse (nextPollAt c t k) = Some (t + (pollIntervalMs c + ?j))"
    unfolding nextPollAt_def add.assoc by (rule date_parse_to_iso_string)
  with j show thesis by (intro that) auto
qed

lemma retry_delay_in:
  assumes "new_reconciler iid hash le x = Inr c"
  shows "1 \<le> retry_delay c n \<and> retry_delay c n \<le> retryMaxMs c"
proof -
  note r = options_in_range[OF assms]
  have "1 * 1 \<le> retryBaseMs c * 2 ^ nat (max 0 (min 20 (n - 1)))"
    using r(3) by (intro mult_mono) simp_all
  then show ?thesis using r(5) by (simp add: retry_delay_def Let_def)
qed

lemma retryAt_time:
  assumes "new_reconciler iid hash le x = Inr c" "iso_time t" "iso_time (t + 4000000)"
  shows "date_parse (retryAt c t n) = Some (t + retry_delay c n)"
proof -
  have "iso_time (t + retry_delay c n)"
    using retry_delay_in[OF assms(1), of n] options_in_range(6)[OF assms(1)]
    by (intro iso_between[OF assms(2,3)]) linarith+
  then show ?thesis unfolding retryAt_def by (rule date_parse_to_iso_string)
qed

lemma retry_doubles:
  assumes "1 \<le> n" "n \<le> 20" "0 \<le> retryMaxMs c"
  shows "retry_delay c (n + 1) = min (retryMaxMs c) (2 * retry_delay c n)"
proof -
  have e: "max 0 (min 20 (n + 1 - 1)) = n" "max 0 (min 20 (n - 1)) = n - 1" using assms by auto
  have "nat n = Suc (nat (n - 1))" using assms(1) by simp
  then have "(2::int) ^ nat n = 2 * 2 ^ nat (n - 1)" by simp
  then show ?thesis using assms(3) unfolding retry_delay_def Let_def e by (simp add: mult.left_commute min_def)
qed

text \<open>C37: After an answer the next poll comes after the poll interval and at most half a second and a
  fifth of the interval later. After an error the delay starts at the base delay, doubles with every
  further error and never exceeds the largest delay; no retry is due at once.\<close>

theorem next_poll_in_time:
  assumes "new_reconciler iid hash le x = Inr c" "iso_time t" "iso_time (t + 4000000)"
  shows "(\<exists>s. date_parse (nextPollAt c t k) = Some s \<and> t + pollIntervalMs c \<le> s
      \<and> s \<le> t + pollIntervalMs c + min 500 (pollIntervalMs c div 5))
    \<and> date_parse (retryAt c t n) = Some (t + retry_delay c n)
    \<and> 1 \<le> retry_delay c n \<and> retry_delay c n \<le> retryMaxMs c
    \<and> retry_delay c 1 = min (retryMaxMs c) (retryBaseMs c)
    \<and> (1 \<le> n \<and> n \<le> 20 \<longrightarrow> retry_delay c (n + 1) = min (retryMaxMs c) (2 * retry_delay c n))
    \<and> (20 < n \<longrightarrow> retry_delay c n = min (retryMaxMs c) (retryBaseMs c * 2 ^ 20))"
proof (intro conjI)
  show "\<exists>s. date_parse (nextPollAt c t k) = Some s \<and> t + pollIntervalMs c \<le> s
      \<and> s \<le> t + pollIntervalMs c + min 500 (pollIntervalMs c div 5)"
    using nextPollAt_time[OF assms, of k] by blast
  show "retry_delay c 1 = min (retryMaxMs c) (retryBaseMs c)" by (simp add: retry_delay_def)
  show "1 \<le> n \<and> n \<le> 20 \<longrightarrow> retry_delay c (n + 1) = min (retryMaxMs c) (2 * retry_delay c n)"
    using retry_doubles options_in_range(5)[OF assms(1)] by simp
  show "20 < n \<longrightarrow> retry_delay c n = min (retryMaxMs c) (retryBaseMs c * 2 ^ 20)"
    by (simp add: retry_delay_def)
qed (use retryAt_time[OF assms] retry_delay_in[OF assms(1)] in blast)+

section \<open>Writing one record\<close>

text \<open>A record whose poll fields are set anew.\<close>

definition repoll :: "runtime_record \<Rightarrow> journal_state \<Rightarrow> string \<Rightarrow> string option \<Rightarrow> provider_status option
    \<Rightarrow> string option \<Rightarrow> poll_lease option \<Rightarrow> int option \<Rightarrow> string option \<Rightarrow> provider_output list option
    \<Rightarrow> runtime_record" where
  "repoll r st upd err off nxt lse cnt obs outs =
     r\<lparr>rr_state := st, rr_updatedAt := upd, rr_errorCode := err, rr_officialStatus := off,
       rr_nextPollAt := nxt, rr_pollLease := lse, rr_retryCount := cnt, rr_lastObservedAt := obs,
       rr_providerOutputs := outs\<rparr>"

text \<open>Two records that agree on everything else.\<close>

definition is_repoll :: "runtime_record \<Rightarrow> runtime_record \<Rightarrow> bool" where
  "is_repoll r q \<longleftrightarrow> repoll q JQueued [] None None None None None None None
     = repoll r JQueued [] None None None None None None None"

lemma is_repollD:
  "is_repoll r q \<Longrightarrow> q = repoll r (rr_state q) (rr_updatedAt q) (rr_errorCode q) (rr_officialStatus q)
     (rr_nextPollAt q) (rr_pollLease q) (rr_retryCount q) (rr_lastObservedAt q) (rr_providerOutputs q)"
  by (cases q, cases r) (simp add: is_repoll_def repoll_def)

lemma is_repoll_trans: "is_repoll r q \<Longrightarrow> is_repoll q p \<Longrightarrow> is_repoll r p"
  by (simp add: is_repoll_def)

lemma settled_shape:
  assumes "validRecord r" "rr_state r \<noteq> JPending" "rr_state r \<noteq> JQueued"
  shows "noReservation r" "noQueueLease r"
proof -
  have "runtime_fields_valid r" using assms(1) by (simp add: validRecord_def baseValid_def)
  then show "noReservation r" "noQueueLease r"
    using assms(2,3) by (auto simp: runtime_fields_valid_def reservationShapeValid_def
        legacyReservation_def hasQueueLease_def)
qed

lemma repoll_valid:
  assumes "validRecord r" "rr_taskVersion r \<noteq> None" "hasSubmitId r"
    and "rr_state r \<notin> {JPending, JQueued}" "st \<notin> {JPending, JQueued}"
    and "date_ok upd" "opt_ok error_code_ok err" "opt_ok date_ok nxt" "opt_ok validPollLease lse"
    and "opt_ok (\<lambda>n. safe_integer n \<and> 0 \<le> n \<and> n \<le> 1000000) cnt" "opt_ok date_ok obs"
    and "opt_ok (journal_outputs_ok (rr_mode r)) outs"
    and "outs = None \<or> st = JSucceeded \<and> off = Some Completed"
  shows "validRecord (repoll r st upd err off nxt lse cnt obs outs)"
proof -
  let ?q = "repoll r st upd err off nxt lse cnt obs outs"
  have b: "identity_valid r" "runtime_fields_valid r" "task_fields_valid r"
    using assms(1,2) by (simp_all add: validRecord_def baseValid_def)
  have shape: "noReservation r" "noQueueLease r" using settled_shape[OF assms(1)] assms(4) by auto
  have "identity_valid ?q" using b(1) by (simp add: identity_valid_def repoll_def)
  moreover have "runtime_fields_valid ?q"
    using b(2) shape by (simp add: runtime_fields_valid_def reservationShapeValid_def noReservation_def
        noQueueLease_def repoll_def)
  moreover have "poll_fields_valid ?q"
    using assms(8-12) by (simp add: poll_fields_valid_def repoll_def)
  moreover have submit: "hasSubmitId ?q" using assms(3) by (simp add: hasSubmitId_def repoll_def)
  moreover have "task_fields_valid ?q"
    using b(3) assms(7,13) submit by (simp add: task_fields_valid_def repoll_def)
  moreover have "rr_taskVersion ?q = rr_taskVersion r" "rr_state ?q = st" "rr_updatedAt ?q = upd"
    by (simp_all add: repoll_def)
  ultimately show ?thesis using assms(2,5,6) unfolding validRecord_def baseValid_def by auto
qed

lemma repoll_progression:
  assumes "rr_providerOutputs r = None \<or> outs = rr_providerOutputs r"
    and "reconciledUncertain r (repoll r st upd err off nxt lse cnt obs outs)
      \<or> stateRank (rr_state r) \<le> stateRank st \<and> (isTerminal (rr_state r) \<longrightarrow> st = rr_state r)"
    and "rr_state r \<notin> {JPending, JQueued}"
  shows "record_progression r (repoll r st upd err off nxt lse cnt obs outs)"
proof -
  let ?q = "repoll r st upd err off nxt lse cnt obs outs"
  have f: "rr_requestHash ?q = rr_requestHash r" "rr_submitId ?q = rr_submitId r" "rr_hidden ?q = rr_hidden r"
    "rr_fenceEpoch ?q = rr_fenceEpoch r" "rr_accountBinding ?q = rr_accountBinding r"
    "rr_sessionEpoch ?q = rr_sessionEpoch r" "rr_state ?q = st" "rr_providerOutputs ?q = outs"
    "identity_kept r ?q"
    by (simp_all add: repoll_def identity_kept_def)
  have "opt_ok (\<lambda>e. e \<le> int_or a x) x" for a x by (cases x) (simp_all add: int_or_def)
  moreover have "queue_kept r ?q" "reservation_kept r ?q"
    using assms(3) by (simp_all add: queue_kept_def reservation_kept_def)
  ultimately show ?thesis
    using assms(1,2) f unfolding record_progression_def f by auto
qed

text \<open>Changing one record of a valid journal.\<close>

lemma list_all2_update_first_at:
  assumes "find P xs = Some r" "\<And>x. \<not> P x \<Longrightarrow> R x x" "R r (f r)" "distinct (map k xs)"
    and "\<And>x. P x \<longleftrightarrow> k x = a"
  shows "list_all2 R xs (update_first P f xs)"
  using assms(1,4)
proof (induction xs)
  case (Cons y ys)
  show ?case
  proof (cases "P y")
    case True
    with Cons.prems have r: "r = y" by simp
    have "R x x" if "x \<in> set ys" for x
    proof -
      have "k x \<noteq> k y" using Cons.prems(2) that by (metis distinct.simps(2) image_eqI list.map(2) set_map)
      with True assms(2,5) show ?thesis by metis
    qed
    then have "list_all2 R ys ys" by (simp add: list.rel_refl_strong)
    with True r assms(3) show ?thesis by simp
  next
    case False
    with Cons assms(2) show ?thesis by simp
  qed
qed simp

lemma write_record_ok:
  assumes v: "validRuntimeDiskState (rc_ownerId c) x" and r: "find_record k (Some x) = Some r"
    and f: "record_progression r (f r)" "validRecord (f r)" "rr_idempotencyKey (f r) = rr_idempotencyKey r"
      "rr_ownerId (f r) = rr_ownerId r"
    and room: "\<forall>p \<in> set (rd_records x). version_room p"
  obtains y where "write_record c k f (Some x) = Inr (Some y)" "validRuntimeDiskState (rc_ownerId c) y"
    "find_record k (Some y) = Some (next_version r (f r))"
    "list_all2 (\<lambda>p i. if rr_idempotencyKey p = k then p = r \<and> i = next_version r (f r)
       else unversioned i = unversioned p \<and> journal_version_of i = journal_version_of p)
      (rd_records x) (rd_records y)"
proof -
  let ?P = "\<lambda>r. rr_idempotencyKey r = k" and ?ps = "rd_records x"
  let ?rs = "update_first ?P f ?ps"
  have o: "opt_ok (validRuntimeDiskState (rc_ownerId c)) (Some x)" using v by simp
  have find: "find ?P ?ps = Some r" using r by (simp add: find_record_def)
  have dist: "distinct (map rr_idempotencyKey ?ps)" using valid_ids[OF o] by simp
  have vr: "validRecord p \<and> rr_ownerId p = rc_ownerId c \<and> version_room p" if "p \<in> set ?ps" for p
    using valid_record_in[OF o] room that by simp
  have rin: "r \<in> set ?ps" "rr_idempotencyKey r = k" using find_Some_set[OF find] by auto
  define R where "R = (\<lambda>p q. p \<in> set ?ps \<longrightarrow> rr_key q = rr_key p \<and> rr_ownerId q = rc_ownerId c
      \<and> record_progression p q \<and> validRecord q \<and> version_room p
      \<and> (if ?P p then p = r \<and> q = f r else q = p))"
  have "R p p" if "\<not> ?P p" for p using that vr record_progression_refl by (simp add: R_def)
  moreover have "R r (f r)" using f vr[OF rin(1)] rin(2) by (simp add: R_def)
  ultimately have "list_all2 R ?ps ?rs"
    using find dist by (intro list_all2_update_first_at[where k = rr_idempotencyKey and a = k]) auto
  then have all: "list_all2 (\<lambda>p q. rr_key q = rr_key p \<and> rr_ownerId q = rc_ownerId c
      \<and> record_progression p q \<and> validRecord q \<and> version_room p
      \<and> (if ?P p then p = r \<and> q = f r else q = p)) ?ps ?rs"
    unfolding R_def by (auto simp: list_all2_conv_all_nth)
  define y where "y = x\<lparr>rd_records := map2 next_version ?ps ?rs\<rparr>"
  have base: "list_all2 (\<lambda>p q. rr_key q = rr_key p \<and> rr_ownerId q = rc_ownerId c
      \<and> record_progression p q \<and> validRecord q \<and> version_room p) ?ps ?rs"
    by (rule list_all2_mono[OF all]) blast
  have w: "write_record c k f (Some x) = Inr (Some y)" "validRuntimeDiskState (rc_ownerId c) y"
    using write_journal_ok[OF v base] by (simp_all add: write_record_def y_def)
  have len: "length ?rs = length ?ps" by simp
  have l: "list_all2 (\<lambda>p i. if ?P p then p = r \<and> i = next_version r (f r)
       else unversioned i = unversioned p \<and> journal_version_of i = journal_version_of p)
      ?ps (rd_records y)"
    using all len by (auto simp: list_all2_conv_all_nth y_def next_version_def journal_version_of_def
        int_or_def split: if_splits)
  from list_all2_memD[OF l rin(1)] rin(2) have i: "next_version r (f r) \<in> set (rd_records y)" by auto
  have "find_record k (Some y) = Some (next_version r (f r))"
    using find_record_iff[of "rc_ownerId c" "Some y" k "next_version r (f r)"] w(2) i f(3) rin(2) by simp
  then show thesis by (rule that[OF w _ l])
qed

section \<open>Observations are written\<close>

text \<open>The state a valid observation leads to.\<close>

fun observed_state :: "journal_state \<Rightarrow> provider_status \<Rightarrow> journal_state" where
  "observed_state JSucceeded st = JSucceeded"
| "observed_state s Pending = JAccepted"
| "observed_state s Processing = JAccepted"
| "observed_state s Completed = JSucceeded"
| "observed_state s Cancelled = JCancelled"
| "observed_state s Failed = JFailed"

lemma cleared_error: "opt_ok error_code_ok (rr_errorCode r) \<Longrightarrow> opt_ok error_code_ok (rr_errorCode (clearSyncError r))"
  by (simp add: clearSyncError_def)

lemma clearSyncError_simps [simp]:
  "rr_state (clearSyncError r) = rr_state r" "rr_officialStatus (clearSyncError r) = rr_officialStatus r"
  "rr_providerOutputs (clearSyncError r) = rr_providerOutputs r"
  by (simp_all add: clearSyncError_def)

lemma apply_state: "rr_state r \<in> {JAccepted, JUnknown, JSucceeded} \<Longrightarrow>
    rr_state (applyObservation r ob) = observed_state (rr_state r) (ob_status ob)"
  by (cases "ob_status ob") (auto simp: applyObservation_def Let_def)

lemma apply_status:
  "rr_officialStatus (applyObservation r ob) =
     (if rr_state r = JSucceeded \<and> ob_status ob \<noteq> Completed then rr_officialStatus r else Some (ob_status ob))"
  by (cases "ob_status ob") (auto simp: applyObservation_def Let_def)

lemma apply_outputs:
  "rr_providerOutputs (applyObservation r ob) =
     (if ob_status ob = Completed \<and> ob_providerOutputs ob \<noteq> None then ob_providerOutputs ob
      else rr_providerOutputs r)"
  by (cases "ob_status ob") (auto simp: applyObservation_def Let_def)

lemma fixed_codes_ok:
  "error_code_ok ''dreamina_observation_conflict''" "error_code_ok ''dreamina_official_cancelled''"
  "error_code_ok ''dreamina_official_failed''" "error_code_ok ''dreamina_query_failed''"
  by code_simp+

lemma retry_code_ok: "error_code_ok (retry_code s)"
  by (simp add: retry_code_def fixed_codes_ok)

lemma apply_error_ok:
  assumes "opt_ok error_code_ok (rr_errorCode r)"
  shows "opt_ok error_code_ok (rr_errorCode (applyObservation r ob))"
proof -
  have c: "opt_ok error_code_ok (rr_errorCode (clearSyncError q))" if "rr_errorCode q = rr_errorCode r" for q
    using assms that by (intro cleared_error) simp
  show ?thesis
    by (cases "ob_status ob") (simp_all add: applyObservation_def Let_def c fixed_codes_ok retry_code_ok)
qed

lemma clearSyncError_repoll: "clearSyncError r = r\<lparr>rr_errorCode := rr_errorCode (clearSyncError r)\<rparr>"
  by (simp add: clearSyncError_def)

lemma apply_repoll: "is_repoll r (applyObservation r ob)"
  by (cases "ob_status ob")
    (simp_all add: applyObservation_def Let_def is_repoll_def repoll_def clearSyncError_def)

lemma repoll_fields [simp]:
  "rr_state (repoll r st upd err off nxt lse cnt obs outs) = st"
  "rr_updatedAt (repoll r st upd err off nxt lse cnt obs outs) = upd"
  "rr_errorCode (repoll r st upd err off nxt lse cnt obs outs) = err"
  "rr_officialStatus (repoll r st upd err off nxt lse cnt obs outs) = off"
  "rr_nextPollAt (repoll r st upd err off nxt lse cnt obs outs) = nxt"
  "rr_pollLease (repoll r st upd err off nxt lse cnt obs outs) = lse"
  "rr_retryCount (repoll r st upd err off nxt lse cnt obs outs) = cnt"
  "rr_lastObservedAt (repoll r st upd err off nxt lse cnt obs outs) = obs"
  "rr_providerOutputs (repoll r st upd err off nxt lse cnt obs outs) = outs"
  by (simp_all add: repoll_def)

lemma record_observation_repoll: "is_repoll r (record_observation c t ob r)"
  by (rule is_repoll_trans[OF apply_repoll[of r ob]])
    (simp add: record_observation_def Let_def is_repoll_def repoll_def)

lemma validateObservationD:
  assumes "validateObservation ob = Inr u"
  shows "date_ok (ob_observedAt ob)" "opt_ok error_code_ok (ob_retryCode ob)"
    "ob_providerOutputs ob \<noteq> None \<Longrightarrow> ob_status ob = Completed \<and> ob_retryCode ob = None"
  using assms by (auto simp: validateObservation_def split: if_splits)

lemma eligibleD:
  assumes "eligible r" "validRecord r"
  shows "rr_state r \<in> {JAccepted, JUnknown, JSucceeded}" "rr_taskVersion r \<noteq> None"
    "truthy (rr_submitId r)" "rr_providerOutputs r = None"
  using assms task_partsD(6)[OF assms(2)] by (auto simp: eligible_def truthy_int_def split: if_splits)

lemma next_retry_in:
  assumes "validRecord r"
  shows "safe_integer (next_retry_count r) \<and> 0 \<le> next_retry_count r \<and> next_retry_count r \<le> 1000000"
proof -
  have "poll_fields_valid r" using assms by (simp add: validRecord_def baseValid_def)
  then have "0 \<le> int_or 0 (rr_retryCount r)"
    by (auto simp: poll_fields_valid_def int_or_def split: option.splits)
  then show ?thesis by (auto simp: next_retry_count_def safe_integer_def)
qed

lemma next_dates_ok:
  assumes "new_reconciler iid hash le x = Inr c" "iso_time t" "iso_time (t + 4000000)"
  shows "date_ok (nextPollAt c t k)" "date_ok (retryAt c t n)" "date_ok (to_iso_string t)"
  using nextPollAt_time[OF assms, of k] retryAt_time[OF assms, of n] date_parse_to_iso_string[OF assms(2)]
  by (auto simp: date_ok_def)

lemma record_observation_valid:
  assumes c: "new_reconciler iid hash le x = Inr c" "iso_time t" "iso_time (t + 4000000)"
    and r: "validRecord r" "eligible r" "hasSubmitId r"
    and ob: "validateObservation ob = Inr u" "opt_ok (journal_outputs_ok (rr_mode r)) (ob_providerOutputs ob)"
  shows "validRecord (record_observation c t ob r)" "record_progression r (record_observation c t ob r)"
proof -
  let ?q = "record_observation c t ob r"
  note e = eligibleD[OF r(2,1)] and o = validateObservationD[OF ob(1)]
  note q = is_repollD[OF record_observation_repoll[of r c t ob]]
  have st: "rr_state ?q = observed_state (rr_state r) (ob_status ob)"
    using apply_state[OF e(1)] by simp
  have st_in: "observed_state (rr_state r) (ob_status ob) \<notin> {JPending, JQueued}"
    using e(1) by (cases "ob_status ob") auto
  have outs: "rr_providerOutputs ?q = ob_providerOutputs ob"
    using o(3) e(4) by (cases "ob_providerOutputs ob") (auto simp: apply_outputs)
  have err: "opt_ok error_code_ok (rr_errorCode ?q)"
    using apply_error_ok[of r ob] task_partsD(5)[OF r(1)] retry_code_ok
    by (simp add: record_observation_def Let_def)
  have cnt: "opt_ok (\<lambda>n. safe_integer n \<and> 0 \<le> n \<and> n \<le> 1000000) (rr_retryCount ?q)"
    using next_retry_in[OF r(1)]
    by (simp add: record_observation_def Let_def next_retry_count_def safe_integer_def abs_le_iff)
  have nxt: "opt_ok date_ok (rr_nextPollAt ?q)"
    using next_dates_ok[OF c] by (simp add: record_observation_def Let_def)
  have upd: "date_ok (rr_updatedAt ?q)"
    using next_dates_ok(3)[OF c] by (simp add: record_observation_def Let_def)
  have fin: "ob_providerOutputs ob = None \<or>
      rr_state ?q = JSucceeded \<and> rr_officialStatus ?q = Some Completed"
    using o(3) e(1) st by (cases "ob_providerOutputs ob") (auto simp: apply_status)
  show "validRecord ?q"
    by (subst q, rule repoll_valid)
      (use r(1,3) e st st_in outs ob(2) err cnt nxt upd fin o(1) in \<open>auto\<close>)
  show "record_progression r ?q"
  proof (subst q, rule repoll_progression)
    show "reconciledUncertain r (repoll r (rr_state ?q) (rr_updatedAt ?q) (rr_errorCode ?q)
        (rr_officialStatus ?q) (rr_nextPollAt ?q) (rr_pollLease ?q) (rr_retryCount ?q)
        (rr_lastObservedAt ?q) (rr_providerOutputs ?q))
      \<or> stateRank (rr_state r) \<le> stateRank (rr_state ?q) \<and> (isTerminal (rr_state r) \<longrightarrow> rr_state ?q = rr_state r)"
    proof (cases "rr_state r = JUnknown")
      case True
      have "rr_submitId ?q = rr_submitId r" by simp
      moreover have "status_explains (rr_state ?q) (rr_officialStatus ?q)"
        unfolding st using True by (cases "ob_status ob") (simp_all add: apply_status)
      ultimately have "reconciledUncertain r ?q"
        using True e(3) o(1) date_ok_nonempty[OF o(1)]
        by (simp add: reconciledUncertain_def reliableUncertainReconciliation_def)
      then show ?thesis using q by simp
    next
      case False
      then show ?thesis unfolding st using e(1) by (cases "ob_status ob") auto
    qed
  qed (use e in auto)
qed

lemma skip_observation_valid:
  assumes c: "new_reconciler iid hash le x = Inr c" "iso_time t" "iso_time (t + 4000000)"
    and r: "validRecord r" "eligible r" "hasSubmitId r"
  shows "validRecord (skip_observation c t r)" "record_progression r (skip_observation c t r)"
proof -
  note e = eligibleD[OF r(2,1)]
  have q: "skip_observation c t r = repoll r (rr_state r) (rr_updatedAt r) (rr_errorCode r)
      (rr_officialStatus r) (Some (nextPollAt c t (rr_idempotencyKey r))) None (rr_retryCount r)
      (rr_lastObservedAt r) (rr_providerOutputs r)"
    using r(2) by (simp add: skip_observation_def Let_def repoll_def eligible_def)
  have p: "poll_fields_valid r" "date_ok (rr_updatedAt r)"
    using r(1) by (simp_all add: validRecord_def baseValid_def)
  show "validRecord (skip_observation c t r)"
    unfolding q by (rule repoll_valid)
      (use r(1,3) e p next_dates_ok(1)[OF c] task_partsD(5)[OF r(1)] in \<open>auto simp: poll_fields_valid_def\<close>)
  show "record_progression r (skip_observation c t r)"
    unfolding q by (rule repoll_progression) (use e in auto)
qed

text \<open>C13: The holder of a poll lease always gets a valid observation of an eligible record written: the
  journal stays valid, the lease is gone, the record takes the state the observation says (a succeeded
  one stays succeeded), and an observation older than the last one only reschedules the poll.\<close>

theorem observation_always_recorded:
  assumes "new_reconciler iid hash le x = Inr c" "iso_time t" "iso_time (t + 4000000)"
    and "opt_ok (validRuntimeDiskState (rc_ownerId c)) d" "\<forall>p \<in> set (disk_records d). version_room p"
    and "r \<in> set (disk_records d)" "eligible r" "hasSubmitId r" "sameLease (rr_pollLease r) l"
    and "validateObservation ob = Inr ()" "opt_ok (journal_outputs_ok (rr_mode r)) (ob_providerOutputs ob)"
  shows "\<exists>q e. commitObservation c t (rr_idempotencyKey r) l ob d = Inr (Some q, e)
    \<and> opt_ok (validRuntimeDiskState (rc_ownerId c)) e \<and> q \<in> set (disk_records e)
    \<and> rr_idempotencyKey q = rr_idempotencyKey r \<and> rr_pollLease q = None
    \<and> (if observation_stale ob r
       then rr_state q = rr_state r \<and> rr_lastObservedAt q = rr_lastObservedAt r \<and> rr_nextPollAt q \<noteq> None
       else rr_state q = observed_state (rr_state r) (ob_status ob)
          \<and> rr_lastObservedAt q = Some (ob_observedAt ob)
          \<and> rr_providerOutputs q = ob_providerOutputs ob)"
proof -
  obtain x' where d: "d = Some x'" using assms(6) by (cases d) auto
  have vr: "validRecord r" using valid_record_in[OF assms(4,6)] ..
  have find: "find_record (rr_idempotencyKey r) (Some x') = Some r"
    using find_record_iff[OF assms(4)] assms(6) d by blast
  let ?f = "\<lambda>r. if observation_stale ob r then skip_observation c t r else record_observation c t ob r"
  have f: "record_progression r (?f r)" "validRecord (?f r)" "rr_idempotencyKey (?f r) = rr_idempotencyKey r"
    "rr_ownerId (?f r) = rr_ownerId r"
    using record_observation_valid[OF assms(1-3) vr assms(7,8,10,11)]
      skip_observation_valid[OF assms(1-3) vr assms(7,8)] by simp_all
  obtain y where y: "write_record c (rr_idempotencyKey r) ?f (Some x') = Inr (Some y)"
    "validRuntimeDiskState (rc_ownerId c) y"
    "find_record (rr_idempotencyKey r) (Some y) = Some (next_version r (?f r))"
  proof (rule write_record_ok[where f = ?f, OF _ find f])
    show "validRuntimeDiskState (rc_ownerId c) x'" "\<forall>p \<in> set (rd_records x'). version_room p"
      using assms(4,5) d by simp_all
  qed (rule that)
  let ?q = "next_version r (?f r)"
  have "commitObservation c t (rr_idempotencyKey r) l ob d = Inr (Some ?q, Some y)"
    using find assms(9) y(1,3) d by (simp add: commitObservation_def with_lease_def)
  moreover have "?q \<in> set (disk_records (Some y)) \<and> rr_idempotencyKey ?q = rr_idempotencyKey r"
    using find_recordD[OF y(3)] .
  moreover have "rr_pollLease ?q = None" by (simp add: next_version_def)
  moreover have "if observation_stale ob r
      then rr_state ?q = rr_state r \<and> rr_lastObservedAt ?q = rr_lastObservedAt r \<and> rr_nextPollAt ?q \<noteq> None
      else rr_state ?q = observed_state (rr_state r) (ob_status ob)
         \<and> rr_lastObservedAt ?q = Some (ob_observedAt ob) \<and> rr_providerOutputs ?q = ob_providerOutputs ob"
    using apply_state[OF eligibleD(1)[OF assms(7) vr]] eligibleD(4)[OF assms(7) vr]
      validateObservationD(3)[OF assms(10)] assms(7)
    by (cases "ob_providerOutputs ob")
      (auto simp: next_version_def apply_outputs skip_observation_def Let_def eligible_def)
  ultimately show ?thesis using y(2) by (intro exI[of _ ?q] exI[of _ "Some y"]) simp
qed

section \<open>Claims\<close>

text \<open>The comparator is a total preorder on records whose times can be read, so sorting puts a minimal
  record first.\<close>

lemma sorted_insort_on:
  assumes "\<And>x y. x \<in> A \<Longrightarrow> y \<in> A \<Longrightarrow> le x y \<or> le y x"
    "\<And>x y z. x \<in> A \<Longrightarrow> y \<in> A \<Longrightarrow> z \<in> A \<Longrightarrow> le x y \<Longrightarrow> le y z \<Longrightarrow> le x z"
  shows "x \<in> A \<Longrightarrow> set xs \<subseteq> A \<Longrightarrow> sorted_wrt le xs \<Longrightarrow> sorted_wrt le (insort_by le x xs)"
proof (induction xs)
  case (Cons y ys)
  have set: "set (insort_by le x ys) = insert x (set ys)"
    by (metis mset_insort_by set_mset_add_mset_insert set_mset_mset)
  show ?case
  proof (cases "le x y")
    case True
    with Cons.prems assms(2)[of x y] show ?thesis by auto
  next
    case False
    with assms(1)[of x y] Cons.prems have "le y x" by auto
    with False Cons show ?thesis by (auto simp: set)
  qed
qed simp

lemma sorted_sort_on:
  assumes "\<And>x y. x \<in> A \<Longrightarrow> y \<in> A \<Longrightarrow> le x y \<or> le y x"
    "\<And>x y z. x \<in> A \<Longrightarrow> y \<in> A \<Longrightarrow> z \<in> A \<Longrightarrow> le x y \<Longrightarrow> le y z \<Longrightarrow> le x z"
  shows "set xs \<subseteq> A \<Longrightarrow> sorted_wrt le (sort_by le xs)"
proof (induction xs)
  case (Cons x xs)
  have "sorted_wrt le (insort_by le x (sort_by le xs))"
    using sorted_insort_on[of A le, OF assms] Cons by simp
  then show ?case by simp
qed simp

definition readable :: "runtime_record set" where
  "readable = {r. due_time r \<noteq> None \<and> observed_time r \<noteq> None}"

lemma earlier_order:
  "\<not> earlier x x" "earlier x y \<Longrightarrow> earlier y z \<Longrightarrow> earlier x z" "earlier x y \<or> x = y \<or> earlier y x"
  "earlier x y \<Longrightarrow> x \<noteq> y"
  by (cases x; cases y; cases z; auto)+

lemma compareDue_readable:
  assumes "due_time l = Some a" "due_time r = Some b" "observed_time l = Some x" "observed_time r = Some y"
  shows "compareDue c l r \<longleftrightarrow> a < b \<or> a = b \<and> (earlier x y
    \<or> x = y \<and> rc_localeLe c (rr_idempotencyKey l) (rr_idempotencyKey r))"
  using assms earlier_order(4) by (auto simp: compareDue_def)

definition collation :: "reconciler \<Rightarrow> bool" where
  "collation c \<longleftrightarrow> (\<forall>a b. rc_localeLe c a b \<or> rc_localeLe c b a)
     \<and> (\<forall>a b e. rc_localeLe c a b \<longrightarrow> rc_localeLe c b e \<longrightarrow> rc_localeLe c a e)"

lemma compareDue_order:
  assumes "collation c"
  shows "l \<in> readable \<Longrightarrow> r \<in> readable \<Longrightarrow> compareDue c l r \<or> compareDue c r l"
    "l \<in> readable \<Longrightarrow> m \<in> readable \<Longrightarrow> r \<in> readable \<Longrightarrow> compareDue c l m \<Longrightarrow> compareDue c m r \<Longrightarrow> compareDue c l r"
proof -
  assume "l \<in> readable" "r \<in> readable"
  then obtain a b x y where t: "due_time l = Some a" "due_time r = Some b"
    "observed_time l = Some x" "observed_time r = Some y" by (auto simp: readable_def)
  have loc: "rc_localeLe c (rr_idempotencyKey l) (rr_idempotencyKey r)
      \<or> rc_localeLe c (rr_idempotencyKey r) (rr_idempotencyKey l)"
    using assms unfolding collation_def by blast
  consider "a < b" | "b < a" | "a = b" by linarith
  then show "compareDue c l r \<or> compareDue c r l"
    unfolding compareDue_readable[OF t] compareDue_readable[OF t(2,1,4,3)]
    by cases (use earlier_order(3)[of x y] loc in blast)+
next
  assume "l \<in> readable" "m \<in> readable" "r \<in> readable" and le: "compareDue c l m" "compareDue c m r"
  then obtain a b e x y z where t: "due_time l = Some a" "due_time m = Some b" "due_time r = Some e"
    "observed_time l = Some x" "observed_time m = Some y" "observed_time r = Some z"
    by (auto simp: readable_def)
  have "rc_localeLe c i k" if "rc_localeLe c i j" "rc_localeLe c j k" for i j k
    using assms that unfolding collation_def by blast
  note loc = this and lex = compareDue_readable[OF t(1,2,4,5)] compareDue_readable[OF t(2,3,5,6)]
    compareDue_readable[OF t(1,3,4,6)]
  from le have "a < e \<or> a = e \<and> (earlier x y \<or> x = y \<and> rc_localeLe c (rr_idempotencyKey l) (rr_idempotencyKey m))
      \<and> (earlier y z \<or> y = z \<and> rc_localeLe c (rr_idempotencyKey m) (rr_idempotencyKey r))"
    unfolding lex by linarith
  then show "compareDue c l r" unfolding lex(3) using earlier_order(2)[of x y z] loc by metis
qed

lemma claimable_readable: "validRecord r \<Longrightarrow> claimable t r \<Longrightarrow> r \<in> readable"
  using valid_observed[of r]
  by (auto simp: readable_def claimable_def observed_time_def truthy_def date_ok_def split: option.splits)

lemma due_queue_first:
  assumes "collation c" "opt_ok (validRuntimeDiskState owner) d" "due_queue c t d = p # ps"
    "q \<in> set (disk_records d)" "claimable t q"
  shows "p = q \<or> compareDue c p q"
proof -
  have "set (filter (claimable t) (disk_records d)) \<subseteq> readable"
    using claimable_readable valid_record_in[OF assms(2)] by auto
  then have "sorted_wrt (compareDue c) (due_queue c t d)" unfolding due_queue_def
    by (intro sorted_sort_on[where A = readable]) (use compareDue_order[OF assms(1)] in blast)+
  then have "sorted_wrt (compareDue c) (p # ps)" by (simp only: assms(3))
  moreover have "q \<in> set (p # ps)" using due_queueD[of q c t d] assms(3-5) by simp
  ultimately show ?thesis by auto
qed

lemma compareDue_time:
  assumes "compareDue c p q" "due_time p = Some a" "due_time q = Some b" "p \<in> readable" "q \<in> readable"
  shows "a \<le> b"
proof -
  obtain x y where "observed_time p = Some x" "observed_time q = Some y"
    using assms(4,5) by (auto simp: readable_def)
  from compareDue_readable[OF assms(2,3) this, of c] assms(1) show ?thesis by auto
qed

text \<open>Taking a lease is always written.\<close>

lemma lease_update:
  assumes "validRecord r" "eligible r" "validPollLease l"
  shows "validRecord (r\<lparr>rr_pollLease := Some l\<rparr>)" "record_progression r (r\<lparr>rr_pollLease := Some l\<rparr>)"
proof -
  let ?q = "r\<lparr>rr_pollLease := Some l\<rparr>"
  have "runtime_fields_valid ?q = runtime_fields_valid r" "identity_valid ?q = identity_valid r"
    "hasSubmitId ?q = hasSubmitId r" "task_fields_valid ?q = task_fields_valid r"
    by (simp_all add: part_defs)
  moreover have "poll_fields_valid r \<Longrightarrow> poll_fields_valid ?q" using assms(3) by (simp add: part_defs)
  ultimately show "validRecord ?q"
    using assms(1) eligibleD(2)[OF assms(2,1)] unfolding validRecord_def baseValid_def by auto
  have "?q = repoll r (rr_state r) (rr_updatedAt r) (rr_errorCode r) (rr_officialStatus r)
      (rr_nextPollAt r) (Some l) (rr_retryCount r) (rr_lastObservedAt r) (rr_providerOutputs r)"
    by (simp add: repoll_def)
  moreover have "record_progression r (repoll r (rr_state r) (rr_updatedAt r) (rr_errorCode r)
      (rr_officialStatus r) (rr_nextPollAt r) (Some l) (rr_retryCount r) (rr_lastObservedAt r)
      (rr_providerOutputs r))"
    by (rule repoll_progression) (use eligibleD(1)[OF assms(2,1)] in auto)
  ultimately show "record_progression r ?q" by simp
qed

lemma poll_lease_valid:
  assumes "new_reconciler iid hash le x = Inr c" "iso_time t" "iso_time (t + 4000000)"
    "random_uuid_ok iid" "random_uuid_ok lid"
  shows "validPollLease (poll_lease_for c t lid)"
    "date_parse (pl_expiresAt (poll_lease_for c t lid)) = Some (t + pollLeaseMs c)"
proof -
  note r = options_in_range[OF assms(1)]
  have "iso_time (t + pollLeaseMs c)" by (rule iso_between[OF assms(2,3)]) (use r(7,8) in linarith)+
  then show d: "date_parse (pl_expiresAt (poll_lease_for c t lid)) = Some (t + pollLeaseMs c)"
    by (simp add: poll_lease_for_def date_parse_to_iso_string)
  then show "validPollLease (poll_lease_for c t lid)"
    using assms(4,5) r(14) by (simp add: validPollLease_def poll_lease_for_def date_ok_def)
qed

lemma claim_succeeds:
  assumes c: "new_reconciler iid hash le x = Inr c" "iso_time t" "iso_time (t + 4000000)"
    "random_uuid_ok iid" "random_uuid_ok lid"
    and d: "opt_ok (validRuntimeDiskState (rc_ownerId c)) d" "\<forall>p \<in> set (disk_records d). version_room p"
    and q: "due_queue c t d = p # ps"
  defines "m \<equiv> p\<lparr>rr_pollLease := Some (poll_lease_for c t lid)\<rparr>"
  obtains e where "claimDue c t lid d = Inr (Some (next_version p m, poll_lease_for c t lid), e)"
    "opt_ok (validRuntimeDiskState (rc_ownerId c)) e" "next_version p m \<in> set (disk_records e)"
    "list_all2 (\<lambda>r i. if rr_idempotencyKey r = rr_idempotencyKey p then r = p \<and> i = next_version p m
       else unversioned i = unversioned r \<and> journal_version_of i = journal_version_of r)
      (disk_records d) (disk_records e)"
proof -
  have p: "p \<in> set (disk_records d)" "claimable t p" using due_queueD[of p c t d] q by auto
  then obtain x' where x': "d = Some x'" by (cases d) auto
  have v: "validRecord p" "eligible p" using valid_record_in[OF d(1) p(1)] p(2) by (simp_all add: claimable_def)
  note u = lease_update[OF v poll_lease_valid(1)[OF c]]
  have find: "find_record (rr_idempotencyKey p) (Some x') = Some p"
    using find_record_iff[OF d(1)] p(1) x' by blast
  let ?f = "\<lambda>r. r\<lparr>rr_pollLease := Some (poll_lease_for c t lid)\<rparr>"
  obtain y where y: "write_record c (rr_idempotencyKey p) ?f (Some x') = Inr (Some y)"
    "validRuntimeDiskState (rc_ownerId c) y"
    "find_record (rr_idempotencyKey p) (Some y) = Some (next_version p m)"
    "list_all2 (\<lambda>r i. if rr_idempotencyKey r = rr_idempotencyKey p then r = p \<and> i = next_version p m
       else unversioned i = unversioned r \<and> journal_version_of i = journal_version_of r)
      (rd_records x') (rd_records y)"
    unfolding m_def
  proof (rule write_record_ok[where f = ?f, OF _ find])
    show "validRuntimeDiskState (rc_ownerId c) x'" "\<forall>p \<in> set (rd_records x'). version_room p"
      using d x' by simp_all
  qed (use u in simp_all)
  show thesis
  proof (rule that[of "Some y"])
    show "claimDue c t lid d = Inr (Some (next_version p m, poll_lease_for c t lid), Some y)"
      using q y(1,3) x' by (simp add: claimDue_queue)
  qed (use y x' find_recordD[OF y(3)] in simp_all)
qed

text \<open>C34: A claim finds nothing exactly when no record is due and free. Otherwise it takes one that has
  been due longest, among those the one observed least recently, writes its own lease on it, good for
  the lease time, and leaves every other record as it is.\<close>

theorem claim_takes_longest_due:
  assumes "new_reconciler iid hash le x = Inr c" "iso_time t" "iso_time (t + 4000000)"
    "random_uuid_ok iid" "random_uuid_ok lid" "collation c"
    and "opt_ok (validRuntimeDiskState (rc_ownerId c)) d" "\<forall>p \<in> set (disk_records d). version_room p"
  shows "(\<forall>r \<in> set (disk_records d). \<not> claimable t r) \<and> claimDue c t lid d = Inr (None, d)
    \<or> (\<exists>p q e. p \<in> set (disk_records d) \<and> claimable t p
        \<and> claimDue c t lid d = Inr (Some (q, poll_lease_for c t lid), e)
        \<and> opt_ok (validRuntimeDiskState (rc_ownerId c)) e \<and> q \<in> set (disk_records e)
        \<and> unversioned q = unversioned (p\<lparr>rr_pollLease := Some (poll_lease_for c t lid)\<rparr>)
        \<and> date_parse (pl_expiresAt (poll_lease_for c t lid)) = Some (t + pollLeaseMs c)
        \<and> (\<forall>r \<in> set (disk_records d). claimable t r \<longrightarrow> r = p \<or> compareDue c p r
             \<and> the (due_time p) \<le> the (due_time r))
        \<and> (\<forall>r \<in> set (disk_records d). r \<noteq> p \<longrightarrow>
             (\<exists>i \<in> set (disk_records e). unversioned i = unversioned r)))"
proof (cases "due_queue c t d")
  case Nil
  then have "\<forall>r \<in> set (disk_records d). \<not> claimable t r" using due_queueD[of _ c t d] by auto
  with Nil show ?thesis by (simp add: claimDue_queue)
next
  case (Cons p ps)
  have p: "p \<in> set (disk_records d)" "claimable t p" using due_queueD[of p c t d] Cons by auto
  let ?l = "poll_lease_for c t lid"
  let ?q = "next_version p (p\<lparr>rr_pollLease := Some ?l\<rparr>)"
  obtain e where e: "claimDue c t lid d = Inr (Some (?q, ?l), e)"
    "opt_ok (validRuntimeDiskState (rc_ownerId c)) e" "?q \<in> set (disk_records e)"
    "list_all2 (\<lambda>r i. if rr_idempotencyKey r = rr_idempotencyKey p then r = p \<and> i = ?q
       else unversioned i = unversioned r \<and> journal_version_of i = journal_version_of r)
      (disk_records d) (disk_records e)"
    by (rule claim_succeeds[OF assms(1-5,7,8) Cons])
  have "r = p \<or> compareDue c p r \<and> the (due_time p) \<le> the (due_time r)"
    if r: "r \<in> set (disk_records d)" "claimable t r" for r
  proof -
    have rd: "p \<in> readable" "r \<in> readable"
      using claimable_readable valid_record_in[OF assms(7)] p r by blast+
    then obtain a b where ab: "due_time p = Some a" "due_time r = Some b" by (auto simp: readable_def)
    from due_queue_first[OF assms(6,7) Cons r] compareDue_time[OF _ ab rd] ab show ?thesis by auto
  qed
  moreover have "\<exists>i \<in> set (disk_records e). unversioned i = unversioned r"
    if "r \<in> set (disk_records d)" "r \<noteq> p" for r
    using list_all2_memD[OF e(4) that(1)] that(2) by (auto split: if_splits)
  moreover have "unversioned ?q = unversioned (p\<lparr>rr_pollLease := Some ?l\<rparr>)" by simp
  ultimately show ?thesis using e(1-3) p poll_lease_valid(2)[OF assms(1-5)] by blast
qed

end
