(* ===== verification/ReconcilerClaims.thy ===== *)
theory ReconcilerClaims
  imports ReconcilerProgress
begin

text \<open>
  What the reconciler promises: polling only moves the journal forward, a poll whose lease has ended
  has no effect, a live lease keeps every other reconciler away, the record that waits longest is
  polled next and every due record is polled, a valid observation is always written, the next poll
  comes neither too early nor too late, and no task that still needs polling is forgotten.
\<close>

section \<open>Runs\<close>

abbreviation poll_run :: "string \<Rightarrow> runtime_disk option \<Rightarrow> poll_op list \<Rightarrow> runtime_disk option" where
  "poll_run owner \<equiv> run_try (poll_step owner)"

lemma run_try_invariant:
  assumes "P s" "\<And>s z t. P s \<Longrightarrow> z \<in> set zs \<Longrightarrow> step s z = Inr t \<Longrightarrow> P t"
  shows "P (run_try step s zs)"
  using assms
proof (induction zs arbitrary: s)
  case (Cons z zs)
  let ?t = "case step s z of Inl e \<Rightarrow> s | Inr t \<Rightarrow> t"
  have "P ?t"
  proof (cases "step s z")
    case (Inr t)
    with Cons.prems(2)[OF Cons.prems(1) _ Inr] show ?thesis by simp
  qed (simp add: Cons.prems(1))
  moreover have "P t" if "P s" "x \<in> set zs" "step s x = Inr t" for s x t
    using Cons.prems(2)[OF that(1) _ that(3)] that(2) by simp
  ultimately have "P (run_try step ?t zs)" by (rule Cons.IH)
  then show ?case by simp
qed simp

text \<open>C10: Whatever the reconcilers of a journal do, in any order and at any clock, every record stays;
  the time of its last observation never moves back, and a record with a receipt or a final state
  keeps its request, receipt, account, outputs and final state.\<close>

theorem polling_only_moves_forward:
  assumes "opt_ok (validRuntimeDiskState owner) d" "p \<in> set (disk_records d)"
  shows "\<exists>i \<in> set (disk_records (poll_run owner d ops)).
    rr_key i = rr_key p \<and> observed_le p i \<and> (durable p \<longrightarrow> record_kept p i)"
proof -
  from polling.run_try_inv[OF assms(1), of ops] assms(2)
  obtain i where "i \<in> set (disk_records (poll_run owner d ops))" "moves_forward p i"
    unfolding journal_forward_def by blast
  then show ?thesis unfolding moves_forward_def by blast
qed

section \<open>Leases\<close>

lemma sameLease_iff: "sameLease x l \<longleftrightarrow>
    (\<exists>y. x = Some y \<and> pl_leaseId y = pl_leaseId l \<and> pl_ownerId y = pl_ownerId l)"
  by (cases x) (auto simp: sameLease_def)

definition lease_ended :: "string \<Rightarrow> poll_lease \<Rightarrow> runtime_disk option \<Rightarrow> bool" where
  "lease_ended k l d \<longleftrightarrow>
     (\<forall>r \<in> set (disk_records d). rr_idempotencyKey r = k \<longrightarrow> \<not> sameLease (rr_pollLease r) l)"

text \<open>The id a claim draws.\<close>

fun drawn_id :: "poll_op \<Rightarrow> string option" where
  "drawn_id (ClaimDue c t lid) = Some lid"
| "drawn_id _ = None"

lemma op_change_lease:
  assumes "op_change z r q" "drawn_id z \<noteq> Some (pl_leaseId l)" "\<not> sameLease (rr_pollLease r) l"
  shows "\<not> sameLease (rr_pollLease q) l"
  using assms
  by (induction rule: op_change.induct)
    (auto simp: schedule_at_def record_sync_error_def Let_def poll_lease_for_def sameLease_iff)

lemma lease_ended_step:
  assumes "lease_ended k l d" "opt_ok (validRuntimeDiskState owner) d"
    and "drawn_id z \<noteq> Some (pl_leaseId l)" "poll_step owner d z = Inr e"
  shows "lease_ended k l e"
  unfolding lease_ended_def
proof (intro ballI impI)
  fix i assume i: "i \<in> set (disk_records e)" "rr_idempotencyKey i = k"
  have "list_all2 (op_moves z) (disk_records d) (disk_records e)"
    using poll_step_ok[OF assms(4,2)] unfolding step_ok_def by blast
  from list_all2_memD2[OF this i(1)] obtain p q
    where p: "p \<in> set (disk_records d)" "op_change z p q" "unversioned i = unversioned q" by blast
  have "\<not> sameLease (rr_pollLease p) l"
    using assms(1) p(1) op_change_key[OF p(2)] unversioned_fields(2)[OF p(3)] i(2)
    unfolding lease_ended_def by simp
  from op_change_lease[OF p(2) assms(3) this] show "\<not> sameLease (rr_pollLease i) l"
    using unversioned_fields(4)[OF p(3)] by simp
qed

lemma ended_with_lease:
  assumes "lease_ended k l d"
  shows "with_lease c k l f d = Inr (None, d)"
proof (cases "find_record k d")
  case (Some r)
  with assms find_recordD[OF Some] have "\<not> sameLease (rr_pollLease r) l" by (simp add: lease_ended_def)
  with Some show ?thesis by (simp add: with_lease_def)
qed (simp add: with_lease_def)

text \<open>C11: Once a record no longer carries a poll's lease, the poll is over for good: whatever the
  reconcilers do from then on, as long as no claim draws the same id again, its observation, its error
  and its release change nothing, and its heartbeat is told that it is fenced.\<close>

theorem ended_poll_fenced:
  assumes "opt_ok (validRuntimeDiskState owner) d"
    and "\<forall>r \<in> set (disk_records d). rr_idempotencyKey r = k \<longrightarrow> \<not> sameLease (rr_pollLease r) l"
    and "\<forall>z \<in> set ops. drawn_id z \<noteq> Some (pl_leaseId l)"
  defines "e \<equiv> poll_run owner d ops"
  shows "commitObservation c t k l ob e = Inr (None, e)
    \<and> commitSyncError c t k l code e = Inr (None, e)
    \<and> releaseLease c k l e = Inr e \<and> renewLease c t k l e = Inl PollFenced"
proof -
  have "opt_ok (validRuntimeDiskState owner) e \<and> lease_ended k l e" unfolding e_def
  proof (rule run_try_invariant)
    show "opt_ok (validRuntimeDiskState owner) d \<and> lease_ended k l d"
      using assms(1,2) by (simp add: lease_ended_def)
  qed (use assms(3) lease_ended_step step_forward(1) in blast)
  then have ended: "lease_ended k l e" ..
  have "renewLease c t k l e = Inl PollFenced"
  proof (cases "find_record k e")
    case (Some r)
    with ended find_recordD[OF Some] have "\<not> sameLease (rr_pollLease r) l" by (simp add: lease_ended_def)
    with Some show ?thesis by (simp add: renewLease_def)
  qed (simp add: renewLease_def)
  then show ?thesis
    using ended_with_lease[OF ended] by (simp add: commitObservation_def commitSyncError_def releaseLease_def)
qed

text \<open>The steps that leave a lease alone which is good until \<open>E\<close>: those that do not present it, are not
  the shutdown of its owner, and claim with a clock before \<open>E\<close>.\<close>

fun spares_lease :: "int \<Rightarrow> poll_lease \<Rightarrow> poll_op \<Rightarrow> bool" where
  "spares_lease E l (ClaimDue c t lid) = (t < E)"
| "spares_lease E l (RenewLease c t k m) = (\<not> sameLease (Some l) m)"
| "spares_lease E l (CommitObservation c t k m ob) = (\<not> sameLease (Some l) m)"
| "spares_lease E l (CommitSyncError c t k m code) = (\<not> sameLease (Some l) m)"
| "spares_lease E l (ReleaseLease c k m) = (\<not> sameLease (Some l) m)"
| "spares_lease E l (ReleaseOwnedLeases c) = (rc_instanceId c \<noteq> pl_ownerId l)"
| "spares_lease E l _ = True"

lemma live_not_claimable:
  assumes "rr_pollLease r = Some l" "date_parse (pl_expiresAt l) = Some E" "t < E"
  shows "\<not> claimable t r"
  using assms by (simp add: claimable_def lease_over_def)

lemma op_change_spares:
  assumes "op_change z r q" "spares_lease E l z" "rr_pollLease r = Some l"
    "date_parse (pl_expiresAt l) = Some E"
  shows "rr_pollLease q = Some l"
  using assms
  by (induction rule: op_change.induct)
    (auto simp: schedule_at_def owns_lease_def dest: live_not_claimable)

definition lease_held :: "string \<Rightarrow> poll_lease \<Rightarrow> runtime_disk option \<Rightarrow> bool" where
  "lease_held k l d \<longleftrightarrow>
     (\<exists>r \<in> set (disk_records d). rr_idempotencyKey r = k \<and> rr_pollLease r = Some l)"

lemma lease_held_step:
  assumes "lease_held k l d" "opt_ok (validRuntimeDiskState owner) d"
    and "spares_lease E l z" "date_parse (pl_expiresAt l) = Some E" "poll_step owner d z = Inr e"
  shows "lease_held k l e"
proof -
  obtain r where r: "r \<in> set (disk_records d)" "rr_idempotencyKey r = k" "rr_pollLease r = Some l"
    using assms(1) unfolding lease_held_def by blast
  have "list_all2 (op_moves z) (disk_records d) (disk_records e)"
    using poll_step_ok[OF assms(5,2)] unfolding step_ok_def by blast
  from list_all2_memD[OF this r(1)] obtain i q
    where i: "i \<in> set (disk_records e)" "op_change z r q" "unversioned i = unversioned q" by blast
  from op_change_spares[OF i(2) assms(3) r(3) assms(4)] op_change_key[OF i(2)] unversioned_fields(2,4)[OF i(3)] r(2)
  have "rr_idempotencyKey i = k" "rr_pollLease i = Some l" by simp_all
  with i(1) show ?thesis unfolding lease_held_def by blast
qed

text \<open>C12: A live poll lease excludes everyone else: until it expires it stays on its record through all
  the others' operations, and no claim with an earlier clock gets that record.\<close>

theorem live_poll_excludes:
  assumes "opt_ok (validRuntimeDiskState owner) d"
    and "r \<in> set (disk_records d)" "rr_idempotencyKey r = k" "rr_pollLease r = Some l"
    and "date_parse (pl_expiresAt l) = Some E" "\<forall>z \<in> set ops. spares_lease E l z"
  defines "e \<equiv> poll_run owner d ops"
  shows "(\<exists>i \<in> set (disk_records e). rr_idempotencyKey i = k \<and> rr_pollLease i = Some l)
    \<and> (t < E \<and> claimDue c t lid e = Inr (Some (q, m), e') \<longrightarrow> rr_idempotencyKey q \<noteq> k)"
proof -
  have inv: "opt_ok (validRuntimeDiskState owner) e \<and> lease_held k l e" unfolding e_def
  proof (rule run_try_invariant)
    show "opt_ok (validRuntimeDiskState owner) d \<and> lease_held k l d"
      using assms(1-4) unfolding lease_held_def by blast
  qed (use assms(5,6) lease_held_step step_forward(1) in blast)
  then obtain i where i: "i \<in> set (disk_records e)" "rr_idempotencyKey i = k" "rr_pollLease i = Some l"
    unfolding lease_held_def by blast
  have "rr_idempotencyKey q \<noteq> k" if t: "t < E" and claim: "claimDue c t lid e = Inr (Some (q, m), e')"
  proof -
    obtain p ps where p: "due_queue c t e = p # ps"
      using claim by (cases "due_queue c t e") (auto simp: claimDue_queue)
    with claim have "find_record (rr_idempotencyKey p) e' = Some q"
      by (auto simp: claimDue_queue split: sum.splits)
    from find_recordD[OF this] have q: "rr_idempotencyKey q = rr_idempotencyKey p" by simp
    have pin: "p \<in> set (disk_records e)" "claimable t p" using due_queueD[of p c t e] p by auto
    have "i \<noteq> p" using live_not_claimable[OF i(3) assms(5) t] pin(2) by blast
    with valid_ids[of owner e] inv i(1,2) pin(1) show ?thesis unfolding q by (metis distinct_map inj_onD)
  qed
  with i show ?thesis by blast
qed

section \<open>No task is forgotten\<close>

lemma unversioned_claimable:
  assumes "unversioned i = unversioned r"
  shows "eligible i = eligible r" "unscheduled i = unscheduled r" "claimable t i = claimable t r"
  using unversioned_fields[OF assms]
  by (simp_all add: eligible_def unscheduled_def claimable_def due_time_def)

text \<open>The observations after which the record is settled or polled again: a completed task comes with
  its outputs or a reason to ask again, and a task that once completed is not reported failed.\<close>

fun settles :: "poll_op \<Rightarrow> runtime_record \<Rightarrow> bool" where
  "settles (CommitObservation c t k l ob) r =
     (rr_idempotencyKey r = k \<longrightarrow>
        (ob_status ob = Completed \<longrightarrow> ob_providerOutputs ob \<noteq> None \<or> truthy (ob_retryCode ob))
        \<and> (ob_status ob \<in> {Failed, Cancelled} \<longrightarrow> rr_state r \<noteq> JSucceeded))"
| "settles _ r = True"

lemma observed_settles:
  assumes "settles (CommitObservation c t (rr_idempotencyKey r) l ob) r"
  shows "\<not> unscheduled (record_observation c t ob r)"
proof (cases "rr_nextPollAt (record_observation c t ob r) = None")
  case True
  then have "ob_status ob \<in> {Completed, Failed, Cancelled}"
    and retry: "ob_status ob = Completed \<longrightarrow> \<not> truthy (ob_retryCode ob)"
    by (cases "ob_status ob"; simp add: record_observation_def Let_def split: if_splits)+
  then show ?thesis
    using assms by (cases "ob_status ob")
      (auto simp: unscheduled_def eligible_def apply_outputs applyObservation_def[of r] Let_def)
qed (simp add: unscheduled_def)

lemma op_change_scheduled:
  assumes "op_change z r q" "\<not> unscheduled r" "settles z r"
  shows "\<not> unscheduled q"
  using assms
proof (cases rule: op_change.cases)
  case (observed l ob c t)
  with assms(3) observed_settles show ?thesis by blast
next
  case (skipped l ob c t)
  have "eligible (r\<lparr>rr_pollLease := None, rr_nextPollAt := n\<rparr>) = eligible (r\<lparr>rr_pollLease := None\<rparr>)" for n
    by (simp add: eligible_def)
  then show ?thesis by (simp add: skipped skip_observation_def Let_def unscheduled_def)
qed (auto simp: unscheduled_def eligible_def schedule_at_def startup_schedule_def record_sync_error_def Let_def)

lemma initialize_schedules:
  assumes "initialize c False t d = Inr e" "opt_ok (validRuntimeDiskState (rc_ownerId c)) d"
    "r \<in> set (disk_records e)"
  shows "\<not> unscheduled r"
proof (cases "\<exists>x. d = Some x \<and> list_ex unscheduled (rd_records x)")
  case True
  then obtain x where x: "d = Some x" "list_ex unscheduled (rd_records x)" by blast
  with assms(1) have "write_journal (rc_ownerId c) (Some x)
      (x\<lparr>rd_records := map (startup_schedule c t) (rd_records x)\<rparr>) = Inr e"
    by (simp add: initialize_def)
  from write_journalD(2)[OF this] obtain y where y: "e = Some y"
    "map unversioned (rd_records y) = map unversioned (map (startup_schedule c t) (rd_records x))" by auto
  have "unversioned r \<in> set (map unversioned (rd_records y))" using assms(3) y(1) by simp
  then obtain p where "unversioned r = unversioned (startup_schedule c t p)"
    unfolding y(2) by auto
  from unversioned_claimable(2)[OF this] show ?thesis
    by (simp add: startup_schedule_def unscheduled_def schedule_at_def eligible_def)
next
  case False
  with assms(1) have "e = d" by (auto simp: initialize_def split: option.splits if_splits)
  with False assms(3) show ?thesis by (cases d) (auto simp: list_ex_iff)
qed

text \<open>C35: After initialization every record that still needs polling has a due time, and every step of a
  reconciler keeps it so, provided the observations it writes settle their record.\<close>

theorem no_task_forgotten:
  assumes "opt_ok (validRuntimeDiskState owner) d" "poll_step owner d z = Inr e"
    and "(\<exists>c t. z = Initialize c t) \<or> (\<forall>r \<in> set (disk_records d). \<not> unscheduled r)"
    and "\<forall>r \<in> set (disk_records d). settles z r"
  shows "\<forall>r \<in> set (disk_records e). \<not> unscheduled r"
proof (cases "\<exists>c t. z = Initialize c t")
  case True
  then obtain c t where z: "z = Initialize c t" by blast
  with assms(2) have "rc_ownerId c = owner" "initialize c False t d = Inr e"
    by (auto simp: poll_step_def split: if_splits)
  with initialize_schedules assms(1) show ?thesis by blast
next
  case False
  show ?thesis
  proof
    fix i assume i: "i \<in> set (disk_records e)"
    have "list_all2 (op_moves z) (disk_records d) (disk_records e)"
      using poll_step_ok[OF assms(2,1)] unfolding step_ok_def by blast
    from list_all2_memD2[OF this i] obtain p q
      where p: "p \<in> set (disk_records d)" "op_change z p q" "unversioned i = unversioned q" by blast
    from op_change_scheduled[OF p(2)] assms(3,4) p(1) False have "\<not> unscheduled q" by blast
    with unversioned_claimable(2)[OF p(3)] show "\<not> unscheduled i" by simp
  qed
qed

section \<open>Every due task is polled\<close>

lemma filter_one_less:
  assumes "list_all2 (\<lambda>r i. if K r then Q r \<and> \<not> Q i else Q i = Q r) xs ys"
  shows "length (filter Q ys) + length (filter K xs) = length (filter Q xs)"
  using assms by (induction rule: list_all2_induct) (auto split: if_splits)

lemma lease_kept_by_claims:
  assumes "lease_held k l d" "opt_ok (validRuntimeDiskState owner) d"
    "date_parse (pl_expiresAt l) = Some E" "t < E"
  shows "lease_held k l (poll_run owner d (map (ClaimDue c t) lids))"
proof -
  have "opt_ok (validRuntimeDiskState owner) (poll_run owner d (map (ClaimDue c t) lids))
      \<and> lease_held k l (poll_run owner d (map (ClaimDue c t) lids))"
  proof (rule run_try_invariant)
    show "opt_ok (validRuntimeDiskState owner) d \<and> lease_held k l d" using assms by blast
    fix s z u assume s: "opt_ok (validRuntimeDiskState owner) s \<and> lease_held k l s"
      "z \<in> set (map (ClaimDue c t) lids)" "poll_step owner s z = Inr u"
    then have "spares_lease E l z" using assms(4) by auto
    with s assms(3) lease_held_step step_forward(1)
    show "opt_ok (validRuntimeDiskState owner) u \<and> lease_held k l u" by blast
  qed
  then show ?thesis ..
qed

text \<open>A due record does not starve: as many claims as there are due records, by one reconciler and
  at one moment, give every one of them a lease, in whatever order the collation puts them.\<close>

theorem due_task_gets_polled:
  assumes "new_reconciler iid hash le x = Inr c" "iso_time t" "iso_time (t + 4000000)"
    "random_uuid_ok iid" "\<forall>lid \<in> set lids. random_uuid_ok lid"
    and "opt_ok (validRuntimeDiskState (rc_ownerId c)) d"
    and "\<forall>p \<in> set (disk_records d). journal_version_of p + int (length lids) < 9007199254740991"
    and "length (filter (claimable t) (disk_records d)) \<le> length lids"
    and "p \<in> set (disk_records d)" "claimable t p"
  shows "\<exists>i \<in> set (disk_records (poll_run (rc_ownerId c) d (map (ClaimDue c t) lids))).
    rr_idempotencyKey i = rr_idempotencyKey p
    \<and> (\<exists>lid \<in> set lids. rr_pollLease i = Some (poll_lease_for c t lid))"
  using assms(5-10)
proof (induction lids arbitrary: d p)
  case Nil
  then have "filter (claimable t) (disk_records d) = []" by simp
  with Nil.prems(5,6) show ?case unfolding filter_empty_conv by blast
next
  case (Cons lid lids)
  let ?o = "rc_ownerId c" and ?l = "poll_lease_for c t lid"
  have uuid: "random_uuid_ok lid" using Cons.prems(1) by simp
  have room: "\<forall>p \<in> set (disk_records d). version_room p"
    using Cons.prems(3) by (auto simp: version_room_def)
  have "p \<in> set (due_queue c t d)" using due_queueD Cons.prems(5,6) by blast
  then obtain p0 ps where q: "due_queue c t d = p0 # ps" by (cases "due_queue c t d") auto
  then have p0: "p0 \<in> set (disk_records d)" "claimable t p0" using due_queueD[of p0 c t d] by auto
  let ?q = "next_version p0 (p0\<lparr>rr_pollLease := Some ?l\<rparr>)"
  obtain e where e: "claimDue c t lid d = Inr (Some (?q, ?l), e)"
    "opt_ok (validRuntimeDiskState ?o) e" "?q \<in> set (disk_records e)"
    "list_all2 (\<lambda>r i. if rr_idempotencyKey r = rr_idempotencyKey p0 then r = p0 \<and> i = ?q
       else unversioned i = unversioned r \<and> journal_version_of i = journal_version_of r)
      (disk_records d) (disk_records e)"
    by (rule claim_succeeds[OF assms(1-4) uuid Cons.prems(2) room q])
  have run: "poll_run ?o d (map (ClaimDue c t) (lid # lids)) = poll_run ?o e (map (ClaimDue c t) lids)"
    using e(1) by (simp add: poll_step_def)
  have E: "date_parse (pl_expiresAt ?l) = Some (t + pollLeaseMs c)" "t < t + pollLeaseMs c"
    using poll_lease_valid(2)[OF assms(1-4) uuid] options_in_range(7)[OF assms(1)] by simp_all
  have lease: "rr_pollLease ?q = Some ?l" "rr_idempotencyKey ?q = rr_idempotencyKey p0"
    by (simp_all add: next_version_def)
  show ?case
  proof (cases "rr_idempotencyKey p = rr_idempotencyKey p0")
    case True
    have "lease_held (rr_idempotencyKey p) ?l e" unfolding lease_held_def using e(3) lease True by auto
    then have "lease_held (rr_idempotencyKey p) ?l (poll_run ?o e (map (ClaimDue c t) lids))"
      by (rule lease_kept_by_claims[OF _ e(2) E])
    then show ?thesis unfolding run lease_held_def by (elim bexE) (rule bexI, simp_all)
  next
    case False
    have "\<forall>i \<in> set (disk_records e). journal_version_of i + int (length lids) < 9007199254740991"
    proof
      fix i assume "i \<in> set (disk_records e)"
      from list_all2_memD2[OF e(4) this] obtain r where r: "r \<in> set (disk_records d)"
        "if rr_idempotencyKey r = rr_idempotencyKey p0 then r = p0 \<and> i = ?q
         else unversioned i = unversioned r \<and> journal_version_of i = journal_version_of r" by blast
      have "journal_version_of ?q \<le> journal_version_of p0 + 1"
        by (simp add: next_version_def journal_version_of_def int_or_def)
      with r have "journal_version_of i \<le> journal_version_of r + 1" by (auto split: if_splits)
      moreover have "journal_version_of r + int (length (lid # lids)) < 9007199254740991"
        using Cons.prems(3) r(1) by blast
      ultimately show "journal_version_of i + int (length lids) < 9007199254740991" by simp
    qed
    moreover have "length (filter (claimable t) (disk_records e)) \<le> length lids"
    proof -
      have "\<not> claimable t ?q" by (rule live_not_claimable[OF lease(1) E])
      have "list_all2 (\<lambda>r i. if rr_idempotencyKey r = rr_idempotencyKey p0
            then claimable t r \<and> \<not> claimable t i else claimable t i = claimable t r)
          (disk_records d) (disk_records e)"
      proof (rule list_all2_mono[OF e(4)])
        fix r i assume "if rr_idempotencyKey r = rr_idempotencyKey p0 then r = p0 \<and> i = ?q
          else unversioned i = unversioned r \<and> journal_version_of i = journal_version_of r"
        with p0(2) \<open>\<not> claimable t ?q\<close> unversioned_claimable(3)[of i r t]
        show "if rr_idempotencyKey r = rr_idempotencyKey p0 then claimable t r \<and> \<not> claimable t i
          else claimable t i = claimable t r"
          by (cases "rr_idempotencyKey r = rr_idempotencyKey p0") (simp_all only: if_True if_False simp_thms)
      qed
      from filter_one_less[OF this]
      have "length (filter (claimable t) (disk_records e))
          + length (filter (\<lambda>r. rr_idempotencyKey r = rr_idempotencyKey p0) (disk_records d))
          = length (filter (claimable t) (disk_records d))" .
      moreover have "p0 \<in> set (filter (\<lambda>r. rr_idempotencyKey r = rr_idempotencyKey p0) (disk_records d))"
        using p0(1) by simp
      then have "0 < length (filter (\<lambda>r. rr_idempotencyKey r = rr_idempotencyKey p0) (disk_records d))"
        by (rule length_pos_if_in_set)
      moreover have "length (filter (claimable t) (disk_records d)) \<le> Suc (length lids)"
        using Cons.prems(4) by simp
      ultimately show ?thesis by linarith
    qed
    moreover obtain p' where p': "p' \<in> set (disk_records e)" "unversioned p' = unversioned p"
      using list_all2_memD[OF e(4) Cons.prems(5)] False by auto
    moreover have "claimable t p'" using unversioned_claimable(3)[OF p'(2)] Cons.prems(6) by simp
    moreover have "\<forall>lid \<in> set lids. random_uuid_ok lid" using Cons.prems(1) by simp
    ultimately show ?thesis
      using Cons.IH[of e p'] e(2) unversioned_fields(2)[OF p'(2)] unfolding run by auto
  qed
qed

section \<open>One poll\<close>

lemma commit_step:
  assumes "commitObservation c t k l ob d = Inr (r, e)" "opt_ok (validRuntimeDiskState (rc_ownerId c)) d"
  shows "opt_ok (validRuntimeDiskState (rc_ownerId c)) e" "journal_forward d e"
  using step_forward[OF _ assms(2), of "CommitObservation c t k l ob" e] assms(1)
  by (simp_all add: poll_step_def)

lemma sync_error_step:
  assumes "commitSyncError c t k l code d = Inr (r, e)" "opt_ok (validRuntimeDiskState (rc_ownerId c)) d"
  shows "opt_ok (validRuntimeDiskState (rc_ownerId c)) e" "journal_forward d e"
  using step_forward[OF _ assms(2), of "CommitSyncError c t k l code" e] assms(1)
  by (simp_all add: poll_step_def)

lemma with_lease_record: "with_lease c k l f d = Inr (Some r, e) \<Longrightarrow> r \<in> set (disk_records e)"
  using find_recordD by (auto simp: with_lease_def split: option.splits sum.splits if_splits)

lemma safe_code: "error_code_ok (safeSyncErrorCode x)"
  by (simp add: safeSyncErrorCode_def fixed_codes_ok split: option.split)

fun event_ok :: "(runtime_record \<Rightarrow> observe_result) \<Rightarrow> runtime_disk option \<Rightarrow> applied_event option \<Rightarrow> bool" where
  "event_ok obs e None = True"
| "event_ok obs e (Some (AppliedObservation r ob)) =
     (r \<in> set (disk_records e) \<and> validateObservation ob = Inr () \<and> (\<exists>q. obs q = Observed ob))"
| "event_ok obs e (Some (AppliedSyncError r code)) = (r \<in> set (disk_records e) \<and> error_code_ok code)"

lemma poll_failed_ok:
  assumes "poll_failed c t k l x d = (ev, e)" "opt_ok (validRuntimeDiskState (rc_ownerId c)) d"
  shows "opt_ok (validRuntimeDiskState (rc_ownerId c)) e \<and> journal_forward d e \<and> event_ok obs e ev"
proof (cases "commitSyncError c t k l (safeSyncErrorCode x) d")
  case (Inl err)
  with assms show ?thesis by (auto simp: poll_failed_def polling.rel_refl)
next
  case (Inr re)
  obtain r e' where re: "re = (r, e')" by (cases re)
  with Inr assms(1) have ev: "ev = map_option (\<lambda>r. AppliedSyncError r (safeSyncErrorCode x)) r" "e = e'"
    by (auto simp: poll_failed_def Let_def)
  have "event_ok obs e ev"
  proof (cases r)
    case (Some q)
    with Inr re with_lease_record have "q \<in> set (disk_records e')" unfolding commitSyncError_def by blast
    with Some ev safe_code show ?thesis by simp
  qed (simp add: ev)
  with sync_error_step[OF _ assms(2)] Inr re ev show ?thesis by blast
qed

lemma observed_poll_ok:
  assumes "obs q = Observed ob" "opt_ok (validRuntimeDiskState (rc_ownerId c)) d"
    and "(case bindE (validateObservation ob) (\<lambda>_. commitObservation c t k l ob d) of
        Inr (x, d') \<Rightarrow> (map_option (\<lambda>r. AppliedObservation r ob) x, d')
      | Inl e \<Rightarrow> poll_failed c t k l (error_code e) d) = (ev, e)"
  shows "opt_ok (validRuntimeDiskState (rc_ownerId c)) e \<and> journal_forward d e \<and> event_ok obs e ev"
proof (cases "bindE (validateObservation ob) (\<lambda>_. commitObservation c t k l ob d)")
  case (Inl err)
  with assms(3) have "poll_failed c t k l (error_code err) d = (ev, e)" by simp
  from poll_failed_ok[OF this assms(2)] show ?thesis .
next
  case (Inr re)
  obtain r e' where re: "re = (r, e')" by (cases re)
  from Inr have v: "validateObservation ob = Inr ()" and w: "commitObservation c t k l ob d = Inr (r, e')"
    by (auto simp: re split: sum.splits)
  from Inr re assms(3) have ev: "ev = map_option (\<lambda>r. AppliedObservation r ob) r" "e = e'" by simp_all
  have "event_ok obs e ev"
  proof (cases r)
    case (Some p)
    with w with_lease_record have "p \<in> set (disk_records e')" unfolding commitObservation_def by blast
    with Some ev v assms(1) show ?thesis by auto
  qed (simp add: ev)
  with commit_step[OF w assms(2)] ev show ?thesis by blast
qed

lemma poll_forward:
  assumes "opt_ok (validRuntimeDiskState (rc_ownerId c)) d"
    and "\<forall>d. opt_ok (validRuntimeDiskState (rc_ownerId c)) d \<longrightarrow>
      opt_ok (validRuntimeDiskState (rc_ownerId c)) (others d) \<and> journal_forward d (others d)"
    and "runDueOnce c False ini t u lid obs others d = Inr (b, ev, e)"
  shows "opt_ok (validRuntimeDiskState (rc_ownerId c)) e \<and> journal_forward d e \<and> event_ok obs e ev"
proof -
  let ?v = "opt_ok (validRuntimeDiskState (rc_ownerId c))"
  obtain d1 where d1: "initialize c ini t d = Inr d1"
    using assms(3) by (cases "initialize c ini t d") (auto simp: runDueOnce_def)
  have i: "?v d1 \<and> journal_forward d d1"
  proof (cases ini)
    case True
    with d1 assms(1) show ?thesis by (simp add: initialize_def polling.rel_refl)
  next
    case False
    with d1 step_forward[of "rc_ownerId c" d "Initialize c t" d1] assms(1) show ?thesis
      by (simp add: poll_step_def)
  qed
  obtain cl d2 where d2: "claimDue c t lid d1 = Inr (cl, d2)"
    using assms(3) d1 by (cases "claimDue c t lid d1") (auto simp: runDueOnce_def)
  with step_forward[of "rc_ownerId c" d1 "ClaimDue c t lid" d2] i
  have c: "?v d2 \<and> journal_forward d1 d2" by (simp add: poll_step_def)
  have fwd: "journal_forward d f" if "journal_forward (others d2) f" for f
    using that i c assms(2) polling.rel_trans by blast
  show ?thesis
  proof (cases cl)
    case None
    with assms(3) d1 d2 have "ev = None" "e = d2" by (auto simp: runDueOnce_def)
    with i c polling.rel_trans show ?thesis by simp blast
  next
    case (Some rl)
    obtain r l where rl: "rl = (r, l)" by (cases rl)
    let ?k = "rr_idempotencyKey r" and ?d = "others d2"
    have o: "?v ?d" using assms(2) c by blast
    have ok: "?v e \<and> journal_forward ?d e \<and> event_ok obs e ev"
    proof (cases "obs r")
      case (Observed ob)
      have "(case bindE (validateObservation ob) (\<lambda>_. commitObservation c u ?k l ob ?d) of
          Inr (x, d') \<Rightarrow> (map_option (\<lambda>r. AppliedObservation r ob) x, d')
        | Inl e \<Rightarrow> poll_failed c u ?k l (error_code e) ?d) = (ev, e)"
        using assms(3) d1 d2 Some rl Observed
        by (simp add: runDueOnce_def Let_def split: sum.splits prod.splits)
      from observed_poll_ok[where obs = obs and q = r, OF Observed o this] show ?thesis .
    next
      case (ObserveFailed x)
      with assms(3) d1 d2 Some rl have "poll_failed c u ?k l x ?d = (ev, e)"
        by (simp add: runDueOnce_def Let_def)
      from poll_failed_ok[OF this o] show ?thesis .
    next
      case ObserveAborted
      with assms(3) d1 d2 Some rl
      have e: "ev = None" "e = (case releaseLease c ?k l ?d of Inl _ \<Rightarrow> ?d | Inr d' \<Rightarrow> d')"
        by (simp_all add: runDueOnce_def Let_def)
      show ?thesis
      proof (cases "releaseLease c ?k l ?d")
        case (Inr d')
        with step_forward[of "rc_ownerId c" ?d "ReleaseLease c ?k l" d'] o e show ?thesis
          by (simp add: poll_step_def)
      qed (use e o in \<open>simp add: polling.rel_refl\<close>)
    qed
    with fwd show ?thesis by blast
  qed
qed

text \<open>C36: Whatever the provider call of a poll gives (an observation, a malformed one, an error, an
  abort) and whatever legal writes others make meanwhile, the journal stays valid and only moves
  forward; an event is reported only for a record that is in the journal, with an observation that
  passed validation or with a safe error code.\<close>

theorem one_poll_is_safe:
  assumes "opt_ok (validRuntimeDiskState (rc_ownerId c)) d"
    and "\<forall>d. opt_ok (validRuntimeDiskState (rc_ownerId c)) d \<longrightarrow>
      opt_ok (validRuntimeDiskState (rc_ownerId c)) (others d) \<and> journal_forward d (others d)"
    and "runDueOnce c disposed ini t u lid obs others d = Inr (b, ev, e)"
  shows "opt_ok (validRuntimeDiskState (rc_ownerId c)) e \<and> journal_forward d e \<and> event_ok obs e ev"
proof (cases disposed)
  case True
  with assms(1,3) show ?thesis by (auto simp: runDueOnce_def polling.rel_refl)
next
  case False
  with assms(3) have "runDueOnce c False ini t u lid obs others d = Inr (b, ev, e)" by simp
  with assms(1,2) show ?thesis by (rule poll_forward)
qed

section \<open>Examples\<close>

definition sample_iid :: string where "sample_iid = ''0a1b2c3d-0000-4000-8000-00000000000a''"
definition sample_lid :: string where "sample_lid = ''0a1b2c3d-0000-4000-8000-00000000000b''"
definition other_lid :: string where "other_lid = ''0a1b2c3d-0000-4000-8000-00000000000c''"
definition sample_now :: int where "sample_now = 1767225600000"

definition sample_options :: reconciler_options where
  "sample_options = \<lparr>opt_ownerId = ''owner-0123456789'', opt_pollIntervalMs = None, opt_retryBaseMs = None,
     opt_retryMaxMs = None, opt_pollLeaseMs = None, opt_pollLeaseHeartbeatMs = None,
     opt_startupSpreadMs = None, opt_idleMs = None\<rparr>"

definition sample_reconciler :: reconciler where
  "sample_reconciler = \<lparr>rc_ownerId = ''owner-0123456789'', rc_instanceId = sample_iid,
     pollIntervalMs = 3000, retryBaseMs = 2000, retryMaxMs = 60000, pollLeaseMs = 30000,
     pollLeaseHeartbeatMs = 5000, startupSpreadMs = 2000, idleMs = 250, digest32 = (\<lambda>_. 7),
     rc_localeLe = (\<lambda>_ _. True)\<rparr>"

definition sample_lease :: poll_lease where
  "sample_lease = \<lparr>pl_leaseId = sample_lid, pl_ownerId = sample_iid,
     pl_expiresAt = ''2026-01-01T00:00:30.000Z''\<rparr>"

definition polled_record :: runtime_record where
  "polled_record = sample_record\<lparr>rr_nextPollAt := Some ''2026-01-01T00:00:00.000Z'', rr_retryCount := Some 0\<rparr>"

definition leased_record :: runtime_record where
  "leased_record = polled_record\<lparr>rr_pollLease := Some sample_lease\<rparr>"

definition sample_observation :: poll_observation where
  "sample_observation = \<lparr>ob_status = Processing, ob_observedAt = ''2026-01-01T00:00:05.000Z'',
     ob_providerOutputs = None, ob_retryCode = None\<rparr>"

definition polled_disk :: runtime_disk where
  "polled_disk = \<lparr>rd_records = [polled_record], rd_nextQueueTicket = Some 2\<rparr>"

definition leased_disk :: runtime_disk where
  "leased_disk = \<lparr>rd_records = [leased_record], rd_nextQueueTicket = Some 2\<rparr>"

lemma sample_config: "new_reconciler sample_iid (\<lambda>_. 7) (\<lambda>_ _. True) sample_options = Inr sample_reconciler"
proof -
  have "chars_ok owner_char 16 120 ''owner-0123456789''" by code_simp
  then show ?thesis
    by (simp add: new_reconciler_def sample_options_def sample_reconciler_def bounded_def default_defs Let_def)
qed

lemma sample_times: "iso_time sample_now" "iso_time (sample_now + 4000000)"
  by (simp_all add: iso_time_def sample_now_def)

lemma sample_uuids: "random_uuid_ok sample_iid" "random_uuid_ok sample_lid" "random_uuid_ok other_lid"
  by code_simp+

lemma sample_dates: "date_parse ''2026-01-01T00:00:30.000Z'' = Some (sample_now + 30000)"
  "date_parse ''2026-01-01T00:00:00.000Z'' = Some sample_now"
  "date_parse ''2026-01-01T00:00:05.000Z'' = Some (sample_now + 5000)"
  by code_simp+

lemma sample_owner [simp]: "rc_ownerId sample_reconciler = ''owner-0123456789''"
  by (simp add: sample_reconciler_def)

lemma polled_valid: "validRecord polled_record"
  by code_simp

lemma polled_fields:
  "eligible polled_record" "claimable sample_now polled_record" "\<not> unscheduled polled_record"
  "hasSubmitId leased_record" "eligible leased_record" "rr_idempotencyKey leased_record = ''task-0001''"
  "rr_pollLease leased_record = Some sample_lease" "rr_idempotencyKey polled_record = ''task-0001''"
  "rr_mode leased_record = Some ImageMode" "journal_version_of polled_record = 1"
  "journal_version_of leased_record = 1" "rr_ownerId polled_record = ''owner-0123456789''"
  "rr_ownerId leased_record = ''owner-0123456789''"
  by (simp_all add: leased_record_def polled_record_def sample_record_def eligible_def truthy_int_def
      claimable_def due_time_def lease_over_def sample_dates unscheduled_def hasSubmitId_def
      journal_version_of_def int_or_def) code_simp

lemma leased_valid: "validRecord leased_record"
  unfolding leased_record_def
proof (rule lease_update(1)[OF polled_valid polled_fields(1)])
  show "validPollLease sample_lease"
    using sample_uuids by (simp add: sample_lease_def validPollLease_def date_ok_def sample_dates)
qed

lemma poll_disks_valid:
  "opt_ok (validRuntimeDiskState ''owner-0123456789'') (Some polled_disk)"
  "opt_ok (validRuntimeDiskState ''owner-0123456789'') (Some leased_disk)"
  by (simp_all add: polled_disk_def leased_disk_def validRuntimeDiskState_def polled_valid leased_valid
      polled_fields positive_version_def safe_integer_def)

lemma polling_only_moves_forward_witness:
  "\<exists>i \<in> set (disk_records (poll_run ''owner-0123456789'' (Some leased_disk)
      [CommitObservation sample_reconciler (sample_now + 6000) ''task-0001'' sample_lease sample_observation,
       ClaimDue sample_reconciler (sample_now + 10000) other_lid])).
    rr_key i = rr_key leased_record \<and> observed_le leased_record i
    \<and> (durable leased_record \<longrightarrow> record_kept leased_record i)"
  using polling_only_moves_forward[OF poll_disks_valid(2)] by (simp add: leased_disk_def del: run_try.simps)

lemma ended_poll_fenced_witness:
  "commitObservation sample_reconciler sample_now ''task-0001'' sample_lease sample_observation
     (poll_run ''owner-0123456789'' (Some polled_disk) [ClaimDue sample_reconciler sample_now other_lid])
   = Inr (None, poll_run ''owner-0123456789'' (Some polled_disk) [ClaimDue sample_reconciler sample_now other_lid])"
proof -
  have "sample_lid \<noteq> other_lid" by code_simp
  then show ?thesis
    using ended_poll_fenced[OF poll_disks_valid(1), of "''task-0001''" sample_lease
        "[ClaimDue sample_reconciler sample_now other_lid]"]
    by (simp add: polled_disk_def polled_record_def sample_record_def sameLease_def sample_lease_def
        del: run_try.simps)
qed

lemma live_poll_excludes_witness:
  "\<exists>i \<in> set (disk_records (poll_run ''owner-0123456789'' (Some leased_disk)
      [ClaimDue sample_reconciler sample_now other_lid, RequestNow sample_reconciler sample_now ''task-0001''])).
    rr_idempotencyKey i = ''task-0001'' \<and> rr_pollLease i = Some sample_lease"
  using live_poll_excludes[OF poll_disks_valid(2), of leased_record "''task-0001''" sample_lease
      "sample_now + 30000" "[ClaimDue sample_reconciler sample_now other_lid,
        RequestNow sample_reconciler sample_now ''task-0001'']" undefined]
  by (simp add: leased_disk_def polled_fields sample_lease_def sample_dates del: run_try.simps)

lemma sample_room:
  "\<forall>p \<in> set (disk_records (Some polled_disk)). version_room p"
  "\<forall>p \<in> set (disk_records (Some leased_disk)). version_room p"
  by (simp_all add: polled_disk_def leased_disk_def version_room_def polled_fields)

lemma next_poll_in_time_witness:
  "retry_delay sample_reconciler 1 = 2000 \<and> retry_delay sample_reconciler 6 = 60000
   \<and> (\<exists>s. date_parse (nextPollAt sample_reconciler sample_now ''task-0001'') = Some s
        \<and> sample_now + 3000 \<le> s \<and> s \<le> sample_now + 3500)"
  using next_poll_in_time[OF sample_config sample_times, of "''task-0001''" 1]
  by (auto simp: sample_reconciler_def retry_delay_def add.commute)

lemma claim_takes_longest_due_witness:
  "\<exists>q e. claimDue sample_reconciler sample_now other_lid (Some polled_disk)
     = Inr (Some (q, poll_lease_for sample_reconciler sample_now other_lid), e)"
proof -
  have "collation sample_reconciler" by (simp add: collation_def sample_reconciler_def)
  from claim_takes_longest_due[OF sample_config sample_times sample_uuids(1,3) this, of "Some polled_disk"]
    poll_disks_valid(1) sample_room(1) polled_fields(2)
  show ?thesis by (auto simp: polled_disk_def)
qed

lemma observation_always_recorded_witness:
  "\<exists>q e. commitObservation sample_reconciler sample_now ''task-0001'' sample_lease sample_observation
       (Some leased_disk) = Inr (Some q, e) \<and> rr_state q = JAccepted
     \<and> rr_lastObservedAt q = Some ''2026-01-01T00:00:05.000Z''"
proof -
  have ob: "validateObservation sample_observation = Inr ()"
    by (simp add: validateObservation_def sample_observation_def date_ok_def sample_dates)
  have "leased_record \<in> set (disk_records (Some leased_disk))" "sameLease (rr_pollLease leased_record) sample_lease"
    "\<not> observation_stale sample_observation leased_record" "rr_state leased_record = JAccepted"
    by (simp_all add: leased_disk_def polled_fields sameLease_def observation_stale_def
        sample_observation_def observed_time_def sample_dates)
      (simp_all add: leased_record_def polled_record_def sample_record_def)
  with observation_always_recorded[OF sample_config sample_times, of "Some leased_disk" leased_record
      sample_lease sample_observation] poll_disks_valid(2) sample_room(2) polled_fields ob
  show ?thesis by (auto simp: sample_observation_def)
qed

lemma no_task_forgotten_witness:
  "\<exists>e. poll_step ''owner-0123456789'' (Some polled_disk) (ClaimDue sample_reconciler sample_now other_lid) = Inr e
     \<and> (\<forall>r \<in> set (disk_records e). \<not> unscheduled r)"
proof -
  have "due_queue sample_reconciler sample_now (Some polled_disk) = [polled_record]"
    using polled_fields(2) by (simp add: due_queue_def polled_disk_def)
  from claim_succeeds[OF sample_config sample_times sample_uuids(1,3) _ sample_room(1) this] poll_disks_valid(1)
  obtain e where "claimDue sample_reconciler sample_now other_lid (Some polled_disk) = Inr (Some
      (next_version polled_record (polled_record\<lparr>rr_pollLease :=
         Some (poll_lease_for sample_reconciler sample_now other_lid)\<rparr>),
       poll_lease_for sample_reconciler sample_now other_lid), e)" by auto
  then have step: "poll_step ''owner-0123456789'' (Some polled_disk)
      (ClaimDue sample_reconciler sample_now other_lid) = Inr e"
    by (simp add: poll_step_def)
  with no_task_forgotten[OF poll_disks_valid(1) step] polled_fields(3) show ?thesis
    by (simp add: polled_disk_def)
qed

lemma due_task_gets_polled_witness:
  "\<exists>i \<in> set (disk_records (poll_run ''owner-0123456789'' (Some polled_disk)
      [ClaimDue sample_reconciler sample_now other_lid])).
    rr_idempotencyKey i = ''task-0001''
    \<and> rr_pollLease i = Some (poll_lease_for sample_reconciler sample_now other_lid)"
  using due_task_gets_polled[OF sample_config sample_times sample_uuids(1), of "[other_lid]"
      "Some polled_disk" polled_record] poll_disks_valid(1) sample_uuids(3) polled_fields
  by (simp add: polled_disk_def del: run_try.simps)

lemma one_poll_is_safe_witness:
  "\<exists>b ev e. runDueOnce sample_reconciler False True sample_now (sample_now + 6000) other_lid
       (\<lambda>_. Observed sample_observation) id (Some polled_disk) = Inr (b, ev, e)
     \<and> event_ok (\<lambda>_. Observed sample_observation) e ev"
proof -
  obtain q e where "claimDue sample_reconciler sample_now other_lid (Some polled_disk) = Inr (q, e)"
  proof -
    have "due_queue sample_reconciler sample_now (Some polled_disk) = [polled_record]"
      using polled_fields(2) by (simp add: due_queue_def polled_disk_def)
    from claim_succeeds[OF sample_config sample_times sample_uuids(1,3) _ sample_room(1) this] poll_disks_valid(1)
    show thesis using that by auto
  qed
  then obtain b ev f where "runDueOnce sample_reconciler False True sample_now (sample_now + 6000) other_lid
      (\<lambda>_. Observed sample_observation) id (Some polled_disk) = Inr (b, ev, f)"
    by (cases "runDueOnce sample_reconciler False True sample_now (sample_now + 6000) other_lid
        (\<lambda>_. Observed sample_observation) id (Some polled_disk)")
      (auto simp: runDueOnce_def initialize_def Let_def split: option.splits sum.splits)
  with one_poll_is_safe[of sample_reconciler "Some polled_disk" id, OF _ _ this] poll_disks_valid(1)
  show ?thesis by (auto simp: polling.rel_refl)
qed

section \<open>Gaps\<close>

text \<open>A task that completed without its outputs yet and is then reported failed stays eligible, but has
  no due time any more: nothing polls it until a reconciler starts anew.\<close>

lemma contradicted_task_forgotten:
  assumes "eligible r" "rr_state r = JSucceeded" "ob_status ob \<in> {Failed, Cancelled}"
  shows "unscheduled (record_observation c t ob r)"
  using assms by (auto simp: unscheduled_def record_observation_def applyObservation_def Let_def eligible_def)

text \<open>The same happens to a completed answer with neither outputs nor a reason to retry, which the
  validation lets pass.\<close>

lemma empty_completion_forgotten:
  assumes "eligible r" "rr_providerOutputs r = None"
    and "ob = \<lparr>ob_status = Completed, ob_observedAt = ''2026-01-01T00:00:05.000Z'',
      ob_providerOutputs = None, ob_retryCode = None\<rparr>"
  shows "validateObservation ob = Inr ()" "unscheduled (record_observation c t ob r)"
proof -
  show "validateObservation ob = Inr ()"
    by (simp add: assms(3) validateObservation_def date_ok_def sample_dates)
  show "unscheduled (record_observation c t ob r)"
    using assms by (auto simp: unscheduled_def record_observation_def applyObservation_def Let_def
        eligible_def clearSyncError_def)
qed

text \<open>The default of the largest delay is not raised to the base delay, so with a base delay of five
  minutes the first retry comes after one minute already.\<close>

lemma default_ceiling_below_base:
  "\<exists>c. new_reconciler sample_iid (\<lambda>_. 7) (\<lambda>_ _. True) (sample_options\<lparr>opt_retryBaseMs := Some 300000\<rparr>) = Inr c
     \<and> retryMaxMs c < retryBaseMs c \<and> retry_delay c 1 = 60000"
proof -
  have "chars_ok owner_char 16 120 ''owner-0123456789''" by code_simp
  moreover have "js_trunc 300000 = 300000" by (simp add: js_trunc_def)
  ultimately show ?thesis
    by (simp add: new_reconciler_def sample_options_def bounded_def default_defs Let_def retry_delay_def)
qed

end
