(* ===== verification/TimelineModel.thy ===== *)
theory TimelineModel
  imports Complex_Main DevPrelude
begin

text \<open>
  The data of the timeline editor (\<open>web/src/types/timeline.ts\<close>) and the readings of
  JavaScript values its modules share.

  \<^item> Times are \<open>rat\<close>: every finite number of the program is one, and the sums and differences the
    editor takes are exact on the whole milliseconds it stores. The rounding of IEEE doubles on
    larger or fractional numbers is not modelled. Where the code tests \<open>Number.isFinite\<close> on a number
    that comes from outside, the model has a \<open>jsnum\<close>.
  \<^item> Texts are lists of UTF-16 code units (\<open>jstext\<close>), as integers, since labels and subtitles are not ASCII;
    \<open>js\<close> gives the code units of an ASCII literal.
\<close>

section \<open>Texts and numbers\<close>

type_synonym jstext = "int list"

definition js :: "string \<Rightarrow> jstext" where
  [js_defs]: "js s = map of_char s"

datatype jsnum = Num rat | PosInf | NegInf | NaN

text \<open>\<open>Number.isFinite(v) ? v : undefined\<close>, for a number that may be absent.\<close>

fun finite_number :: "jsnum option \<Rightarrow> rat option" where
  "finite_number (Some (Num q)) = Some q"
| "finite_number _ = None"

text \<open>The decimal digits of a non-negative whole number, and their value.\<close>

function dec :: "int \<Rightarrow> jstext" where
  "dec n = (if n < 10 then [48 + n] else dec (n div 10) @ [48 + n mod 10])"
  by pat_completeness auto
termination by (relation "measure nat") auto

declare dec.simps [simp del]

definition undec :: "jstext \<Rightarrow> int" where
  [js_defs]: "undec ds = foldl (\<lambda>acc d. 10 * acc + (d - 48)) 0 ds"

lemma undec_snoc: "undec (ds @ [d]) = 10 * undec ds + (d - 48)"
  by (simp add: undec_def)

lemma undec_dec [simp]: "undec (dec n) = n"
proof (induction n rule: dec.induct)
  case (1 n)
  show ?case
  proof (cases "n < 10")
    case True
    then show ?thesis by (simp add: dec.simps[of n]) (simp add: undec_def)
  next
    case False
    with 1 have "undec (dec n) = 10 * (n div 10) + n mod 10"
      by (simp add: dec.simps[of n] undec_snoc)
    then show ?thesis by simp
  qed
qed

lemma dec_inject [simp]: "dec m = dec n \<longleftrightarrow> m = n"
  by (metis undec_dec)

lemma dec_digits: "0 \<le> n \<Longrightarrow> d \<in> set (dec n) \<Longrightarrow> 48 \<le> d \<and> d \<le> 57"
proof (induction n rule: dec.induct)
  case (1 n)
  show ?case
  proof (cases "n < 10")
    case True
    with 1 show ?thesis by (simp add: dec.simps[of n])
  next
    case False
    with "1.prems" have "d \<in> set (dec (n div 10)) \<or> d = 48 + n mod 10"
      by (auto simp: dec.simps[of n])
    with False "1.IH" show ?thesis by auto
  qed
qed

lemma dec_not_Nil [simp]: "dec n \<noteq> []"
  by (simp add: dec.simps[of n])

definition padStart :: "nat \<Rightarrow> jstext \<Rightarrow> jstext" where
  [js_defs]: "padStart n s = replicate (n - length s) 48 @ s"

text \<open>The text of a number in a template literal. Whole numbers and thousandths are decimal, as
  JavaScript prints them below \<open>10^21\<close>; the decimal text of other fractions is not modelled, and they
  stand as \<open>n/d\<close>.\<close>

definition intText :: "int \<Rightarrow> jstext" where
  [js_defs]: "intText i = (if i < 0 then 45 # dec (- i) else dec i)"

definition thousandths :: "int \<Rightarrow> jstext" where
  [js_defs]: "thousandths r = rev (dropWhile (\<lambda>c. c = 48) (rev (padStart 3 (dec r))))"

definition numText :: "rat \<Rightarrow> jstext" where
  [js_defs]: "numText q = (case quotient_of q of (n, d) \<Rightarrow>
     if d = 1 then intText n
     else if 1000 mod d = 0
       then (if n < 0 then [45] else []) @ dec (\<bar>n\<bar> div d) @ [46] @ thousandths (\<bar>n\<bar> * 1000 div d mod 1000)
     else intText n @ [47] @ intText d)"

section \<open>The project\<close>

record srt_entry =
  eIndex :: int
  eStart :: rat
  eEnd :: rat
  eText :: jstext

datatype track_kind = VideoKind | AudioKind | SubtitleKind | TextKind | ImageKind

definition kind_name :: "track_kind \<Rightarrow> jstext" where
  [js_defs]: "kind_name k = (case k of VideoKind \<Rightarrow> js ''video'' | AudioKind \<Rightarrow> js ''audio''
     | SubtitleKind \<Rightarrow> js ''subtitle'' | TextKind \<Rightarrow> js ''text'' | ImageKind \<Rightarrow> js ''image'')"

definition all_kinds :: "track_kind list" where
  [js_defs]: "all_kinds = [VideoKind, ImageKind, TextKind, AudioKind, SubtitleKind]"

lemma all_kinds_complete: "k \<in> set all_kinds"
  by (cases k) (simp_all add: all_kinds_def)

record timeline_track =
  trId :: jstext
  trKind :: track_kind
  trLabel :: jstext
  trOrder :: rat
  trLocked :: "bool option"
  trVisible :: "bool option"
  trMuted :: "bool option"

record direct_media =
  dmId :: jstext
  dmAssetId :: "jstext option"
  dmKind :: track_kind
  dmTitle :: jstext
  dmStorageKey :: "jstext option"
  dmUrl :: "jstext option"
  dmDataUrl :: "jstext option"
  dmContent :: "jstext option"
  dmDurationMs :: "rat option"

record timeline_clip =
  clId :: jstext
  clKind :: track_kind
  clNode :: jstext
  clTrack :: jstext
  clStart :: rat
  clDuration :: rat
  clTitle :: "jstext option"
  clSourceStart :: "rat option"
  clSourceDuration :: "rat option"
  clVolume :: "rat option"
  clFadeIn :: "rat option"
  clFadeOut :: "rat option"
  clEntryIndex :: "int option"
  clText :: "jstext option"
  clMedia :: "direct_media option"

record timeline_project =
  tpTracks :: "timeline_track list"
  tpClips :: "timeline_clip list"
  tpDuration :: rat
  tpUpdatedAt :: "jstext option"

definition clip_end :: "timeline_clip \<Rightarrow> rat" where
  [js_defs]: "clip_end c = clStart c + clDuration c"

text \<open>\<open>clips.reduce((max, clip) => Math.max(max, clip.startMs + clip.durationMs), 0)\<close>.\<close>

definition max_end :: "timeline_clip list \<Rightarrow> rat" where
  [js_defs]: "max_end cs = foldl (\<lambda>m c. max m (clip_end c)) 0 cs"

lemma foldl_max_ge: "m \<le> foldl (\<lambda>m c. max m (f c)) (m :: rat) cs"
  by (induction cs arbitrary: m) (simp, simp, meson max.bounded_iff)

lemma foldl_max_upper: "c \<in> set cs \<Longrightarrow> f c \<le> foldl (\<lambda>m c. max m (f c)) (m :: rat) cs"
proof (induction cs arbitrary: m)
  case (Cons d cs)
  show ?case
  proof (cases "c = d")
    case True
    have "max m (f d) \<le> foldl (\<lambda>m c. max m (f c)) (max m (f d)) cs" by (rule foldl_max_ge)
    with True show ?thesis by simp
  next
    case False
    with Cons show ?thesis by simp
  qed
qed simp

lemma foldl_max_least:
  "m \<le> b \<Longrightarrow> (\<And>c. c \<in> set cs \<Longrightarrow> f c \<le> b) \<Longrightarrow> foldl (\<lambda>m c. max m (f c)) (m :: rat) cs \<le> b"
  by (induction cs arbitrary: m) auto

lemma max_end_upper: "c \<in> set cs \<Longrightarrow> clip_end c \<le> max_end cs"
  unfolding max_end_def by (rule foldl_max_upper)

lemma max_end_nonneg [simp]: "0 \<le> max_end cs"
  unfolding max_end_def by (rule foldl_max_ge)

lemma max_end_least: "0 \<le> b \<Longrightarrow> (\<And>c. c \<in> set cs \<Longrightarrow> clip_end c \<le> b) \<Longrightarrow> max_end cs \<le> b"
  unfolding max_end_def by (rule foldl_max_least)

section \<open>Subtitle style\<close>

record subtitle_style =
  stFontSize :: rat
  stColor :: jstext
  stPosition :: jstext
  stHighlightEnabled :: bool
  stHighlightBackground :: jstext
  stHighlightText :: jstext
  stHighlightPaddingX :: rat
  stHighlightPaddingY :: rat
  stHighlightRadius :: rat
  stHighlightAnimation :: jstext
  stMaxChars :: rat
  stAutoResegment :: bool

definition createDefaultSubtitleStyle :: subtitle_style where
  "createDefaultSubtitleStyle = \<lparr> stFontSize = 18, stColor = js ''#ffffff'', stPosition = js ''bottom'',
     stHighlightEnabled = True, stHighlightBackground = js ''#111111'',
     stHighlightText = js ''#ffd54a'', stHighlightPaddingX = 6, stHighlightPaddingY = 2,
     stHighlightRadius = 4, stHighlightAnimation = js ''pop'', stMaxChars = 35,
     stAutoResegment = True \<rparr>"

end
