(* ===== verification/EditorCommands.thy ===== *)
theory EditorCommands
  imports TimelineModel
begin

text \<open>
  The editor commands of \<open>web/src/lib/timeline/editor-commands.ts\<close>: one definition per
  handler, with its guards in the code's order, and the registry that \<open>apply\<close> looks them up in. A
  command is the pair of an op and a payload. The payload of every op is one record of optional
  fields, as the handlers destructure it: an absent field is \<open>None\<close>, and a field whose value has
  another type than \<open>editor-commands.ts\<close> declares for it is outside the model. A rejected command is
  an \<open>Inl\<close> with the op and the constant part of the message.
\<close>

section \<open>Commands\<close>

datatype edit_error = Rejected string string | UnknownOp jstext | EmptyOp

text \<open>A clip as it arrives in a payload: its two checked numbers may be any JavaScript number.\<close>

record clip_literal =
  litStart :: jsnum
  litDuration :: jsnum
  litRest :: timeline_clip

text \<open>One property of the patch of \<open>setClipProperty\<close>; \<open>PatchOther\<close> is a key that is not in
  \<open>CLIP_PROPERTY_WHITELIST\<close>.\<close>

datatype clip_patch =
    PatchTitle "jstext option" | PatchText "jstext option" | PatchVolume "rat option"
  | PatchFadeIn "rat option" | PatchFadeOut "rat option" | PatchEntryIndex "int option"
  | PatchOther jstext

record edit_payload =
  pClip :: "clip_literal option"
  pId :: "jstext option"
  pStart :: "jsnum option"
  pTrackId :: "jstext option"
  pDuration :: "jsnum option"
  pSourceStart :: "jsnum option"
  pSplitAt :: "jsnum option"
  pPatch :: "clip_patch list option"
  pKind :: "jstext option"
  pFlag :: "jstext option"
  pValue :: "bool option"
  pNode :: "jstext option"
  pEntries :: "srt_entry list option"

definition empty_payload :: edit_payload where
  [js_defs]: "empty_payload = \<lparr> pClip = None, pId = None, pStart = None, pTrackId = None,
     pDuration = None, pSourceStart = None, pSplitAt = None, pPatch = None, pKind = None,
     pFlag = None, pValue = None, pNode = None, pEntries = None \<rparr>"

record edit_command =
  cmdOp :: jstext
  cmdPayload :: edit_payload

type_synonym 'a edited = "edit_error + 'a"

section \<open>Checks\<close>

abbreviation (input) fail :: "string \<Rightarrow> string \<Rightarrow> 'a edited" where
  "fail op m \<equiv> Inl (Rejected op m)"

definition non_negative :: "jsnum option \<Rightarrow> rat option" where
  [js_defs]: "non_negative v = (case finite_number v of
     None \<Rightarrow> None | Some q \<Rightarrow> if q < 0 then None else Some q)"

definition positive :: "jsnum option \<Rightarrow> rat option" where
  [js_defs]: "positive v = (case finite_number v of
     None \<Rightarrow> None | Some q \<Rightarrow> if q \<le> 0 then None else Some q)"

definition assertClipShape :: "string \<Rightarrow> clip_literal option \<Rightarrow> timeline_clip edited" where
  "assertClipShape op clip = (case clip of
     None \<Rightarrow> fail op ''clip must be an object''
   | Some c \<Rightarrow>
       if clId (litRest c) = [] then fail op ''clip.id must be a non-empty string''
       else if clTrack (litRest c) = [] then fail op ''clip.trackId must be a non-empty string''
       else if clNode (litRest c) = [] then fail op ''clip.nodeId must be a non-empty string''
       else (case non_negative (Some (litStart c)) of
           None \<Rightarrow> fail op ''clip.startMs must be a non-negative finite number''
         | Some s \<Rightarrow> (case positive (Some (litDuration c)) of
             None \<Rightarrow> fail op ''clip.durationMs must be a positive finite number''
           | Some d \<Rightarrow> Inr ((litRest c)\<lparr>clStart := s, clDuration := d\<rparr>))))"

definition findTrackOrThrow :: "string \<Rightarrow> timeline_project \<Rightarrow> jstext \<Rightarrow> timeline_track edited" where
  "findTrackOrThrow op p i = (case find (\<lambda>t. trId t = i) (tpTracks p) of
     None \<Rightarrow> fail op ''track does not exist'' | Some t \<Rightarrow> Inr t)"

definition findClipOrThrow :: "string \<Rightarrow> timeline_project \<Rightarrow> jstext option \<Rightarrow> timeline_clip edited" where
  "findClipOrThrow op p i = (case find (\<lambda>c. Some (clId c) = i) (tpClips p) of
     None \<Rightarrow> fail op ''clip does not exist'' | Some c \<Rightarrow> Inr c)"

definition recomputeDurationMs :: "timeline_project \<Rightarrow> rat" where
  [js_defs]: "recomputeDurationMs p = max_end (tpClips p)"

definition withClips :: "timeline_project \<Rightarrow> timeline_clip list \<Rightarrow> timeline_project" where
  [js_defs]: "withClips p cs =
     p\<lparr>tpClips := cs, tpDuration := recomputeDurationMs (p\<lparr>tpClips := cs\<rparr>)\<rparr>"

text \<open>\<open>state.clips.map((c) => (c.id === id ? x : c))\<close>.\<close>

definition replace_clip :: "jstext option \<Rightarrow> timeline_clip \<Rightarrow> timeline_clip list \<Rightarrow> timeline_clip list" where
  [js_defs]: "replace_clip i x cs = map (\<lambda>c. if Some (clId c) = i then x else c) cs"

definition without_clip :: "jstext option \<Rightarrow> timeline_clip list \<Rightarrow> timeline_clip list" where
  [js_defs]: "without_clip i cs = filter (\<lambda>c. Some (clId c) \<noteq> i) cs"

section \<open>Clip handlers\<close>

definition handleAddClip :: "timeline_project \<Rightarrow> edit_payload \<Rightarrow> timeline_project edited" where
  "handleAddClip p a = bindE (assertClipShape ''addClip'' (pClip a)) (\<lambda>clip.
     if clKind clip = SubtitleKind then fail ''addClip'' ''subtitle clips must use op addSubtitle''
     else bindE (findTrackOrThrow ''addClip'' p (clTrack clip)) (\<lambda>_.
       Inr (withClips p (tpClips p @ [clip]))))"

definition handleMoveClip :: "timeline_project \<Rightarrow> edit_payload \<Rightarrow> timeline_project edited" where
  "handleMoveClip p a = (case non_negative (pStart a) of
     None \<Rightarrow> fail ''moveClip'' ''startMs must be a non-negative finite number''
   | Some s \<Rightarrow> bindE (findClipOrThrow ''moveClip'' p (pId a)) (\<lambda>clip.
       bindE (case pTrackId a of None \<Rightarrow> Inr (clTrack clip)
              | Some t \<Rightarrow> bindE (findTrackOrThrow ''moveClip'' p t) (\<lambda>_. Inr t)) (\<lambda>track.
       Inr (withClips p (replace_clip (pId a) (clip\<lparr>clStart := s, clTrack := track\<rparr>) (tpClips p))))))"

text \<open>\<open>x ?? d\<close> for a number that may be absent.\<close>

definition num_or :: "jsnum option \<Rightarrow> rat \<Rightarrow> jsnum" where
  [js_defs]: "num_or v d = (case v of None \<Rightarrow> Num d | Some n \<Rightarrow> n)"

text \<open>\<open>clip.sourceStartMs ?? 0\<close> and \<open>clip.sourceDurationMs ?? 0\<close>.\<close>

definition source_start :: "timeline_clip \<Rightarrow> rat" where
  [js_defs]: "source_start c = (case clSourceStart c of None \<Rightarrow> 0 | Some q \<Rightarrow> q)"

definition source_length :: "timeline_clip \<Rightarrow> rat" where
  [js_defs]: "source_length c = (case clSourceDuration c of None \<Rightarrow> 0 | Some q \<Rightarrow> q)"

definition handleTrimClip :: "timeline_project \<Rightarrow> edit_payload \<Rightarrow> timeline_project edited" where
  "handleTrimClip p a = bindE (findClipOrThrow ''trimClip'' p (pId a)) (\<lambda>clip.
     case non_negative (Some (num_or (pStart a) (clStart clip))) of
       None \<Rightarrow> fail ''trimClip'' ''startMs must be a non-negative finite number''
     | Some s \<Rightarrow> (case positive (Some (num_or (pDuration a) (clDuration clip))) of
       None \<Rightarrow> fail ''trimClip'' ''durationMs must be a positive finite number''
     | Some d \<Rightarrow> (case non_negative (Some (num_or (pSourceStart a) (source_start clip))) of
       None \<Rightarrow> fail ''trimClip'' ''sourceStartMs must be a non-negative finite number''
     | Some ss \<Rightarrow>
         if 0 < source_length clip \<and> source_length clip < d
           then fail ''trimClip'' ''durationMs exceeds sourceDurationMs''
         else if 0 < source_length clip \<and> source_length clip < ss + d
           then fail ''trimClip'' ''sourceStartMs + durationMs exceeds sourceDurationMs''
         else Inr (withClips p (replace_clip (pId a)
           (clip\<lparr>clStart := s, clDuration := d, clSourceStart := Some ss\<rparr>) (tpClips p))))))"

text \<open>The two halves of a clip cut at \<open>ms\<close>.\<close>

definition split_left :: "timeline_clip \<Rightarrow> rat \<Rightarrow> timeline_clip" where
  [js_defs]: "split_left c ms = c\<lparr>clDuration := ms - clStart c\<rparr>"

definition split_right :: "timeline_clip \<Rightarrow> rat \<Rightarrow> timeline_clip" where
  [js_defs]: "split_right c ms = c\<lparr>clId := clId c @ js '':split:'' @ numText ms, clStart := ms,
     clDuration := clip_end c - ms,
     clSourceStart := Some (source_start c + (ms - clStart c))\<rparr>"

text \<open>\<open>[...xs.slice(0, i), ...ys, ...xs.slice(i + 1)]\<close> at the first element with the id.\<close>

fun splice_first :: "('a \<Rightarrow> bool) \<Rightarrow> 'a list \<Rightarrow> 'a list \<Rightarrow> 'a list" where
  "splice_first P ys [] = []"
| "splice_first P ys (x # xs) = (if P x then ys @ xs else x # splice_first P ys xs)"

definition handleSplitClip :: "timeline_project \<Rightarrow> edit_payload \<Rightarrow> timeline_project edited" where
  "handleSplitClip p a = (case finite_number (pSplitAt a) of
     None \<Rightarrow> fail ''splitClip'' ''splitAtMs must be a finite number''
   | Some ms \<Rightarrow> bindE (findClipOrThrow ''splitClip'' p (pId a)) (\<lambda>clip.
       if ms \<le> clStart clip \<or> clip_end clip \<le> ms
         then fail ''splitClip'' ''splitAtMs must be strictly inside clip''
       else Inr (withClips p (splice_first (\<lambda>c. Some (clId c) = pId a)
         [split_left clip ms, split_right clip ms] (tpClips p)))))"

definition handleRemoveClip :: "timeline_project \<Rightarrow> edit_payload \<Rightarrow> timeline_project edited" where
  "handleRemoveClip p a = (if pId a = None \<or> pId a = Some []
     then fail ''removeClip'' ''id must be a non-empty string''
     else bindE (findClipOrThrow ''removeClip'' p (pId a)) (\<lambda>_.
       Inr (withClips p (without_clip (pId a) (tpClips p)))))"

fun patch_clip :: "timeline_clip \<Rightarrow> clip_patch \<Rightarrow> timeline_clip" where
  "patch_clip c (PatchTitle v) = c\<lparr>clTitle := v\<rparr>"
| "patch_clip c (PatchText v) = c\<lparr>clText := v\<rparr>"
| "patch_clip c (PatchVolume v) = c\<lparr>clVolume := v\<rparr>"
| "patch_clip c (PatchFadeIn v) = c\<lparr>clFadeIn := v\<rparr>"
| "patch_clip c (PatchFadeOut v) = c\<lparr>clFadeOut := v\<rparr>"
| "patch_clip c (PatchEntryIndex v) = c\<lparr>clEntryIndex := v\<rparr>"
| "patch_clip c (PatchOther k) = c"

fun in_whitelist :: "clip_patch \<Rightarrow> bool" where
  "in_whitelist (PatchOther k) = False"
| "in_whitelist _ = True"

definition handleSetClipProperty :: "timeline_project \<Rightarrow> edit_payload \<Rightarrow> timeline_project edited" where
  "handleSetClipProperty p a = (case pPatch a of
     None \<Rightarrow> fail ''setClipProperty'' ''patch must be an object''
   | Some patch \<Rightarrow>
       if patch = [] then fail ''setClipProperty'' ''patch must not be empty''
       else if \<not> list_all in_whitelist patch
         then fail ''setClipProperty'' ''property is not editable via setClipProperty''
       else bindE (findClipOrThrow ''setClipProperty'' p (pId a)) (\<lambda>clip.
         Inr (withClips p (replace_clip (pId a) (foldl patch_clip clip patch) (tpClips p)))))"

definition handleAddSubtitle :: "timeline_project \<Rightarrow> edit_payload \<Rightarrow> timeline_project edited" where
  "handleAddSubtitle p a = bindE (assertClipShape ''addSubtitle'' (pClip a)) (\<lambda>clip.
     if clKind clip \<noteq> SubtitleKind then fail ''addSubtitle'' ''clip.kind must be subtitle''
     else bindE (findTrackOrThrow ''addSubtitle'' p (clTrack clip)) (\<lambda>_.
       Inr (withClips p (tpClips p @ [clip]))))"

definition handleRemoveSubtitle :: "timeline_project \<Rightarrow> edit_payload \<Rightarrow> timeline_project edited" where
  "handleRemoveSubtitle p a = (if pId a = None \<or> pId a = Some []
     then fail ''removeSubtitle'' ''id must be a non-empty string''
     else bindE (findClipOrThrow ''removeSubtitle'' p (pId a)) (\<lambda>clip.
       if clKind clip \<noteq> SubtitleKind then fail ''removeSubtitle'' ''clip is not a subtitle clip''
       else Inr (withClips p (without_clip (pId a) (tpClips p)))))"

section \<open>Track handlers\<close>

definition base_label :: "track_kind \<Rightarrow> jstext" where
  [js_defs]: "base_label k = (case k of VideoKind \<Rightarrow> [0x89C6, 0x9891] | ImageKind \<Rightarrow> [0x56FE, 0x7247]
     | TextKind \<Rightarrow> [0x6587, 0x672C] | AudioKind \<Rightarrow> [0x97F3, 0x9891] | SubtitleKind \<Rightarrow> [0x5B57, 0x5E55])"

text \<open>\<open>kind in TRACK_KIND_BASE_LABELS\<close>, for the names the table declares; the names that every
  object inherits (\<open>toString\<close> and the like), which \<open>in\<close> also accepts, are not a
  \<open>TimelineTrackKind\<close>.\<close>

definition kind_of_name :: "jstext option \<Rightarrow> track_kind option" where
  [js_defs]: "kind_of_name n = find (\<lambda>k. n = Some (kind_name k)) all_kinds"

definition track_id_for :: "track_kind \<Rightarrow> nat \<Rightarrow> jstext" where
  [js_defs]: "track_id_for k i = kind_name k @ [45] @ dec (int i)"

lemma track_id_for_inject [simp]: "track_id_for k i = track_id_for k j \<longleftrightarrow> i = j"
  by (simp add: track_id_for_def)

text \<open>\<open>while (state.tracks.some((t) => t.id === id)) index += 1\<close>.\<close>

function free_index :: "track_kind \<Rightarrow> jstext list \<Rightarrow> nat \<Rightarrow> nat" where
  "free_index k ids i =
     (if track_id_for k i \<in> set ids then free_index k ids (Suc i) else i)"
  by pat_completeness auto

lemma finite_taken_indices: "finite {j. i \<le> j \<and> track_id_for k j \<in> set ids}"
proof (rule finite_imageD)
  show "finite (track_id_for k ` {j. i \<le> j \<and> track_id_for k j \<in> set ids})"
    by (rule finite_subset [of _ "set ids"]) auto
  show "inj_on (track_id_for k) {j. i \<le> j \<and> track_id_for k j \<in> set ids}"
    by (rule inj_onI) simp
qed

termination free_index
proof (relation "measure (\<lambda>(k, ids, i). card {j. i \<le> j \<and> track_id_for k j \<in> set ids})")
  fix k :: track_kind and ids :: "jstext list" and i :: nat
  assume taken: "track_id_for k i \<in> set ids"
  have "{j. Suc i \<le> j \<and> track_id_for k j \<in> set ids}
      \<subset> {j. i \<le> j \<and> track_id_for k j \<in> set ids}"
    using taken by (auto simp: Suc_le_eq)
  then show "((k, ids, Suc i), k, ids, i)
      \<in> measure (\<lambda>(k, ids, i). card {j. i \<le> j \<and> track_id_for k j \<in> set ids})"
    by (simp add: finite_taken_indices psubset_card_mono)
qed simp

declare free_index.simps [simp del]

definition max_order :: "timeline_track list \<Rightarrow> rat" where
  [js_defs]: "max_order ts = foldl (\<lambda>m t. max m (trOrder t)) (- 1) ts"

definition handleAddTrack :: "timeline_project \<Rightarrow> edit_payload \<Rightarrow> timeline_project edited" where
  "handleAddTrack p a = (case kind_of_name (pKind a) of
     None \<Rightarrow> fail ''addTrack'' ''track kind must be one of the track kinds''
   | Some k \<Rightarrow>
       let i = free_index k (map trId (tpTracks p))
                 (length (filter (\<lambda>t. trKind t = k) (tpTracks p)) + 1);
           track = \<lparr> trId = track_id_for k i, trKind = k, trLabel = base_label k @ [32] @ dec (int i),
             trOrder = max_order (tpTracks p) + 1, trLocked = None, trVisible = None,
             trMuted = None \<rparr>
       in Inr (p\<lparr>tpTracks := tpTracks p @ [track]\<rparr>))"

definition handleRemoveTrack :: "timeline_project \<Rightarrow> edit_payload \<Rightarrow> timeline_project edited" where
  "handleRemoveTrack p a = (case pTrackId a of
     None \<Rightarrow> fail ''removeTrack'' ''trackId must be a non-empty string''
   | Some i \<Rightarrow>
       if i = [] then fail ''removeTrack'' ''trackId must be a non-empty string''
       else bindE (findTrackOrThrow ''removeTrack'' p i) (\<lambda>track.
         if length (filter (\<lambda>t. trKind t = trKind track) (tpTracks p)) \<le> 1
           then fail ''removeTrack'' ''cannot remove the last track of its kind''
         else Inr (p\<lparr>tpTracks := filter (\<lambda>t. trId t \<noteq> i) (tpTracks p),
                     tpClips := filter (\<lambda>c. clTrack c \<noteq> i) (tpClips p)\<rparr>)))"

definition set_flag :: "jstext \<Rightarrow> bool \<Rightarrow> timeline_track \<Rightarrow> timeline_track" where
  [js_defs]: "set_flag flag v t =
     (if flag = js ''visible'' then t\<lparr>trVisible := Some v\<rparr> else t\<lparr>trMuted := Some v\<rparr>)"

definition handleSetTrackFlag :: "timeline_project \<Rightarrow> edit_payload \<Rightarrow> timeline_project edited" where
  "handleSetTrackFlag p a = (case pTrackId a of
     None \<Rightarrow> fail ''setTrackFlag'' ''trackId must be a non-empty string''
   | Some i \<Rightarrow>
       if i = [] then fail ''setTrackFlag'' ''trackId must be a non-empty string''
       else (case pFlag a of
           None \<Rightarrow> fail ''setTrackFlag'' ''flag must be visible or muted''
         | Some flag \<Rightarrow>
           if flag \<noteq> js ''visible'' \<and> flag \<noteq> js ''muted''
             then fail ''setTrackFlag'' ''flag must be visible or muted''
           else (case pValue a of
               None \<Rightarrow> fail ''setTrackFlag'' ''value must be a boolean''
             | Some v \<Rightarrow> bindE (findTrackOrThrow ''setTrackFlag'' p i) (\<lambda>_.
                 Inr (p\<lparr>tpTracks := map (\<lambda>t. if trId t = i then set_flag flag v t else t)
                                      (tpTracks p)\<rparr>)))))"

section \<open>Rebuilding the subtitle clips of a node\<close>

fun assert_entries :: "string \<Rightarrow> int list \<Rightarrow> srt_entry list \<Rightarrow> unit edited" where
  "assert_entries op seen [] = Inr ()"
| "assert_entries op seen (e # es) =
     (if eIndex e < 0 then fail op ''entry index must be a non-negative integer''
      else if eIndex e \<in> set seen then fail op ''duplicate entry index''
      else if eStart e < 0 then fail op ''startMs must be a non-negative finite number''
      else if eEnd e \<le> eStart e then fail op ''endMs must be greater than startMs''
      else assert_entries op (eIndex e # seen) es)"

definition assertSubtitleEntries :: "string \<Rightarrow> srt_entry list option \<Rightarrow> srt_entry list edited" where
  "assertSubtitleEntries op entries = (case entries of
     None \<Rightarrow> fail op ''entries must be an array of SrtEntry''
   | Some es \<Rightarrow> bindE (assert_entries op [] es) (\<lambda>_. Inr es))"

definition subtitle_clip :: "jstext \<Rightarrow> jstext \<Rightarrow> srt_entry \<Rightarrow> timeline_clip" where
  [js_defs]: "subtitle_clip node track e = \<lparr> clId = node @ js '':subtitle:'' @ intText (eIndex e),
     clKind = SubtitleKind, clNode = node, clTrack = track, clStart = eStart e,
     clDuration = eEnd e - eStart e, clTitle = None, clSourceStart = None, clSourceDuration = None,
     clVolume = None, clFadeIn = None, clFadeOut = None, clEntryIndex = Some (eIndex e),
     clText = Some (eText e), clMedia = None \<rparr>"

definition subtitle_track :: "timeline_project \<Rightarrow> jstext option \<Rightarrow> timeline_track edited" where
  "subtitle_track p i = (case i of
     Some t \<Rightarrow> bindE (findTrackOrThrow ''rebuildSubtitleClips'' p t) (\<lambda>track.
       if trKind track \<noteq> SubtitleKind then fail ''rebuildSubtitleClips'' ''not a subtitle track''
       else Inr track)
   | None \<Rightarrow> (case find (\<lambda>t. trKind t = SubtitleKind) (tpTracks p) of
       None \<Rightarrow> fail ''rebuildSubtitleClips'' ''no subtitle track available''
     | Some track \<Rightarrow> Inr track))"

definition subtitle_of :: "jstext \<Rightarrow> timeline_clip \<Rightarrow> bool" where
  [js_defs]: "subtitle_of node c \<longleftrightarrow> clKind c = SubtitleKind \<and> clNode c = node"

definition handleRebuildSubtitleClips ::
    "timeline_project \<Rightarrow> edit_payload \<Rightarrow> timeline_project edited" where
  "handleRebuildSubtitleClips p a = (case pNode a of
     None \<Rightarrow> fail ''rebuildSubtitleClips'' ''nodeId must be a non-empty string''
   | Some node \<Rightarrow>
       if node = [] then fail ''rebuildSubtitleClips'' ''nodeId must be a non-empty string''
       else bindE (assertSubtitleEntries ''rebuildSubtitleClips'' (pEntries a)) (\<lambda>entries.
         bindE (subtitle_track p (pTrackId a)) (\<lambda>track.
           Inr (withClips p (filter (\<lambda>c. \<not> subtitle_of node c) (tpClips p)
                  @ map (subtitle_clip node (trId track)) entries)))))"

section \<open>The registry\<close>

type_synonym command_handler = "timeline_project \<Rightarrow> edit_payload \<Rightarrow> timeline_project edited"

text \<open>A \<open>Map\<close> keeps the order in which its keys were first set.\<close>

type_synonym command_registry = "(jstext \<times> command_handler) list"

definition BUILTIN_HANDLERS :: command_registry where
  "BUILTIN_HANDLERS = [(js ''addClip'', handleAddClip), (js ''moveClip'', handleMoveClip),
     (js ''trimClip'', handleTrimClip), (js ''splitClip'', handleSplitClip),
     (js ''removeClip'', handleRemoveClip), (js ''setClipProperty'', handleSetClipProperty),
     (js ''addSubtitle'', handleAddSubtitle), (js ''removeSubtitle'', handleRemoveSubtitle),
     (js ''addTrack'', handleAddTrack), (js ''removeTrack'', handleRemoveTrack),
     (js ''setTrackFlag'', handleSetTrackFlag),
     (js ''rebuildSubtitleClips'', handleRebuildSubtitleClips)]"

definition EDITOR_COMMAND_OPS :: "jstext list" where
  "EDITOR_COMMAND_OPS = [js ''addClip'', js ''moveClip'', js ''trimClip'', js ''splitClip'',
     js ''removeClip'', js ''setClipProperty'', js ''addSubtitle'', js ''removeSubtitle'',
     js ''rebuildSubtitleClips'', js ''addTrack'', js ''removeTrack'', js ''setTrackFlag'']"

fun set_handler :: "jstext \<Rightarrow> command_handler \<Rightarrow> command_registry \<Rightarrow> command_registry" where
  "set_handler op h [] = [(op, h)]"
| "set_handler op h ((o', h') # r) = (if o' = op then (op, h) # r else (o', h') # set_handler op h r)"

definition register_command ::
    "command_registry \<Rightarrow> jstext \<Rightarrow> command_handler \<Rightarrow> command_registry edited" where
  "register_command r op h = (if op = [] then Inl EmptyOp else Inr (set_handler op h r))"

definition apply_command ::
    "command_registry \<Rightarrow> timeline_project \<Rightarrow> edit_command \<Rightarrow> timeline_project edited" where
  "apply_command r p cmd = (case map_of r (cmdOp cmd) of
     None \<Rightarrow> Inl (UnknownOp (cmdOp cmd)) | Some h \<Rightarrow> h p (cmdPayload cmd))"

definition knownOps :: "command_registry \<Rightarrow> jstext list" where
  "knownOps r = map fst r"

section \<open>Checking a batch before it is run\<close>

text \<open>\<open>validateAiCommandBatch\<close> of \<open>ai-command-schema.ts\<close>: a dry run; \<open>None\<close> is the verdict
  \<open>{ ok: true }\<close>, otherwise the position, the op and the error of the first rejected command.\<close>

fun validate_from ::
    "command_registry \<Rightarrow> nat \<Rightarrow> timeline_project \<Rightarrow> edit_command list \<Rightarrow>
     (nat \<times> jstext \<times> edit_error) option" where
  "validate_from r i p [] = None"
| "validate_from r i p (c # cs) = (case apply_command r p c of
     Inl e \<Rightarrow> Some (i, cmdOp c, e) | Inr q \<Rightarrow> validate_from r (Suc i) q cs)"

definition validateAiCommandBatch ::
    "timeline_project \<Rightarrow> edit_command list \<Rightarrow> (nat \<times> jstext \<times> edit_error) option" where
  "validateAiCommandBatch p cs = validate_from BUILTIN_HANDLERS 0 p cs"

end
