(* ===== verification/EditorCommandsProofs.thy ===== *)
theory EditorCommandsProofs
  imports EditorCommands
begin

text \<open>
  What the editor commands do to a project, as a step relation (\<open>edit_step\<close>) with one rule per kind of
  change, the refinement of it by the handlers, and the invariant of a project that every accepted
  command keeps.
\<close>

section \<open>The steps of the editor\<close>

abbreviation track_ids :: "timeline_project \<Rightarrow> jstext set" where
  "track_ids p \<equiv> trId ` set (tpTracks p)"

definition clip_ok :: "timeline_project \<Rightarrow> timeline_clip \<Rightarrow> bool" where
  "clip_ok p c \<longleftrightarrow> clId c \<noteq> [] \<and> clNode c \<noteq> [] \<and> clTrack c \<in> track_ids p
     \<and> 0 \<le> clStart c \<and> 0 < clDuration c"

text \<open>The part of a clip within its source, where the length of the source is known.\<close>

definition in_source :: "timeline_clip \<Rightarrow> bool" where
  "in_source c \<longleftrightarrow> 0 \<le> source_start c \<and>
     (0 < source_length c \<longrightarrow> source_start c + clDuration c \<le> source_length c)"

definition same_clip :: "timeline_clip \<Rightarrow> timeline_clip \<Rightarrow> bool" where
  "same_clip x c \<longleftrightarrow> clId x = clId c \<and> clKind x = clKind c \<and> clNode x = clNode c
     \<and> clSourceDuration x = clSourceDuration c \<and> clMedia x = clMedia c"

inductive edit_step :: "bool \<Rightarrow> timeline_project \<Rightarrow> timeline_project \<Rightarrow> bool" where
  added: "clip_ok p c \<Longrightarrow> edit_step True p (withClips p (tpClips p @ [c]))"
| moved: "c \<in> set (tpClips p) \<Longrightarrow> same_clip x c \<Longrightarrow> clTrack x = clTrack c \<or> clTrack x \<in> track_ids p
    \<Longrightarrow> 0 \<le> clStart x \<Longrightarrow> clDuration x = clDuration c \<Longrightarrow> clSourceStart x = clSourceStart c
    \<Longrightarrow> edit_step False p (withClips p (replace_clip (Some (clId c)) x (tpClips p)))"
| trimmed: "c \<in> set (tpClips p) \<Longrightarrow> same_clip x c \<Longrightarrow> clTrack x = clTrack c
    \<Longrightarrow> 0 \<le> clStart x \<Longrightarrow> 0 < clDuration x \<Longrightarrow> in_source x
    \<Longrightarrow> edit_step False p (withClips p (replace_clip (Some (clId c)) x (tpClips p)))"
| retitled: "c \<in> set (tpClips p) \<Longrightarrow> same_clip x c \<Longrightarrow> clTrack x = clTrack c
    \<Longrightarrow> clStart x = clStart c \<Longrightarrow> clDuration x = clDuration c \<Longrightarrow> clSourceStart x = clSourceStart c
    \<Longrightarrow> edit_step False p (withClips p (replace_clip (Some (clId c)) x (tpClips p)))"
| halved: "tpClips p = us @ c # vs \<Longrightarrow> clId c \<notin> clId ` set us
    \<Longrightarrow> clStart c < ms \<Longrightarrow> ms < clip_end c
    \<Longrightarrow> edit_step False p (withClips p (us @ [split_left c ms, split_right c ms] @ vs))"
| removed: "c \<in> set (tpClips p)
    \<Longrightarrow> edit_step False p (withClips p (without_clip (Some (clId c)) (tpClips p)))"
| rebuilt: "node \<noteq> [] \<Longrightarrow> t \<in> set (tpTracks p) \<Longrightarrow> trKind t = SubtitleKind
    \<Longrightarrow> (\<And>e. e \<in> set es \<Longrightarrow> 0 \<le> eIndex e \<and> 0 \<le> eStart e \<and> eStart e < eEnd e)
    \<Longrightarrow> distinct (map eIndex es)
    \<Longrightarrow> edit_step False p (withClips p (filter (\<lambda>c. \<not> subtitle_of node c) (tpClips p)
          @ map (subtitle_clip node (trId t)) es))"
| track_added: "trId t \<notin> track_ids p \<Longrightarrow> (\<And>u. u \<in> set (tpTracks p) \<Longrightarrow> trOrder u < trOrder t)
    \<Longrightarrow> edit_step False p (p\<lparr>tpTracks := tpTracks p @ [t]\<rparr>)"
| track_removed: "t \<in> set (tpTracks p)
    \<Longrightarrow> 1 < length (filter (\<lambda>u. trKind u = trKind t) (tpTracks p))
    \<Longrightarrow> edit_step False p (p\<lparr>tpTracks := filter (\<lambda>u. trId u \<noteq> trId t) (tpTracks p),
                      tpClips := filter (\<lambda>c. clTrack c \<noteq> trId t) (tpClips p)\<rparr>)"
| track_flagged: "(\<And>u. trId (f u) = trId u \<and> trKind (f u) = trKind u \<and> trOrder (f u) = trOrder u)
    \<Longrightarrow> edit_step False p (p\<lparr>tpTracks := map (\<lambda>u. if trId u = i then f u else u) (tpTracks p)\<rparr>)"

section \<open>Success of the checks\<close>

named_theorems edit_simps \<open>when a check of the editor commands passes\<close>

lemma findTrack_Inr [edit_simps]:
  "findTrackOrThrow op p i = Inr t \<longleftrightarrow> find (\<lambda>t. trId t = i) (tpTracks p) = Some t"
  by (simp add: findTrackOrThrow_def split: option.splits)

lemma findClip_Inr [edit_simps]:
  "findClipOrThrow op p i = Inr c \<longleftrightarrow> find (\<lambda>c. Some (clId c) = i) (tpClips p) = Some c"
  by (simp add: findClipOrThrow_def split: option.splits)

lemma findTrack_InrD:
  "findTrackOrThrow op p i = Inr t \<Longrightarrow> t \<in> set (tpTracks p) \<and> trId t = i \<and> i \<in> track_ids p"
  by (auto simp: edit_simps dest: find_Some_set)

lemma findClip_InrD:
  "findClipOrThrow op p i = Inr c \<Longrightarrow> c \<in> set (tpClips p) \<and> i = Some (clId c)"
  by (auto simp: edit_simps dest: find_Some_set)

lemma bindE_Inr [edit_simps]: "bindE r f = Inr y \<longleftrightarrow> (\<exists>x. r = Inr x \<and> f x = Inr y)"
  by (cases r) auto

lemma non_negative_Some [edit_simps]: "non_negative v = Some q \<longleftrightarrow> v = Some (Num q) \<and> 0 \<le> q"
  by (cases v rule: finite_number.cases) (auto simp: non_negative_def)

lemma positive_Some [edit_simps]: "positive v = Some q \<longleftrightarrow> v = Some (Num q) \<and> 0 < q"
  by (cases v rule: finite_number.cases) (auto simp: positive_def)

lemma finite_number_Some [edit_simps]: "finite_number v = Some q \<longleftrightarrow> v = Some (Num q)"
  by (cases v rule: finite_number.cases) auto

lemma assertClipShape_Inr:
  "assertClipShape op v = Inr c \<Longrightarrow>
   clId c \<noteq> [] \<and> clTrack c \<noteq> [] \<and> clNode c \<noteq> [] \<and> 0 \<le> clStart c \<and> 0 < clDuration c"
  by (auto simp: assertClipShape_def edit_simps split: option.splits if_splits)

lemma patch_clip_frame:
  "same_clip (patch_clip c a) c \<and> clTrack (patch_clip c a) = clTrack c
   \<and> clStart (patch_clip c a) = clStart c \<and> clDuration (patch_clip c a) = clDuration c
   \<and> clSourceStart (patch_clip c a) = clSourceStart c"
  by (cases a) (simp_all add: same_clip_def)

lemma patches_frame:
  "same_clip (foldl patch_clip c as) c \<and> clTrack (foldl patch_clip c as) = clTrack c
   \<and> clStart (foldl patch_clip c as) = clStart c \<and> clDuration (foldl patch_clip c as) = clDuration c
   \<and> clSourceStart (foldl patch_clip c as) = clSourceStart c"
proof (induction as arbitrary: c)
  case (Cons a as)
  from Cons[of "patch_clip c a"] patch_clip_frame[of c a] show ?case
    by (simp add: same_clip_def)
qed (simp add: same_clip_def)

lemma splice_first_split:
  "find P xs = Some x \<Longrightarrow>
   \<exists>us vs. xs = us @ x # vs \<and> (\<forall>u \<in> set us. \<not> P u) \<and> splice_first P ys xs = us @ ys @ vs"
proof (induction xs)
  case (Cons a xs)
  show ?case
  proof (cases "P a")
    case True
    with Cons.prems have "a # xs = [] @ x # xs \<and> (\<forall>u \<in> set []. \<not> P u)
        \<and> splice_first P ys (a # xs) = [] @ ys @ xs" by simp
    then show ?thesis by blast
  next
    case False
    with Cons obtain us vs where "xs = us @ x # vs" "\<forall>u \<in> set us. \<not> P u"
        "splice_first P ys xs = us @ ys @ vs" by auto
    with False have "a # xs = (a # us) @ x # vs \<and> (\<forall>u \<in> set (a # us). \<not> P u)
        \<and> splice_first P ys (a # xs) = (a # us) @ ys @ vs" by simp
    then show ?thesis by blast
  qed
qed simp

lemma assert_entries_Inr:
  "assert_entries op seen es = Inr u \<Longrightarrow>
   (\<forall>e \<in> set es. 0 \<le> eIndex e \<and> 0 \<le> eStart e \<and> eStart e < eEnd e)
   \<and> distinct (map eIndex es) \<and> set (map eIndex es) \<inter> set seen = {}"
proof (induction es arbitrary: seen)
  case (Cons e es)
  then have "0 \<le> eIndex e" "eIndex e \<notin> set seen" "0 \<le> eStart e" "eStart e < eEnd e"
    and rest: "assert_entries op (eIndex e # seen) es = Inr u"
    by (auto split: if_splits)
  with Cons.IH [OF rest] show ?case by auto
qed simp

lemma subtitle_track_Inr:
  "subtitle_track p i = Inr t \<Longrightarrow> t \<in> set (tpTracks p) \<and> trKind t = SubtitleKind"
  by (auto simp: subtitle_track_def bindE_Inr dest!: findTrack_InrD find_Some_set
      split: option.splits if_splits)

lemma free_index_free: "track_id_for k (free_index k ids i) \<notin> set ids"
proof (induction k ids i rule: free_index.induct)
  case (1 k ids i)
  then show ?case by (simp add: free_index.simps[of k ids i])
qed

lemma free_index_first:
  "i \<le> free_index k ids i \<and> (\<forall>j. i \<le> j \<and> j < free_index k ids i \<longrightarrow> track_id_for k j \<in> set ids)"
proof (induction k ids i rule: free_index.induct)
  case (1 k ids i)
  show ?case
  proof (cases "track_id_for k i \<in> set ids")
    case True
    then have step: "free_index k ids i = free_index k ids (Suc i)"
      by (simp add: free_index.simps[of k ids i])
    from 1 [OF True] have lo: "Suc i \<le> free_index k ids (Suc i)"
      and taken: "\<And>j. Suc i \<le> j \<Longrightarrow> j < free_index k ids (Suc i) \<Longrightarrow> track_id_for k j \<in> set ids"
      by auto
    have "track_id_for k j \<in> set ids" if "i \<le> j" "j < free_index k ids i" for j
      using that True taken[of j] step by (cases "i = j") auto
    with lo step show ?thesis by simp
  next
    case False
    then show ?thesis by (auto simp: free_index.simps[of k ids i])
  qed
qed

lemma max_order_upper: "t \<in> set ts \<Longrightarrow> trOrder t \<le> max_order ts"
  unfolding max_order_def by (rule foldl_max_upper)

section \<open>Every handler is its step\<close>

lemma handleAddClip_step: "handleAddClip p a = Inr q \<Longrightarrow> edit_step True p q"
  unfolding handleAddClip_def
  by (auto simp: bindE_Inr clip_ok_def dest!: assertClipShape_Inr findTrack_InrD
      intro!: edit_step.added split: if_splits)

lemma handleAddSubtitle_step: "handleAddSubtitle p a = Inr q \<Longrightarrow> edit_step True p q"
  unfolding handleAddSubtitle_def
  by (auto simp: bindE_Inr clip_ok_def dest!: assertClipShape_Inr findTrack_InrD
      intro!: edit_step.added split: if_splits)

lemma handleMoveClip_step:
  assumes "handleMoveClip p a = Inr q"
  shows "edit_step False p q"
proof -
  from assms obtain s c t where s: "non_negative (pStart a) = Some s"
    and c: "findClipOrThrow ''moveClip'' p (pId a) = Inr c"
    and t: "(case pTrackId a of None \<Rightarrow> Inr (clTrack c)
       | Some t \<Rightarrow> bindE (findTrackOrThrow ''moveClip'' p t) (\<lambda>_. Inr t)) = Inr t"
    and q: "q = withClips p (replace_clip (pId a) (c\<lparr>clStart := s, clTrack := t\<rparr>) (tpClips p))"
    by (cases "non_negative (pStart a)") (simp_all add: handleMoveClip_def bindE_Inr, blast)
  from t have "t = clTrack c \<or> t \<in> track_ids p"
    by (auto simp: bindE_Inr dest!: findTrack_InrD split: option.splits)
  moreover from s have "0 \<le> s" by (simp add: edit_simps)
  moreover note findClip_InrD [OF c]
  ultimately show ?thesis unfolding q
    using edit_step.moved[of c p "c\<lparr>clStart := s, clTrack := t\<rparr>"] by (simp add: same_clip_def)
qed

lemma handleTrimClip_step:
  assumes "handleTrimClip p a = Inr q"
  shows "edit_step False p q"
proof -
  from assms obtain c s d ss where c: "findClipOrThrow ''trimClip'' p (pId a) = Inr c"
    and s: "non_negative (Some (num_or (pStart a) (clStart c))) = Some s"
    and d: "positive (Some (num_or (pDuration a) (clDuration c))) = Some d"
    and ss: "non_negative (Some (num_or (pSourceStart a) (source_start c))) = Some ss"
    and b: "\<not> (0 < source_length c \<and> source_length c < ss + d)"
    and q: "q = withClips p (replace_clip (pId a)
      (c\<lparr>clStart := s, clDuration := d, clSourceStart := Some ss\<rparr>) (tpClips p))"
    unfolding handleTrimClip_def bindE_Inr
    by (elim exE conjE) (simp split: option.split_asm if_split_asm)
  from s d ss have "0 \<le> s" "0 < d" "0 \<le> ss" by (simp_all add: edit_simps)
  moreover have "in_source (c\<lparr>clStart := s, clDuration := d, clSourceStart := Some ss\<rparr>)"
    using b \<open>0 \<le> ss\<close> by (auto simp: in_source_def source_start_def source_length_def)
  moreover note findClip_InrD [OF c]
  ultimately show ?thesis unfolding q
    using edit_step.trimmed[of c p "c\<lparr>clStart := s, clDuration := d, clSourceStart := Some ss\<rparr>"]
    by (simp add: same_clip_def)
qed

lemma handleSplitClip_step:
  assumes "handleSplitClip p a = Inr q"
  shows "edit_step False p q"
proof -
  from assms obtain ms c where c: "findClipOrThrow ''splitClip'' p (pId a) = Inr c"
    and ms: "clStart c < ms" "ms < clip_end c"
    and q: "q = withClips p (splice_first (\<lambda>c. Some (clId c) = pId a)
      [split_left c ms, split_right c ms] (tpClips p))"
    by (auto simp: handleSplitClip_def bindE_Inr not_le split: option.splits if_splits)
  from c have "find (\<lambda>c. Some (clId c) = pId a) (tpClips p) = Some c" by (simp add: edit_simps)
  from splice_first_split [OF this, of "[split_left c ms, split_right c ms]"]
  obtain us vs where "tpClips p = us @ c # vs" "\<forall>u \<in> set us. Some (clId u) \<noteq> pId a"
    and sp: "splice_first (\<lambda>c. Some (clId c) = pId a) [split_left c ms, split_right c ms] (tpClips p)
      = us @ [split_left c ms, split_right c ms] @ vs" by blast
  with findClip_InrD [OF c] ms show ?thesis
    unfolding q sp by (intro edit_step.halved) auto
qed

lemma handleRemoveClip_step: "handleRemoveClip p a = Inr q \<Longrightarrow> edit_step False p q"
  unfolding handleRemoveClip_def
  by (auto simp: bindE_Inr dest!: findClip_InrD intro!: edit_step.removed split: if_splits)

lemma handleRemoveSubtitle_step: "handleRemoveSubtitle p a = Inr q \<Longrightarrow> edit_step False p q"
  unfolding handleRemoveSubtitle_def
  by (auto simp: bindE_Inr dest!: findClip_InrD intro!: edit_step.removed split: if_splits)

lemma handleSetClipProperty_step:
  assumes "handleSetClipProperty p a = Inr q"
  shows "edit_step False p q"
proof -
  from assms obtain patch c where c: "findClipOrThrow ''setClipProperty'' p (pId a) = Inr c"
    and q: "q = withClips p (replace_clip (pId a) (foldl patch_clip c patch) (tpClips p))"
    by (auto simp: handleSetClipProperty_def bindE_Inr split: option.splits if_splits)
  from findClip_InrD [OF c] patches_frame[of c patch] show ?thesis
    unfolding q using edit_step.retitled[of c p "foldl patch_clip c patch"] by simp
qed

lemma handleAddTrack_step:
  assumes "handleAddTrack p a = Inr q"
  shows "edit_step False p q"
proof -
  from assms obtain k i where i: "i = free_index k (map trId (tpTracks p))
        (length (filter (\<lambda>t. trKind t = k) (tpTracks p)) + 1)"
    and q: "q = p\<lparr>tpTracks := tpTracks p @ [\<lparr> trId = track_id_for k i, trKind = k,
        trLabel = base_label k @ [32] @ dec (int i), trOrder = max_order (tpTracks p) + 1,
        trLocked = None, trVisible = None, trMuted = None \<rparr>]\<rparr>"
    by (auto simp: handleAddTrack_def Let_def split: option.splits)
  have "track_id_for k i \<notin> track_ids p"
    unfolding i using free_index_free[of k "map trId (tpTracks p)"] by simp
  moreover have "trOrder u < max_order (tpTracks p) + 1" if "u \<in> set (tpTracks p)" for u
    using max_order_upper [OF that] by simp
  ultimately show ?thesis unfolding q by (intro edit_step.track_added) simp_all
qed

lemma handleRemoveTrack_step: "handleRemoveTrack p a = Inr q \<Longrightarrow> edit_step False p q"
  unfolding handleRemoveTrack_def
  by (auto simp: bindE_Inr dest!: findTrack_InrD intro!: edit_step.track_removed
      split: option.splits if_splits)

lemma handleSetTrackFlag_step: "handleSetTrackFlag p a = Inr q \<Longrightarrow> edit_step False p q"
  unfolding handleSetTrackFlag_def
  by (auto simp: bindE_Inr set_flag_def intro!: edit_step.track_flagged
      split: option.splits if_splits)

lemma handleRebuild_step:
  assumes "handleRebuildSubtitleClips p a = Inr q"
  shows "edit_step False p q"
proof -
  from assms obtain node es t u where node: "node \<noteq> []"
    and es: "assert_entries ''rebuildSubtitleClips'' [] es = Inr u"
    and t: "subtitle_track p (pTrackId a) = Inr t"
    and q: "q = withClips p (filter (\<lambda>c. \<not> subtitle_of node c) (tpClips p)
        @ map (subtitle_clip node (trId t)) es)"
    by (auto simp: handleRebuildSubtitleClips_def assertSubtitleEntries_def bindE_Inr
        split: option.splits if_splits)
  show ?thesis unfolding q
    using node subtitle_track_Inr [OF t] assert_entries_Inr [OF es]
    by (intro edit_step.rebuilt) auto
qed

lemmas handler_steps = handleAddClip_step handleMoveClip_step handleTrimClip_step
  handleSplitClip_step handleRemoveClip_step handleSetClipProperty_step handleAddSubtitle_step
  handleRemoveSubtitle_step handleAddTrack_step handleRemoveTrack_step handleSetTrackFlag_step
  handleRebuild_step

text \<open>The flag of a step tells the two commands that bring in a clip from the rest.\<close>

abbreviation adds_clip :: "jstext \<Rightarrow> bool" where
  "adds_clip op \<equiv> op = js ''addClip'' \<or> op = js ''addSubtitle''"

lemma builtin_step:
  assumes "(op, h) \<in> set BUILTIN_HANDLERS" "h p a = Inr q"
  shows "edit_step (adds_clip op) p q"
proof -
  have "(op = js ''addClip'' \<or> op = js ''addSubtitle'') \<and> edit_step True p q \<or>
      \<not> (op = js ''addClip'' \<or> op = js ''addSubtitle'') \<and> edit_step False p q"
    using assms unfolding BUILTIN_HANDLERS_def list.set insert_iff empty_iff prod.inject
    by (elim disjE conjE FalseE) (simp add: handler_steps js_def)+
  then show ?thesis by auto
qed

lemma apply_builtin_step:
  "apply_command BUILTIN_HANDLERS p cmd = Inr q \<Longrightarrow> edit_step (adds_clip (cmdOp cmd)) p q"
  by (auto simp: apply_command_def dest!: map_of_SomeD intro: builtin_step split: option.splits)

end
