(* ===== verification/EditorCommandsClaims.thy ===== *)
theory EditorCommandsClaims
  imports EditorCommandsProofs
begin

text \<open>
  The invariant of a timeline project, kept by every run of editor commands, and what the commands
  that are more than a field update guarantee: cutting a clip, adding a track, rebuilding the
  subtitle clips of a node, checking a batch.
\<close>

section \<open>The invariant of a project\<close>

definition project_ok :: "timeline_project \<Rightarrow> bool" where
  "project_ok p \<longleftrightarrow> (\<forall>c \<in> set (tpClips p). clip_ok p c) \<and> max_end (tpClips p) \<le> tpDuration p
     \<and> distinct (map trId (tpTracks p))"

definition has_kind :: "timeline_project \<Rightarrow> track_kind \<Rightarrow> bool" where
  "has_kind p k \<longleftrightarrow> (\<exists>t \<in> set (tpTracks p). trKind t = k)"

text \<open>What every command leaves alone: a kind that has a track keeps one, and the time of the last
  write is not the business of the editor.\<close>

definition edit_frame :: "timeline_project \<Rightarrow> timeline_project \<Rightarrow> bool" where
  "edit_frame p q \<longleftrightarrow> (\<forall>k. has_kind p k \<longrightarrow> has_kind q k) \<and> tpUpdatedAt q = tpUpdatedAt p"

lemma withClips_simps [simp]:
  "tpTracks (withClips p cs) = tpTracks p" "tpClips (withClips p cs) = cs"
  "tpUpdatedAt (withClips p cs) = tpUpdatedAt p" "tpDuration (withClips p cs) = max_end cs"
  by (simp_all add: withClips_def recomputeDurationMs_def)

lemma clip_ok_withClips [simp]: "clip_ok (withClips p cs) c = clip_ok p c"
  by (simp add: clip_ok_def)

lemma project_ok_withClips:
  "project_ok p \<Longrightarrow> (\<And>c. c \<in> set cs \<Longrightarrow> clip_ok p c) \<Longrightarrow> project_ok (withClips p cs)"
  by (simp add: project_ok_def)

lemma set_replace_clip: "c \<in> set (replace_clip i x cs) \<Longrightarrow> c = x \<or> c \<in> set cs"
  by (auto simp: replace_clip_def split: if_splits)

lemma max_end_mono: "set cs \<subseteq> set ds \<Longrightarrow> max_end cs \<le> max_end ds"
  by (rule max_end_least) (auto intro: max_end_upper)

lemma clip_ok_replace:
  "project_ok p \<Longrightarrow> clip_ok p x \<Longrightarrow> c \<in> set (replace_clip i x (tpClips p)) \<Longrightarrow> clip_ok p c"
  by (auto simp: project_ok_def dest!: set_replace_clip)

lemma clip_ok_changed:
  "project_ok p \<Longrightarrow> c \<in> set (tpClips p) \<Longrightarrow> same_clip x c
   \<Longrightarrow> clTrack x = clTrack c \<or> clTrack x \<in> track_ids p \<Longrightarrow> 0 \<le> clStart x \<Longrightarrow> 0 < clDuration x
   \<Longrightarrow> clip_ok p x"
  by (auto simp: project_ok_def clip_ok_def same_clip_def)

lemma project_ok_relabelled:
  assumes "project_ok p" "tpClips q = tpClips p" "tpDuration q = tpDuration p"
    "map trId (tpTracks q) = map trId (tpTracks p)"
  shows "project_ok q"
proof -
  from assms(4) have "track_ids q = track_ids p" by (metis list.set_map)
  with assms show ?thesis by (simp only: project_ok_def clip_ok_def) blast
qed

lemma same_key: "distinct (map k xs) \<Longrightarrow> x \<in> set xs \<Longrightarrow> y \<in> set xs \<Longrightarrow> k x = k y \<Longrightarrow> x = y"
  by (simp add: distinct_map inj_on_def)

lemma edit_step_ok: "edit_step b p q \<Longrightarrow> project_ok p \<Longrightarrow> project_ok q"
proof (induction rule: edit_step.induct)
  case (added p c)
  then show ?case by (auto intro!: project_ok_withClips simp: project_ok_def)
next
  case (moved c p x)
  then have "clip_ok p c" by (simp add: project_ok_def)
  with moved have "clip_ok p x" by (intro clip_ok_changed) (auto simp: clip_ok_def)
  with moved show ?case by (intro project_ok_withClips) (auto intro: clip_ok_replace)
next
  case (trimmed c p x)
  then have "clip_ok p x" by (intro clip_ok_changed) auto
  with trimmed show ?case by (intro project_ok_withClips) (auto intro: clip_ok_replace)
next
  case (retitled c p x)
  then have "clip_ok p c" by (simp add: project_ok_def)
  with retitled have "clip_ok p x" by (intro clip_ok_changed) (auto simp: clip_ok_def)
  with retitled show ?case by (intro project_ok_withClips) (auto intro: clip_ok_replace)
next
  case (halved p us c vs ms)
  then have "clip_ok p c" by (simp add: project_ok_def)
  with halved.hyps have "clip_ok p (split_left c ms)" "clip_ok p (split_right c ms)"
    by (auto simp: clip_ok_def split_left_def split_right_def clip_end_def)
  with halved show ?case by (intro project_ok_withClips) (auto simp: project_ok_def)
next
  case (removed c p)
  then show ?case by (intro project_ok_withClips) (auto simp: project_ok_def without_clip_def)
next
  case (rebuilt node t p es)
  then have "clip_ok p (subtitle_clip node (trId t) e)" if "e \<in> set es" for e
    using that by (auto simp: clip_ok_def subtitle_clip_def)
  with rebuilt show ?case by (intro project_ok_withClips) (auto simp: project_ok_def)
next
  case (track_added t p)
  then show ?case by (auto simp: project_ok_def clip_ok_def)
next
  case (track_removed t p)
  have "max_end (filter (\<lambda>c. clTrack c \<noteq> trId t) (tpClips p)) \<le> max_end (tpClips p)"
    by (rule max_end_mono) auto
  with track_removed show ?case
    by (auto simp: project_ok_def clip_ok_def distinct_map_filter)
next
  case (track_flagged f p i)
  have "map trId (map (\<lambda>u. if trId u = i then f u else u) (tpTracks p)) = map trId (tpTracks p)"
    using track_flagged.hyps by simp
  then show ?case by (intro project_ok_relabelled [OF track_flagged.prems]) simp_all
qed

lemma edit_step_frame: "edit_step b p q \<Longrightarrow> project_ok p \<Longrightarrow> edit_frame p q"
proof (induction rule: edit_step.induct)
  case (track_removed t p)
  have "has_kind (p\<lparr>tpTracks := filter (\<lambda>u. trId u \<noteq> trId t) (tpTracks p),
      tpClips := filter (\<lambda>c. clTrack c \<noteq> trId t) (tpClips p)\<rparr>) k" if "has_kind p k" for k
  proof (cases "k = trKind t")
    case True
    let ?ks = "filter (\<lambda>u. trKind u = trKind t) (tpTracks p)"
    have "distinct (map trId ?ks)" using track_removed.prems
      by (simp add: project_ok_def distinct_map_filter)
    then have "card (trId ` set ?ks) = length ?ks" by (metis distinct_card length_map list.set_map)
    with track_removed.hyps have "\<not> trId ` set ?ks \<subseteq> {trId t}"
      by (metis One_nat_def card_mono card.empty card_insert_disjoint empty_iff finite.intros(1)
          finite_insert not_less)
    with True show ?thesis by (auto simp: has_kind_def)
  next
    case False
    from that obtain u where u: "u \<in> set (tpTracks p)" "trKind u = k"
      by (auto simp: has_kind_def)
    with False track_removed have "trId u \<noteq> trId t"
      by (auto simp: project_ok_def dest: same_key)
    with u show ?thesis by (auto simp: has_kind_def)
  qed
  then show ?case by (simp add: edit_frame_def)
qed (auto simp: edit_frame_def has_kind_def image_iff split: if_splits)

interpretation editor: guarded_machine "apply_command BUILTIN_HANDLERS" project_ok edit_frame
proof unfold_locales
  show "project_ok s \<Longrightarrow> apply_command BUILTIN_HANDLERS s x = Inr t \<Longrightarrow> project_ok t" for s x t
    by (drule apply_builtin_step) (rule edit_step_ok)
  show "project_ok s \<Longrightarrow> apply_command BUILTIN_HANDLERS s x = Inr t \<Longrightarrow> edit_frame s t" for s x t
    by (drule apply_builtin_step) (rule edit_step_frame)
  show "edit_frame s s" for s by (simp add: edit_frame_def)
  show "edit_frame s t \<Longrightarrow> edit_frame t u \<Longrightarrow> edit_frame s u" for s t u
    by (simp add: edit_frame_def)
qed

section \<open>Staying within the source\<close>

definition sources_ok :: "timeline_project \<Rightarrow> bool" where
  "sources_ok p \<longleftrightarrow> (\<forall>c \<in> set (tpClips p). in_source c)"

lemma in_source_cong:
  "same_clip x c \<Longrightarrow> clDuration x = clDuration c \<Longrightarrow> clSourceStart x = clSourceStart c
   \<Longrightarrow> in_source c \<Longrightarrow> in_source x"
  by (simp add: in_source_def same_clip_def source_start_def source_length_def)

lemma in_source_split:
  assumes "in_source c" "clStart c < ms" "ms < clip_end c"
  shows "in_source (split_left c ms)" "in_source (split_right c ms)"
  using assms by (auto simp: in_source_def split_left_def split_right_def source_start_def
      source_length_def clip_end_def)

lemma in_source_subtitle: "in_source (subtitle_clip node t e)"
  by (simp add: in_source_def subtitle_clip_def source_start_def source_length_def)

lemma edit_step_sources: "edit_step b p q \<Longrightarrow> \<not> b \<Longrightarrow> sources_ok p \<Longrightarrow> sources_ok q"
proof (induction rule: edit_step.induct)
  case (moved c p x)
  then have "in_source x" by (auto simp: sources_ok_def intro: in_source_cong)
  with moved show ?case by (auto simp: sources_ok_def dest!: set_replace_clip)
next
  case (retitled c p x)
  then have "in_source x" by (auto simp: sources_ok_def intro: in_source_cong)
  with retitled show ?case by (auto simp: sources_ok_def dest!: set_replace_clip)
next
  case (trimmed c p x)
  then show ?case by (auto simp: sources_ok_def dest!: set_replace_clip)
next
  case (halved p us c vs ms)
  then show ?case by (auto simp: sources_ok_def in_source_split)
next
  case (rebuilt node t p es)
  then show ?case by (auto simp: sources_ok_def in_source_subtitle)
qed (auto simp: sources_ok_def without_clip_def)

lemma run_sources_ok:
  "run_all (apply_command BUILTIN_HANDLERS) p cmds = Inr q \<Longrightarrow>
   list_all (\<lambda>c. \<not> adds_clip (cmdOp c)) cmds \<Longrightarrow> sources_ok p \<Longrightarrow> sources_ok q"
proof (induction cmds arbitrary: p)
  case (Cons c cs)
  then obtain r where r: "apply_command BUILTIN_HANDLERS p c = Inr r"
      "run_all (apply_command BUILTIN_HANDLERS) r cs = Inr q" by (auto simp: bindE_Inr)
  with Cons.prems have "sources_ok r"
    by (intro edit_step_sources [OF apply_builtin_step [OF r(1)]]) auto
  with Cons r show ?case by simp
qed simp

section \<open>Cutting, adding, rebuilding, checking\<close>

lemma handleSplitClip_Inr:
  assumes "handleSplitClip p a = Inr q"
  obtains us c vs ms where "pSplitAt a = Some (Num ms)" "pId a = Some (clId c)"
    "tpClips p = us @ c # vs" "clId c \<notin> clId ` set us" "clStart c < ms" "ms < clip_end c"
    "q = withClips p (us @ [split_left c ms, split_right c ms] @ vs)"
proof -
  from assms obtain ms c where ms: "pSplitAt a = Some (Num ms)"
    and c: "findClipOrThrow ''splitClip'' p (pId a) = Inr c"
    and inside: "clStart c < ms" "ms < clip_end c"
    and q: "q = withClips p (splice_first (\<lambda>c. Some (clId c) = pId a)
      [split_left c ms, split_right c ms] (tpClips p))"
    by (auto simp: handleSplitClip_def bindE_Inr not_le edit_simps split: option.splits if_splits)
  from c have "find (\<lambda>c. Some (clId c) = pId a) (tpClips p) = Some c" by (simp add: edit_simps)
  from splice_first_split [OF this, of "[split_left c ms, split_right c ms]"]
  obtain us vs where clips: "tpClips p = us @ c # vs" and us: "\<forall>u \<in> set us. Some (clId u) \<noteq> pId a"
    and sp: "splice_first (\<lambda>c. Some (clId c) = pId a) [split_left c ms, split_right c ms] (tpClips p)
      = us @ [split_left c ms, split_right c ms] @ vs" by blast
  from findClip_InrD [OF c] have i: "pId a = Some (clId c)" by simp
  with us have "clId c \<notin> clId ` set us" by auto
  from that [OF ms i clips this inside q [unfolded sp]] show thesis .
qed

lemma validate_from_None:
  "validate_from r i p cs = None \<longleftrightarrow> (\<exists>q. run_all (apply_command r) p cs = Inr q)"
  by (induction cs arbitrary: i p) (auto split: sum.splits)

lemma validate_from_Some:
  "validate_from r i p cs = Some (j, op, e) \<longleftrightarrow> i \<le> j \<and> j - i < length cs \<and> op = cmdOp (cs ! (j - i))
   \<and> (\<exists>q. run_all (apply_command r) p (take (j - i) cs) = Inr q
          \<and> apply_command r q (cs ! (j - i)) = Inl e)"
proof (induction cs arbitrary: i p)
  case (Cons c cs)
  show ?case
  proof (cases "apply_command r p c")
    case (Inl e')
    have "(\<exists>q. run_all (apply_command r) p (take (j - i) (c # cs)) = Inr q) \<longleftrightarrow> j - i = 0"
      using Inl by (cases "j - i") simp_all
    then show ?thesis using Inl
      by (cases "j = i") (auto simp: not_le)
  next
    case (Inr q)
    then have "validate_from r i p (c # cs) = Some (j, op, e) \<longleftrightarrow>
        validate_from r (Suc i) q cs = Some (j, op, e)" by simp
    also have "\<dots> \<longleftrightarrow> Suc i \<le> j \<and> j - Suc i < length cs \<and> op = cmdOp (cs ! (j - Suc i))
        \<and> (\<exists>s. run_all (apply_command r) q (take (j - Suc i) cs) = Inr s
           \<and> apply_command r s (cs ! (j - Suc i)) = Inl e)" by (rule Cons.IH)
    also have "\<dots> \<longleftrightarrow> i \<le> j \<and> j - i < length (c # cs) \<and> op = cmdOp ((c # cs) ! (j - i))
        \<and> (\<exists>s. run_all (apply_command r) p (take (j - i) (c # cs)) = Inr s
           \<and> apply_command r s ((c # cs) ! (j - i)) = Inl e)"
    proof (cases "Suc i \<le> j")
      case True
      then have "j - i = Suc (j - Suc i)" by simp
      with True Inr show ?thesis by auto
    next
      case False
      then have "j - i = 0" by simp
      with False Inr show ?thesis by auto
    qed
    finally show ?thesis .
  qed
qed simp

section \<open>Properties\<close>

text \<open>C23: Whatever editor commands are accepted, in whatever order, every clip of the project has
  an id and a node, lies on an existing track, starts at or after zero and lasts longer than zero;
  the project lasts at least to the end of its last clip; track ids stay distinct; a kind that had a
  track still has one.\<close>

theorem edits_keep_project:
  assumes "project_ok p" "run_all (apply_command BUILTIN_HANDLERS) p cmds = Inr q"
  shows "project_ok q \<and> edit_frame p q"
  using editor.run_all_inv [OF assms] .

definition ex_track :: "string \<Rightarrow> track_kind \<Rightarrow> rat \<Rightarrow> timeline_track" where
  [js_defs]: "ex_track i k n = \<lparr> trId = js i, trKind = k, trLabel = js i, trOrder = n,
     trLocked = None, trVisible = None, trMuted = None \<rparr>"

definition ex_clip :: "string \<Rightarrow> string \<Rightarrow> rat \<Rightarrow> rat \<Rightarrow> timeline_clip" where
  [js_defs]: "ex_clip i t s d = \<lparr> clId = js i, clKind = VideoKind, clNode = js ''node'',
     clTrack = js t, clStart = s, clDuration = d, clTitle = None, clSourceStart = None,
     clSourceDuration = Some 10, clVolume = None, clFadeIn = None, clFadeOut = None,
     clEntryIndex = None, clText = None, clMedia = None \<rparr>"

definition ex_project :: timeline_project where
  [js_defs]: "ex_project = \<lparr> tpTracks = [ex_track ''video-1'' VideoKind 0, ex_track ''video-3'' VideoKind 1,
       ex_track ''subtitle-1'' SubtitleKind 2],
     tpClips = [ex_clip ''a'' ''video-1'' 0 8, ex_clip ''b'' ''video-3'' 2 4], tpDuration = 8,
     tpUpdatedAt = None \<rparr>"

definition ex_split :: edit_command where
  [js_defs]: "ex_split = \<lparr> cmdOp = js ''splitClip'', cmdPayload =
     empty_payload\<lparr>pId := Some (js ''a''), pSplitAt := Some (Num 3)\<rparr> \<rparr>"

definition ex_split_result :: timeline_project where
  "ex_split_result = ex_project\<lparr>tpClips := [ex_clip ''a'' ''video-1'' 0 3,
     (ex_clip ''a:split:3'' ''video-1'' 3 5)\<lparr>clSourceStart := Some 3\<rparr>,
     ex_clip ''b'' ''video-3'' 2 4]\<rparr>"

lemma ex_split_run: "run_all (apply_command BUILTIN_HANDLERS) ex_project [ex_split] = Inr ex_split_result"
  by code_simp

lemma ex_project_ok: "project_ok ex_project"
  by (simp add: project_ok_def clip_ok_def max_end_def clip_end_def ex_project_def ex_clip_def
      ex_track_def js_def)

theorem edits_keep_project_witness: "project_ok ex_split_result \<and> edit_frame ex_project ex_split_result"
  by (rule edits_keep_project [OF ex_project_ok ex_split_run])

text \<open>C24: Cutting a clip at a time strictly inside it puts two clips in its place that meet at that
  time, keep its ends and show the same source time at every moment, and changes nothing else but
  the recomputed length of the project.\<close>

theorem split_clip_exact:
  assumes "handleSplitClip p a = Inr q"
  shows "\<exists>us c vs l r ms. tpClips p = us @ c # vs \<and> Some (clId c) = pId a
    \<and> pSplitAt a = Some (Num ms) \<and> clStart c < ms \<and> ms < clip_end c
    \<and> tpClips q = us @ [l, r] @ vs
    \<and> clStart l = clStart c \<and> clip_end l = ms \<and> clStart r = ms \<and> clip_end r = clip_end c
    \<and> (\<forall>t. source_start l + (t - clStart l) = source_start c + (t - clStart c)
         \<and> source_start r + (t - clStart r) = source_start c + (t - clStart c))
    \<and> l = c\<lparr>clDuration := ms - clStart c\<rparr> \<and> same_clip (r\<lparr>clId := clId c\<rparr>) c
    \<and> tpTracks q = tpTracks p \<and> tpDuration q = max_end (tpClips q)"
proof -
  from assms obtain us c vs ms where h: "pSplitAt a = Some (Num ms)" "pId a = Some (clId c)"
    "tpClips p = us @ c # vs" "clId c \<notin> clId ` set us" "clStart c < ms" "ms < clip_end c"
    "q = withClips p (us @ [split_left c ms, split_right c ms] @ vs)"
    by (rule handleSplitClip_Inr)
  have "clip_end (split_left c ms) = ms" "clip_end (split_right c ms) = clip_end c"
    "clStart (split_left c ms) = clStart c" "clStart (split_right c ms) = ms"
    "\<forall>t. source_start (split_left c ms) + (t - clStart c) = source_start c + (t - clStart c)
       \<and> source_start (split_right c ms) + (t - ms) = source_start c + (t - clStart c)"
    "same_clip ((split_right c ms)\<lparr>clId := clId c\<rparr>) c"
    by (simp_all add: split_left_def split_right_def clip_end_def source_start_def same_clip_def)
  with h show ?thesis
    by (intro exI[of _ us] exI[of _ c] exI[of _ vs] exI[of _ "split_left c ms"]
        exI[of _ "split_right c ms"] exI[of _ ms]) (simp add: split_left_def)
qed

theorem split_clip_exact_witness:
  "\<exists>us c vs l r ms. tpClips ex_project = us @ c # vs \<and> tpClips ex_split_result = us @ [l, r] @ vs
     \<and> clip_end l = ms \<and> clStart r = ms \<and> clip_end r = clip_end c"
proof -
  have "handleSplitClip ex_project (cmdPayload ex_split) = Inr ex_split_result"
    by code_simp
  from split_clip_exact [OF this] show ?thesis by blast
qed

text \<open>As long as no command brings in a clip, every clip that lies within its source keeps
  lying within it: no trim, cut or move makes a clip show more than the source has.\<close>

theorem edits_stay_in_source:
  assumes "run_all (apply_command BUILTIN_HANDLERS) p cmds = Inr q"
    and "list_all (\<lambda>c. \<not> adds_clip (cmdOp c)) cmds"
    and "list_all in_source (tpClips p)"
  shows "list_all in_source (tpClips q)"
  using run_sources_ok [OF assms(1,2)] assms(3) by (simp add: sources_ok_def list_all_iff)

theorem edits_stay_in_source_witness: "list_all in_source (tpClips ex_split_result)"
proof (rule edits_stay_in_source [OF ex_split_run])
  show "list_all (\<lambda>c. \<not> adds_clip (cmdOp c)) [ex_split]"
    by (simp add: ex_split_def js_def)
  show "list_all in_source (tpClips ex_project)"
    by (simp add: in_source_def source_start_def source_length_def ex_project_def ex_clip_def)
qed

text \<open>Adding a track of a known kind always succeeds: the search for a free number ends, and
  the new track is above all others, under the first id \<open>kind-i\<close> past the number of tracks of that
  kind that no track has.\<close>

theorem add_track_total:
  assumes "kind_of_name (pKind a) = Some k"
  shows "\<exists>t i. handleAddTrack p a = Inr (p\<lparr>tpTracks := tpTracks p @ [t]\<rparr>) \<and> trKind t = k
    \<and> trId t = track_id_for k i \<and> trId t \<notin> track_ids p
    \<and> length (filter (\<lambda>u. trKind u = k) (tpTracks p)) < i
    \<and> (\<forall>j. length (filter (\<lambda>u. trKind u = k) (tpTracks p)) < j \<and> j < i
          \<longrightarrow> track_id_for k j \<in> track_ids p)
    \<and> list_all (\<lambda>u. trOrder u < trOrder t) (tpTracks p)"
proof -
  let ?ids = "map trId (tpTracks p)"
  let ?n = "length (filter (\<lambda>u. trKind u = k) (tpTracks p))"
  let ?i = "free_index k ?ids (?n + 1)"
  let ?t = "\<lparr> trId = track_id_for k ?i, trKind = k, trLabel = base_label k @ [32] @ dec (int ?i),
    trOrder = max_order (tpTracks p) + 1, trLocked = None, trVisible = None, trMuted = None \<rparr>"
  have "handleAddTrack p a = Inr (p\<lparr>tpTracks := tpTracks p @ [?t]\<rparr>)"
    by (simp add: handleAddTrack_def assms Let_def)
  moreover have "track_id_for k ?i \<notin> track_ids p"
    using free_index_free[of k ?ids "?n + 1"] by simp
  moreover have "?n < ?i"
    using free_index_first[of "?n + 1" k ?ids] by simp
  moreover have "\<forall>j. ?n < j \<and> j < ?i \<longrightarrow> track_id_for k j \<in> track_ids p"
    using free_index_first[of "?n + 1" k ?ids] by auto
  moreover have "list_all (\<lambda>u. trOrder u < max_order (tpTracks p) + 1) (tpTracks p)"
    by (auto simp: list_all_iff dest!: max_order_upper)
  ultimately show ?thesis by (intro exI[of _ ?t] exI[of _ ?i]) simp
qed

theorem add_track_total_witness:
  "\<exists>t. handleAddTrack ex_project (empty_payload\<lparr>pKind := Some (js ''video'')\<rparr>)
         = Inr (ex_project\<lparr>tpTracks := tpTracks ex_project @ [t]\<rparr>) \<and> trKind t = VideoKind"
proof -
  have "kind_of_name (pKind (empty_payload\<lparr>pKind := Some (js ''video'')\<rparr>)) = Some VideoKind"
    by code_simp
  from add_track_total [OF this, of ex_project] show ?thesis by blast
qed

lemma rebuild_other_clips:
  "filter (\<lambda>c. \<not> subtitle_of node c) (filter (\<lambda>c. \<not> subtitle_of node c) cs @ map (subtitle_clip node t) es)
   = filter (\<lambda>c. \<not> subtitle_of node c) cs"
  by (induction es) (simp_all add: subtitle_of_def subtitle_clip_def)

lemma rebuild_node_clips:
  "filter (subtitle_of node) (filter (\<lambda>c. \<not> subtitle_of node c) cs @ map (subtitle_clip node t) es)
   = map (subtitle_clip node t) es"
  by (induction es) (simp_all add: subtitle_of_def subtitle_clip_def)

lemma subtitle_track_cong: "tpTracks q = tpTracks p \<Longrightarrow> subtitle_track q i = subtitle_track p i"
  by (cases i) (simp_all add: subtitle_track_def findTrackOrThrow_def)

lemma withClips_withClips: "withClips (withClips p cs) ds = withClips p ds"
  by (simp add: withClips_def recomputeDurationMs_def)

text \<open>Rebuilding the subtitle clips of a node from its entries leaves exactly one clip per entry,
  in the order of the entries and with their times and texts, touches no other clip, and repeating
  it changes nothing.\<close>

theorem rebuild_subtitles_exact:
  assumes "handleRebuildSubtitleClips p a = Inr q"
  shows "handleRebuildSubtitleClips q a = Inr q \<and>
    (\<exists>node es t. pNode a = Some node \<and> pEntries a = Some es \<and> trKind t = SubtitleKind
      \<and> t \<in> set (tpTracks p)
      \<and> filter (subtitle_of node) (tpClips q) = map (subtitle_clip node (trId t)) es
      \<and> filter (\<lambda>c. \<not> subtitle_of node c) (tpClips q) = filter (\<lambda>c. \<not> subtitle_of node c) (tpClips p)
      \<and> distinct (map eIndex es))"
proof -
  from assms obtain node es u t where node: "pNode a = Some node" "node \<noteq> []"
    and es: "pEntries a = Some es" "assert_entries ''rebuildSubtitleClips'' [] es = Inr u"
    and t: "subtitle_track p (pTrackId a) = Inr t"
    and q: "q = withClips p (filter (\<lambda>c. \<not> subtitle_of node c) (tpClips p)
        @ map (subtitle_clip node (trId t)) es)"
    by (auto simp: handleRebuildSubtitleClips_def assertSubtitleEntries_def bindE_Inr
        split: option.splits if_splits)
  have "subtitle_track q (pTrackId a) = Inr t"
    using t subtitle_track_cong[of q p] by (simp add: q)
  then have "handleRebuildSubtitleClips q a = Inr q"
    using node es
    by (simp add: handleRebuildSubtitleClips_def assertSubtitleEntries_def q withClips_withClips
        rebuild_other_clips del: filter_append)
  moreover have "distinct (map eIndex es)" using assert_entries_Inr [OF es(2)] by simp
  moreover have "filter (subtitle_of node) (tpClips q) = map (subtitle_clip node (trId t)) es"
    "filter (\<lambda>c. \<not> subtitle_of node c) (tpClips q) = filter (\<lambda>c. \<not> subtitle_of node c) (tpClips p)"
    unfolding q withClips_simps by (rule rebuild_node_clips, rule rebuild_other_clips)
  ultimately show ?thesis using node(1) es(1) subtitle_track_Inr [OF t] by blast
qed

definition ex_rebuild :: edit_payload where
  [js_defs]: "ex_rebuild = empty_payload\<lparr>pNode := Some (js ''n''),
     pEntries := Some [\<lparr> eIndex = 1, eStart = 0, eEnd = 2, eText = js ''hi'' \<rparr>]\<rparr>"

theorem rebuild_subtitles_exact_witness:
  "\<exists>q. handleRebuildSubtitleClips ex_project ex_rebuild = Inr q
       \<and> handleRebuildSubtitleClips q ex_rebuild = Inr q \<and> length (tpClips q) = 3"
proof -
  let ?q = "ex_project\<lparr>tpClips := tpClips ex_project
    @ [subtitle_clip (js ''n'') (js ''subtitle-1'') \<lparr> eIndex = 1, eStart = 0, eEnd = 2, eText = js ''hi'' \<rparr>]\<rparr>"
  have run: "handleRebuildSubtitleClips ex_project ex_rebuild = Inr ?q"
    by code_simp
  from rebuild_subtitles_exact [OF run] have "handleRebuildSubtitleClips ?q ex_rebuild = Inr ?q" by blast
  with run show ?thesis by (intro exI[of _ ?q]) (simp add: ex_project_def)
qed

text \<open>C25: The dry run of a batch passes exactly when running the whole batch would; otherwise it
  names the first command that is rejected, with its position and its error, all before it having
  been accepted.\<close>

theorem batch_verdict:
  "(validateAiCommandBatch p cs = None \<longleftrightarrow> (\<exists>q. run_all (apply_command BUILTIN_HANDLERS) p cs = Inr q))
   \<and> (validateAiCommandBatch p cs = Some (i, op, e) \<longleftrightarrow> i < length cs \<and> op = cmdOp (cs ! i)
      \<and> (\<exists>q. run_all (apply_command BUILTIN_HANDLERS) p (take i cs) = Inr q
             \<and> apply_command BUILTIN_HANDLERS q (cs ! i) = Inl e))"
  unfolding validateAiCommandBatch_def by (simp add: validate_from_None validate_from_Some)

section \<open>Gaps\<close>

text \<open>Removing a track keeps the length of the project, although its longest clip may have gone with
  the track.\<close>

lemma remove_track_keeps_duration:
  "case handleRemoveTrack ex_project (empty_payload\<lparr>pTrackId := Some (js ''video-1'')\<rparr>) of
     Inl _ \<Rightarrow> False | Inr q \<Rightarrow> tpDuration q = 8 \<and> max_end (tpClips q) = 6"
  by code_simp

text \<open>A clip is accepted under an id that is taken, and moving it then overwrites the other one.\<close>

definition ex_twin :: "edit_command list" where
  [js_defs]: "ex_twin =
     [\<lparr> cmdOp = js ''addClip'', cmdPayload = empty_payload\<lparr>pClip := Some \<lparr> litStart = Num 20,
          litDuration = Num 1, litRest = ex_clip ''a'' ''video-3'' 0 0 \<rparr>\<rparr> \<rparr>,
      \<lparr> cmdOp = js ''moveClip'', cmdPayload = empty_payload\<lparr>pId := Some (js ''a''),
          pStart := Some (Num 9)\<rparr> \<rparr>]"

lemma duplicate_id_accepted:
  "case run_all (apply_command BUILTIN_HANDLERS) ex_project ex_twin of
     Inl _ \<Rightarrow> False
   | Inr q \<Rightarrow> tpClips q = [ex_clip ''a'' ''video-1'' 9 8, ex_clip ''b'' ''video-3'' 2 4,
                         ex_clip ''a'' ''video-1'' 9 8]"
  by code_simp

text \<open>A subtitle is accepted on a video track.\<close>

lemma subtitle_on_video_track:
  "case handleAddSubtitle ex_project (empty_payload\<lparr>pClip := Some \<lparr> litStart = Num 0,
       litDuration = Num 1, litRest = (ex_clip ''s'' ''video-1'' 0 0)\<lparr>clKind := SubtitleKind\<rparr> \<rparr>\<rparr>) of
     Inl _ \<Rightarrow> False
   | Inr q \<Rightarrow> map (\<lambda>c. (clKind c, clTrack c)) (drop 2 (tpClips q)) = [(SubtitleKind, js ''video-1'')]"
  by code_simp

end
