(* ===== verification/EditorStore.thy ===== *)
theory EditorStore
  imports EditorCommands
begin

text \<open>
  The undo history (\<open>web/src/lib/timeline/editor-history.ts\<close>) and the editor's state container
  (\<open>web/src/stores/editor/editor-store.ts\<close>) as a machine whose events are the calls of the
  store, the firing of the save timer and the settling of the save at the head of the chain. The
  save adapter is the caller's: \<open>hasSave\<close> says whether there is one, the event \<open>SaveSettles\<close> how a
  save ended, and the field \<open>esStored\<close> records the projects whose save succeeded, oldest first.
\<close>

section \<open>Undo history\<close>

definition HISTORY_LIMIT :: nat where
  [js_defs]: "HISTORY_LIMIT = 200"

record editor_history =
  hUndo :: "timeline_project list"
  hRedo :: "timeline_project list"
  hCurrent :: timeline_project

definition createEditorHistory :: "timeline_project \<Rightarrow> editor_history" where
  [js_defs]: "createEditorHistory p = \<lparr> hUndo = [], hRedo = [], hCurrent = p \<rparr>"

definition pushEditorHistory :: "editor_history \<Rightarrow> timeline_project \<Rightarrow> editor_history" where
  [js_defs]: "pushEditorHistory h p =
     (let undos = hUndo h @ [hCurrent h] in
      \<lparr> hUndo = (if HISTORY_LIMIT < length undos then tl undos else undos), hRedo = [],
        hCurrent = p \<rparr>)"

definition undoEditorHistory :: "editor_history \<Rightarrow> editor_history option" where
  [js_defs]: "undoEditorHistory h = (if hUndo h = [] then None else Some
     \<lparr> hUndo = butlast (hUndo h), hRedo = hRedo h @ [hCurrent h], hCurrent = last (hUndo h) \<rparr>)"

definition redoEditorHistory :: "editor_history \<Rightarrow> editor_history option" where
  [js_defs]: "redoEditorHistory h = (if hRedo h = [] then None else Some
     \<lparr> hUndo = hUndo h @ [hCurrent h], hRedo = butlast (hRedo h), hCurrent = last (hRedo h) \<rparr>)"

definition canUndo :: "editor_history \<Rightarrow> bool" where
  [js_defs]: "canUndo h \<longleftrightarrow> 0 < length (hUndo h)"

definition canRedo :: "editor_history \<Rightarrow> bool" where
  [js_defs]: "canRedo h \<longleftrightarrow> 0 < length (hRedo h)"

section \<open>The state of the store\<close>

datatype store_error = EditRejected edit_error | GestureActive | SaveFailed jstext

record editor_store =
  esProject :: "timeline_project option"
  esHistory :: "editor_history option"
  esPreview :: bool
  esDirty :: bool
  esSaving :: bool
  esError :: "store_error option"
  esSavedAt :: "int option"
  esSelected :: "jstext option"
  esTransport :: int
  esTimer :: bool
  esQueue :: "timeline_project list"
  esStored :: "timeline_project list"

definition init_store :: editor_store where
  [js_defs]: "init_store = \<lparr> esProject = None, esHistory = None, esPreview = False,
     esDirty = False, esSaving = False, esError = None, esSavedAt = None, esSelected = None,
     esTransport = 0, esTimer = False, esQueue = [], esStored = [] \<rparr>"

datatype store_event =
    SelectClip "jstext option"
  | SetTransportMs jsnum
  | LoadProject timeline_project
  | Dispatch edit_command
  | Undo
  | Redo
  | PreviewGesture edit_command
  | CommitGesture
  | CancelGesture
  | FlushSave
  | TimerFires
  | SaveSettles "jstext + int"

section \<open>Saving\<close>

text \<open>\<open>performSave\<close>: the project is taken now and saved when the chain gets to it.\<close>

definition performSave :: "editor_store \<Rightarrow> editor_store" where
  [js_defs]: "performSave s = (case esProject s of
     None \<Rightarrow> s
   | Some p \<Rightarrow> s\<lparr>esSaving := True, esQueue := esQueue s @ [p]\<rparr>)"

definition scheduleSave :: "bool \<Rightarrow> editor_store \<Rightarrow> editor_store" where
  [js_defs]: "scheduleSave hasSave s = (if hasSave then s\<lparr>esTimer := True\<rparr> else s)"

definition timer_fires :: "editor_store \<Rightarrow> editor_store" where
  [js_defs]: "timer_fires s = (if \<not> esTimer s then s
     else let t = s\<lparr>esTimer := False\<rparr> in if esDirty t then performSave t else t)"

definition save_settles :: "editor_store \<Rightarrow> jstext + int \<Rightarrow> editor_store" where
  [js_defs]: "save_settles s r = (case esQueue s of
     [] \<Rightarrow> s
   | p # ps \<Rightarrow> (case r of
       Inr now \<Rightarrow> s\<lparr>esQueue := ps, esStored := esStored s @ [p], esSaving := False,
                    esDirty := False, esError := None, esSavedAt := Some now\<rparr>
     | Inl err \<Rightarrow> s\<lparr>esQueue := ps, esSaving := False, esDirty := True,
                    esError := Some (SaveFailed err)\<rparr>))"

definition flushSave :: "bool \<Rightarrow> editor_store \<Rightarrow> editor_store" where
  [js_defs]: "flushSave hasSave s = (let t = s\<lparr>esTimer := False\<rparr> in
     if esDirty t \<and> hasSave then performSave t else t)"

section \<open>The calls of the store\<close>

definition setTransportMs :: "jsnum \<Rightarrow> editor_store \<Rightarrow> editor_store" where
  [js_defs]: "setTransportMs v s = s\<lparr>esTransport :=
     (case finite_number (Some v) of Some q \<Rightarrow> max 0 \<lfloor>q + 1 / 2\<rfloor> | None \<Rightarrow> 0)\<rparr>"

definition loadProject :: "timeline_project \<Rightarrow> editor_store \<Rightarrow> editor_store" where
  [js_defs]: "loadProject p s = s\<lparr>esTimer := False, esProject := Some p,
     esHistory := Some (createEditorHistory p), esPreview := False, esDirty := False,
     esSaving := False, esError := None, esSavedAt := None, esSelected := None, esTransport := 0\<rparr>"

definition dispatchCommand ::
    "command_registry \<Rightarrow> bool \<Rightarrow> edit_command \<Rightarrow> editor_store \<Rightarrow> editor_store" where
  [js_defs]: "dispatchCommand reg hasSave cmd s = (case (esProject s, esHistory s) of
     (Some p, Some h) \<Rightarrow>
       if esPreview s then s\<lparr>esError := Some GestureActive\<rparr>
       else (case apply_command reg p cmd of
           Inl e \<Rightarrow> s\<lparr>esError := Some (EditRejected e)\<rparr>
         | Inr q \<Rightarrow> scheduleSave hasSave (s\<lparr>esProject := Some q,
             esHistory := Some (pushEditorHistory h q), esDirty := True, esError := None\<rparr>))
   | _ \<Rightarrow> s)"

text \<open>\<open>undo\<close> and \<open>redo\<close> differ in the move of the history only.\<close>

definition travel ::
    "(editor_history \<Rightarrow> editor_history option) \<Rightarrow> bool \<Rightarrow> editor_store \<Rightarrow> editor_store" where
  [js_defs]: "travel move hasSave s = (case (esProject s, esHistory s) of
     (Some p, Some h) \<Rightarrow>
       if esPreview s then s
       else (case move h of
           None \<Rightarrow> s
         | Some g \<Rightarrow> scheduleSave hasSave (s\<lparr>esProject := Some (hCurrent g),
             esHistory := Some g, esDirty := True\<rparr>))
   | _ \<Rightarrow> s)"

definition undoEdit :: "bool \<Rightarrow> editor_store \<Rightarrow> editor_store" where
  [js_defs]: "undoEdit = travel undoEditorHistory"

definition redoEdit :: "bool \<Rightarrow> editor_store \<Rightarrow> editor_store" where
  [js_defs]: "redoEdit = travel redoEditorHistory"

definition previewGesture :: "command_registry \<Rightarrow> edit_command \<Rightarrow> editor_store \<Rightarrow> editor_store" where
  [js_defs]: "previewGesture reg cmd s = (case (esProject s, esHistory s) of
     (Some p, Some h) \<Rightarrow> (case apply_command reg p cmd of
         Inl e \<Rightarrow> s\<lparr>esError := Some (EditRejected e)\<rparr>
       | Inr q \<Rightarrow> s\<lparr>esProject := Some q, esPreview := True\<rparr>)
   | _ \<Rightarrow> s)"

definition commitGesture :: "bool \<Rightarrow> editor_store \<Rightarrow> editor_store" where
  [js_defs]: "commitGesture hasSave s = (case (esProject s, esHistory s) of
     (Some p, Some h) \<Rightarrow>
       if \<not> esPreview s then s
       else scheduleSave hasSave (s\<lparr>esHistory := Some (pushEditorHistory h p), esPreview := False,
              esDirty := True, esError := None\<rparr>)
   | _ \<Rightarrow> s)"

definition cancelGesture :: "editor_store \<Rightarrow> editor_store" where
  [js_defs]: "cancelGesture s = (case esHistory s of
     None \<Rightarrow> s
   | Some h \<Rightarrow> if \<not> esPreview s then s
              else s\<lparr>esProject := Some (hCurrent h), esPreview := False\<rparr>)"

fun store_step :: "command_registry \<Rightarrow> bool \<Rightarrow> editor_store \<Rightarrow> store_event \<Rightarrow> editor_store" where
  "store_step reg b s (SelectClip i) = s\<lparr>esSelected := i\<rparr>"
| "store_step reg b s (SetTransportMs v) = setTransportMs v s"
| "store_step reg b s (LoadProject p) = loadProject p s"
| "store_step reg b s (Dispatch cmd) = dispatchCommand reg b cmd s"
| "store_step reg b s Undo = undoEdit b s"
| "store_step reg b s Redo = redoEdit b s"
| "store_step reg b s (PreviewGesture cmd) = previewGesture reg cmd s"
| "store_step reg b s CommitGesture = commitGesture b s"
| "store_step reg b s CancelGesture = cancelGesture s"
| "store_step reg b s FlushSave = flushSave b s"
| "store_step reg b s TimerFires = timer_fires s"
| "store_step reg b s (SaveSettles r) = save_settles s r"

definition editor_run :: "command_registry \<Rightarrow> bool \<Rightarrow> editor_store \<Rightarrow> store_event list \<Rightarrow> editor_store" where
  "editor_run reg b s evs = foldl (store_step reg b) s evs"

end
