(* ===== verification/EditorStoreClaims.thy ===== *)
theory EditorStoreClaims
  imports EditorStore EditorCommandsClaims
begin

text \<open>
  The undo history refines a list of states with a cursor; the editor's store keeps its
  project and its history together, gestures are all or nothing, and what is dirty gets saved when
  nobody edits in between.
\<close>

section \<open>The history is a list with a cursor\<close>

text \<open>The abstract history: every state that undo and redo can reach, oldest first, and the place of
  the current one.\<close>

definition abs_history :: "editor_history \<Rightarrow> timeline_project list \<times> nat" where
  "abs_history h = (hUndo h @ hCurrent h # rev (hRedo h), length (hUndo h))"

fun spec_push :: "timeline_project \<Rightarrow> timeline_project list \<times> nat \<Rightarrow> timeline_project list \<times> nat" where
  "spec_push p (xs, i) = (let ys = take (Suc i) xs @ [p] in
     if HISTORY_LIMIT \<le> i then (tl ys, i) else (ys, Suc i))"

fun spec_undo :: "timeline_project list \<times> nat \<Rightarrow> (timeline_project list \<times> nat) option" where
  "spec_undo (xs, 0) = None"
| "spec_undo (xs, Suc i) = Some (xs, i)"

fun spec_redo :: "timeline_project list \<times> nat \<Rightarrow> (timeline_project list \<times> nat) option" where
  "spec_redo (xs, i) = (if Suc i < length xs then Some (xs, Suc i) else None)"

lemma abs_push:
  assumes "length (hUndo h) \<le> HISTORY_LIMIT"
  shows "abs_history (pushEditorHistory h p) = spec_push p (abs_history h)"
  using assms by (cases "hUndo h") (auto simp: abs_history_def pushEditorHistory_def Let_def)

lemma abs_undo: "map_option abs_history (undoEditorHistory h) = spec_undo (abs_history h)"
proof (cases "hUndo h" rule: rev_cases)
  case Nil
  then show ?thesis by (simp add: abs_history_def undoEditorHistory_def)
next
  case (snoc us u)
  then show ?thesis by (simp add: abs_history_def undoEditorHistory_def)
qed

lemma abs_redo: "map_option abs_history (redoEditorHistory h) = spec_redo (abs_history h)"
proof (cases "hRedo h" rule: rev_cases)
  case Nil
  then show ?thesis by (simp add: abs_history_def redoEditorHistory_def)
next
  case (snoc rs r)
  then show ?thesis by (simp add: abs_history_def redoEditorHistory_def)
qed

section \<open>The invariant of the store\<close>

definition history_ok :: "editor_history \<Rightarrow> bool" where
  "history_ok h \<longleftrightarrow> length (hUndo h) + length (hRedo h) \<le> HISTORY_LIMIT
     \<and> (\<forall>p \<in> set (hUndo h) \<union> set (hRedo h) \<union> {hCurrent h}. project_ok p)"

definition store_ok :: "editor_store \<Rightarrow> bool" where
  "store_ok s = (case (esProject s, esHistory s) of
     (None, None) \<Rightarrow> \<not> esPreview s
   | (Some p, Some h) \<Rightarrow> project_ok p \<and> history_ok h \<and> (\<not> esPreview s \<longrightarrow> p = hCurrent h)
   | _ \<Rightarrow> False)"

fun event_ok :: "store_event \<Rightarrow> bool" where
  "event_ok (LoadProject p) = project_ok p"
| "event_ok _ = True"

lemma hCurrent_push [simp]: "hCurrent (pushEditorHistory h p) = p"
  by (simp add: pushEditorHistory_def Let_def)

lemma history_ok_push: "history_ok h \<Longrightarrow> project_ok p \<Longrightarrow> history_ok (pushEditorHistory h p)"
  by (cases "hUndo h") (auto simp: history_ok_def pushEditorHistory_def Let_def)

lemma history_ok_undo: "history_ok h \<Longrightarrow> undoEditorHistory h = Some g \<Longrightarrow> history_ok g"
  by (cases "hUndo h" rule: rev_cases)
     (auto simp: history_ok_def undoEditorHistory_def split: if_splits)

lemma history_ok_redo: "history_ok h \<Longrightarrow> redoEditorHistory h = Some g \<Longrightarrow> history_ok g"
  by (cases "hRedo h" rule: rev_cases)
     (auto simp: history_ok_def redoEditorHistory_def split: if_splits)

lemma store_ok_cases:
  assumes "store_ok s"
  obtains "esProject s = None" "esHistory s = None" "\<not> esPreview s"
  | p h where "esProject s = Some p" "esHistory s = Some h" "project_ok p" "history_ok h"
      "\<not> esPreview s \<Longrightarrow> p = hCurrent h"
  using assms by (cases "esProject s"; cases "esHistory s") (auto simp: store_ok_def)

lemma store_ok_frame:
  "store_ok s \<Longrightarrow> esProject t = esProject s \<Longrightarrow> esHistory t = esHistory s \<Longrightarrow> esPreview t = esPreview s
   \<Longrightarrow> store_ok t"
  by (cases "esProject s"; cases "esHistory s") (simp_all add: store_ok_def)

named_theorems saving_simps \<open>what saving leaves alone\<close>

lemma scheduleSave_simps [saving_simps]:
  "esProject (scheduleSave b s) = esProject s" "esHistory (scheduleSave b s) = esHistory s"
  "esPreview (scheduleSave b s) = esPreview s" "esDirty (scheduleSave b s) = esDirty s"
  "esQueue (scheduleSave b s) = esQueue s" "esStored (scheduleSave b s) = esStored s"
  by (simp_all add: scheduleSave_def)

lemma performSave_simps [saving_simps]:
  "esProject (performSave s) = esProject s" "esHistory (performSave s) = esHistory s"
  "esPreview (performSave s) = esPreview s" "esDirty (performSave s) = esDirty s"
  by (simp_all add: performSave_def split: option.splits)

lemma flushSave_simps [saving_simps]:
  "esProject (flushSave b s) = esProject s" "esHistory (flushSave b s) = esHistory s"
  "esPreview (flushSave b s) = esPreview s"
  by (simp_all add: flushSave_def Let_def saving_simps)

lemma timer_fires_simps [saving_simps]:
  "esProject (timer_fires s) = esProject s" "esHistory (timer_fires s) = esHistory s"
  "esPreview (timer_fires s) = esPreview s"
  by (simp_all add: timer_fires_def Let_def saving_simps)

lemma save_settles_simps [saving_simps]:
  "esProject (save_settles s r) = esProject s" "esHistory (save_settles s r) = esHistory s"
  "esPreview (save_settles s r) = esPreview s"
  by (simp_all add: save_settles_def split: list.splits sum.splits)

lemma store_ok_dispatch: "store_ok s \<Longrightarrow> store_ok (dispatchCommand BUILTIN_HANDLERS b cmd s)"
proof (erule store_ok_cases)
  fix p h assume h: "esProject s = Some p" "esHistory s = Some h" "project_ok p" "history_ok h"
    and p: "\<not> esPreview s \<Longrightarrow> p = hCurrent h"
  show ?thesis
  proof (cases "esPreview s \<or> (\<exists>e. apply_command BUILTIN_HANDLERS p cmd = Inl e)")
    case True
    with h p show ?thesis by (auto simp: dispatchCommand_def store_ok_def)
  next
    case False
    then obtain q where q: "apply_command BUILTIN_HANDLERS p cmd = Inr q" "\<not> esPreview s"
      by (cases "apply_command BUILTIN_HANDLERS p cmd") auto
    from editor.inv_step [OF h(3) q(1)] h q show ?thesis
      by (simp add: dispatchCommand_def store_ok_def saving_simps history_ok_push)
  qed
qed (simp add: dispatchCommand_def store_ok_def)

lemma store_ok_travel:
  assumes "store_ok s" "\<And>h g. history_ok h \<Longrightarrow> move h = Some g \<Longrightarrow> history_ok g"
  shows "store_ok (travel move b s)"
  using assms(1)
proof (rule store_ok_cases)
  fix p h assume h: "esProject s = Some p" "esHistory s = Some h" "project_ok p" "history_ok h"
    and p: "\<not> esPreview s \<Longrightarrow> p = hCurrent h"
  show ?thesis
  proof (cases "esPreview s \<or> move h = None")
    case True
    with h p show ?thesis by (auto simp: travel_def store_ok_def)
  next
    case False
    then obtain g where g: "move h = Some g" "\<not> esPreview s" by auto
    with h assms(2) have "history_ok g" by blast
    with h g show ?thesis
      by (simp add: travel_def store_ok_def saving_simps) (simp add: history_ok_def)
  qed
qed (simp add: travel_def store_ok_def)

lemma store_ok_preview: "store_ok s \<Longrightarrow> store_ok (previewGesture BUILTIN_HANDLERS cmd s)"
proof (erule store_ok_cases)
  fix p h assume h: "esProject s = Some p" "esHistory s = Some h" "project_ok p" "history_ok h"
    and p: "\<not> esPreview s \<Longrightarrow> p = hCurrent h"
  show ?thesis
  proof (cases "apply_command BUILTIN_HANDLERS p cmd")
    case (Inl e)
    with h p show ?thesis by (simp add: previewGesture_def store_ok_def)
  next
    case (Inr q)
    from editor.inv_step [OF h(3) Inr] h Inr show ?thesis by (simp add: previewGesture_def store_ok_def)
  qed
qed (simp add: previewGesture_def store_ok_def)

lemma store_ok_step: "store_ok s \<Longrightarrow> event_ok ev \<Longrightarrow> store_ok (store_step BUILTIN_HANDLERS b s ev)"
proof (cases ev)
  case (LoadProject p)
  moreover assume "event_ok ev"
  ultimately show ?thesis
    by (simp add: loadProject_def store_ok_def createEditorHistory_def history_ok_def)
next
  case CommitGesture
  assume "store_ok s"
  then show ?thesis unfolding CommitGesture
    by (rule store_ok_cases)
       (auto simp: commitGesture_def store_ok_def saving_simps history_ok_push)
next
  case CancelGesture
  assume "store_ok s"
  then show ?thesis unfolding CancelGesture
    by (rule store_ok_cases) (auto simp: cancelGesture_def store_ok_def history_ok_def)
qed (auto simp: undoEdit_def redoEdit_def setTransportMs_def saving_simps
      intro: store_ok_dispatch store_ok_travel store_ok_preview history_ok_undo history_ok_redo
        store_ok_frame)

lemma editor_run_simps [simp]:
  "editor_run reg b s [] = s"
  "editor_run reg b s (ev # evs) = editor_run reg b (store_step reg b s ev) evs"
  by (simp_all add: editor_run_def)

lemma store_ok_run:
  "store_ok s \<Longrightarrow> list_all event_ok evs \<Longrightarrow> store_ok (editor_run BUILTIN_HANDLERS b s evs)"
  by (induction evs arbitrary: s) (auto intro: store_ok_step)

lemma editor_run_append: "editor_run reg b s (xs @ ys) = editor_run reg b (editor_run reg b s xs) ys"
  by (simp add: editor_run_def)

section \<open>Gestures\<close>

fun ends_gesture :: "store_event \<Rightarrow> bool" where
  "ends_gesture (LoadProject p) = True"
| "ends_gesture CommitGesture = True"
| "ends_gesture CancelGesture = True"
| "ends_gesture _ = False"

lemma gesture_step:
  assumes "esPreview s" "\<not> ends_gesture ev"
  shows "esPreview (store_step reg b s ev) \<and> esHistory (store_step reg b s ev) = esHistory s"
  using assms
  by (cases ev) (auto simp: saving_simps setTransportMs_def dispatchCommand_def undoEdit_def
      redoEdit_def travel_def previewGesture_def split: option.splits sum.splits)

lemma gesture_run:
  "esPreview s \<Longrightarrow> list_all (\<lambda>ev. \<not> ends_gesture ev) evs \<Longrightarrow>
   esPreview (editor_run reg b s evs) \<and> esHistory (editor_run reg b s evs) = esHistory s"
  by (induction evs arbitrary: s) (auto dest: gesture_step [where reg = reg and b = b])

lemma preview_history: "esHistory (previewGesture reg cmd s) = esHistory s"
  by (simp add: previewGesture_def split: option.splits sum.splits)

lemma undo_push:
  "length (hUndo h) \<le> HISTORY_LIMIT \<Longrightarrow>
   \<exists>g. undoEditorHistory (pushEditorHistory h p) = Some g \<and> hCurrent g = hCurrent h \<and> hRedo g = [p]"
  by (cases "hUndo h") (auto simp: undoEditorHistory_def pushEditorHistory_def Let_def HISTORY_LIMIT_def)

lemma redo_single:
  "hRedo g = [p] \<Longrightarrow> \<exists>k. redoEditorHistory g = Some k \<and> hCurrent k = p"
  by (simp add: redoEditorHistory_def)

section \<open>Saving\<close>

text \<open>Events that do not touch the project: looking around, saving, and saves that succeed.\<close>

fun quiet :: "store_event \<Rightarrow> bool" where
  "quiet (SelectClip i) = True"
| "quiet (SetTransportMs v) = True"
| "quiet FlushSave = True"
| "quiet TimerFires = True"
| "quiet (SaveSettles r) = (\<exists>now. r = Inr now)"
| "quiet _ = False"

fun ends_save :: "store_event \<Rightarrow> bool" where
  "ends_save (SaveSettles r) = True"
| "ends_save _ = False"

text \<open>The edit \<open>q\<close> waits to be written, or it is written last: behind what was \<open>base\<close>, as often as it
  was saved.\<close>

definition edit_waits :: "timeline_project \<Rightarrow> editor_store \<Rightarrow> bool" where
  "edit_waits q s \<longleftrightarrow> esProject s = Some q \<and> esDirty s \<and> esTimer s \<and> esError s = None"

definition edit_written :: "timeline_project \<Rightarrow> timeline_project list \<Rightarrow> editor_store \<Rightarrow> bool" where
  "edit_written q base s \<longleftrightarrow> esProject s = Some q \<and> esError s = None
     \<and> (\<exists>k. esStored s @ esQueue s = base @ replicate (Suc k) q)
     \<and> (esQueue s = [] \<longrightarrow> \<not> esDirty s \<and> \<not> esSaving s)"

lemma written_again: "base @ replicate (Suc k) q @ [q] = base @ replicate (Suc (Suc k)) q"
  by (simp add: replicate_append_same)

lemma written_performSave:
  assumes "edit_written q base s"
  shows "edit_written q base (performSave s)"
proof -
  from assms obtain k where "esStored s @ esQueue s = base @ replicate (Suc k) q" by (auto simp: edit_written_def)
  then have "esStored s @ esQueue s @ [q] = base @ replicate (Suc (Suc k)) q"
    using written_again[of base k q] by (metis append_assoc)
  with assms show ?thesis
    unfolding edit_written_def by (intro conjI exI[of _ "Suc k"]) (auto simp: performSave_def)
qed

lemma written_settles:
  assumes "edit_written q base s"
  shows "edit_written q base (save_settles s (Inr now))"
  using assms by (cases "esQueue s") (auto simp: edit_written_def save_settles_def)

lemma written_timer: "edit_written q base s \<Longrightarrow> edit_written q base (s\<lparr>esTimer := b\<rparr>)"
  by (simp add: edit_written_def)

lemma written_step:
  assumes "edit_written q base s" "quiet ev"
  shows "edit_written q base (store_step reg True s ev)"
proof (cases ev)
  case FlushSave
  with written_performSave[OF written_timer] written_timer assms(1) show ?thesis
    by (simp add: flushSave_def Let_def)
next
  case TimerFires
  with written_performSave[OF written_timer] written_timer assms(1) show ?thesis
    by (simp add: timer_fires_def Let_def)
next
  case (SaveSettles r)
  with written_settles assms show ?thesis by auto
qed (use assms in \<open>auto simp: edit_written_def setTransportMs_def\<close>)

lemma written_run:
  "edit_written q base s \<Longrightarrow> list_all quiet evs \<Longrightarrow> edit_written q base (editor_run reg True s evs)"
  by (induction evs arbitrary: s) (auto intro: written_step)

lemma waits_step:
  assumes "edit_waits q s" "quiet ev" "esStored s @ esQueue s = base" "esQueue s = [] \<or> \<not> ends_save ev"
  shows "edit_written q base (store_step reg True s ev)
    \<or> ev \<noteq> FlushSave \<and> ev \<noteq> TimerFires \<and> edit_waits q (store_step reg True s ev)
      \<and> esStored (store_step reg True s ev) @ esQueue (store_step reg True s ev) = base
      \<and> esQueue (store_step reg True s ev) = esQueue s"
proof -
  have now: "edit_written q base (performSave (s\<lparr>esTimer := False\<rparr>))"
    using assms(1,3) by (auto simp: edit_waits_def edit_written_def performSave_def intro!: exI[of _ 0])
  with assms show ?thesis
    by (cases ev) (auto simp: edit_waits_def flushSave_def timer_fires_def save_settles_def setTransportMs_def Let_def)
qed

lemma waits_run:
  assumes "edit_waits q s" "esStored s @ esQueue s = base" "list_all quiet (pre @ w # post)"
    and "w = TimerFires \<or> w = FlushSave" "esQueue s = [] \<or> list_all (\<lambda>ev. \<not> ends_save ev) pre"
  shows "edit_written q base (editor_run reg True s (pre @ w # post))"
  using assms
proof (induction pre arbitrary: s)
  case Nil
  then have "edit_written q base (store_step reg True s w)"
    using waits_step[of q s w base reg] by auto
  with Nil.prems(3) written_run show ?case by simp
next
  case (Cons ev pre)
  then consider (written) "edit_written q base (store_step reg True s ev)"
    | (waits) "edit_waits q (store_step reg True s ev)"
      "esStored (store_step reg True s ev) @ esQueue (store_step reg True s ev) = base"
      "esQueue (store_step reg True s ev) = esQueue s"
    using waits_step[of q s ev base reg] by auto
  then show ?case
  proof cases
    case written
    with Cons.prems(3) written_run[of q base "store_step reg True s ev" "pre @ w # post" reg] show ?thesis by simp
  next
    case waits
    with Cons.IH[of "store_step reg True s ev"] Cons.prems show ?thesis by auto
  qed
qed

section \<open>Properties\<close>

text \<open>C26: The undo history is a list of states with a cursor: a new state cuts what lay ahead and, past
  two hundred, drops the oldest; undo and redo move the cursor and fail exactly at the two ends; the
  current state is the one under the cursor.\<close>

theorem history_refines_cursor:
  assumes "length (hUndo h) \<le> HISTORY_LIMIT"
  shows "abs_history (pushEditorHistory h p) = spec_push p (abs_history h)
    \<and> map_option abs_history (undoEditorHistory h) = spec_undo (abs_history h)
    \<and> map_option abs_history (redoEditorHistory h) = spec_redo (abs_history h)
    \<and> hCurrent h = fst (abs_history h) ! snd (abs_history h)"
  using abs_push [OF assms] abs_undo abs_redo by (simp add: abs_history_def)

theorem history_refines_cursor_witness:
  "abs_history (pushEditorHistory (createEditorHistory ex_project) ex_split_result)
   = ([ex_project, ex_split_result], 1)"
  using history_refines_cursor [of "createEditorHistory ex_project" ex_split_result]
  by (simp add: createEditorHistory_def abs_history_def HISTORY_LIMIT_def)

text \<open>C27: Whatever is called and whenever saves settle, the store has a project exactly when it has a
  history, shows the current state of the history unless a gesture is under way, holds only valid
  projects, and never more than two hundred states to undo or redo to.\<close>

theorem store_stays_consistent:
  assumes "list_all event_ok evs"
  shows "store_ok (editor_run BUILTIN_HANDLERS b init_store evs)"
  using assms by (intro store_ok_run) (simp add: store_ok_def init_store_def)

theorem store_stays_consistent_witness:
  "store_ok (editor_run BUILTIN_HANDLERS True init_store [LoadProject ex_project, Dispatch ex_split, Undo])"
  by (rule store_stays_consistent) (simp add: ex_project_ok)

text \<open>C28: A gesture is all or nothing: from its first frame on, no call but the end of the gesture
  touches the history, cancelling brings back the project from before the gesture, and after a commit
  one undo does, and one redo brings the result of the gesture back.\<close>

theorem gesture_all_or_nothing:
  assumes "store_ok s" "\<not> esPreview s" "esProject s = Some p"
    and "esPreview (store_step BUILTIN_HANDLERS b s (PreviewGesture cmd))"
    and "list_all (\<lambda>ev. \<not> ends_gesture ev) evs"
  shows "let t = editor_run BUILTIN_HANDLERS b s (PreviewGesture cmd # evs) in
    esHistory t = esHistory s
    \<and> esProject (store_step BUILTIN_HANDLERS b t CancelGesture) = Some p
    \<and> esProject (editor_run BUILTIN_HANDLERS b t [CommitGesture, Undo]) = Some p
    \<and> esProject (editor_run BUILTIN_HANDLERS b t [CommitGesture, Undo, Redo]) = esProject t"
proof -
  define t where "t = editor_run BUILTIN_HANDLERS b s (PreviewGesture cmd # evs)"
  from assms obtain h where h: "esHistory s = Some h" "history_ok h" "p = hCurrent h"
    by (auto simp: store_ok_def split: option.splits)
  have pre: "esPreview t" and hist: "esHistory t = Some h"
    using gesture_run [OF assms(4,5), where reg = BUILTIN_HANDLERS and b = b] h
    by (simp_all add: t_def preview_history)
  have cancel: "esProject (cancelGesture t) = Some p"
    using pre hist h(3) by (simp add: cancelGesture_def)
  have "store_ok t"
    unfolding t_def editor_run_simps
    by (rule store_ok_run, rule store_ok_step [OF assms(1)], simp)
       (use assms(5) pre in \<open>auto simp: list_all_iff elim!: ends_gesture.elims event_ok.elims\<close>)
  then obtain r where r: "esProject t = Some r"
    using hist by (auto simp: store_ok_def split: option.splits)
  from h(2) have "length (hUndo h) \<le> HISTORY_LIMIT" by (simp add: history_ok_def)
  from undo_push [OF this, of r] obtain g where g: "undoEditorHistory (pushEditorHistory h r) = Some g"
    "hCurrent g = hCurrent h" "hRedo g = [r]" by blast
  from redo_single [OF g(3)] obtain k where k: "redoEditorHistory g = Some k" "hCurrent k = r" by blast
  have commit: "esProject (commitGesture b t) = Some r" "\<not> esPreview (commitGesture b t)"
    "esHistory (commitGesture b t) = Some (pushEditorHistory h r)"
    using pre hist r by (simp_all add: commitGesture_def saving_simps)
  then have undo: "esProject (undoEdit b (commitGesture b t)) = Some p"
    "\<not> esPreview (undoEdit b (commitGesture b t))"
    "esHistory (undoEdit b (commitGesture b t)) = Some g"
    using g h(3) by (simp_all add: undoEdit_def travel_def saving_simps)
  then have "esProject (redoEdit b (undoEdit b (commitGesture b t))) = Some r"
    using k by (simp add: redoEdit_def travel_def saving_simps)
  with cancel undo hist h r show ?thesis unfolding Let_def t_def [symmetric] by simp
qed

definition ex_drag :: "rat \<Rightarrow> edit_command" where
  [js_defs]: "ex_drag x = \<lparr> cmdOp = js ''moveClip'', cmdPayload =
     empty_payload\<lparr>pId := Some (js ''b''), pStart := Some (Num x)\<rparr> \<rparr>"

definition ex_loaded :: editor_store where
  [js_defs]: "ex_loaded = store_step BUILTIN_HANDLERS True init_store (LoadProject ex_project)"

lemma ex_loaded_ok: "store_ok ex_loaded"
  unfolding ex_loaded_def
proof (rule store_ok_step)
  show "store_ok init_store" by (simp add: store_ok_def init_store_def)
qed (simp add: ex_project_ok)

theorem gesture_all_or_nothing_witness:
  "esProject (store_step BUILTIN_HANDLERS True (editor_run BUILTIN_HANDLERS True ex_loaded
     [PreviewGesture (ex_drag 5), PreviewGesture (ex_drag 7), FlushSave]) CancelGesture) = Some ex_project"
proof -
  have "\<not> esPreview ex_loaded" "esProject ex_loaded = Some ex_project"
    by (simp_all add: ex_loaded_def loadProject_def)
  moreover have "esPreview (store_step BUILTIN_HANDLERS True ex_loaded (PreviewGesture (ex_drag 5)))"
    by code_simp
  moreover have "list_all (\<lambda>ev. \<not> ends_gesture ev) [PreviewGesture (ex_drag 7), FlushSave]" by simp
  ultimately show ?thesis
    using gesture_all_or_nothing [OF ex_loaded_ok] unfolding Let_def by blast
qed

text \<open>C29: A command accepted outside a gesture, in a store with a save function, is saved if nobody edits in between and no save that was under way ends
  before the timer or a flush has started the save of the command. Whatever else happens then, in any
  order, once all saves under way have succeeded the store is clean and the projects written are those
  that were under way, in their order, and after them nothing but the project the command made.
  (\<open>edit_during_save_lost\<close> shows why a save must not end earlier.)\<close>

theorem edit_reaches_storage:
  assumes "store_ok s" "\<not> esPreview s" "esProject s = Some p"
    and "apply_command BUILTIN_HANDLERS p cmd = Inr q"
    and "list_all quiet (pre @ w # post)" "w = TimerFires \<or> w = FlushSave"
    and "esQueue s = [] \<or> list_all (\<lambda>ev. \<not> ends_save ev) pre"
    and "t = editor_run BUILTIN_HANDLERS True s (Dispatch cmd # pre @ w # post)" "esQueue t = []"
  shows "(\<exists>k. esStored t = esStored s @ esQueue s @ replicate (Suc k) q) \<and> esProject t = Some q
    \<and> \<not> esDirty t \<and> \<not> esSaving t \<and> esError t = None"
proof -
  from assms(1,3) obtain h where h: "esHistory s = Some h" by (auto simp: store_ok_def split: option.splits)
  define u where "u = dispatchCommand BUILTIN_HANDLERS True cmd s"
  have "edit_waits q u" "esStored u @ esQueue u = esStored s @ esQueue s" "esQueue u = esQueue s"
    using assms(2-4) h by (simp_all add: u_def dispatchCommand_def scheduleSave_def edit_waits_def)
  then have "edit_written q (esStored s @ esQueue s) (editor_run BUILTIN_HANDLERS True u (pre @ w # post))"
    by (intro waits_run) (use assms(5-7) in auto)
  then have "edit_written q (esStored s @ esQueue s) t"
    by (simp add: assms(8) u_def)
  with assms(9) show ?thesis by (simp add: edit_written_def)
qed

definition ex_saving :: editor_store where
  "ex_saving = editor_run BUILTIN_HANDLERS True ex_loaded [Dispatch (ex_drag 3), TimerFires]"

definition ex_moved :: timeline_project where
  "ex_moved = the (esProject (editor_run BUILTIN_HANDLERS True ex_saving [Dispatch (ex_drag 4)]))"

theorem edit_reaches_storage_witness:
  "let t = editor_run BUILTIN_HANDLERS True ex_saving
     (Dispatch (ex_drag 4) # [SelectClip None] @ TimerFires # [SaveSettles (Inr 7), FlushSave, SaveSettles (Inr 9)]) in
   (\<exists>k. esStored t = esStored ex_saving @ esQueue ex_saving @ replicate (Suc k) ex_moved)
   \<and> esProject t = Some ex_moved \<and> \<not> esDirty t \<and> \<not> esSaving t \<and> esError t = None"
  unfolding Let_def
proof (rule edit_reaches_storage[OF _ _ _ _ _ _ _ refl])
  show "store_ok ex_saving"
    unfolding ex_saving_def by (rule store_ok_run[OF ex_loaded_ok]) simp
  show "\<not> esPreview ex_saving" by code_simp
  show "esProject ex_saving = Some (the (esProject ex_saving))" by code_simp
  show "apply_command BUILTIN_HANDLERS (the (esProject ex_saving)) (ex_drag 4) = Inr ex_moved" by code_simp
  show "esQueue (editor_run BUILTIN_HANDLERS True ex_saving
     (Dispatch (ex_drag 4) # [SelectClip None] @ TimerFires # [SaveSettles (Inr 7), FlushSave, SaveSettles (Inr 9)])) = []"
    by code_simp
qed simp_all

text \<open>A save that fails leaves the store dirty with the error in sight, and the next flush writes
  the project as it then is.\<close>

theorem failed_save_is_retried:
  assumes "esQueue s = [old]" "esProject s = Some p"
  shows "let f = store_step BUILTIN_HANDLERS True s (SaveSettles (Inl err));
             t = editor_run BUILTIN_HANDLERS True f [FlushSave, SaveSettles (Inr now)] in
    esDirty f \<and> esError f = Some (SaveFailed err) \<and> esStored f = esStored s
    \<and> esStored t = esStored s @ [p] \<and> \<not> esDirty t \<and> esError t = None"
  using assms by (simp add: save_settles_def flushSave_def performSave_def Let_def)

theorem failed_save_is_retried_witness:
  "esStored (editor_run BUILTIN_HANDLERS True (store_step BUILTIN_HANDLERS True
     (ex_loaded\<lparr>esQueue := [ex_split_result]\<rparr>) (SaveSettles (Inl []))) [FlushSave, SaveSettles (Inr 1)])
   = [ex_project]"
  using failed_save_is_retried [of "ex_loaded\<lparr>esQueue := [ex_split_result]\<rparr>" ex_split_result ex_project "[]" 1]
  by (simp add: ex_loaded_def loadProject_def init_store_def Let_def del: editor_run_simps)

section \<open>Gaps\<close>

text \<open>An edit made while a save is under way is marked clean when that save ends, so the timer does
  not save it: the store believes to be clean and the storage has the older project.\<close>

lemma edit_during_save_lost:
  "let t = editor_run BUILTIN_HANDLERS True ex_loaded
     [Dispatch (ex_drag 3), TimerFires, Dispatch (ex_drag 4), SaveSettles (Inr 1), TimerFires, FlushSave]
   in \<not> esDirty t \<and> \<not> esTimer t \<and> esQueue t = [] \<and> Some (last (esStored t)) \<noteq> esProject t"
  by code_simp

text \<open>A save that starts during a gesture writes the frame on screen; when the gesture is cancelled the
  storage keeps that frame and the store is clean.\<close>

lemma cancelled_gesture_saved:
  "let t = editor_run BUILTIN_HANDLERS True ex_loaded
     [Dispatch (ex_drag 3), PreviewGesture (ex_drag 9), TimerFires, CancelGesture, SaveSettles (Inr 1),
      FlushSave]
   in \<not> esDirty t \<and> esQueue t = [] \<and> Some (last (esStored t)) \<noteq> esProject t"
  by code_simp

end
