(* ===== verification/Placement.thy ===== *)
theory Placement
  imports TimelineModel
begin

text \<open>
  Where a clip may be put (\<open>web/src/lib/timeline/timeline-placement.ts\<close>) and what a dragged
  edge snaps to (\<open>timeline-snap.ts\<close>). An end of \<open>Number.POSITIVE_INFINITY\<close> is \<open>None\<close>.
\<close>

section \<open>Collisions\<close>

definition clipsOverlap :: "rat \<Rightarrow> rat \<Rightarrow> timeline_clip \<Rightarrow> bool" where
  [js_defs]: "clipsOverlap s d c \<longleftrightarrow> s < clStart c + clDuration c \<and> clStart c < s + d"

text \<open>A clip of the track, other than the excluded one.\<close>

definition managed_clip :: "jstext \<Rightarrow> jstext option \<Rightarrow> timeline_clip \<Rightarrow> bool" where
  [js_defs]: "managed_clip track ex c \<longleftrightarrow> clTrack c = track \<and> Some (clId c) \<noteq> ex"

definition canPlaceAt :: "jstext \<Rightarrow> rat \<Rightarrow> rat \<Rightarrow> jstext option \<Rightarrow> timeline_clip list \<Rightarrow> bool" where
  [js_defs]: "canPlaceAt track s d ex cs =
     (\<not> list_ex (\<lambda>c. managed_clip track ex c \<and> clipsOverlap s d c) cs)"

definition findCollidingItems ::
    "jstext \<Rightarrow> rat \<Rightarrow> rat \<Rightarrow> jstext option \<Rightarrow> timeline_clip list \<Rightarrow> timeline_clip list" where
  [js_defs]: "findCollidingItems track s d ex cs =
     filter (\<lambda>c. managed_clip track ex c \<and> clipsOverlap s d c) cs"

definition getSortedClipsOnTrack ::
    "jstext \<Rightarrow> timeline_clip list \<Rightarrow> jstext option \<Rightarrow> timeline_clip list" where
  [js_defs]: "getSortedClipsOnTrack track cs ex =
     sort_by (\<lambda>a b. clStart a \<le> clStart b) (filter (managed_clip track ex) cs)"

section \<open>The nearest free place\<close>

type_synonym gap = "rat \<times> rat option"

text \<open>The gaps between neighbours, and the open one after the last clip.\<close>

fun gaps_after :: "timeline_clip list \<Rightarrow> gap list" where
  "gaps_after [] = []"
| "gaps_after [c] = [(clStart c + clDuration c, None)]"
| "gaps_after (c # e # cs) =
     (if clStart c + clDuration c < clStart e then [(clStart c + clDuration c, Some (clStart e))] else [])
     @ gaps_after (e # cs)"

definition gaps_of :: "timeline_clip list \<Rightarrow> gap list" where
  [js_defs]: "gaps_of cs = (case cs of
     [] \<Rightarrow> []
   | c # _ \<Rightarrow> (if 0 < clStart c then [(0, Some (clStart c))] else []) @ gaps_after cs)"

text \<open>One round of the loop over the gaps: the start it proposes, \<open>None\<close> for \<open>continue\<close>. A target past
  the start of the open gap always fits into it, so the last branch has an end.\<close>

fun gap_candidate :: "rat \<Rightarrow> rat \<Rightarrow> gap \<Rightarrow> rat option" where
  "gap_candidate t d (a, None) = Some (if a \<le> t then t else a)"
| "gap_candidate t d (a, Some b) =
     (if b - a < d then None
      else let s = (if a \<le> t \<and> t + d \<le> b then t else if t < a then a else max a (b - d))
           in if b < s + d then None else Some s)"

fun best_gap :: "rat \<Rightarrow> rat \<Rightarrow> (rat \<times> rat) option \<Rightarrow> gap list \<Rightarrow> (rat \<times> rat) option" where
  "best_gap t d best [] = best"
| "best_gap t d best (g # gs) = best_gap t d (case gap_candidate t d g of
     None \<Rightarrow> best
   | Some s \<Rightarrow> (case best of
       None \<Rightarrow> Some (s, \<bar>s - t\<bar>)
     | Some (s', away) \<Rightarrow> if \<bar>s - t\<bar> < away then Some (s, \<bar>s - t\<bar>) else best)) gs"

text \<open>The result: the start and whether it fits.\<close>

definition findNearestAvailablePlacement ::
    "rat \<Rightarrow> rat \<Rightarrow> jstext \<Rightarrow> jstext option \<Rightarrow> timeline_clip list \<Rightarrow> rat \<times> bool" where
  [js_defs]: "findNearestAvailablePlacement t d track ex cs =
     (let managed = getSortedClipsOnTrack track cs ex in
      if managed = [] then (t, True)
      else if \<not> list_ex (clipsOverlap t d) managed then (t, True)
      else (case best_gap t d None (gaps_of managed) of
          Some (s, _) \<Rightarrow> (s, True) | None \<Rightarrow> (t, False)))"

definition placeable_tracks :: "timeline_track list \<Rightarrow> timeline_track list" where
  [js_defs]: "placeable_tracks ts = sort_by (\<lambda>a b. trOrder a \<le> trOrder b)
     (filter (\<lambda>t. trKind t = VideoKind \<or> trKind t = AudioKind) ts)"

fun first_fitting :: "rat \<Rightarrow> rat \<Rightarrow> jstext option \<Rightarrow> timeline_clip list \<Rightarrow> timeline_track list \<Rightarrow>
    jstext option \<times> rat" where
  "first_fitting t d ex cs [] = (None, t)"
| "first_fitting t d ex cs (tr # ts) = (case findNearestAvailablePlacement t d (trId tr) ex cs of
     (s, fits) \<Rightarrow> if fits then (Some (trId tr), s) else first_fitting t d ex cs ts)"

definition findAvailableTrack ::
    "rat \<Rightarrow> rat \<Rightarrow> jstext option \<Rightarrow> timeline_clip list \<Rightarrow> timeline_track list \<Rightarrow> jstext option \<times> rat" where
  [js_defs]: "findAvailableTrack t d ex cs ts = first_fitting t d ex cs (placeable_tracks ts)"

section \<open>Clamping a length by the neighbours\<close>

definition clampClipDurationByNeighbors ::
    "jstext \<Rightarrow> rat \<Rightarrow> rat \<Rightarrow> jstext \<Rightarrow> timeline_clip list \<Rightarrow> rat option \<Rightarrow> rat" where
  [js_defs]: "clampClipDurationByNeighbors i s requested track cs maxd =
     (let managed = getSortedClipsOnTrack track cs (Some i);
          maxGap = (case find (\<lambda>c. s < clStart c) managed of
            None \<Rightarrow> requested | Some c \<Rightarrow> min requested (clStart c - s));
          result = min requested maxGap
      in max 0 (case maxd of None \<Rightarrow> result | Some m \<Rightarrow> min result m))"

section \<open>Snapping\<close>

datatype snap_kind = Playhead | ClipEdge

definition snap_threshold :: "rat \<Rightarrow> rat \<Rightarrow> rat" where
  [js_defs]: "snap_threshold px pxPerMs = px / max pxPerMs (1 / 1000000)"

text \<open>The edges of the clips, in the order in which they are tried.\<close>

definition snap_edges :: "jstext option \<Rightarrow> timeline_clip list \<Rightarrow> (rat \<times> snap_kind) list" where
  [js_defs]: "snap_edges ex cs = concat (map (\<lambda>c. if Some (clId c) = ex then []
     else [(clStart c, ClipEdge), (clStart c + clDuration c, ClipEdge)]) cs)"

definition snap_candidates ::
    "rat \<Rightarrow> rat \<Rightarrow> rat \<Rightarrow> jstext option \<Rightarrow> timeline_clip list \<Rightarrow> (rat \<times> snap_kind) list" where
  [js_defs]: "snap_candidates x thr playhead ex cs =
     filter (\<lambda>(ms, _). \<bar>x - ms\<bar> \<le> thr) ((playhead, Playhead) # snap_edges ex cs)"

definition computeSnap ::
    "rat \<Rightarrow> rat \<Rightarrow> timeline_clip list \<Rightarrow> jstext option \<Rightarrow> rat \<Rightarrow> rat \<Rightarrow> bool \<Rightarrow>
     rat \<times> (rat \<times> snap_kind) list" where
  [js_defs]: "computeSnap x playhead cs ex pxPerMs px enabled =
     (if \<not> enabled then (x, [])
      else (case sort_by (\<lambda>a b. \<bar>fst a - x\<bar> \<le> \<bar>fst b - x\<bar>)
              (snap_candidates x (snap_threshold px pxPerMs) playhead ex cs) of
          [] \<Rightarrow> (x, [])
        | c # rest \<Rightarrow> (fst c, filter (\<lambda>t. fst t = fst c) (c # rest))))"

end
