(* ===== verification/PlacementClaims.thy ===== *)
theory PlacementClaims
  imports Placement
begin

text \<open>
  The placement search finds the free start nearest to the wanted one on a track whose clips
  do not overlap, clamping keeps a clip off its right neighbour, and snapping picks a nearest target
  in reach.
\<close>

section \<open>Gaps\<close>

text \<open>Clips in order that do not overlap.\<close>

definition disjoint_clips :: "timeline_clip list \<Rightarrow> bool" where
  "disjoint_clips cs \<longleftrightarrow> sorted_wrt (\<lambda>a b. clip_end a \<le> clStart b) cs
     \<and> list_all (\<lambda>c. 0 < clDuration c \<and> 0 \<le> clStart c) cs"

fun in_gap :: "rat \<Rightarrow> rat \<Rightarrow> gap \<Rightarrow> bool" where
  "in_gap d s (a, b) \<longleftrightarrow> a \<le> s \<and> (case b of None \<Rightarrow> True | Some e \<Rightarrow> s + d \<le> e)"

lemma overlap_iff: "\<not> clipsOverlap s d c \<longleftrightarrow> s + d \<le> clStart c \<or> clip_end c \<le> s"
  by (auto simp: clipsOverlap_def clip_end_def not_less)

lemma sorted_disjoint_starts:
  "disjoint_clips (c # cs) \<Longrightarrow> e \<in> set cs \<Longrightarrow> clStart c < clStart e"
proof -
  assume h: "disjoint_clips (c # cs)" "e \<in> set cs"
  then have "clip_end c \<le> clStart e" "0 < clDuration c" by (simp_all add: disjoint_clips_def)
  then show ?thesis by (simp add: clip_end_def)
qed

lemma disjoint_clips_tl: "disjoint_clips (c # cs) \<Longrightarrow> disjoint_clips cs"
  by (simp add: disjoint_clips_def)

lemma gaps_after_start:
  "disjoint_clips (c # cs) \<Longrightarrow> g \<in> set (gaps_after (c # cs)) \<Longrightarrow> in_gap d s g \<Longrightarrow> clip_end c \<le> s"
proof (induction cs arbitrary: c)
  case (Cons e cs)
  show ?case
  proof (cases "g \<in> set (gaps_after (e # cs))")
    case True
    with Cons have "clip_end e \<le> s" by (auto dest: disjoint_clips_tl)
    moreover from Cons.prems(1) have "clip_end c \<le> clStart e" "0 < clDuration e"
      by (simp_all add: disjoint_clips_def)
    ultimately show ?thesis by (simp add: clip_end_def)
  next
    case False
    with Cons.prems show ?thesis by (auto simp: clip_end_def split: if_splits)
  qed
qed (simp add: clip_end_def)

lemma gaps_after_sound:
  "disjoint_clips cs \<Longrightarrow> g \<in> set (gaps_after cs) \<Longrightarrow> in_gap d s g \<Longrightarrow> c \<in> set cs
   \<Longrightarrow> \<not> clipsOverlap s d c"
proof (induction cs arbitrary: c)
  case (Cons e cs)
  show ?case
  proof (cases "c = e")
    case True
    with gaps_after_start [OF Cons.prems(1,2,3)] show ?thesis by (simp add: overlap_iff)
  next
    case False
    with Cons.prems have c: "c \<in> set cs" by simp
    then obtain f fs where cs: "cs = f # fs" by (cases cs) auto
    show ?thesis
    proof (cases "g \<in> set (gaps_after cs)")
      case True
      with Cons c show ?thesis by (blast dest: disjoint_clips_tl)
    next
      case False
      with Cons.prems cs have g: "s + d \<le> clStart f" by (auto split: if_splits)
      from disjoint_clips_tl [OF Cons.prems(1), unfolded cs] cs c have "clStart f \<le> clStart c"
        by (auto intro: less_imp_le sorted_disjoint_starts)
      with g show ?thesis by (simp add: overlap_iff)
    qed
  qed
qed simp

lemma gaps_of_sound:
  assumes "disjoint_clips cs" "g \<in> set (gaps_of cs)" "in_gap d s g" "c \<in> set cs"
  shows "\<not> clipsOverlap s d c"
proof (cases "g \<in> set (gaps_after cs)")
  case True
  with assms gaps_after_sound show ?thesis by blast
next
  case False
  then obtain e es where cs: "cs = e # es" and g: "g = (0, Some (clStart e))"
    using assms(2) by (cases cs) (auto simp: gaps_of_def split: if_splits)
  from assms(1,4) cs have "clStart e \<le> clStart c"
    by (auto intro: less_imp_le sorted_disjoint_starts)
  with assms(3) g show ?thesis by (simp add: overlap_iff)
qed

lemma gaps_of_nonneg:
  assumes "disjoint_clips cs" "g \<in> set (gaps_of cs)" "in_gap d s g"
  shows "0 \<le> s"
proof (cases "g \<in> set (gaps_after cs)")
  case True
  then obtain c es where cs: "cs = c # es" by (cases cs) auto
  with assms(1) have "0 \<le> clip_end c" by (simp add: disjoint_clips_def clip_end_def)
  with gaps_after_start[of c es g d s] assms True cs show ?thesis by simp
next
  case False
  with assms(2,3) show ?thesis by (cases cs) (auto simp: gaps_of_def split: if_splits)
qed

lemma gaps_after_complete:
  "cs \<noteq> [] \<Longrightarrow> 0 < d \<Longrightarrow> list_all (\<lambda>c. \<not> clipsOverlap s d c) cs \<Longrightarrow> clip_end (hd cs) \<le> s \<Longrightarrow>
   \<exists>g \<in> set (gaps_after cs). in_gap d s g"
proof (induction cs rule: gaps_after.induct)
  case (2 c)
  then show ?case by (simp add: clip_end_def)
next
  case (3 c e cs)
  then consider "s + d \<le> clStart e" | "clip_end e \<le> s" by (auto simp: overlap_iff)
  then show ?case
  proof cases
    case 1
    with 3 have "in_gap d s (clStart c + clDuration c, Some (clStart e))"
      "clStart c + clDuration c < clStart e"
      by (auto simp: clip_end_def)
    then show ?thesis by (intro bexI) auto
  next
    case 2
    with 3 show ?thesis by auto
  qed
qed simp

lemma gaps_of_complete:
  assumes "cs \<noteq> []" "0 < d" "0 \<le> s" "list_all (\<lambda>c. \<not> clipsOverlap s d c) cs"
  shows "\<exists>g \<in> set (gaps_of cs). in_gap d s g"
proof -
  from assms obtain c es where cs: "cs = c # es" by (cases cs) auto
  with assms(4) consider "s + d \<le> clStart c" | "clip_end c \<le> s" by (auto simp: overlap_iff)
  then show ?thesis
  proof cases
    case 1
    with assms cs have "in_gap d s (0, Some (clStart c))" "0 < clStart c" by auto
    then show ?thesis unfolding cs gaps_of_def by (intro bexI) auto
  next
    case 2
    with assms cs gaps_after_complete[of cs d s] obtain g where "g \<in> set (gaps_after cs)" "in_gap d s g"
      by auto
    with cs show ?thesis by (auto simp: gaps_of_def)
  qed
qed

section \<open>The best gap\<close>

lemma gap_candidate_Some:
  "gap_candidate t d g = Some s \<Longrightarrow> in_gap d s g \<and> (\<forall>x. in_gap d x g \<longrightarrow> \<bar>s - t\<bar> \<le> \<bar>x - t\<bar>)"
  by (cases "(t, d, g)" rule: gap_candidate.cases)
     (auto simp: Let_def max_def abs_if split: if_splits)

lemma gap_candidate_None: "gap_candidate t d g = None \<Longrightarrow> \<not> in_gap d x g"
  by (cases "(t, d, g)" rule: gap_candidate.cases)
     (auto simp: Let_def max_def split: if_splits)

lemma best_gap_Some:
  "(\<And>s' a. best = Some (s', a) \<Longrightarrow> a = \<bar>s' - t\<bar>) \<Longrightarrow> best_gap t d best gs = Some (s, a) \<Longrightarrow>
   a = \<bar>s - t\<bar> \<and> (best = Some (s, a) \<or> (\<exists>g \<in> set gs. gap_candidate t d g = Some s))
   \<and> (\<forall>s' a'. best = Some (s', a') \<longrightarrow> a \<le> a')
   \<and> (\<forall>g \<in> set gs. \<forall>x. gap_candidate t d g = Some x \<longrightarrow> \<bar>s - t\<bar> \<le> \<bar>x - t\<bar>)"
proof (induction gs arbitrary: best)
  case (Cons g gs)
  let ?b = "case gap_candidate t d g of None \<Rightarrow> best
    | Some s \<Rightarrow> (case best of None \<Rightarrow> Some (s, \<bar>s - t\<bar>)
       | Some (s', away) \<Rightarrow> if \<bar>s - t\<bar> < away then Some (s, \<bar>s - t\<bar>) else best)"
  have b: "\<And>s' a. ?b = Some (s', a) \<Longrightarrow> a = \<bar>s' - t\<bar>"
    using Cons.prems(1) by (auto split: option.splits if_splits)
  from Cons.prems(2) have "best_gap t d ?b gs = Some (s, a)" by simp
  from Cons.IH [OF b this] have IH: "a = \<bar>s - t\<bar>"
    "?b = Some (s, a) \<or> (\<exists>g \<in> set gs. gap_candidate t d g = Some s)"
    "\<And>s' a'. ?b = Some (s', a') \<Longrightarrow> a \<le> a'"
    "\<And>h x. h \<in> set gs \<Longrightarrow> gap_candidate t d h = Some x \<Longrightarrow> \<bar>s - t\<bar> \<le> \<bar>x - t\<bar>"
    by blast+
  show ?case
  proof (cases "gap_candidate t d g")
    case None
    with IH show ?thesis by auto
  next
    case (Some c)
    show ?thesis
    proof (cases best)
      case None
      with Some IH show ?thesis by auto
    next
      case (Some b)
      obtain s' a' where sb: "best = Some (s', a')" using Some by (cases b) auto
      with Cons.prems(1) have a': "a' = \<bar>s' - t\<bar>" by blast
      show ?thesis
      proof (cases "\<bar>c - t\<bar> < a'")
        case True
        with IH \<open>gap_candidate t d g = Some c\<close> sb have "a \<le> \<bar>c - t\<bar>"
          "(s = c \<and> a = \<bar>c - t\<bar>) \<or> (\<exists>g \<in> set gs. gap_candidate t d g = Some s)" by auto
        with True IH(1,4) \<open>gap_candidate t d g = Some c\<close> sb show ?thesis by auto
      next
        case False
        with IH(2,3) \<open>gap_candidate t d g = Some c\<close> sb have "a \<le> a'"
          "(s = s' \<and> a = a') \<or> (\<exists>g \<in> set gs. gap_candidate t d g = Some s)" by auto
        with False IH(1,4) \<open>gap_candidate t d g = Some c\<close> sb show ?thesis by auto
      qed
    qed
  qed
qed simp

lemma best_gap_total: "best \<noteq> None \<or> (\<exists>g \<in> set gs. gap_candidate t d g \<noteq> None) \<Longrightarrow> best_gap t d best gs \<noteq> None"
proof (induction gs arbitrary: best)
  case (Cons g gs)
  show ?case
  proof (cases "gap_candidate t d g")
    case None
    with Cons.prems Cons.IH[of best] show ?thesis by auto
  next
    case (Some s)
    have "(case best of None \<Rightarrow> Some (s, \<bar>s - t\<bar>)
        | Some (s', away) \<Rightarrow> if \<bar>s - t\<bar> < away then Some (s, \<bar>s - t\<bar>) else best) \<noteq> None"
      by (auto split: option.splits)
    from Cons.IH [OF disjI1 [OF this]] Some show ?thesis by simp
  qed
qed simp

lemma gaps_after_open: "cs \<noteq> [] \<Longrightarrow> \<exists>a. (a, None) \<in> set (gaps_after cs)"
  by (induction cs rule: gaps_after.induct) auto

lemma gaps_of_open: "cs \<noteq> [] \<Longrightarrow> \<exists>a. (a, None) \<in> set (gaps_of cs)"
  using gaps_after_open[of cs] by (cases cs) (auto simp: gaps_of_def)

lemma best_gap_of: "cs \<noteq> [] \<Longrightarrow> \<exists>s a. best_gap t d None (gaps_of cs) = Some (s, a)"
proof -
  assume "cs \<noteq> []"
  then obtain a where "(a, None) \<in> set (gaps_of cs)" using gaps_of_open by blast
  then have "\<exists>g \<in> set (gaps_of cs). gap_candidate t d g \<noteq> None" by (intro bexI[of _ "(a, None)"]) auto
  then have "best_gap t d None (gaps_of cs) \<noteq> None" by (intro best_gap_total) blast
  then show ?thesis by auto
qed

lemma placement_fits: "snd (findNearestAvailablePlacement t d track ex cs)"
proof (cases "getSortedClipsOnTrack track cs ex = []")
  case False
  from best_gap_of [OF this, of t d] obtain s a
    where "best_gap t d None (gaps_of (getSortedClipsOnTrack track cs ex)) = Some (s, a)" by blast
  with False show ?thesis by (simp add: findNearestAvailablePlacement_def Let_def)
qed (simp add: findNearestAvailablePlacement_def)

section \<open>Sorting a track\<close>

text \<open>Clips of a track that do not overlap, in whatever order the project has them.\<close>

definition no_overlap :: "timeline_clip list \<Rightarrow> bool" where
  "no_overlap cs \<longleftrightarrow> sorted_wrt (\<lambda>a b. clip_end a \<le> clStart b \<or> clip_end b \<le> clStart a) cs
     \<and> list_all (\<lambda>c. 0 < clDuration c \<and> 0 \<le> clStart c) cs"

lemma no_overlap_insort:
  assumes "disjoint_clips cs" "0 < clDuration c" "0 \<le> clStart c"
    and "\<forall>e \<in> set cs. clip_end c \<le> clStart e \<or> clip_end e \<le> clStart c"
  shows "disjoint_clips (insort_by (\<lambda>a b. clStart a \<le> clStart b) c cs)"
  using assms
proof (induction cs)
  case Nil
  then show ?case by (simp add: disjoint_clips_def)
next
  case (Cons e es)
  show ?case
  proof (cases "clStart c \<le> clStart e")
    case True
    with Cons.prems have ce: "clip_end c \<le> clStart e"
      by (auto simp: disjoint_clips_def clip_end_def)
    moreover have "clip_end c \<le> clStart f" if "f \<in> set es" for f
      using sorted_disjoint_starts [OF Cons.prems(1) that] ce by simp
    ultimately show ?thesis using True Cons.prems by (auto simp: disjoint_clips_def)
  next
    case False
    with Cons.prems have ec: "clip_end e \<le> clStart c" by (auto simp: clip_end_def)
    have "disjoint_clips (insort_by (\<lambda>a b. clStart a \<le> clStart b) c es)"
      using Cons by (auto dest: disjoint_clips_tl)
    moreover have "clip_end e \<le> clStart f" if "f \<in> set (insort_by (\<lambda>a b. clStart a \<le> clStart b) c es)" for f
    proof -
      have "f = c \<or> f \<in> set es" using that
        by (metis mset_insort_by set_mset_add_mset_insert set_mset_mset insert_iff)
      then show ?thesis using ec Cons.prems(1) by (auto simp: disjoint_clips_def)
    qed
    ultimately show ?thesis using False Cons.prems(1) by (simp add: disjoint_clips_def)
  qed
qed

lemma no_overlap_sort: "no_overlap cs \<Longrightarrow> disjoint_clips (sort_by (\<lambda>a b. clStart a \<le> clStart b) cs)"
proof (induction cs)
  case (Cons c cs)
  then show ?case by (auto simp: no_overlap_def intro!: no_overlap_insort)
qed (simp add: disjoint_clips_def)

definition track_clips :: "jstext \<Rightarrow> jstext option \<Rightarrow> timeline_clip list \<Rightarrow> timeline_clip list" where
  "track_clips track ex cs = filter (managed_clip track ex) cs"

lemma canPlaceAt_sorted:
  "canPlaceAt track s d ex cs = list_all (\<lambda>c. \<not> clipsOverlap s d c) (getSortedClipsOnTrack track cs ex)"
  by (auto simp: canPlaceAt_def getSortedClipsOnTrack_def list_all_iff list_ex_iff)

section \<open>Properties\<close>

text \<open>C30: On a track whose clips do not overlap, the place that is found for a clip is free, does not
  start before zero, and no free start is nearer to the wanted one; the search always finds one.\<close>

theorem placement_free_and_nearest:
  assumes "no_overlap (track_clips track ex cs)" "0 < d" "0 \<le> t"
    and "findNearestAvailablePlacement t d track ex cs = (s, fits)"
  shows "fits \<and> 0 \<le> s \<and> canPlaceAt track s d ex cs
    \<and> (\<forall>x. 0 \<le> x \<and> canPlaceAt track x d ex cs \<longrightarrow> \<bar>s - t\<bar> \<le> \<bar>x - t\<bar>)"
proof -
  let ?m = "getSortedClipsOnTrack track cs ex"
  have m: "disjoint_clips ?m"
    using no_overlap_sort [OF assms(1)] by (simp add: getSortedClipsOnTrack_def track_clips_def)
  show ?thesis
  proof (cases "?m = [] \<or> \<not> list_ex (clipsOverlap t d) ?m")
    case True
    with assms(4) have "s = t" "fits" by (auto simp: findNearestAvailablePlacement_def Let_def split: if_splits)
    with True assms(3) show ?thesis by (auto simp: canPlaceAt_sorted list_all_iff list_ex_iff)
  next
    case False
    then have ne: "?m \<noteq> []" by simp
    from best_gap_of [OF ne] obtain s' a where b: "best_gap t d None (gaps_of ?m) = Some (s', a)" by blast
    with False assms(4) have s: "s = s'" "fits" by (simp_all add: findNearestAvailablePlacement_def Let_def)
    from best_gap_Some [OF _ b] obtain g where g: "g \<in> set (gaps_of ?m)" "gap_candidate t d g = Some s"
      and best: "\<And>g x. g \<in> set (gaps_of ?m) \<Longrightarrow> gap_candidate t d g = Some x \<Longrightarrow> \<bar>s - t\<bar> \<le> \<bar>x - t\<bar>"
      using s by auto
    have inside: "in_gap d s g" using gap_candidate_Some [OF g(2)] by blast
    have "0 \<le> s" using gaps_of_nonneg [OF m g(1) inside] .
    moreover have "canPlaceAt track s d ex cs"
      using gaps_of_sound [OF m g(1) inside] by (simp add: canPlaceAt_sorted list_all_iff)
    moreover have "\<bar>s - t\<bar> \<le> \<bar>x - t\<bar>" if x: "0 \<le> x" "canPlaceAt track x d ex cs" for x
    proof -
      from gaps_of_complete [OF ne assms(2) x(1)] x(2) obtain h
        where h: "h \<in> set (gaps_of ?m)" "in_gap d x h" by (auto simp: canPlaceAt_sorted)
      then obtain y where y: "gap_candidate t d h = Some y"
        using gap_candidate_None by (cases "gap_candidate t d h") auto
      from gap_candidate_Some [OF y] h(2) have "\<bar>y - t\<bar> \<le> \<bar>x - t\<bar>" by blast
      with best [OF h(1) y] show ?thesis by simp
    qed
    ultimately show ?thesis using s(2) by blast
  qed
qed

definition ex_block :: "string \<Rightarrow> rat \<Rightarrow> rat \<Rightarrow> timeline_clip" where
  [js_defs]: "ex_block i s d = \<lparr> clId = js i, clKind = VideoKind, clNode = js ''n'', clTrack = js ''t'',
     clStart = s, clDuration = d, clTitle = None, clSourceStart = None, clSourceDuration = None,
     clVolume = None, clFadeIn = None, clFadeOut = None, clEntryIndex = None, clText = None,
     clMedia = None \<rparr>"

definition ex_blocks :: "timeline_clip list" where
  [js_defs]: "ex_blocks = [ex_block ''b'' 25 5, ex_block ''a'' 10 10]"

theorem placement_free_and_nearest_witness:
  "findNearestAvailablePlacement 12 5 (js ''t'') None ex_blocks = (5, True)
   \<and> canPlaceAt (js ''t'') 5 5 None ex_blocks"
proof -
  have run: "findNearestAvailablePlacement 12 5 (js ''t'') None ex_blocks = (5, True)" by code_simp
  have "no_overlap (track_clips (js ''t'') None ex_blocks)"
    by (simp add: no_overlap_def track_clips_def ex_blocks_def ex_block_def managed_clip_def clip_end_def)
  from placement_free_and_nearest [OF this _ _ run] run show ?thesis by simp
qed

text \<open>The search for a track takes the first video or audio track by order, whatever lies on it, and
  finds none only if there is none.\<close>

theorem available_track_is_first:
  "fst (findAvailableTrack t d ex cs ts) =
     (case placeable_tracks ts of [] \<Rightarrow> None | tr # _ \<Rightarrow> Some (trId tr))"
proof (cases "placeable_tracks ts")
  case (Cons tr trs)
  with placement_fits [of t d "trId tr" ex cs] show ?thesis
    by (cases "findNearestAvailablePlacement t d (trId tr) ex cs") (simp add: findAvailableTrack_def)
qed (simp add: findAvailableTrack_def)

lemma sorted_starts: "sorted_wrt (\<lambda>a b. clStart a \<le> clStart b) (getSortedClipsOnTrack track cs ex)"
  unfolding getSortedClipsOnTrack_def by (rule sorted_sort_by) auto

lemma set_getSortedClipsOnTrack:
  "set (getSortedClipsOnTrack track cs ex) = {c \<in> set cs. managed_clip track ex c}"
  by (auto simp: getSortedClipsOnTrack_def)

lemma find_first_later:
  "sorted_wrt (\<lambda>a b. clStart a \<le> clStart b) cs \<Longrightarrow> find (\<lambda>c. s < clStart c) cs = Some c \<Longrightarrow>
   e \<in> set cs \<Longrightarrow> s < clStart e \<Longrightarrow> clStart c \<le> clStart e"
  by (induction cs) (auto split: if_splits)

text \<open>A clamped length is never negative, never more than was asked for or allowed, and does not
  reach into any clip of the track that starts later; it falls short of what was asked for only
  because of the limit or of such a clip.\<close>

theorem clamped_duration_fits:
  assumes "0 \<le> requested" "clampClipDurationByNeighbors i s requested track cs maxd = r"
  shows "0 \<le> r \<and> r \<le> requested \<and> (\<forall>m. maxd = Some m \<and> 0 \<le> m \<longrightarrow> r \<le> m)
    \<and> (\<forall>c \<in> set cs. managed_clip track (Some i) c \<and> s < clStart c \<longrightarrow> s + r \<le> clStart c)
    \<and> (r < requested \<longrightarrow> (\<exists>m. maxd = Some m \<and> r = max 0 m)
         \<or> (\<exists>c \<in> set cs. managed_clip track (Some i) c \<and> s < clStart c \<and> s + r = clStart c))"
proof -
  let ?m = "getSortedClipsOnTrack track cs (Some i)"
  show ?thesis
  proof (cases "find (\<lambda>c. s < clStart c) ?m")
    case None
    then have later: "\<not> (managed_clip track (Some i) c \<and> s < clStart c)" if "c \<in> set cs" for c
      using that by (auto simp: find_None_all set_getSortedClipsOnTrack)
    from None assms have "r = max 0 (case maxd of None \<Rightarrow> requested | Some m \<Rightarrow> min requested m)"
      by (cases maxd) (simp_all add: clampClipDurationByNeighbors_def Let_def)
    with assms(1) later show ?thesis by (cases maxd) auto
  next
    case (Some c)
    from find_Some_set [OF Some] have c: "c \<in> set cs" "managed_clip track (Some i) c" "s < clStart c"
      by (auto simp: set_getSortedClipsOnTrack)
    have first: "clStart c \<le> clStart e"
      if "e \<in> set cs" "managed_clip track (Some i) e" "s < clStart e" for e
      using find_first_later [OF sorted_starts Some _ that(3)] that(1,2)
      by (simp add: set_getSortedClipsOnTrack)
    from Some assms have r: "r = max 0 (case maxd of None \<Rightarrow> min requested (clStart c - s)
        | Some m \<Rightarrow> min (min requested (clStart c - s)) m)"
      by (cases maxd) (simp_all add: clampClipDurationByNeighbors_def Let_def)
    then have "r \<le> clStart c - s" "0 \<le> r" "r \<le> requested"
      "\<forall>m. maxd = Some m \<and> 0 \<le> m \<longrightarrow> r \<le> m"
      using assms(1) c(3) by (auto split: option.splits)
    moreover have "r < requested \<longrightarrow> (\<exists>m. maxd = Some m \<and> r = max 0 m) \<or> s + r = clStart c"
      using r assms(1) c(3) by (auto simp: max_def min_def split: option.splits if_splits)
    moreover have "s + r \<le> clStart e"
      if "e \<in> set cs" "managed_clip track (Some i) e" "s < clStart e" for e
      using first [OF that] \<open>r \<le> clStart c - s\<close> by simp
    ultimately show ?thesis using c by blast
  qed
qed

theorem clamped_duration_fits_witness:
  "clampClipDurationByNeighbors (js ''x'') 2 20 (js ''t'') ex_blocks None = 8 \<and> (0::rat) \<le> 8"
proof -
  have "clampClipDurationByNeighbors (js ''x'') 2 20 (js ''t'') ex_blocks None = 8" by code_simp
  from clamped_duration_fits [OF _ this] this show ?thesis by simp
qed

text \<open>With snapping on, a time snaps to a target within reach that no other target is nearer than,
  the targets reported are exactly those at that time, and it stays where it is exactly when no
  target is in reach.\<close>

theorem snap_nearest:
  assumes "computeSnap x playhead cs ex pxPerMs px True = (s, targets)"
  shows "(targets = [] \<longrightarrow> s = x \<and>
      (\<forall>(ms, k) \<in> set ((playhead, Playhead) # snap_edges ex cs). snap_threshold px pxPerMs < \<bar>x - ms\<bar>))
    \<and> (targets \<noteq> [] \<longrightarrow> \<bar>x - s\<bar> \<le> snap_threshold px pxPerMs
      \<and> set targets = {(ms, k) \<in> set ((playhead, Playhead) # snap_edges ex cs). ms = s}
      \<and> (\<forall>(ms, k) \<in> set ((playhead, Playhead) # snap_edges ex cs). \<bar>x - s\<bar> \<le> \<bar>x - ms\<bar>))"
proof -
  let ?thr = "snap_threshold px pxPerMs"
  let ?all = "(playhead, Playhead) # snap_edges ex cs"
  let ?cands = "snap_candidates x ?thr playhead ex cs"
  let ?sorted = "sort_by (\<lambda>a b. \<bar>fst a - x\<bar> \<le> \<bar>fst b - x\<bar>) ?cands"
  have cands: "set ?sorted = {t \<in> set ?all. \<bar>x - fst t\<bar> \<le> ?thr}"
    by (auto simp: snap_candidates_def)
  have sorted: "sorted_wrt (\<lambda>a b. \<bar>fst a - x\<bar> \<le> \<bar>fst b - x\<bar>) ?sorted"
    by (rule sorted_sort_by) auto
  show ?thesis
  proof (cases ?sorted)
    case Nil
    with assms have "s = x" "targets = []" by (simp_all add: computeSnap_def)
    moreover from Nil cands have "\<forall>t \<in> set ?all. ?thr < \<bar>x - fst t\<bar>" by (auto simp: not_le)
    ultimately show ?thesis by auto
  next
    case (Cons c rest)
    with assms have s: "s = fst c" and t: "targets = filter (\<lambda>t. fst t = s) ?sorted"
      by (auto simp: computeSnap_def)
    from Cons have c: "c \<in> set ?sorted" by simp
    then have near: "\<bar>x - s\<bar> \<le> ?thr" unfolding cands s by blast
    moreover have "set targets = {t \<in> set ?all. fst t = s}"
      unfolding t set_filter cands using near by auto
    moreover have "\<forall>e \<in> set ?all. \<bar>x - s\<bar> \<le> \<bar>x - fst e\<bar>"
    proof
      fix e
      assume that: "e \<in> set ?all"
      show "\<bar>x - s\<bar> \<le> \<bar>x - fst e\<bar>"
      proof (cases "\<bar>x - fst e\<bar> \<le> ?thr")
        case True
        with that have "e \<in> set (c # rest)" unfolding Cons [symmetric] cands by blast
        with sorted [unfolded Cons] have "e = c \<or> \<bar>fst c - x\<bar> \<le> \<bar>fst e - x\<bar>" by auto
        then show ?thesis unfolding s by (auto simp: abs_minus_commute)
      next
        case False
        with near show ?thesis by simp
      qed
    qed
    moreover have "targets \<noteq> []" using t c s by (auto simp: filter_empty_conv)
    ultimately show ?thesis by auto
  qed
qed

theorem snap_nearest_witness:
  "computeSnap 11 13 ex_blocks None 1 4 True = (10, [(10, ClipEdge)]) \<and> \<bar>11 - 10\<bar> \<le> snap_threshold 4 1"
proof -
  have "computeSnap 11 13 ex_blocks None 1 4 True = (10, [(10, ClipEdge)])" by code_simp
  from snap_nearest [OF this] this show ?thesis by simp
qed

section \<open>Gaps\<close>

text \<open>Where clips of a track overlap, which no command prevents, the place found may be taken.\<close>

lemma nested_clips_mislead:
  "let cs = [ex_block ''a'' 0 100, ex_block ''b'' 10 5, ex_block ''c'' 40 5];
       (s, fits) = findNearestAvailablePlacement 12 5 (js ''t'') None cs
   in fits \<and> \<not> canPlaceAt (js ''t'') s 5 None cs"
  by code_simp

end
