(* ===== verification/SrtText.thy ===== *)
theory SrtText
  imports TimelineModel
begin

text \<open>
  Reading and writing SRT subtitles (\<open>web/src/lib/timeline/srt-parser.ts\<close>), on texts as lists of
  UTF-16 code units. The regular expressions of the parser are written out as the matching functions
  they denote: \<open>10\<close> is the line feed, \<open>13\<close> the carriage return, \<open>48\<close> to \<open>57\<close> the digits, \<open>58\<close> the
  colon, \<open>44\<close> the comma.
\<close>

section \<open>White space and lines\<close>

text \<open>\<open>\s\<close>, which is also what \<open>trim\<close> removes.\<close>

definition is_space :: "int \<Rightarrow> bool" where
  [js_defs]: "is_space c \<longleftrightarrow> (9 \<le> c \<and> c \<le> 13) \<or> c = 32 \<or> c = 0xA0 \<or> c = 0x1680
     \<or> (0x2000 \<le> c \<and> c \<le> 0x200A) \<or> c = 0x2028 \<or> c = 0x2029 \<or> c = 0x202F \<or> c = 0x205F
     \<or> c = 0x3000 \<or> c = 0xFEFF"

definition trim_start :: "jstext \<Rightarrow> jstext" where
  [js_defs]: "trim_start s = dropWhile is_space s"

definition trim_end :: "jstext \<Rightarrow> jstext" where
  [js_defs]: "trim_end s = rev (dropWhile is_space (rev s))"

definition trim :: "jstext \<Rightarrow> jstext" where
  [js_defs]: "trim s = trim_end (trim_start s)"

text \<open>\<open>\r?\n\<close> at the start of a text: what follows it.\<close>

fun after_newline :: "jstext \<Rightarrow> jstext option" where
  "after_newline (c # s) = (if c = 10 then Some s
     else if c = 13 then (case s of d # t \<Rightarrow> if d = 10 then Some t else None | [] \<Rightarrow> None) else None)"
| "after_newline [] = None"

text \<open>\<open>\s*\r?\n\<close> at the start of a text, matched greedily: what follows the last line feed of the
  white space there, if it has one.\<close>

fun after_blank :: "jstext \<Rightarrow> jstext option" where
  "after_blank [] = None"
| "after_blank (c # s) = (if is_space c
     then (case after_blank s of Some t \<Rightarrow> Some t | None \<Rightarrow> if c = 10 then Some s else None)
     else None)"

text \<open>\<open>\r?\n\s*\r?\n\<close> at the start of a text.\<close>

definition after_separator :: "jstext \<Rightarrow> jstext option" where
  [js_defs]: "after_separator s = (case after_newline s of None \<Rightarrow> None | Some t \<Rightarrow> after_blank t)"

lemma length_after_newline: "after_newline s = Some t \<Longrightarrow> length t < length s"
  by (cases s) (auto split: if_splits list.splits)

lemma length_after_blank: "after_blank s = Some t \<Longrightarrow> length t < length s"
  by (induction s) (auto split: if_splits option.splits)

lemma length_after_separator: "after_separator s = Some t \<Longrightarrow> length t < length s"
  by (fastforce simp: after_separator_def dest: length_after_newline length_after_blank split: option.splits)

text \<open>\<open>split\<close> with a separator that never matches the empty text; \<open>acc\<close> is the piece being read,
  in reverse.\<close>

function split_with :: "(jstext \<Rightarrow> jstext option) \<Rightarrow> jstext \<Rightarrow> jstext \<Rightarrow> jstext list" where
  "split_with sep acc s = (case s of
     [] \<Rightarrow> [rev acc]
   | c # t \<Rightarrow> (case sep s of
       Some r \<Rightarrow> if length r < length s then rev acc # split_with sep [] r else [rev acc]
     | None \<Rightarrow> split_with sep (c # acc) t))"
  by pat_completeness auto
termination by (relation "measure (\<lambda>(sep, acc, s). length s)") auto

declare split_with.simps [simp del]

definition split_blocks :: "jstext \<Rightarrow> jstext list" where
  [js_defs]: "split_blocks s = split_with after_separator [] s"

definition split_lines :: "jstext \<Rightarrow> jstext list" where
  [js_defs]: "split_lines s = split_with after_newline [] s"

definition join :: "jstext \<Rightarrow> jstext list \<Rightarrow> jstext" where
  [js_defs]: "join sep ts = (case ts of [] \<Rightarrow> [] | t # us \<Rightarrow> t @ concat (map (\<lambda>u. sep @ u) us))"

section \<open>Numbers\<close>

definition is_dig :: "int \<Rightarrow> bool" where
  [js_defs]: "is_dig c \<longleftrightarrow> 48 \<le> c \<and> c \<le> 57"

text \<open>\<open>Number.parseInt(s, 10)\<close>; \<open>None\<close> is NaN.\<close>

definition parse_int :: "jstext \<Rightarrow> int option" where
  [js_defs]: "parse_int s = (let t = trim_start s;
       neg = (case t of c # _ \<Rightarrow> c = 45 | [] \<Rightarrow> False);
       u = (case t of c # v \<Rightarrow> if c = 45 \<or> c = 43 then v else t | [] \<Rightarrow> []);
       ds = takeWhile is_dig u
     in if ds = [] then None else Some (if neg then - undec ds else undec ds))"

section \<open>Timestamps\<close>

text \<open>\<open>\d{2}:\d{2}:\d{2},\d{3}\<close> at the start of a text.\<close>

fun stamp_at :: "jstext \<Rightarrow> (jstext \<times> jstext) option" where
  "stamp_at (a # b # c # d # e # f # g # h # i # j # k # l # s) =
     (if list_all is_dig [a, b, d, e, g, h, j, k, l] \<and> c = 58 \<and> f = 58 \<and> i = 44
      then Some ([a, b, c, d, e, f, g, h, i, j, k, l], s) else None)"
| "stamp_at _ = None"

text \<open>\<open>timeToMs\<close> of a matched timestamp.\<close>

definition timeToMs :: "jstext \<Rightarrow> int" where
  [js_defs]: "timeToMs t = undec (take 2 t) * 3600000 + undec (take 2 (drop 3 t)) * 60000
     + undec (take 2 (drop 6 t)) * 1000 + undec (take 3 (drop 9 t))"

text \<open>The whole pattern at the start of a text: both timestamps.\<close>

definition range_at :: "jstext \<Rightarrow> (jstext \<times> jstext) option" where
  [js_defs]: "range_at s = (case stamp_at s of
     None \<Rightarrow> None
   | Some (a, r) \<Rightarrow> (let u = trim_start r in
       if take 3 u = [45, 45, 62] then map_option (\<lambda>(b, _). (a, b)) (stamp_at (trim_start (drop 3 u)))
       else None))"

fun match_range :: "jstext \<Rightarrow> (jstext \<times> jstext) option" where
  "match_range [] = None"
| "match_range (c # s) = (case range_at (c # s) of Some r \<Rightarrow> Some r | None \<Rightarrow> match_range s)"

section \<open>Parsing\<close>

definition parse_block :: "jstext \<Rightarrow> srt_entry option" where
  [js_defs]: "parse_block b = (case split_lines (trim b) of
     l0 # l1 # l2 # ls \<Rightarrow> (case parse_int l0 of
         None \<Rightarrow> None
       | Some i \<Rightarrow> (case match_range l1 of
           None \<Rightarrow> None
         | Some (a, z) \<Rightarrow> Some \<lparr> eIndex = i, eStart = of_int (timeToMs a), eEnd = of_int (timeToMs z),
                             eText = join [10] (l2 # ls) \<rparr>))
   | _ \<Rightarrow> None)"

definition parseSrt :: "jstext \<Rightarrow> srt_entry list" where
  [js_defs]: "parseSrt content = (if trim content = [] then []
     else List.map_filter parse_block (split_blocks (trim content)))"

section \<open>Writing\<close>

text \<open>\<open>Math.max(0, Math.round(ms))\<close>.\<close>

definition safe_ms :: "rat \<Rightarrow> int" where
  [js_defs]: "safe_ms ms = max 0 \<lfloor>ms + 1 / 2\<rfloor>"

definition msToTimestamp :: "rat \<Rightarrow> jstext" where
  [js_defs]: "msToTimestamp ms = (let n = safe_ms ms in
     padStart 2 (dec (n div 3600000)) @ [58] @ padStart 2 (dec (n mod 3600000 div 60000)) @ [58]
     @ padStart 2 (dec (n mod 60000 div 1000)) @ [44] @ padStart 3 (dec (n mod 1000)))"

definition serialize_entry :: "nat \<Rightarrow> srt_entry \<Rightarrow> jstext" where
  [js_defs]: "serialize_entry i e =
     intText (if 0 < eIndex e then eIndex e else int i + 1) @ [10]
     @ msToTimestamp (eStart e) @ js '' --> '' @ msToTimestamp (eEnd e) @ [10] @ eText e"

definition serializeSrtEntries :: "srt_entry list \<Rightarrow> jstext" where
  [js_defs]: "serializeSrtEntries es = (if es = [] then []
     else join [10, 10] (map (\<lambda>(i, e). serialize_entry i e) (List.enumerate 0 es)) @ [10])"

end
