(* ===== verification/SrtTextClaims.thy ===== *)
theory SrtTextClaims
  imports SrtText
begin

text \<open>
  What is written as SRT is read back: the round trip of subtitle entries, for texts without blank
  lines and times below a hundred hours.
\<close>

section \<open>Splitting\<close>

text \<open>A text in which a separator matches nowhere.\<close>

fun nowhere :: "(jstext \<Rightarrow> jstext option) \<Rightarrow> jstext \<Rightarrow> bool" where
  "nowhere sep [] = True"
| "nowhere sep (c # s) = (sep (c # s) = None \<and> nowhere sep s)"

lemma nowhere_append: "nowhere sep (u @ v) \<Longrightarrow> nowhere sep v"
  by (induction u) auto

lemma split_with_skip:
  "(\<And>u v. b = u @ v \<Longrightarrow> v \<noteq> [] \<Longrightarrow> sep (v @ s) = None) \<Longrightarrow>
   split_with sep acc (b @ s) = split_with sep (rev b @ acc) s"
proof (induction b arbitrary: acc)
  case (Cons c b)
  from Cons.prems[of "[]" "c # b"] have "sep (c # b @ s) = None" by simp
  then have "split_with sep acc ((c # b) @ s) = split_with sep (c # acc) (b @ s)"
    by (simp add: split_with.simps[of sep acc])
  also have "\<dots> = split_with sep (rev b @ c # acc) s"
  proof (rule Cons.IH)
    fix u v assume "b = u @ v" "v \<noteq> []"
    with Cons.prems[of "c # u" v] show "sep (v @ s) = None" by simp
  qed
  finally show ?case by simp
qed simp

lemma split_with_found:
  "sep s = Some r \<Longrightarrow> length r < length s \<Longrightarrow> split_with sep acc s = rev acc # split_with sep [] r"
  by (cases s) (simp_all add: split_with.simps[of sep acc])

lemma split_with_Nil [simp]: "split_with sep acc [] = [rev acc]"
  by (simp add: split_with.simps[of sep acc])

lemma split_with_not_Nil: "split_with sep acc s \<noteq> []"
proof (induction sep acc s rule: split_with.induct)
  case (1 sep acc s)
  then show ?case by (simp add: split_with.simps[of sep acc s] split: list.splits option.splits)
qed

lemma is_space_newline [simp]: "is_space 10" "is_space 13"
  by (simp_all add: is_space_def)

lemma after_newline_append:
  "u \<noteq> [] \<Longrightarrow> \<not> is_space (last u) \<Longrightarrow>
   after_newline (u @ s) = map_option (\<lambda>r. r @ s) (after_newline u)"
  by (cases u rule: after_newline.cases)
     (auto simp: is_space_def split: list.splits)

lemma after_blank_append:
  "u \<noteq> [] \<Longrightarrow> \<not> is_space (last u) \<Longrightarrow>
   after_blank (u @ s) = map_option (\<lambda>r. r @ s) (after_blank u)"
proof (induction u)
  case (Cons c u)
  show ?case
  proof (cases "u = []")
    case True
    with Cons.prems show ?thesis by simp
  next
    case False
    with Cons have "after_blank (u @ s) = map_option (\<lambda>r. r @ s) (after_blank u)" by simp
    then show ?thesis by (cases "after_blank u") simp_all
  qed
qed simp

lemma after_newline_last:
  "after_newline u = Some r \<Longrightarrow> \<not> is_space (last u) \<Longrightarrow> r \<noteq> [] \<and> last r = last u"
  by (cases u) (auto simp: is_space_def split: if_splits list.splits)

lemma after_separator_append:
  assumes "u \<noteq> []" "\<not> is_space (last u)" "after_separator u = None"
  shows "after_separator (u @ s) = None"
proof (cases "after_newline u")
  case None
  with assms show ?thesis by (simp add: after_separator_def after_newline_append)
next
  case (Some r)
  with assms have "r \<noteq> []" "\<not> is_space (last r)" "after_blank r = None"
    by (auto simp: after_separator_def dest: after_newline_last)
  with Some assms show ?thesis
    by (simp add: after_separator_def after_newline_append after_blank_append)
qed

lemma nowhere_at: "nowhere sep (u @ v) \<Longrightarrow> v \<noteq> [] \<Longrightarrow> sep v = None"
  by (cases v) (auto dest: nowhere_append)

definition block_ok :: "jstext \<Rightarrow> bool" where
  "block_ok b \<longleftrightarrow> b \<noteq> [] \<and> \<not> is_space (hd b) \<and> \<not> is_space (last b) \<and> nowhere after_separator b"

lemma split_with_block:
  "block_ok b \<Longrightarrow> split_with after_separator acc (b @ s) = split_with after_separator (rev b @ acc) s"
  by (rule split_with_skip) (auto simp: block_ok_def intro!: after_separator_append dest: nowhere_at)

lemma after_separator_blank_line:
  "b \<noteq> [] \<Longrightarrow> \<not> is_space (hd b) \<Longrightarrow> after_separator ([10, 10] @ b @ s) = Some (b @ s)"
  by (cases b) (simp_all add: after_separator_def)

lemma split_blocks_join:
  "bs \<noteq> [] \<Longrightarrow> list_all block_ok bs \<Longrightarrow> split_blocks (join [10, 10] bs) = bs"
proof (induction bs)
  case (Cons b bs)
  have b: "block_ok b" using Cons.prems by simp
  show ?case
  proof (cases bs)
    case Nil
    with split_with_block [OF b, of "[]" "[]"] show ?thesis
      by (simp add: split_blocks_def join_def)
  next
    case (Cons c cs)
    with \<open>list_all block_ok (b # bs)\<close> have c: "c \<noteq> []" "\<not> is_space (hd c)"
      by (simp_all add: block_ok_def)
    have rest: "join [10, 10] (b # bs) = b @ [10, 10] @ join [10, 10] bs"
      using Cons by (simp add: join_def)
    have found: "after_separator ([10, 10] @ join [10, 10] bs) = Some (join [10, 10] bs)"
      unfolding Cons join_def using after_separator_blank_line [OF c] by simp
    have "split_blocks (join [10, 10] (b # bs)) = b # split_with after_separator [] (join [10, 10] bs)"
      unfolding split_blocks_def rest split_with_block [OF b]
      by (subst split_with_found [of after_separator, OF found]) simp_all
    with Cons.IH Cons \<open>list_all block_ok (b # bs)\<close> show ?thesis by (simp add: split_blocks_def)
  qed
qed simp

lemma join_ends:
  "list_all block_ok bs \<Longrightarrow> bs \<noteq> [] \<Longrightarrow> join [10, 10] bs \<noteq> [] \<and> \<not> is_space (hd (join [10, 10] bs))
     \<and> \<not> is_space (last (join [10, 10] bs))"
proof (induction bs)
  case (Cons b bs)
  show ?case
  proof (cases bs)
    case Nil
    with Cons.prems show ?thesis by (simp add: join_def block_ok_def)
  next
    case bs: (Cons c cs)
    then have "join [10, 10] (b # bs) = b @ [10, 10] @ join [10, 10] bs" by (simp add: join_def)
    with bs Cons.IH Cons.prems show ?thesis by (simp add: block_ok_def)
  qed
qed simp

lemma split_line_skip:
  "10 \<notin> set l \<Longrightarrow> 13 \<notin> set l \<Longrightarrow> split_with after_newline acc (l @ 10 # s)
     = (rev acc @ l) # split_with after_newline [] s"
proof -
  assume l: "10 \<notin> set l" "13 \<notin> set l"
  have "split_with after_newline acc (l @ 10 # s) = split_with after_newline (rev l @ acc) (10 # s)"
  proof (rule split_with_skip)
    fix u v assume "l = u @ v" "v \<noteq> []"
    with l show "after_newline (v @ 10 # s) = None" by (cases v) auto
  qed
  also have "\<dots> = rev (rev l @ acc) # split_with after_newline [] s"
    by (rule split_with_found) simp_all
  finally show ?thesis by simp
qed

lemma join_split_lines: "13 \<notin> set s \<Longrightarrow> join [10] (split_with after_newline acc s) = rev acc @ s"
proof (induction s arbitrary: acc)
  case (Cons c s)
  show ?case
  proof (cases "c = 10")
    case True
    then have "split_with after_newline acc (c # s) = rev acc # split_with after_newline [] s"
      by (intro split_with_found) simp_all
    moreover obtain l ls where "split_with after_newline [] s = l # ls"
      using split_with_not_Nil by (cases "split_with after_newline [] s") auto
    ultimately show ?thesis using Cons.IH [of "[]"] Cons.prems True by (simp add: join_def)
  next
    case False
    with Cons.prems have "after_newline (c # s) = None" by auto
    then have "split_with after_newline acc (c # s) = split_with after_newline (c # acc) s"
      by (simp add: split_with.simps[of after_newline acc])
    with Cons show ?thesis by simp
  qed
qed (simp add: join_def)

section \<open>Timestamps\<close>

lemma dec_small: "n < 10 \<Longrightarrow> dec n = [48 + n]"
  by (simp add: dec.simps[of n])

lemma dec_step: "10 \<le> n \<Longrightarrow> dec n = dec (n div 10) @ [48 + n mod 10]"
  by (simp add: dec.simps[of n])

lemma pad_two:
  assumes "0 \<le> n" "n < 100"
  shows "padStart 2 (dec n) = [48 + n div 10, 48 + n mod 10]"
proof (cases "n < 10")
  case True
  with assms show ?thesis by (simp add: padStart_def dec_small)
next
  case False
  with assms have "dec n = [48 + n div 10, 48 + n mod 10]" by (simp add: dec_step dec_small)
  then show ?thesis by (simp add: padStart_def)
qed

lemma pad_three:
  assumes "0 \<le> n" "n < 1000"
  shows "padStart 3 (dec n) = [48 + n div 100, 48 + n div 10 mod 10, 48 + n mod 10]"
proof (cases "n < 100")
  case True
  with assms have "n div 10 mod 10 = n div 10" by simp
  with True assms show ?thesis
    by (cases "n < 10") (simp_all add: padStart_def dec_small dec_step numeral_eq_Suc)
next
  case False
  then have "dec n = dec (n div 10 div 10) @ [48 + n div 10 mod 10, 48 + n mod 10]"
    by (simp add: dec_step)
  moreover have "n div 10 div 10 = n div 100" by (simp add: zdiv_zmult2_eq [symmetric])
  ultimately have "dec n = [48 + n div 100, 48 + n div 10 mod 10, 48 + n mod 10]"
    using assms by (simp add: dec_small)
  then show ?thesis by (simp add: padStart_def)
qed

text \<open>The timestamp of a whole number of milliseconds below a hundred hours.\<close>

definition stamp :: "int \<Rightarrow> jstext" where
  "stamp n = (let h = n div 3600000; m = n mod 3600000 div 60000; s = n mod 60000 div 1000;
                 z = n mod 1000 in
     [48 + h div 10, 48 + h mod 10, 58, 48 + m div 10, 48 + m mod 10, 58,
      48 + s div 10, 48 + s mod 10, 44, 48 + z div 100, 48 + z div 10 mod 10, 48 + z mod 10])"

lemma two_digits: "0 \<le> m \<Longrightarrow> m < 100 \<Longrightarrow> 0 \<le> m div 10 \<and> m div 10 < 10 \<and> 0 \<le> m mod 10 \<and> m mod 10 < (10 :: int)"
  by auto

lemma stamp_parts:
  fixes n :: int
  assumes "0 \<le> n" "n < 360000000"
  shows "0 \<le> n div 3600000" "n div 3600000 < 100"
    "0 \<le> n mod 3600000 div 60000" "n mod 3600000 div 60000 < 100"
    "0 \<le> n mod 60000 div 1000" "n mod 60000 div 1000 < 100"
    "0 \<le> n mod 1000" "n mod 1000 < 1000"
  using assms by (simp_all add: div_less_iff_less_mult)

lemma msToTimestamp_stamp:
  assumes "0 \<le> n" "n < 360000000"
  shows "msToTimestamp (of_int n) = stamp n"
proof -
  have "safe_ms (of_int n) = n"
  proof -
    have "\<lfloor>(of_int n :: rat) + 1 / 2\<rfloor> = n" by linarith
    with assms show ?thesis by (simp add: safe_ms_def)
  qed
  then show ?thesis
    unfolding msToTimestamp_def stamp_def Let_def
    by (simp only: pad_two [OF stamp_parts(1,2) [OF assms]] pad_two [OF stamp_parts(3,4) [OF assms]]
        pad_two [OF stamp_parts(5,6) [OF assms]] pad_three [OF stamp_parts(7,8) [OF assms]]
        append_Cons append_Nil)
qed

lemma is_dig_digit: "0 \<le> d \<and> d < 10 \<Longrightarrow> is_dig (48 + d)"
  by (simp add: is_dig_def)

text \<open>A timestamp as its digits.\<close>

lemma stamp_digits:
  assumes "0 \<le> n" "n < 360000000"
  obtains a b d e g h j k l where "stamp n = [a, b, 58, d, e, 58, g, h, 44, j, k, l]"
    "list_all is_dig [a, b, d, e, g, h, j, k, l]"
proof -
  let ?z = "n mod 1000"
  have z: "0 \<le> ?z div 100 \<and> ?z div 100 < 10" "0 \<le> ?z div 10 mod 10 \<and> ?z div 10 mod 10 < 10"
    "0 \<le> ?z mod 10 \<and> ?z mod 10 < 10"
    using stamp_parts(7,8) [OF assms] by (simp_all add: div_less_iff_less_mult pos_imp_zdiv_nonneg_iff)
  note digs = two_digits [OF stamp_parts(1,2) [OF assms]] two_digits [OF stamp_parts(3,4) [OF assms]]
    two_digits [OF stamp_parts(5,6) [OF assms]]
  show thesis
    by (rule that [OF stamp_def [unfolded Let_def]])
       (simp only: list.pred_inject is_dig_digit z digs conj_assoc HOL.simp_thms)
qed

lemma stamp_at_digits:
  "list_all is_dig [a, b, d, e, g, h, j, k, l] \<Longrightarrow>
   stamp_at ([a, b, 58, d, e, 58, g, h, 44, j, k, l] @ s) = Some ([a, b, 58, d, e, 58, g, h, 44, j, k, l], s)"
  by simp

lemma stamp_at_stamp:
  assumes "0 \<le> n" "n < 360000000"
  shows "stamp_at (stamp n @ s) = Some (stamp n, s)"
  using stamp_digits [OF assms] stamp_at_digits by metis

lemma timeToMs_digits:
  "timeToMs [48 + a, 48 + b, 58, 48 + c, 48 + d, 58, 48 + e, 48 + f, 44, 48 + x, 48 + y, 48 + z]
   = (10 * a + b) * 3600000 + (10 * c + d) * 60000 + (10 * e + f) * 1000 + (10 * (10 * x + y) + z)"
  by (simp add: timeToMs_def undec_def)

lemma tens: "10 * (x div 10) + x mod 10 = (x :: int)"
  by simp

lemma hundreds: "10 * (10 * (z div 100) + z div 10 mod 10) + z mod 10 = (z :: int)"
proof -
  have "z div 100 = z div 10 div 10" by (simp add: zdiv_zmult2_eq [symmetric])
  then show ?thesis by (simp only: tens)
qed

lemma timeToMs_stamp: "timeToMs (stamp n) = n"
proof -
  have "n mod 3600000 mod 60000 = n mod 60000" "n mod 60000 mod 1000 = n mod 1000"
    by (simp_all add: mod_mod_cancel)
  then have "(n mod 60000 div 1000) * 1000 + n mod 1000 = n mod 60000"
    "(n mod 3600000 div 60000) * 60000 + n mod 60000 = n mod 3600000"
    using div_mult_mod_eq [of "n mod 3600000" 60000] div_mult_mod_eq [of "n mod 60000" 1000]
    by simp_all
  then show ?thesis
    unfolding stamp_def Let_def timeToMs_digits
    by (simp only: tens hundreds add.assoc div_mult_mod_eq)
qed

section \<open>Blocks\<close>

lemma trim_id: "b \<noteq> [] \<Longrightarrow> \<not> is_space (hd b) \<Longrightarrow> \<not> is_space (last b) \<Longrightarrow> trim b = b"
proof -
  assume b: "b \<noteq> []" "\<not> is_space (hd b)" "\<not> is_space (last b)"
  then have "trim_start b = b" by (cases b) (simp_all add: trim_start_def)
  moreover from b have "trim_end b = b"
    by (cases b rule: rev_cases) (simp_all add: trim_end_def)
  ultimately show ?thesis by (simp add: trim_def)
qed

lemma trim_newline:
  "b \<noteq> [] \<Longrightarrow> \<not> is_space (hd b) \<Longrightarrow> \<not> is_space (last b) \<Longrightarrow> trim (b @ [10]) = b"
proof -
  assume b: "b \<noteq> []" "\<not> is_space (hd b)" "\<not> is_space (last b)"
  then have "trim_start (b @ [10]) = b @ [10]" by (cases b) (simp_all add: trim_start_def)
  moreover from b have "trim_end (b @ [10]) = b"
    by (cases b rule: rev_cases) (simp_all add: trim_end_def)
  ultimately show ?thesis by (simp add: trim_def)
qed

lemma dec_is_dig: "0 \<le> n \<Longrightarrow> list_all is_dig (dec n)"
  using dec_digits by (auto simp: list_all_iff is_dig_def)

lemma dig_not_space: "is_dig c \<Longrightarrow> \<not> is_space c"
  by (auto simp: is_dig_def is_space_def)

lemma hd_dec: "0 \<le> n \<Longrightarrow> is_dig (hd (dec n))"
  using dec_is_dig [of n] by (cases "dec n") auto

lemma parse_int_dec: "0 \<le> n \<Longrightarrow> parse_int (dec n) = Some n"
proof -
  assume n: "0 \<le> n"
  obtain c s where c: "dec n = c # s" using dec_not_Nil by (cases "dec n") blast+
  with hd_dec [OF n] have d: "is_dig c" by simp
  then have "c \<noteq> 45" "c \<noteq> 43" by (auto simp: is_dig_def)
  moreover have "trim_start (dec n) = dec n" using c d by (simp add: trim_start_def dig_not_space)
  moreover have "takeWhile is_dig (dec n) = dec n"
    using dec_is_dig [OF n] by (simp add: takeWhile_eq_all_conv list_all_iff)
  ultimately show ?thesis using c undec_dec [of n] by (simp add: parse_int_def Let_def)
qed

lemma hd_stamp:
  assumes "0 \<le> n" "n < 360000000"
  shows "\<not> is_space (hd (stamp n))"
  by (rule stamp_digits [OF assms]) (simp add: dig_not_space)

text \<open>The block that \<open>serializeSrtEntries\<close> writes for an entry.\<close>

definition block_of :: "int \<Rightarrow> int \<Rightarrow> int \<Rightarrow> jstext \<Rightarrow> jstext" where
  "block_of i a z t = dec i @ [10] @ stamp a @ js '' --> '' @ stamp z @ [10] @ t"

lemma js_arrow: "js '' --> '' = [32, 45, 45, 62, 32]"
  by (simp add: js_def)

lemma range_at_stamps:
  assumes "0 \<le> a" "a < 360000000" "0 \<le> z" "z < 360000000"
  shows "range_at (stamp a @ js '' --> '' @ stamp z) = Some (stamp a, stamp z)"
proof -
  have sp: "is_space 32" "\<not> is_space 45" by (simp_all add: is_space_def)
  have z: "trim_start (32 # stamp z) = stamp z"
    using sp hd_stamp [OF assms(3,4)] by (cases "stamp z") (simp_all add: trim_start_def)
  have "trim_start (js '' --> '' @ stamp z) = [45, 45, 62] @ 32 # stamp z"
    using sp by (simp add: js_arrow trim_start_def)
  then show ?thesis
    using stamp_at_stamp [OF assms(1,2), of "js '' --> '' @ stamp z"]
      stamp_at_stamp [OF assms(3,4), of "[]"] z
    by (simp add: range_at_def Let_def)
qed

lemma stamp_no_newline:
  assumes "0 \<le> n" "n < 360000000"
  shows "10 \<notin> set (stamp n) \<and> 13 \<notin> set (stamp n)"
  by (rule stamp_digits [OF assms]) (auto simp: is_dig_def)

definition text_ok :: "jstext \<Rightarrow> bool" where
  "text_ok t \<longleftrightarrow> t \<noteq> [] \<and> \<not> is_space (last t) \<and> 13 \<notin> set t \<and> nowhere after_separator (10 # t)"

lemma nowhere_skip:
  "10 \<notin> set u \<Longrightarrow> 13 \<notin> set u \<Longrightarrow> nowhere after_separator (u @ v) = nowhere after_separator v"
  by (induction u) (auto simp: after_separator_def)

lemma nowhere_line:
  "v \<noteq> [] \<Longrightarrow> \<not> is_space (hd v) \<Longrightarrow> nowhere after_separator (10 # v) = nowhere after_separator v"
  by (cases v) (auto simp: after_separator_def)

lemma digits_no_newline: "list_all is_dig ds \<Longrightarrow> 10 \<notin> set ds \<and> 13 \<notin> set ds"
  by (auto simp: list_all_iff is_dig_def)

lemma arrow_no_newline: "10 \<notin> set (js '' --> '') \<and> 13 \<notin> set (js '' --> '')"
  by (simp add: js_arrow)

lemma stamp_not_Nil [simp]: "stamp n \<noteq> []"
  by (simp add: stamp_def Let_def)

lemma block_of_ok:
  assumes "0 \<le> i" "0 \<le> a" "a < 360000000" "0 \<le> z" "z < 360000000" "text_ok t"
  shows "block_ok (block_of i a z t)"
proof -
  let ?line = "stamp a @ js '' --> '' @ stamp z"
  have line: "10 \<notin> set ?line \<and> 13 \<notin> set ?line"
    using stamp_no_newline [OF assms(2,3)] stamp_no_newline [OF assms(4,5)] arrow_no_newline by simp
  have block: "block_of i a z t = dec i @ 10 # ?line @ 10 # t" by (simp add: block_of_def)
  have "nowhere after_separator (block_of i a z t) = nowhere after_separator (10 # t)"
  proof -
    have "nowhere after_separator (block_of i a z t) = nowhere after_separator (10 # ?line @ 10 # t)"
      unfolding block using digits_no_newline [OF dec_is_dig [OF assms(1)]] by (intro nowhere_skip) auto
    also have "\<dots> = nowhere after_separator (?line @ 10 # t)"
      using hd_stamp [OF assms(2,3)] by (intro nowhere_line) simp_all
    also have "\<dots> = nowhere after_separator (10 # t)"
      using line by (intro nowhere_skip) auto
    finally show ?thesis .
  qed
  with assms(6) have "nowhere after_separator (block_of i a z t)" by (simp add: text_ok_def)
  moreover have "\<not> is_space (hd (block_of i a z t))"
    using dig_not_space [OF hd_dec [OF assms(1)]] by (simp add: block_of_def)
  moreover have "\<not> is_space (last (block_of i a z t))" "block_of i a z t \<noteq> []"
    using assms(6) by (simp_all add: block_of_def text_ok_def)
  ultimately show ?thesis by (simp add: block_ok_def)
qed

lemma parse_block_of:
  assumes "0 \<le> i" "0 \<le> a" "a < 360000000" "0 \<le> z" "z < 360000000" "text_ok t"
  shows "parse_block (block_of i a z t)
    = Some \<lparr> eIndex = i, eStart = of_int a, eEnd = of_int z, eText = t \<rparr>"
proof -
  let ?line = "stamp a @ js '' --> '' @ stamp z"
  have line: "10 \<notin> set ?line \<and> 13 \<notin> set ?line"
    using stamp_no_newline [OF assms(2,3)] stamp_no_newline [OF assms(4,5)] arrow_no_newline by simp
  have digs: "10 \<notin> set (dec i) \<and> 13 \<notin> set (dec i)"
    by (rule digits_no_newline [OF dec_is_dig [OF assms(1)]])
  have block: "block_of i a z t = dec i @ 10 # ?line @ 10 # t" by (simp add: block_of_def)
  have "trim (block_of i a z t) = block_of i a z t"
    using block_of_ok [OF assms] by (intro trim_id) (auto simp: block_ok_def)
  moreover have "split_lines (block_of i a z t) = dec i # ?line # split_lines t"
    unfolding split_lines_def block
    using split_line_skip [of "dec i" "[]" "?line @ 10 # t"] split_line_skip [of ?line "[]" t] line digs
    by simp
  moreover obtain l ls where l: "split_lines t = l # ls"
    using split_with_not_Nil unfolding split_lines_def by (cases "split_with after_newline [] t") auto
  moreover have "join [10] (l # ls) = t"
    using join_split_lines [of t "[]"] assms(6) l by (simp add: split_lines_def text_ok_def)
  moreover have "match_range ?line = Some (stamp a, stamp z)"
  proof -
    obtain c cs where cs: "?line = c # cs" by (cases ?line) auto
    with range_at_stamps [OF assms(2-5)] show ?thesis by simp
  qed
  ultimately show ?thesis
    using parse_int_dec [OF assms(1)] by (simp add: parse_block_def timeToMs_stamp)
qed

section \<open>Properties\<close>

definition entry_ok :: "srt_entry \<Rightarrow> bool" where
  "entry_ok e \<longleftrightarrow> 0 < eIndex e \<and> (\<exists>a. eStart e = of_int a \<and> 0 \<le> a \<and> a < 360000000)
     \<and> (\<exists>z. eEnd e = of_int z \<and> 0 \<le> z \<and> z < 360000000) \<and> text_ok (eText e)"

lemma serialize_entry_block:
  assumes "entry_ok e"
  obtains a z where "serialize_entry i e = block_of (eIndex e) a z (eText e)"
    "e = \<lparr> eIndex = eIndex e, eStart = of_int a, eEnd = of_int z, eText = eText e \<rparr>"
    "0 \<le> a" "a < 360000000" "0 \<le> z" "z < 360000000"
proof -
  from assms obtain a z where "eStart e = of_int a" "0 \<le> a" "a < 360000000"
    "eEnd e = of_int z" "0 \<le> z" "z < 360000000" "0 < eIndex e"
    by (auto simp: entry_ok_def)
  then show thesis
    by (intro that [of a z])
       (simp_all add: serialize_entry_def block_of_def msToTimestamp_stamp intText_def)
qed

lemma serialized_blocks:
  "list_all entry_ok es \<Longrightarrow> list_all block_ok (map (\<lambda>(i, e). serialize_entry i e) (List.enumerate n es))
   \<and> List.map_filter parse_block (map (\<lambda>(i, e). serialize_entry i e) (List.enumerate n es)) = es"
proof (induction es arbitrary: n)
  case (Cons e es)
  then have e: "entry_ok e" by simp
  from e obtain a z where b: "serialize_entry n e = block_of (eIndex e) a z (eText e)"
    "e = \<lparr> eIndex = eIndex e, eStart = of_int a, eEnd = of_int z, eText = eText e \<rparr>"
    "0 \<le> a" "a < 360000000" "0 \<le> z" "z < 360000000" by (rule serialize_entry_block)
  have h: "0 \<le> eIndex e" "text_ok (eText e)" using e by (auto simp: entry_ok_def)
  have "block_ok (serialize_entry n e)" unfolding b(1) using h b(3-6) by (intro block_of_ok)
  moreover have "parse_block (serialize_entry n e) = Some e"
    unfolding b(1) using parse_block_of [OF h(1) b(3-6) h(2)] b(2) by simp
  ultimately show ?case using Cons by (simp add: List.map_filter_simps)
qed (simp add: List.map_filter_simps)

text \<open>C38: Subtitles that are written as SRT and read back are the same, with their numbers, times and
  texts, provided the numbers are positive, the times whole milliseconds below a hundred hours, and
  the texts are not empty and have no carriage return, no blank line and no white space at their end.
  (\<open>hundred_hours_lost\<close> shows what happens to longer times.)\<close>

theorem srt_roundtrip:
  assumes "list_all entry_ok es"
  shows "parseSrt (serializeSrtEntries es) = es"
proof (cases es)
  case Nil
  then show ?thesis by (simp add: parseSrt_def serializeSrtEntries_def trim_def trim_start_def trim_end_def)
next
  case (Cons e fs)
  let ?bs = "map (\<lambda>(i, e). serialize_entry i e) (List.enumerate 0 es)"
  from serialized_blocks [OF assms, of 0] have ok: "list_all block_ok ?bs"
    and parse: "List.map_filter parse_block ?bs = es" by simp_all
  have ne: "?bs \<noteq> []" using Cons by simp
  have joined: "join [10, 10] ?bs \<noteq> [] \<and> \<not> is_space (hd (join [10, 10] ?bs))
      \<and> \<not> is_space (last (join [10, 10] ?bs))"
    using ok ne by (rule join_ends)
  then have "trim (serializeSrtEntries es) = join [10, 10] ?bs"
    using Cons by (simp add: serializeSrtEntries_def trim_newline)
  with joined split_blocks_join [OF ne ok] parse show ?thesis by (simp add: parseSrt_def)
qed

definition ex_entries :: "srt_entry list" where
  [js_defs]: "ex_entries = [\<lparr> eIndex = 3, eStart = 1005, eEnd = 61005, eText = js ''hi'' @ [10] @ js ''you'' \<rparr>,
     \<lparr> eIndex = 5, eStart = 359999999, eEnd = 359999999, eText = [0x5B57, 0x3002] \<rparr>]"

theorem srt_roundtrip_witness: "parseSrt (serializeSrtEntries ex_entries) = ex_entries"
proof (rule srt_roundtrip)
  have "\<exists>a. (1005 :: rat) = of_int a \<and> 0 \<le> a \<and> a < 360000000" by (rule exI [of _ 1005]) simp
  moreover have "\<exists>a. (61005 :: rat) = of_int a \<and> 0 \<le> a \<and> a < 360000000" by (rule exI [of _ 61005]) simp
  moreover have "\<exists>a. (359999999 :: rat) = of_int a \<and> 0 \<le> a \<and> a < 360000000"
    by (rule exI [of _ 359999999]) simp
  ultimately show "list_all entry_ok ex_entries"
    by (simp add: ex_entries_def entry_ok_def text_ok_def js_def after_separator_def is_space_def)
qed

section \<open>Gaps\<close>

text \<open>A time of a hundred hours or more is written with three digits for the hours, which the reader
  does not accept: the start is read modulo a hundred hours, and an entry with such an end is lost.\<close>

lemma hundred_hours_lost:
  "parseSrt (serializeSrtEntries [\<lparr> eIndex = 1, eStart = 360001000, eEnd = 5000, eText = js ''a'' \<rparr>])
     = [\<lparr> eIndex = 1, eStart = 1000, eEnd = 5000, eText = js ''a'' \<rparr>]"
  "parseSrt (serializeSrtEntries [\<lparr> eIndex = 1, eStart = 1000, eEnd = 360001000, eText = js ''a'' \<rparr>]) = []"
  by code_simp+

end
