(* ===== verification/Subtitles.thy ===== *)
theory Subtitles
  imports SrtText
begin

text \<open>
  Cutting long subtitles (\<open>web/src/lib/timeline/srt-resegment.ts\<close>) and the highlights in them
  (\<open>subtitle-highlights.ts\<close>, \<open>subtitle-highlight-service.ts\<close>). Lengths are \<open>nat\<close>. The recursion of
  \<open>splitLongEntry\<close> does not end for a limit of zero, so its result is an option: \<open>None\<close> is the stack
  overflow of the code. Positions of highlights are whole numbers.
\<close>

section \<open>Break points\<close>

text \<open>\<open>CJK_PUNCTUATION\<close> and \<open>LATIN_PUNCTUATION\<close>.\<close>

definition cjk_punctuation :: jstext where
  [js_defs]: "cjk_punctuation = [0xFF0C, 0x3002, 0xFF1B, 0xFF01, 0xFF1F, 0x3001, 0xFF1A]"

definition latin_punctuation :: jstext where
  [js_defs]: "latin_punctuation = js '',.;!?:''"

text \<open>One of the loops that run from the right: the rightmost position in the window.\<close>

definition scan_left :: "(int \<Rightarrow> bool) \<Rightarrow> jstext \<Rightarrow> nat \<Rightarrow> nat \<Rightarrow> nat option" where
  [js_defs]: "scan_left P t lo hi = find (\<lambda>i. P (t ! i)) (rev [lo..<hi])"

definition findBestBreakPoint :: "jstext \<Rightarrow> nat \<Rightarrow> nat" where
  [js_defs]: "findBestBreakPoint t n =
     (if length t \<le> n then length t
      else let lo = max 1 (n * 3 div 5) - 1 in
        (case scan_left (\<lambda>c. c \<in> set cjk_punctuation) t lo n of Some i \<Rightarrow> i + 1
         | None \<Rightarrow> (case scan_left (\<lambda>c. c \<in> set latin_punctuation) t lo n of Some i \<Rightarrow> i + 1
         | None \<Rightarrow> (case scan_left (\<lambda>c. c = 32) t lo n of Some i \<Rightarrow> i + 1
         | None \<Rightarrow> n))))"

section \<open>Minimal durations\<close>

definition MIN_SEGMENT_DURATION_MS :: rat where
  [js_defs]: "MIN_SEGMENT_DURATION_MS = 300"

fun enforce_from :: "rat \<Rightarrow> srt_entry list \<Rightarrow> srt_entry list" where
  "enforce_from end [] = []"
| "enforce_from end [a] = [a\<lparr>eEnd := end\<rparr>]"
| "enforce_from end (a # b # segs) =
     (let away = eEnd a - eStart a in
      if away < MIN_SEGMENT_DURATION_MS
      then let newEnd = min (eEnd a + (MIN_SEGMENT_DURATION_MS - away)) (min (eEnd b) end)
           in a\<lparr>eEnd := newEnd\<rparr> # enforce_from end (b\<lparr>eStart := newEnd\<rparr> # segs)
      else a # enforce_from end (b # segs))"

definition enforceMinDuration :: "srt_entry list \<Rightarrow> rat \<Rightarrow> srt_entry list" where
  [js_defs]: "enforceMinDuration segs end = (if length segs \<le> 1 then segs else enforce_from end segs)"

section \<open>Cutting\<close>

text \<open>The two texts a long text is cut into.\<close>

definition cut_texts :: "jstext \<Rightarrow> nat \<Rightarrow> jstext \<times> jstext" where
  [js_defs]: "cut_texts t n = (let k = findBestBreakPoint t n;
       front = trim_end (take k t); rear = trim_start (drop k t)
     in if front = [] \<or> rear = [] then (take n t, drop n t) else (front, rear))"

text \<open>The two entries: the time is shared by length, \<open>Math.round\<close> is to the nearest, halves up.\<close>

definition cut_entry :: "srt_entry \<Rightarrow> nat \<Rightarrow> srt_entry \<times> srt_entry" where
  [js_defs]: "cut_entry e n = (case cut_texts (eText e) n of (front, rear) \<Rightarrow>
     let total = length front + length rear;
         share = \<lfloor>(eEnd e - eStart e) * of_nat (length front) / of_nat total + 1 / 2\<rfloor>;
         mid = eStart e + of_int share
     in (\<lparr> eIndex = eIndex e, eStart = eStart e, eEnd = mid, eText = front \<rparr>,
         \<lparr> eIndex = eIndex e, eStart = mid, eEnd = eEnd e, eText = rear \<rparr>))"

partial_function (option) splitLongEntry :: "srt_entry \<Rightarrow> nat \<Rightarrow> srt_entry list option" where
  "splitLongEntry e n =
     (if length (eText e) \<le> n then Some [e]
      else Option.bind (if n < length (eText (fst (cut_entry e n)))
               then splitLongEntry (fst (cut_entry e n)) n else Some [fst (cut_entry e n)]) (\<lambda>fronts.
           Option.bind (if n < length (eText (snd (cut_entry e n)))
               then splitLongEntry (snd (cut_entry e n)) n else Some [snd (cut_entry e n)]) (\<lambda>backs.
             Some (enforceMinDuration (fronts @ backs) (eEnd e)))))"

fun split_all :: "nat \<Rightarrow> srt_entry list \<Rightarrow> srt_entry list option" where
  "split_all n [] = Some []"
| "split_all n (e # es) = Option.bind (splitLongEntry e n) (\<lambda>xs.
     Option.bind (split_all n es) (\<lambda>ys. Some (xs @ ys)))"

definition renumber :: "srt_entry list \<Rightarrow> srt_entry list" where
  [js_defs]: "renumber es = map (\<lambda>(i, e). e\<lparr>eIndex := int i + 1\<rparr>) (List.enumerate 0 es)"

definition resegmentSrtEntries :: "srt_entry list \<Rightarrow> nat \<Rightarrow> srt_entry list option" where
  "resegmentSrtEntries es n = map_option renumber (split_all n es)"

section \<open>Highlights\<close>

record subtitle_highlight =
  hlEntry :: int
  hlStart :: int
  hlEnd :: int
  hlText :: jstext
  hlSource :: jstext

text \<open>\<open>s.slice(start, end)\<close> for \<open>0 <= start\<close>.\<close>

definition slice :: "jstext \<Rightarrow> int \<Rightarrow> int \<Rightarrow> jstext" where
  [js_defs]: "slice s i j = take (nat (j - i)) (drop (nat i) s)"

text \<open>\<open>s.indexOf(p)\<close>; \<open>None\<close> is \<open>-1\<close>.\<close>

fun index_of :: "jstext \<Rightarrow> jstext \<Rightarrow> nat option" where
  "index_of p [] = (if p = [] then Some 0 else None)"
| "index_of p (c # s) = (if take (length p) (c # s) = p then Some 0 else map_option Suc (index_of p s))"

definition isValidSubtitleHighlight :: "srt_entry option \<Rightarrow> subtitle_highlight \<Rightarrow> bool" where
  [js_defs]: "isValidSubtitleHighlight entry h = (case entry of
     None \<Rightarrow> False
   | Some e \<Rightarrow> eIndex e = hlEntry h \<and> \<not> (hlStart h < 0 \<or> hlEnd h \<le> hlStart h)
       \<and> \<not> int (length (hlSource h)) < hlEnd h
       \<and> hlText h = slice (hlSource h) (hlStart h) (hlEnd h))"

definition isExpiredSubtitleHighlight :: "srt_entry option \<Rightarrow> subtitle_highlight \<Rightarrow> bool" where
  [js_defs]: "isExpiredSubtitleHighlight entry h = (case entry of
     None \<Rightarrow> True
   | Some e \<Rightarrow> eIndex e \<noteq> hlEntry h \<or> eText e \<noteq> hlSource h)"

text \<open>\<open>new Map(entries.map((entry) => [entry.index, entry]))\<close>: the last entry with an index wins.\<close>

definition entry_map :: "srt_entry list \<Rightarrow> int \<Rightarrow> srt_entry option" where
  [js_defs]: "entry_map es i = find (\<lambda>e. eIndex e = i) (rev es)"

definition filterValidSubtitleHighlights ::
    "srt_entry list \<Rightarrow> subtitle_highlight list \<Rightarrow> subtitle_highlight list" where
  [js_defs]: "filterValidSubtitleHighlights es hs = filter (\<lambda>h.
     isValidSubtitleHighlight (entry_map es (hlEntry h)) h
     \<and> \<not> isExpiredSubtitleHighlight (entry_map es (hlEntry h)) h) hs"

definition remap_highlight :: "srt_entry list \<Rightarrow> subtitle_highlight \<Rightarrow> subtitle_highlight option" where
  [js_defs]: "remap_highlight es h = (case find (\<lambda>e. index_of (hlText h) (eText e) \<noteq> None) es of
     None \<Rightarrow> None
   | Some e \<Rightarrow> (case index_of (hlText h) (eText e) of
       None \<Rightarrow> None
     | Some i \<Rightarrow> Some \<lparr> hlEntry = eIndex e, hlStart = int i, hlEnd = int i + int (length (hlText h)),
                      hlText = hlText h, hlSource = eText e \<rparr>))"

definition remapHighlightsAfterResegment :: "subtitle_highlight list \<Rightarrow> srt_entry list \<Rightarrow>
    subtitle_highlight list \<times> subtitle_highlight list" where
  [js_defs]: "remapHighlightsAfterResegment hs es =
     (List.map_filter (remap_highlight es) hs, filter (\<lambda>h. remap_highlight es h = None) hs)"

text \<open>\<open>TERMINAL_PUNCTUATION\<close>, and the first position of one.\<close>

definition terminal_punctuation :: jstext where
  [js_defs]: "terminal_punctuation = [0x3002, 0xFF01, 0xFF1F, 0xFF1B]"

definition fallback_highlight :: "srt_entry \<Rightarrow> subtitle_highlight option" where
  [js_defs]: "fallback_highlight e =
     (let i = length (takeWhile (\<lambda>c. c \<notin> set terminal_punctuation) (eText e)) in
      if i = length (eText e) \<or> i = 0 then None
      else Some \<lparr> hlEntry = eIndex e, hlStart = 0, hlEnd = int i + 1,
             hlText = slice (eText e) 0 (int i + 1), hlSource = eText e \<rparr>)"

definition buildFallbackHighlights :: "srt_entry list \<Rightarrow> subtitle_highlight list" where
  [js_defs]: "buildFallbackHighlights es = List.map_filter fallback_highlight es"

section \<open>Highlights that a model proposes\<close>

record llm_highlight =
  llmEntry :: int
  llmShould :: bool
  llmText :: jstext
  llmStart :: int
  llmEnd :: int

text \<open>An item that \<open>isSubtitleHighlightLLMResult\<close> rejects is \<open>None\<close>.\<close>

definition accept_item :: "srt_entry list \<Rightarrow> llm_highlight option \<Rightarrow> subtitle_highlight option" where
  [js_defs]: "accept_item es item = (case item of
     None \<Rightarrow> None
   | Some x \<Rightarrow> if \<not> llmShould x then None
       else (case entry_map es (llmEntry x) of
           None \<Rightarrow> None
         | Some e \<Rightarrow> Some \<lparr> hlEntry = llmEntry x, hlStart = llmStart x, hlEnd = llmEnd x,
                         hlText = llmText x, hlSource = eText e \<rparr>))"

definition parseSubtitleHighlightResponse ::
    "llm_highlight option list \<Rightarrow> srt_entry list \<Rightarrow> subtitle_highlight list" where
  [js_defs]: "parseSubtitleHighlightResponse raw es =
     filterValidSubtitleHighlights es (List.map_filter (accept_item es) raw)"

end
