(* ===== verification/SubtitlesClaims.thy ===== *)
theory SubtitlesClaims
  imports Subtitles
begin

text \<open>
  Cutting a long subtitle ends, keeps its text up to white space and its time span, and respects the
  limit; the highlights that are kept, carried over or made up fit the subtitles they belong to.
\<close>

section \<open>Break points\<close>

lemma scan_left_window: "scan_left P t lo hi = Some i \<Longrightarrow> lo \<le> i \<and> i < hi"
  by (auto simp: scan_left_def dest: find_Some_set)

lemma break_point_bounds:
  assumes "n < length t" "0 < n"
  shows "0 < findBestBreakPoint t n \<and> findBestBreakPoint t n \<le> n"
  using assms by (auto simp: findBestBreakPoint_def Let_def Suc_le_eq dest!: scan_left_window
      split: option.splits)

definition squeeze :: "jstext \<Rightarrow> jstext" where
  "squeeze t = filter (\<lambda>c. \<not> is_space c) t"

lemma squeeze_append [simp]: "squeeze (s @ t) = squeeze s @ squeeze t"
  by (simp add: squeeze_def)

lemma squeeze_trim_start [simp]: "squeeze (trim_start t) = squeeze t"
  by (induction t) (simp_all add: squeeze_def trim_start_def)

lemma squeeze_trim_end [simp]: "squeeze (trim_end t) = squeeze t"
proof -
  have "rev (squeeze (trim_end t)) = squeeze (trim_start (rev t))"
    by (simp add: squeeze_def trim_end_def trim_start_def rev_filter)
  also have "\<dots> = rev (squeeze t)" by simp (simp add: squeeze_def rev_filter)
  finally show ?thesis by simp
qed

lemma length_trim_end: "length (trim_end t) \<le> length t"
  using length_dropWhile_le[of is_space "rev t"] by (simp add: trim_end_def)

lemma length_trim_start: "length (trim_start t) \<le> length t"
  by (simp add: trim_start_def length_dropWhile_le)

lemma cut_texts_ok:
  assumes "n < length t" "0 < n" "cut_texts t n = (front, rear)"
  shows "front \<noteq> [] \<and> rear \<noteq> [] \<and> length front \<le> n \<and> length rear < length t
    \<and> squeeze front @ squeeze rear = squeeze t"
proof -
  let ?k = "findBestBreakPoint t n"
  have k: "0 < ?k" "?k \<le> n" using break_point_bounds [OF assms(1,2)] by auto
  show ?thesis
  proof (cases "trim_end (take ?k t) = [] \<or> trim_start (drop ?k t) = []")
    case True
    with assms(3) have "front = take n t" "rear = drop n t" by (auto simp: cut_texts_def Let_def)
    with assms show ?thesis by (auto simp flip: squeeze_append)
  next
    case False
    with assms(3) have f: "front = trim_end (take ?k t)" "rear = trim_start (drop ?k t)"
      by (auto simp: cut_texts_def Let_def)
    have "length front \<le> n" using length_trim_end[of "take ?k t"] k f by simp
    moreover have "length rear < length t"
      using length_trim_start[of "drop ?k t"] k f assms(1) by simp
    moreover have "squeeze front @ squeeze rear = squeeze t"
      using f by (simp flip: squeeze_append)
    ultimately show ?thesis using False f by simp
  qed
qed

section \<open>Time spans\<close>

text \<open>Entries that follow one another without a gap from \<open>s\<close> to \<open>z\<close>.\<close>

fun spans :: "rat \<Rightarrow> srt_entry list \<Rightarrow> rat \<Rightarrow> bool" where
  "spans s [] z = (s = z)"
| "spans s (e # es) z = (eStart e = s \<and> s \<le> eEnd e \<and> spans (eEnd e) es z)"

lemma spans_append: "spans s es m \<Longrightarrow> spans m fs z \<Longrightarrow> spans s (es @ fs) z"
  by (induction es arbitrary: s) auto

lemma spans_le: "spans s es z \<Longrightarrow> s \<le> z"
  by (induction es arbitrary: s) force+

lemma enforce_from_spans:
  "es \<noteq> [] \<Longrightarrow> spans s es z \<Longrightarrow> spans s (enforce_from z es) z
   \<and> map eText (enforce_from z es) = map eText es \<and> map eIndex (enforce_from z es) = map eIndex es"
proof (induction z es arbitrary: s rule: enforce_from.induct)
  case (3 z a b segs)
  show ?case
  proof (cases "eEnd a - eStart a < MIN_SEGMENT_DURATION_MS")
    case True
    define m where "m = min (eEnd a + (MIN_SEGMENT_DURATION_MS - (eEnd a - eStart a))) (min (eEnd b) z)"
    from "3.prems"(2) have sp: "eStart a = s" "s \<le> eEnd a" "eStart b = eEnd a" "eEnd a \<le> eEnd b"
        "spans (eEnd b) segs z" by auto
    with spans_le[of "eEnd b" segs z] True have m: "eEnd a \<le> m" "m \<le> eEnd b" by (auto simp: m_def)
    with sp have "spans m (b\<lparr>eStart := m\<rparr> # segs) z" by simp
    with "3.IH"(1) [OF refl True, of m] have "spans m (enforce_from z (b\<lparr>eStart := m\<rparr> # segs)) z
        \<and> map eText (enforce_from z (b\<lparr>eStart := m\<rparr> # segs)) = eText b # map eText segs
        \<and> map eIndex (enforce_from z (b\<lparr>eStart := m\<rparr> # segs)) = eIndex b # map eIndex segs"
      by (simp add: m_def)
    moreover have "enforce_from z (a # b # segs) = a\<lparr>eEnd := m\<rparr> # enforce_from z (b\<lparr>eStart := m\<rparr> # segs)"
      using True by (simp add: m_def Let_def)
    ultimately show ?thesis using sp m by (simp del: enforce_from.simps)
  next
    case False
    with 3 show ?thesis by (simp add: Let_def)
  qed
qed auto

lemma enforceMinDuration_spans:
  "spans s es z \<Longrightarrow> spans s (enforceMinDuration es z) z
   \<and> map eText (enforceMinDuration es z) = map eText es
   \<and> map eIndex (enforceMinDuration es z) = map eIndex es"
  using enforce_from_spans[of es s z]
  by (cases es) (auto simp: enforceMinDuration_def)

text \<open>An entry that lasts a whole, non-negative number of milliseconds.\<close>

definition whole_span :: "srt_entry \<Rightarrow> bool" where
  "whole_span e \<longleftrightarrow> eStart e \<le> eEnd e \<and> eEnd e - eStart e \<in> \<int>"

lemma share_bounds:
  fixes k :: int
  assumes "0 \<le> k" "0 < a"
  shows "0 \<le> \<lfloor>of_int k * of_nat a / of_nat (a + b) + 1 / 2 :: rat\<rfloor>
    \<and> \<lfloor>of_int k * of_nat a / of_nat (a + b) + 1 / 2 :: rat\<rfloor> \<le> k"
proof -
  define x :: rat where "x = of_int k * of_nat a / of_nat (a + b)"
  have "0 \<le> x" using assms by (simp add: x_def)
  moreover have "x \<le> of_int k"
  proof -
    have "(of_int k :: rat) * of_nat a \<le> of_int k * of_nat (a + b)"
      using assms by (intro mult_left_mono) simp_all
    then show ?thesis unfolding x_def using assms(2) by (subst pos_divide_le_eq) simp_all
  qed
  ultimately have "0 \<le> \<lfloor>x + 1 / 2\<rfloor>" "\<lfloor>x + 1 / 2\<rfloor> \<le> k" by linarith+
  then show ?thesis by (simp add: x_def)
qed

lemma cut_entry_ok:
  assumes "n < length (eText e)" "0 < n" "whole_span e"
    and f_def: "f = fst (cut_entry e n)" and b_def: "b = snd (cut_entry e n)"
  shows "whole_span f \<and> whole_span b \<and> eStart f = eStart e \<and> eEnd f = eStart b \<and> eEnd b = eEnd e
    \<and> eIndex f = eIndex e \<and> eIndex b = eIndex e"
    and "eText f \<noteq> [] \<and> eText b \<noteq> [] \<and> length (eText f) \<le> n \<and> length (eText b) < length (eText e)
    \<and> squeeze (eText f) @ squeeze (eText b) = squeeze (eText e)"
proof -
  obtain front rear where c: "cut_texts (eText e) n = (front, rear)" by (cases "cut_texts (eText e) n")
  note texts = cut_texts_ok [OF assms(1,2) c]
  let ?d = "eEnd e - eStart e"
  let ?x = "?d * of_nat (length front) / of_nat (length front + length rear)"
  let ?share = "\<lfloor>?x + 1 / 2\<rfloor>"
  from assms(3) obtain k where k: "?d = of_int k" "0 \<le> k"
    by (auto simp: whole_span_def elim!: Ints_cases)
  have fe: "f = \<lparr> eIndex = eIndex e, eStart = eStart e, eEnd = eStart e + of_int ?share, eText = front \<rparr>"
    "b = \<lparr> eIndex = eIndex e, eStart = eStart e + of_int ?share, eEnd = eEnd e, eText = rear \<rparr>"
    unfolding f_def b_def by (simp_all add: cut_entry_def c Let_def)
  have share: "0 \<le> ?share" "?share \<le> k"
    using share_bounds [of k "length front" "length rear"] k texts by auto
  then have "(of_int ?share :: rat) \<le> of_int k" by (simp only: of_int_le_iff)
  then have "eStart e + of_int ?share \<le> eEnd e" using k(1) by linarith
  moreover have "eEnd e - (eStart e + of_int ?share) \<in> \<int>"
    unfolding diff_diff_eq [symmetric] k(1) by (intro Ints_diff Ints_of_int)
  ultimately show "whole_span f \<and> whole_span b \<and> eStart f = eStart e \<and> eEnd f = eStart b \<and> eEnd b = eEnd e
    \<and> eIndex f = eIndex e \<and> eIndex b = eIndex e"
    using share(1) by (simp add: fe whole_span_def del: of_nat_add)
  show "eText f \<noteq> [] \<and> eText b \<noteq> [] \<and> length (eText f) \<le> n \<and> length (eText b) < length (eText e)
    \<and> squeeze (eText f) @ squeeze (eText b) = squeeze (eText e)"
    using texts by (simp add: fe)
qed

definition cut_ok :: "srt_entry \<Rightarrow> nat \<Rightarrow> srt_entry list \<Rightarrow> bool" where
  "cut_ok e n segs \<longleftrightarrow> segs \<noteq> [] \<and> list_all (\<lambda>x. length (eText x) \<le> n \<and> eIndex x = eIndex e) segs
     \<and> spans (eStart e) segs (eEnd e) \<and> squeeze (concat (map eText segs)) = squeeze (eText e)"

lemma map_pair_cong:
  "map f xs = map f ys \<Longrightarrow> map g xs = map g ys \<Longrightarrow> map (\<lambda>x. (f x, g x)) xs = map (\<lambda>x. (f x, g x)) ys"
  by (auto simp: list_eq_iff_nth_eq)

lemma lengths_of_texts: "map eText xs = map eText ys \<Longrightarrow> map (\<lambda>x. length (eText x)) xs = map (\<lambda>x. length (eText x)) ys"
proof -
  assume "map eText xs = map eText ys"
  then have "map length (map eText xs) = map length (map eText ys)" by (rule arg_cong)
  then show ?thesis by (simp only: list.map_comp comp_def)
qed

lemma cut_ok_combine:
  assumes "cut_ok f n fs" "cut_ok b n bs" "eStart f = eStart e" "eEnd f = eStart b" "eEnd b = eEnd e"
    "eIndex f = eIndex e" "eIndex b = eIndex e" "squeeze (eText f) @ squeeze (eText b) = squeeze (eText e)"
  shows "cut_ok e n (enforceMinDuration (fs @ bs) (eEnd e))"
proof -
  let ?segs = "fs @ bs"
  have "spans (eStart e) ?segs (eEnd e)"
    using assms by (auto simp: cut_ok_def intro: spans_append)
  note en = enforceMinDuration_spans [OF this]
  let ?out = "enforceMinDuration ?segs (eEnd e)"
  have maps: "map (\<lambda>x. (length (eText x), eIndex x)) ?out = map (\<lambda>x. (length (eText x), eIndex x)) ?segs"
    using en by (intro map_pair_cong lengths_of_texts) auto
  have "list_all (\<lambda>x. length (eText x) \<le> n \<and> eIndex x = eIndex e) ?segs"
    using assms by (simp add: cut_ok_def)
  then have "list_all (\<lambda>(l, i). l \<le> n \<and> i = eIndex e) (map (\<lambda>x. (length (eText x), eIndex x)) ?segs)"
    by (simp add: list.pred_map comp_def)
  then have "list_all (\<lambda>x. length (eText x) \<le> n \<and> eIndex x = eIndex e) ?out"
    unfolding maps [symmetric] by (simp add: list.pred_map comp_def)
  moreover have "?out \<noteq> []" using en assms(1) by (metis Nil_is_append_conv Nil_is_map_conv cut_ok_def)
  moreover have "squeeze (concat (map eText ?out)) = squeeze (eText e)"
    using en assms by (simp add: cut_ok_def)
  ultimately show ?thesis using en by (simp add: cut_ok_def)
qed

lemma splitLongEntry_ok:
  "0 < n \<Longrightarrow> whole_span e \<Longrightarrow> \<exists>segs. splitLongEntry e n = Some segs \<and> cut_ok e n segs"
proof (induction "length (eText e)" arbitrary: e rule: less_induct)
  case less
  show ?case
  proof (cases "length (eText e) \<le> n")
    case True
    with less.prems show ?thesis
      by (simp add: splitLongEntry.simps[of e] cut_ok_def whole_span_def)
  next
    case False
    define f b where "f = fst (cut_entry e n)" and "b = snd (cut_entry e n)"
    from False have long: "n < length (eText e)" by simp
    note ok = cut_entry_ok [OF long less.prems f_def b_def]
    have fs: "cut_ok f n [f]" using ok by (simp add: cut_ok_def whole_span_def)
    have "\<exists>bs. (if n < length (eText b) then splitLongEntry b n else Some [b]) = Some bs \<and> cut_ok b n bs"
    proof (cases "n < length (eText b)")
      case True
      with less.hyps [of b] ok less.prems(1) show ?thesis by auto
    next
      case False
      with ok show ?thesis by (simp add: cut_ok_def whole_span_def)
    qed
    then obtain bs where bs: "(if n < length (eText b) then splitLongEntry b n else Some [b]) = Some bs"
      "cut_ok b n bs" by blast
    have "splitLongEntry e n = Some (enforceMinDuration ([f] @ bs) (eEnd e))"
      using long ok(2) bs(1) unfolding splitLongEntry.simps[of e n] f_def [symmetric] b_def [symmetric]
      by simp
    moreover have "cut_ok e n (enforceMinDuration ([f] @ bs) (eEnd e))"
      using ok by (intro cut_ok_combine [OF fs bs(2)]) auto
    ultimately show ?thesis by blast
  qed
qed

lemma split_all_ok:
  "0 < n \<Longrightarrow> list_all whole_span es \<Longrightarrow>
   \<exists>groups. split_all n es = Some (concat groups) \<and> list_all2 (\<lambda>e g. cut_ok e n g) es groups"
proof (induction es)
  case (Cons e es)
  with splitLongEntry_ok [of n e] obtain g where g: "splitLongEntry e n = Some g" "cut_ok e n g" by auto
  from Cons obtain gs where gs: "split_all n es = Some (concat gs)" "list_all2 (\<lambda>e g. cut_ok e n g) es gs"
    by auto
  from g gs have "split_all n (e # es) = Some (concat (g # gs))
      \<and> list_all2 (\<lambda>e g. cut_ok e n g) (e # es) (g # gs)" by simp
  then show ?case by blast
qed simp

lemma split_short: "length (eText e) \<le> n \<Longrightarrow> splitLongEntry e n = Some [e]"
  by (subst splitLongEntry.simps) simp

lemma split_all_short:
  "list_all (\<lambda>e. length (eText e) \<le> n) es \<Longrightarrow> split_all n es = Some es"
  by (induction es) (simp_all add: split_short)

lemma renumber_maps:
  "map eIndex (renumber es) = map (\<lambda>i. int i + 1) [0..<length es]"
  "map eText (renumber es) = map eText es"
  by (rule nth_equalityI; simp add: renumber_def enumerate_eq_zip)+

lemma groups_texts:
  "list_all2 (\<lambda>e g. cut_ok e n g) es groups \<Longrightarrow>
   list_all (\<lambda>x. length (eText x) \<le> n) (concat groups)
   \<and> squeeze (concat (map eText (concat groups))) = squeeze (concat (map eText es))"
  by (induction es groups rule: list_all2_induct) (auto simp: cut_ok_def list_all_iff)

section \<open>Highlights\<close>

lemma index_of_slice:
  "index_of p s = Some i \<Longrightarrow> i + length p \<le> length s \<and> take (length p) (drop i s) = p"
proof (induction s arbitrary: i)
  case (Cons c s)
  show ?case
  proof (cases "take (length p) (c # s) = p")
    case True
    with Cons.prems have "i = 0" by simp
    moreover from True have "length p \<le> length (c # s)" by (metis length_take min.cobounded1)
    ultimately show ?thesis using True by simp
  next
    case False
    with Cons.prems obtain j where "index_of p s = Some j" "i = Suc j" by auto
    with Cons.IH show ?thesis by auto
  qed
qed (simp split: if_splits)

lemma entry_map_distinct:
  assumes "distinct (map eIndex es)" "e \<in> set es"
  shows "entry_map es (eIndex e) = Some e"
proof -
  have "distinct (map eIndex (rev es))" using assms(1) by (simp flip: rev_map)
  with assms(2) show ?thesis unfolding entry_map_def by (intro find_key_mem) simp_all
qed

definition good_highlight :: "srt_entry list \<Rightarrow> subtitle_highlight \<Rightarrow> bool" where
  "good_highlight es h \<longleftrightarrow> isValidSubtitleHighlight (entry_map es (hlEntry h)) h
     \<and> \<not> isExpiredSubtitleHighlight (entry_map es (hlEntry h)) h"

lemma remap_good:
  assumes "distinct (map eIndex es)" "remap_highlight es h = Some g" "hlText h \<noteq> []"
  shows "good_highlight es g"
proof -
  from assms(2) obtain e i where e: "e \<in> set es" and i: "index_of (hlText h) (eText e) = Some i"
    and g: "g = \<lparr> hlEntry = eIndex e, hlStart = int i, hlEnd = int i + int (length (hlText h)),
                      hlText = hlText h, hlSource = eText e \<rparr>"
    by (auto simp: remap_highlight_def dest!: find_Some_set split: option.splits)
  from index_of_slice [OF i] assms(3) show ?thesis
    unfolding good_highlight_def g
    by (simp add: entry_map_distinct [OF assms(1) e] isValidSubtitleHighlight_def
        isExpiredSubtitleHighlight_def slice_def)
qed

lemma fallback_good:
  assumes "distinct (map eIndex es)" "e \<in> set es" "fallback_highlight e = Some g"
  shows "good_highlight es g"
proof -
  let ?i = "length (takeWhile (\<lambda>c. c \<notin> set terminal_punctuation) (eText e))"
  have "?i \<le> length (eText e)" by (rule length_takeWhile_le)
  moreover from assms(3) have "?i \<noteq> length (eText e)" "?i \<noteq> 0"
    and g: "g = \<lparr> hlEntry = eIndex e, hlStart = 0, hlEnd = int ?i + 1,
             hlText = slice (eText e) 0 (int ?i + 1), hlSource = eText e \<rparr>"
    by (auto simp: fallback_highlight_def Let_def split: if_splits)
  ultimately show ?thesis unfolding good_highlight_def g
    by (simp add: entry_map_distinct [OF assms(1,2)] isValidSubtitleHighlight_def
        isExpiredSubtitleHighlight_def)
qed

lemma map_filter_length:
  "length (List.map_filter f xs) + length (filter (\<lambda>x. f x = None) xs) = length xs"
  by (induction xs) (auto simp: List.map_filter_simps split: option.splits)

lemma map_filter_all: "(\<And>x y. x \<in> set xs \<Longrightarrow> f x = Some y \<Longrightarrow> P y) \<Longrightarrow> list_all P (List.map_filter f xs)"
  by (induction xs) (auto simp: List.map_filter_simps split: option.splits)

lemma filter_good: "filterValidSubtitleHighlights es hs = filter (good_highlight es) hs"
  by (simp add: filterValidSubtitleHighlights_def good_highlight_def [abs_def])

section \<open>Properties\<close>

text \<open>C39: Resegmenting ends for every positive limit: each subtitle becomes a group of pieces within the
  limit that follow one another from its start to its end and keep its text up to white space, the
  groups come in order, the pieces are numbered from one, and subtitles that are short enough are
  left alone.\<close>

theorem resegment_total:
  assumes "0 < n" "list_all whole_span es"
  shows "\<exists>groups out. resegmentSrtEntries es n = Some out \<and> out = renumber (concat groups)
    \<and> list_all2 (\<lambda>e g. cut_ok e n g) es groups
    \<and> map eIndex out = map (\<lambda>i. int i + 1) [0..<length out]
    \<and> list_all (\<lambda>x. length (eText x) \<le> n) out
    \<and> squeeze (concat (map eText out)) = squeeze (concat (map eText es))
    \<and> (list_all (\<lambda>e. length (eText e) \<le> n) es \<longrightarrow> out = renumber es)"
proof -
  from split_all_ok [OF assms] obtain groups where g: "split_all n es = Some (concat groups)"
    "list_all2 (\<lambda>e g. cut_ok e n g) es groups" by blast
  let ?out = "renumber (concat groups)"
  have "length ?out = length (concat groups)" by (simp add: renumber_def)
  moreover have "list_all (\<lambda>x. length (eText x) \<le> n) ?out"
  proof -
    have "list_all (\<lambda>t. length t \<le> n) (map eText (concat groups))"
      using groups_texts [OF g(2)] by (simp add: list.pred_map comp_def)
    then have "list_all (\<lambda>t. length t \<le> n) (map eText ?out)" by (simp only: renumber_maps(2))
    then show ?thesis by (simp add: list.pred_map comp_def)
  qed
  moreover have "list_all (\<lambda>e. length (eText e) \<le> n) es \<longrightarrow> ?out = renumber es"
    using split_all_short [of n es] g(1) by auto
  moreover have "squeeze (concat (map eText ?out)) = squeeze (concat (map eText es))"
    using groups_texts [OF g(2)] by (simp only: renumber_maps(2))
  ultimately show ?thesis
    using g by (intro exI [of _ groups] exI [of _ ?out])
      (simp add: resegmentSrtEntries_def renumber_maps(1) del: map_concat)
qed

definition ex_long :: "srt_entry list" where
  [js_defs]: "ex_long = [\<lparr> eIndex = 7, eStart = 0, eEnd = 1000, eText = js ''one, two three'' \<rparr>]"

theorem resegment_total_witness:
  "\<exists>out. resegmentSrtEntries ex_long 6 = Some out \<and> list_all (\<lambda>x. length (eText x) \<le> 6) out"
proof -
  have "list_all whole_span ex_long" by (simp add: ex_long_def whole_span_def)
  from resegment_total [OF _ this, of 6] show ?thesis by fastforce
qed

text \<open>Highlights carried over to new subtitles fit them and survive the filter, none is lost without
  being reported as dropped, the fallback highlights survive it as well, and what is taken from a
  model's answer always does.\<close>

theorem highlights_fit:
  assumes "distinct (map eIndex es)" "list_all (\<lambda>h. hlText h \<noteq> []) hs"
  shows "(let (kept, dropped) = remapHighlightsAfterResegment hs es in
      filterValidSubtitleHighlights es kept = kept \<and> length kept + length dropped = length hs)
    \<and> filterValidSubtitleHighlights es (buildFallbackHighlights es) = buildFallbackHighlights es
    \<and> filterValidSubtitleHighlights es (parseSubtitleHighlightResponse raw es)
        = parseSubtitleHighlightResponse raw es"
proof -
  have "list_all (good_highlight es) (List.map_filter (remap_highlight es) hs)"
    using assms by (intro map_filter_all) (auto simp: list_all_iff intro: remap_good)
  moreover have "list_all (good_highlight es) (List.map_filter fallback_highlight es)"
    using assms(1) by (intro map_filter_all) (auto intro: fallback_good)
  ultimately show ?thesis
    unfolding remapHighlightsAfterResegment_def buildFallbackHighlights_def
      parseSubtitleHighlightResponse_def filter_good
    by (simp add: map_filter_length list_all_iff)
qed

theorem highlights_fit_witness:
  "filterValidSubtitleHighlights ex_long (fst (remapHighlightsAfterResegment
     [\<lparr> hlEntry = 1, hlStart = 4, hlEnd = 7, hlText = js ''two'', hlSource = [] \<rparr>] ex_long))
   = [\<lparr> hlEntry = 7, hlStart = 5, hlEnd = 8, hlText = js ''two'', hlSource = js ''one, two three'' \<rparr>]"
proof -
  let ?hs = "[\<lparr> hlEntry = 1, hlStart = 4, hlEnd = 7, hlText = js ''two'', hlSource = [] \<rparr>]"
  have run: "remapHighlightsAfterResegment ?hs ex_long
    = ([\<lparr> hlEntry = 7, hlStart = 5, hlEnd = 8, hlText = js ''two'', hlSource = js ''one, two three'' \<rparr>], [])"
    by code_simp
  have "distinct (map eIndex ex_long)" "list_all (\<lambda>h. hlText h \<noteq> []) ?hs"
    by (simp_all add: ex_long_def js_def)
  from highlights_fit [OF this] run show ?thesis by simp
qed

section \<open>Gaps\<close>

text \<open>With a limit of zero the recursion does not end.\<close>

lemma cut_texts_zero: "t \<noteq> [] \<Longrightarrow> cut_texts t 0 = ([], t)"
  by (simp add: cut_texts_def findBestBreakPoint_def scan_left_def trim_end_def Let_def)

lemma zero_limit_diverges:
  assumes "splitLongEntry e 0 = Some segs"
  shows "eText e = []"
proof -
  have "0 = (0 :: nat) \<longrightarrow> eText e = []"
  proof (rule splitLongEntry.raw_induct [where P = "\<lambda>e n _. n = 0 \<longrightarrow> eText e = []", OF _ assms], rule impI,
      rule ccontr)
    fix split :: "srt_entry \<Rightarrow> nat \<Rightarrow> srt_entry list option" and e n segs
    assume ih: "\<And>e n segs. split e n = Some segs \<Longrightarrow> n = 0 \<longrightarrow> eText e = []"
      and body: "(if length (eText e) \<le> n then Some [e]
        else Option.bind (if n < length (eText (fst (cut_entry e n)))
                 then split (fst (cut_entry e n)) n else Some [fst (cut_entry e n)]) (\<lambda>fronts.
             Option.bind (if n < length (eText (snd (cut_entry e n)))
                 then split (snd (cut_entry e n)) n else Some [snd (cut_entry e n)]) (\<lambda>backs.
               Some (enforceMinDuration (fronts @ backs) (eEnd e))))) = Some segs"
      and n: "n = 0" and ne: "eText e \<noteq> []"
    have b: "eText (snd (cut_entry e 0)) = eText e"
      using ne by (simp add: cut_entry_def cut_texts_zero Let_def)
    from body n ne b obtain bs where "split (snd (cut_entry e 0)) 0 = Some bs"
      by (auto simp: bind_eq_Some_conv split: if_splits)
    from ih [OF this] b ne show False by simp
  qed
  then show ?thesis by simp
qed

end
