(* ===== verification/TimelineBuild.thy ===== *)
theory TimelineBuild
  imports SrtText Subtitles
begin

text \<open>
  Timelines made from canvas nodes and assets, and export plans: the default tracks and
  \<open>normalizeTimelineProject\<close> (\<open>web/src/lib/timeline/timeline-tracks.ts\<close>), \<open>timeline-build.ts\<close>,
  \<open>asset-ingest.ts\<close> and \<open>timeline-to-ffmpeg.ts\<close>. The order of \<open>localeCompare\<close> and the time of day
  are arguments.
\<close>

section \<open>Tracks\<close>

definition default_track :: "string \<Rightarrow> track_kind \<Rightarrow> jstext \<Rightarrow> rat \<Rightarrow> timeline_track" where
  [js_defs]: "default_track i k label n = \<lparr> trId = js i, trKind = k, trLabel = label, trOrder = n,
     trLocked = None, trVisible = None, trMuted = None \<rparr>"

definition createDefaultTracks :: "timeline_track list" where
  [js_defs]: "createDefaultTracks =
     [default_track ''video-1'' VideoKind ([0x89C6, 0x9891] @ js '' 1'') 0,
      default_track ''audio-1'' AudioKind ([0x97F3, 0x9891] @ js '' 1'') 1,
      default_track ''subtitle-1'' SubtitleKind ([0x5B57, 0x5E55] @ js '' 1'') 2]"

definition sort_tracks :: "(jstext \<Rightarrow> jstext \<Rightarrow> bool) \<Rightarrow> timeline_track list \<Rightarrow> timeline_track list" where
  [js_defs]: "sort_tracks le ts = sort_by (\<lambda>a b. trOrder a < trOrder b
     \<or> trOrder a = trOrder b \<and> le (trId a) (trId b)) ts"

definition getVisualTracks :: "(jstext \<Rightarrow> jstext \<Rightarrow> bool) \<Rightarrow> timeline_track list \<Rightarrow> timeline_track list" where
  [js_defs]: "getVisualTracks le ts = sort_tracks le
     (filter (\<lambda>t. trKind t = VideoKind \<or> trKind t = ImageKind \<or> trKind t = TextKind) ts)"

definition getAudioTracks :: "(jstext \<Rightarrow> jstext \<Rightarrow> bool) \<Rightarrow> timeline_track list \<Rightarrow> timeline_track list" where
  [js_defs]: "getAudioTracks le ts = sort_tracks le (filter (\<lambda>t. trKind t = AudioKind) ts)"

definition getSubtitleTracks :: "(jstext \<Rightarrow> jstext \<Rightarrow> bool) \<Rightarrow> timeline_track list \<Rightarrow> timeline_track list" where
  [js_defs]: "getSubtitleTracks le ts = sort_tracks le (filter (\<lambda>t. trKind t = SubtitleKind) ts)"

definition getTracksByKind ::
    "(jstext \<Rightarrow> jstext \<Rightarrow> bool) \<Rightarrow> timeline_track list \<Rightarrow> track_kind \<Rightarrow> timeline_track list" where
  [js_defs]: "getTracksByKind le ts k = sort_tracks le (filter (\<lambda>t. trKind t = k) ts)"

fun dedup_tracks :: "jstext list \<Rightarrow> timeline_track list \<Rightarrow> timeline_track list" where
  "dedup_tracks seen [] = []"
| "dedup_tracks seen (t # ts) = (if trId t \<in> set seen then dedup_tracks seen ts
     else t # dedup_tracks (trId t # seen) ts)"

text \<open>A \<open>Partial<TimelineProject>\<close>; null and undefined are the one without fields.\<close>

record partial_project =
  ppTracks :: "timeline_track list option"
  ppClips :: "timeline_clip list option"
  ppUpdatedAt :: "jstext option"

definition normalizeTimelineProject :: "partial_project \<Rightarrow> timeline_project" where
  [js_defs]: "normalizeTimelineProject p =
     (let rawTracks = (case ppTracks p of None \<Rightarrow> [] | Some ts \<Rightarrow> ts);
          deduped = dedup_tracks [] rawTracks;
          clips = (case ppClips p of None \<Rightarrow> [] | Some cs \<Rightarrow> cs)
      in \<lparr> tpTracks = createDefaultTracks
             @ filter (\<lambda>t. \<not> list_ex (\<lambda>b. trId b = trId t) createDefaultTracks) deduped,
           tpClips = clips, tpDuration = max_end clips, tpUpdatedAt = ppUpdatedAt p \<rparr>)"

section \<open>Building from canvas nodes\<close>

text \<open>What the builder reads of a canvas node.\<close>

record canvas_node =
  cnId :: jstext
  cnType :: jstext
  cnTitle :: jstext
  cnContent :: "jstext option"
  cnStorageKey :: "jstext option"
  cnDuration :: "rat option"
  cnEntries :: "srt_entry list option"

definition nodeDurationMs :: "canvas_node \<Rightarrow> rat" where
  [js_defs]: "nodeDurationMs n = (case cnDuration n of
     None \<Rightarrow> 4000 | Some d \<Rightarrow> if 0 < d then of_int \<lfloor>d + 1 / 2\<rfloor> else 4000)"

definition filled :: "jstext option \<Rightarrow> bool" where
  [js_defs]: "filled s \<longleftrightarrow> s \<noteq> None \<and> s \<noteq> Some []"

definition has_media :: "string \<Rightarrow> canvas_node \<Rightarrow> bool" where
  [js_defs]: "has_media ty n \<longleftrightarrow> cnType n = js ty \<and> (filled (cnContent n) \<or> filled (cnStorageKey n))"

text \<open>The subtitle clip of an entry, anchored at \<open>base\<close>; \<open>limit\<close> is the end it is cut at.\<close>

definition anchored_subtitle :: "jstext \<Rightarrow> rat \<Rightarrow> rat \<Rightarrow> jstext \<Rightarrow> jstext \<Rightarrow> srt_entry \<Rightarrow> timeline_clip" where
  [js_defs]: "anchored_subtitle node base limit title txt e =
     (let s = base + max 0 (eStart e); z = base + max (eStart e) (min (eEnd e) limit) in
      \<lparr> clId = js ''clip-'' @ node @ js ''-sub-'' @ intText (eIndex e), clKind = SubtitleKind,
        clNode = node, clTrack = js ''subtitle-1'', clStart = s, clDuration = max 100 (z - s),
        clTitle = Some title, clSourceStart = Some (eStart e),
        clSourceDuration = Some (max 0 (eEnd e - eStart e)), clVolume = None, clFadeIn = None,
        clFadeOut = None, clEntryIndex = Some (eIndex e), clText = Some txt, clMedia = None \<rparr>)"

definition video_clips_of :: "rat \<Rightarrow> canvas_node \<Rightarrow> timeline_clip list" where
  [js_defs]: "video_clips_of cursor n = (let d = nodeDurationMs n in
     \<lparr> clId = js ''clip-'' @ cnId n, clKind = VideoKind, clNode = cnId n, clTrack = js ''video-1'',
       clStart = cursor, clDuration = d,
       clTitle = Some (if cnTitle n = [] then [0x89C6, 0x9891, 0x7247, 0x6BB5] else cnTitle n),
       clSourceStart = Some 0, clSourceDuration = Some d, clVolume = None, clFadeIn = None,
       clFadeOut = None, clEntryIndex = None, clText = None, clMedia = None \<rparr>
     # map (\<lambda>e. anchored_subtitle (cnId n) cursor d (if eText e = [] then [0x5B57, 0x5E55] else eText e) (eText e) e)
         (case cnEntries n of None \<Rightarrow> [] | Some es \<Rightarrow> es))"

definition audio_clip_of :: "rat \<Rightarrow> canvas_node \<Rightarrow> timeline_clip" where
  [js_defs]: "audio_clip_of cursor n = (let d = nodeDurationMs n in
     \<lparr> clId = js ''clip-'' @ cnId n, clKind = AudioKind, clNode = cnId n, clTrack = js ''audio-1'',
       clStart = cursor, clDuration = d,
       clTitle = Some (if cnTitle n = [] then [0x97F3, 0x9891, 0x7247, 0x6BB5] else cnTitle n),
       clSourceStart = Some 0, clSourceDuration = Some d, clVolume = Some 1, clFadeIn = Some 0,
       clFadeOut = Some 0, clEntryIndex = None, clText = None, clMedia = None \<rparr>)"

fun lay_videos :: "rat \<Rightarrow> canvas_node list \<Rightarrow> timeline_clip list" where
  "lay_videos cursor [] = []"
| "lay_videos cursor (n # ns) = video_clips_of cursor n @ lay_videos (cursor + nodeDurationMs n) ns"

fun lay_audios :: "rat \<Rightarrow> canvas_node list \<Rightarrow> timeline_clip list" where
  "lay_audios cursor [] = []"
| "lay_audios cursor (n # ns) = audio_clip_of cursor n # lay_audios (cursor + nodeDurationMs n) ns"

definition buildTimelineFromNodes :: "jstext \<Rightarrow> canvas_node list \<Rightarrow> timeline_project" where
  [js_defs]: "buildTimelineFromNodes now ns =
     (let clips = lay_videos 0 (filter (has_media ''video'') ns)
                  @ lay_audios 0 (filter (has_media ''audio'') ns)
      in \<lparr> tpTracks = createDefaultTracks, tpClips = clips, tpDuration = max_end clips,
           tpUpdatedAt = Some now \<rparr>)"

definition isNodeInTimeline :: "jstext \<Rightarrow> timeline_project option \<Rightarrow> bool" where
  [js_defs]: "isNodeInTimeline i p \<longleftrightarrow> (case p of
     None \<Rightarrow> False | Some t \<Rightarrow> list_ex (\<lambda>c. clNode c = i) (tpClips t))"

section \<open>Keeping the subtitles of the nodes in sync\<close>

definition node_subtitle :: "jstext \<Rightarrow> timeline_clip \<Rightarrow> bool" where
  [js_defs]: "node_subtitle i c \<longleftrightarrow> clNode c = i \<and> clKind c = SubtitleKind"

text \<open>\<open>clip.sourceDurationMs || clip.durationMs || 0\<close>.\<close>

definition source_span :: "timeline_clip \<Rightarrow> rat" where
  [js_defs]: "source_span c = (case clSourceDuration c of
     Some d \<Rightarrow> if d = 0 then clDuration c else d | None \<Rightarrow> clDuration c)"

text \<open>The subtitle clips of the entries that have a text; an unknown length of the source does not cut
  them.\<close>

definition synced_subtitles :: "jstext \<Rightarrow> rat \<Rightarrow> rat \<Rightarrow> srt_entry list \<Rightarrow> timeline_clip list" where
  [js_defs]: "synced_subtitles node base len es = List.map_filter (\<lambda>e. let t = trim (eText e) in
     if t = [] then None
     else Some (anchored_subtitle node base (if len = 0 then eEnd e else len) t t e)) es"

definition syncNodeSubtitlesToTimeline ::
    "jstext \<Rightarrow> timeline_project \<Rightarrow> jstext \<Rightarrow> srt_entry list \<Rightarrow> timeline_project" where
  [js_defs]: "syncNodeSubtitlesToTimeline now p node es =
     (let video = find (\<lambda>c. clNode c = node \<and> clKind c = VideoKind) (tpClips p) in
      if video = None \<and> \<not> list_ex (node_subtitle node) (tpClips p) then p
      else let base = (case video of None \<Rightarrow> 0 | Some c \<Rightarrow> clStart c);
               len = (case video of None \<Rightarrow> 0 | Some c \<Rightarrow> source_span c);
               clips = filter (\<lambda>c. \<not> node_subtitle node c) (tpClips p) @ synced_subtitles node base len es
           in p\<lparr>tpClips := clips, tpDuration := max_end clips, tpUpdatedAt := Some now\<rparr>)"

text \<open>One round of the loop of \<open>syncTimelineSubtitleClips\<close> over the clips: the clips so far and whether
  anything changed.\<close>

definition sync_video ::
    "canvas_node list \<Rightarrow> timeline_clip list \<times> bool \<Rightarrow> timeline_clip \<Rightarrow> timeline_clip list \<times> bool" where
  [js_defs]: "sync_video ns st v = (case st of (clips, changed) \<Rightarrow>
     if clKind v \<noteq> VideoKind then st
     else (case find (\<lambda>n. cnId n = clNode v) ns of
         None \<Rightarrow> st
       | Some n \<Rightarrow>
         let fresh = synced_subtitles (clNode v) (clStart v) (source_span v)
                       (case cnEntries n of None \<Rightarrow> [] | Some es \<Rightarrow> es)
         in (filter (\<lambda>c. \<not> node_subtitle (clNode v) c) clips @ fresh,
             changed \<or> list_ex (node_subtitle (clNode v)) clips \<or> fresh \<noteq> [])))"

definition syncTimelineSubtitleClips ::
    "jstext \<Rightarrow> timeline_project \<Rightarrow> canvas_node list \<Rightarrow> timeline_project" where
  [js_defs]: "syncTimelineSubtitleClips now p ns =
     (case foldl (sync_video ns) (tpClips p, False) (tpClips p) of (clips, changed) \<Rightarrow>
       if \<not> changed then p
       else p\<lparr>tpClips := clips, tpDuration := max_end clips, tpUpdatedAt := Some now\<rparr>)"

section \<open>Clips of assets\<close>

record project_asset =
  paId :: jstext
  paMediaType :: jstext
  paTitle :: jstext
  paStorageKey :: "jstext option"
  paDuration :: "rat option"

definition assetToClipKind :: "jstext \<Rightarrow> track_kind option" where
  [js_defs]: "assetToClipKind m =
     (if m = js ''video'' then Some VideoKind else if m = js ''audio'' then Some AudioKind
      else if m = js ''image'' then Some ImageKind else if m = js ''text'' then Some TextKind else None)"

definition makeClipFromAsset ::
    "project_asset \<Rightarrow> jstext \<Rightarrow> rat \<Rightarrow> rat option \<Rightarrow> jstext option \<Rightarrow> timeline_clip option" where
  [js_defs]: "makeClipFromAsset a track s defaultMs i = (case assetToClipKind (paMediaType a) of
     None \<Rightarrow> None
   | Some k \<Rightarrow> if k = TextKind then None else Some
     \<lparr> clId = (case i of None \<Rightarrow> js ''asset:'' @ paId a | Some x \<Rightarrow> x), clKind = k,
       clNode = js ''asset:'' @ paId a, clTrack = track, clStart = s,
       clDuration = (case paDuration a of
           Some d \<Rightarrow> if 0 < d then d else (case defaultMs of None \<Rightarrow> 3000 | Some x \<Rightarrow> x)
         | None \<Rightarrow> (case defaultMs of None \<Rightarrow> 3000 | Some x \<Rightarrow> x)),
       clTitle = Some (paTitle a), clSourceStart = None, clSourceDuration = None, clVolume = None,
       clFadeIn = None, clFadeOut = None, clEntryIndex = None, clText = None,
       clMedia = Some \<lparr> dmId = paId a, dmAssetId = None, dmKind = k, dmTitle = paTitle a,
         dmStorageKey = paStorageKey a, dmUrl = None, dmDataUrl = None, dmContent = None,
         dmDurationMs = None \<rparr> \<rparr>)"

end
