(* ===== verification/TimelinePlan.thy ===== *)
theory TimelinePlan
  imports SrtText EditorCommands
begin

text \<open>
  The export plan of a timeline (\<open>web/src/lib/timeline/timeline-to-ffmpeg.ts\<close>): the ffmpeg steps that
  trim the video clips, fill the gaps with black, join the pieces and burn in the subtitles, and the
  SRT text of the subtitle track. The order of \<open>localeCompare\<close> is an argument; \<open>toFixed\<close> in the
  descriptions stands as the number.
\<close>

record render_source =
  rsNode :: jstext
  rsFile :: jstext
  rsDuration :: rat

datatype step_kind = TrimStep | GapStep | ConcatStep | SubtitleStep | BurnStep

record render_step =
  stKind :: step_kind
  stOutput :: jstext
  stArgs :: "jstext list"
  stDescription :: jstext
  stLibass :: bool

record render_context =
  rcWidth :: rat
  rcHeight :: rat
  rcFps :: rat
  rcBurn :: bool
  rcOutput :: jstext

record render_plan =
  plSteps :: "render_step list"
  plFinal :: jstext
  plEntries :: "jstext list"

definition SUBTITLE_FILE :: jstext where
  [js_defs]: "SUBTITLE_FILE = js ''timeline.srt''"

definition defaultContext :: render_context where
  [js_defs]: "defaultContext = \<lparr> rcWidth = 1920, rcHeight = 1080, rcFps = 30, rcBurn = True,
     rcOutput = js ''export.mp4'' \<rparr>"

definition ordered_clips ::
    "(jstext \<Rightarrow> jstext \<Rightarrow> bool) \<Rightarrow> track_kind \<Rightarrow> timeline_clip list \<Rightarrow> timeline_clip list" where
  [js_defs]: "ordered_clips le k cs = sort_by (\<lambda>a b. clStart a < clStart b
     \<or> clStart a = clStart b \<and> le (clTrack a) (clTrack b)) (filter (\<lambda>c. clKind c = k) cs)"

definition getOrderedVideoClips ::
    "(jstext \<Rightarrow> jstext \<Rightarrow> bool) \<Rightarrow> timeline_project \<Rightarrow> timeline_clip list" where
  [js_defs]: "getOrderedVideoClips le p = ordered_clips le VideoKind (tpClips p)"

definition getOrderedSubtitleClips ::
    "(jstext \<Rightarrow> jstext \<Rightarrow> bool) \<Rightarrow> timeline_project \<Rightarrow> timeline_clip list" where
  [js_defs]: "getOrderedSubtitleClips le p = ordered_clips le SubtitleKind (tpClips p)"

definition formatSrtTimestamp :: "rat \<Rightarrow> jstext" where
  [js_defs]: "formatSrtTimestamp ms = (let n = safe_ms ms in
     padStart 2 (dec (n div 3600000)) @ [58] @ padStart 2 (dec (n mod 3600000 div 60000)) @ [58]
     @ padStart 2 (dec (n mod 60000 div 1000)) @ [44] @ padStart 3 (dec (n mod 1000)))"

definition has_text :: "timeline_clip \<Rightarrow> bool" where
  [js_defs]: "has_text c \<longleftrightarrow> clText c \<noteq> None \<and> clText c \<noteq> Some []"

text \<open>\<open>text.replace(/\r?\n/g, " ").trim()\<close>.\<close>

definition one_line :: "jstext \<Rightarrow> jstext" where
  [js_defs]: "one_line t = trim (join [32] (split_lines t))"

definition buildSubtitleSrt :: "(jstext \<Rightarrow> jstext \<Rightarrow> bool) \<Rightarrow> timeline_clip list \<Rightarrow> jstext" where
  [js_defs]: "buildSubtitleSrt le cs = join [10, 10] (map (\<lambda>(i, c).
     join [10] [dec (int i + 1),
       formatSrtTimestamp (clStart c) @ js '' --> '' @ formatSrtTimestamp (clip_end c),
       one_line (case clText c of None \<Rightarrow> [] | Some t \<Rightarrow> t)])
     (List.enumerate 0 (filter (\<lambda>c. has_text c \<and> 0 < clDuration c) (ordered_clips le SubtitleKind cs))))"

section \<open>The plan\<close>

text \<open>\<open>new Map(sources.map((item) => [item.nodeId, item]))\<close>: the last source of a node wins.\<close>

definition source_of :: "render_source list \<Rightarrow> jstext \<Rightarrow> render_source option" where
  [js_defs]: "source_of srcs i = find (\<lambda>s. rsNode s = i) (rev srcs)"

definition gap_step :: "render_context \<Rightarrow> nat \<Rightarrow> rat \<Rightarrow> render_step" where
  [js_defs]: "gap_step cfg i gap = (let out = js ''gap-'' @ dec (int i) @ js ''.mp4''; secs = gap / 1000 in
     \<lparr> stKind = GapStep, stOutput = out,
       stArgs = [js ''-f'', js ''lavfi'', js ''-i'',
              js ''color=c=black:s='' @ numText (rcWidth cfg) @ js ''x'' @ numText (rcHeight cfg) @ js '':r='' @ numText (rcFps cfg) @ js '':d='' @ numText secs,
              js ''-f'', js ''lavfi'', js ''-i'', js ''anullsrc=r=44100:cl=stereo'',
              js ''-t'', numText secs, js ''-c:v'', js ''libx264'', js ''-preset'',
              js ''veryfast'', js ''-crf'', js ''20'', js ''-c:a'', js ''aac'',
              js ''-shortest'', out],
       stDescription = [0x8865, 0x9ED1, 0x573A] @ js '' '' @ numText secs @ js ''s'', stLibass = False \<rparr>)"

definition trim_step :: "render_source \<Rightarrow> nat \<Rightarrow> timeline_clip \<Rightarrow> render_step" where
  [js_defs]: "trim_step src i c = (let out = js ''trim-'' @ dec (int i) @ js ''.mp4'' in
     \<lparr> stKind = TrimStep, stOutput = out,
       stArgs = [js ''-i'', rsFile src, js ''-ss'', numText (source_start c / 1000),
              js ''-t'', numText (max (1 / 10) (clDuration c / 1000)), js ''-c:v'',
              js ''libx264'', js ''-preset'', js ''veryfast'', js ''-crf'', js ''20'',
              js ''-c:a'', js ''aac'', js ''-b:a'', js ''128k'', out],
       stDescription = [0x88C1, 0x5207, 0x7247, 0x6BB5] @ js '' '' @ dec (int i + 1) @ [0xFF08]
         @ (case clTitle c of Some t \<Rightarrow> if t = [] then clNode c else t | None \<Rightarrow> clNode c) @ [0xFF09],
       stLibass = False \<rparr>)"

text \<open>The loop over the clips in order: the steps that produce the pieces, which are also the pieces
  to be joined.\<close>

fun piece_steps ::
    "render_context \<Rightarrow> render_source list \<Rightarrow> rat \<Rightarrow> nat \<Rightarrow> timeline_clip list \<Rightarrow> render_step list" where
  "piece_steps cfg srcs cursor i [] = []"
| "piece_steps cfg srcs cursor i (c # cs) = (case source_of srcs (clNode c) of
     None \<Rightarrow> piece_steps cfg srcs cursor (Suc i) cs
   | Some src \<Rightarrow>
       (if 100 < clStart c - cursor then [gap_step cfg i (clStart c - cursor)] else [])
       @ trim_step src i c # piece_steps cfg srcs (clip_end c) (Suc i) cs)"

definition concat_output :: jstext where
  [js_defs]: "concat_output = js ''timeline-video.mp4''"

definition concat_step :: render_step where
  [js_defs]: "concat_step = \<lparr> stKind = ConcatStep, stOutput = concat_output,
     stArgs = [js ''-f'', js ''concat'', js ''-safe'', js ''0'', js ''-i'',
              js ''concat.txt'', js ''-c:v'', js ''libx264'', js ''-preset'',
              js ''veryfast'', js ''-crf'', js ''20'', js ''-c:a'', js ''aac'',
              concat_output],
     stDescription = [0x62FC, 0x63A5, 0x89C6, 0x9891, 0x8F68], stLibass = False \<rparr>"

definition subtitle_step :: render_step where
  [js_defs]: "subtitle_step = \<lparr> stKind = SubtitleStep, stOutput = SUBTITLE_FILE, stArgs = [],
     stDescription = [0x751F, 0x6210, 0x5B57, 0x5E55] @ js '' SRT'', stLibass = False \<rparr>"

definition burn_step :: "render_context \<Rightarrow> render_step" where
  [js_defs]: "burn_step cfg = \<lparr> stKind = BurnStep, stOutput = rcOutput cfg,
     stArgs = [js ''-i'', concat_output, js ''-vf'', js ''subtitles='' @ SUBTITLE_FILE,
              js ''-c:v'', js ''libx264'', js ''-preset'', js ''veryfast'', js ''-crf'',
              js ''20'', js ''-c:a'', js ''copy'', rcOutput cfg],
     stDescription = [0x70E7, 0x5F55, 0x5B57, 0x5E55, 0x5E76, 0x8F93, 0x51FA], stLibass = True \<rparr>"

definition copy_step :: "render_context \<Rightarrow> render_step" where
  [js_defs]: "copy_step cfg = \<lparr> stKind = ConcatStep, stOutput = rcOutput cfg,
     stArgs = [js ''-i'', concat_output, js ''-c'', js ''copy'', rcOutput cfg],
     stDescription = [0x8F93, 0x51FA, 0x6210, 0x7247, 0xFF08, 0x65E0, 0x5B57, 0x5E55, 0xFF09], stLibass = False \<rparr>"

definition buildTimelineRenderPlan :: "(jstext \<Rightarrow> jstext \<Rightarrow> bool) \<Rightarrow> timeline_project \<Rightarrow>
    render_source list \<Rightarrow> render_context \<Rightarrow> render_plan" where
  [js_defs]: "buildTimelineRenderPlan le p srcs cfg =
     (let pieces = piece_steps cfg srcs 0 0 (getOrderedVideoClips le p);
          subs = rcBurn cfg \<and> list_ex has_text (getOrderedSubtitleClips le p)
      in \<lparr> plSteps = pieces
             @ (if pieces = [] then [] else [concat_step])
             @ (if subs then [subtitle_step] else [])
             @ (if pieces = [] then [] else if subs then [burn_step cfg] else [copy_step cfg]),
           plFinal = rcOutput cfg, plEntries = map stOutput pieces \<rparr>)"

definition describeRenderPlan :: "render_plan \<Rightarrow> jstext" where
  [js_defs]: "describeRenderPlan pl = join [10, 10] (map (\<lambda>s.
     js ''# '' @ stDescription s @ [10] @ js ''ffmpeg -y '' @ join [32] (stArgs s)) (plSteps pl))"

end
