(* ===== verification/TimelineBuildClaims.thy ===== *)
theory TimelineBuildClaims
  imports TimelineBuild TimelinePlan EditorCommandsClaims PlacementClaims
begin

text \<open>
  What is guaranteed of timelines that are normalized, built from nodes or brought in sync with
  them, and of export plans: each clip of a well spaced timeline is joined in at its place.
\<close>

section \<open>Normalizing\<close>

lemma set_dedup_ids: "trId ` set (dedup_tracks seen ts) = trId ` set ts - set seen"
  by (induction seen ts rule: dedup_tracks.induct) auto

lemma dedup_distinct: "distinct (map trId (dedup_tracks seen ts))"
proof (induction seen ts rule: dedup_tracks.induct)
  case (2 seen t ts)
  have "trId t \<notin> set (map trId (dedup_tracks (trId t # seen) ts))"
    using set_dedup_ids[of "trId t # seen" ts] by simp
  with 2 show ?case by simp
qed simp

lemma dedup_id: "distinct (map trId ts) \<Longrightarrow> set (map trId ts) \<inter> set seen = {} \<Longrightarrow> dedup_tracks seen ts = ts"
  by (induction seen ts rule: dedup_tracks.induct) auto

definition not_default :: "timeline_track \<Rightarrow> bool" where
  "not_default t \<longleftrightarrow> \<not> list_ex (\<lambda>b. trId b = trId t) createDefaultTracks"

lemma defaults_not: "filter not_default createDefaultTracks = []"
  by (simp add: not_default_def createDefaultTracks_def)

lemma default_or_not: "not_default t \<or> (\<exists>b \<in> set createDefaultTracks. trId t = trId b)"
  by (auto simp: not_default_def list_ex_iff dest: sym)

lemma defaults_distinct: "distinct (map trId createDefaultTracks)"
  by (simp add: createDefaultTracks_def default_track_def js_def)

definition as_partial :: "timeline_project \<Rightarrow> partial_project" where
  "as_partial p = \<lparr> ppTracks = Some (tpTracks p), ppClips = Some (tpClips p), ppUpdatedAt = tpUpdatedAt p \<rparr>"

lemma normalize_tracks:
  "tpTracks (normalizeTimelineProject p) = createDefaultTracks
     @ filter not_default (dedup_tracks [] (case ppTracks p of None \<Rightarrow> [] | Some ts \<Rightarrow> ts))"
  by (simp add: normalizeTimelineProject_def Let_def not_default_def [abs_def])

lemma normalize_distinct: "distinct (map trId (tpTracks (normalizeTimelineProject p)))"
proof -
  let ?ts = "dedup_tracks [] (case ppTracks p of None \<Rightarrow> [] | Some ts \<Rightarrow> ts)"
  have "distinct (map trId (filter not_default ?ts))"
    using dedup_distinct by (simp add: distinct_map_filter)
  moreover have "set (map trId createDefaultTracks) \<inter> set (map trId (filter not_default ?ts)) = {}"
    by (auto simp: not_default_def list_ex_iff image_iff)
  ultimately show ?thesis using defaults_distinct by (simp add: normalize_tracks)
qed

section \<open>Building\<close>

definition node_ok :: "canvas_node \<Rightarrow> bool" where
  "node_ok n \<longleftrightarrow> cnId n \<noteq> [] \<and> 0 < nodeDurationMs n"

definition built_clip_ok :: "timeline_clip \<Rightarrow> bool" where
  "built_clip_ok c \<longleftrightarrow> clId c \<noteq> [] \<and> clNode c \<noteq> []
     \<and> clTrack c \<in> {js ''video-1'', js ''audio-1'', js ''subtitle-1''} \<and> 0 \<le> clStart c \<and> 0 < clDuration c"

lemma lay_videos_ok:
  "0 \<le> cursor \<Longrightarrow> list_all node_ok ns \<Longrightarrow> list_all built_clip_ok (lay_videos cursor ns)"
proof (induction ns arbitrary: cursor)
  case (Cons n ns)
  then have "list_all built_clip_ok (lay_videos (cursor + nodeDurationMs n) ns)"
    by (intro Cons.IH) (auto simp: node_ok_def)
  moreover have "list_all built_clip_ok (video_clips_of cursor n)"
    using Cons.prems by (auto simp: video_clips_of_def anchored_subtitle_def built_clip_ok_def node_ok_def
        Let_def list_all_iff js_def)
  ultimately show ?case by simp
qed simp

lemma lay_audios_ok:
  "0 \<le> cursor \<Longrightarrow> list_all node_ok ns \<Longrightarrow> list_all built_clip_ok (lay_audios cursor ns)"
proof (induction ns arbitrary: cursor)
  case (Cons n ns)
  then have "list_all built_clip_ok (lay_audios (cursor + nodeDurationMs n) ns)"
    by (intro Cons.IH) (auto simp: node_ok_def)
  moreover have "built_clip_ok (audio_clip_of cursor n)"
    using Cons.prems by (simp add: audio_clip_of_def built_clip_ok_def node_ok_def Let_def js_def)
  ultimately show ?case by simp
qed simp

lemma lay_videos_disjoint:
  "0 \<le> cursor \<Longrightarrow> list_all node_ok ns \<Longrightarrow>
   disjoint_clips (filter (\<lambda>c. clKind c = VideoKind) (lay_videos cursor ns))
   \<and> (\<forall>c \<in> set (filter (\<lambda>c. clKind c = VideoKind) (lay_videos cursor ns)). cursor \<le> clStart c)"
proof (induction ns arbitrary: cursor)
  case Nil
  then show ?case by (simp add: disjoint_clips_def)
next
  case (Cons n ns)
  let ?rest = "filter (\<lambda>c. clKind c = VideoKind) (lay_videos (cursor + nodeDurationMs n) ns)"
  have ih: "disjoint_clips ?rest" "\<forall>c \<in> set ?rest. cursor + nodeDurationMs n \<le> clStart c"
    using Cons by (auto simp: node_ok_def)
  obtain c where c: "filter (\<lambda>c. clKind c = VideoKind) (video_clips_of cursor n) = [c]"
      "clStart c = cursor" "clDuration c = nodeDurationMs n"
    by (auto simp: video_clips_of_def anchored_subtitle_def Let_def filter_empty_conv)
  with ih Cons.prems show ?case
    by (force simp: disjoint_clips_def clip_end_def node_ok_def)
qed

lemma lay_audios_kind: "filter (\<lambda>c. clKind c = VideoKind) (lay_audios cursor ns) = []"
  by (induction ns arbitrary: cursor) (simp_all add: audio_clip_of_def Let_def)

section \<open>Syncing\<close>

lemma synced_node: "c \<in> set (synced_subtitles node base len es) \<Longrightarrow> node_subtitle node c"
  by (induction es) (auto simp: synced_subtitles_def List.map_filter_simps Let_def node_subtitle_def
      anchored_subtitle_def split: option.splits if_splits)

lemma filter_synced: "filter (\<lambda>c. \<not> node_subtitle node c) (synced_subtitles node base len es) = []"
  using synced_node by (auto simp: filter_empty_conv)

lemma find_not_subtitle:
  "find (\<lambda>c. clNode c = node \<and> clKind c = VideoKind)
     (filter (\<lambda>c. \<not> node_subtitle node c) cs @ synced_subtitles node base len es)
   = find (\<lambda>c. clNode c = node \<and> clKind c = VideoKind) cs"
proof -
  have "find (\<lambda>c. clNode c = node \<and> clKind c = VideoKind) (synced_subtitles node base len es) = None"
    by (auto simp: find_None_all dest!: synced_node) (simp add: node_subtitle_def)
  moreover have "find (\<lambda>c. clNode c = node \<and> clKind c = VideoKind) (filter (\<lambda>c. \<not> node_subtitle node c) cs)
    = find (\<lambda>c. clNode c = node \<and> clKind c = VideoKind) cs"
    by (induction cs) (auto simp: node_subtitle_def)
  ultimately show ?thesis by (simp add: find_append split: option.splits)
qed

section \<open>Export plans\<close>

text \<open>The pieces that are joined: the clip (none for a black gap) and the length in milliseconds.\<close>

fun pieces :: "render_source list \<Rightarrow> rat \<Rightarrow> timeline_clip list \<Rightarrow> (timeline_clip option \<times> rat) list" where
  "pieces srcs cursor [] = []"
| "pieces srcs cursor (c # cs) = (if source_of srcs (clNode c) = None then pieces srcs cursor cs
     else (if 100 < clStart c - cursor then [(None, clStart c - cursor)] else [])
          @ (Some c, max 100 (clDuration c)) # pieces srcs (clip_end c) cs)"

text \<open>A step makes a piece: it asks ffmpeg for the piece's length, and for the source time of its clip.\<close>

definition makes :: "render_source list \<Rightarrow> render_step \<Rightarrow> timeline_clip option \<times> rat \<Rightarrow> bool" where
  "makes srcs s x \<longleftrightarrow> (case x of
     (None, len) \<Rightarrow> stKind s = GapStep \<and> (\<exists>us vs. stArgs s = us @ js ''-t'' # numText (len / 1000) # vs)
   | (Some c, len) \<Rightarrow> stKind s = TrimStep \<and> (\<exists>src vs. source_of srcs (clNode c) = Some src
       \<and> stArgs s = js ''-i'' # rsFile src # js ''-ss'' # numText (source_start c / 1000)
                    # js ''-t'' # numText (len / 1000) # vs))"

lemma max_tenth: "max (1 / 10) (d / 1000) = max 100 d / (1000 :: rat)"
  by (simp add: max_def)

lemma gap_makes: "makes srcs (gap_step cfg i gap) (None, gap)"
  unfolding makes_def
  by (simp, intro conjI exI[of _ "take 8 (stArgs (gap_step cfg i gap))"]
      exI[of _ "drop 10 (stArgs (gap_step cfg i gap))"])
     (simp_all add: gap_step_def Let_def)

lemma trim_makes:
  "source_of srcs (clNode c) = Some src \<Longrightarrow> makes srcs (trim_step src i c) (Some c, max 100 (clDuration c))"
  by (simp add: makes_def trim_step_def Let_def max_tenth)

lemma piece_steps_make: "list_all2 (makes srcs) (piece_steps cfg srcs cursor i cs) (pieces srcs cursor cs)"
proof (induction cs arbitrary: cursor i)
  case (Cons c cs)
  show ?case
  proof (cases "source_of srcs (clNode c)")
    case None
    with Cons show ?thesis by simp
  next
    case (Some src)
    with Cons gap_makes trim_makes [OF Some] show ?thesis by simp
  qed
qed simp

text \<open>Clips that leave no gap or one of more than a tenth of a second, and last at least as long.\<close>

fun well_spaced :: "rat \<Rightarrow> timeline_clip list \<Rightarrow> bool" where
  "well_spaced cursor [] = True"
| "well_spaced cursor (c # cs) = ((clStart c = cursor \<or> 100 < clStart c - cursor) \<and> 100 \<le> clDuration c
     \<and> well_spaced (clip_end c) cs)"

definition with_source :: "render_source list \<Rightarrow> timeline_clip list \<Rightarrow> timeline_clip list" where
  "with_source srcs cs = filter (\<lambda>c. source_of srcs (clNode c) \<noteq> None) cs"

lemma split_at_element:
  "gap @ y # ys = pre @ x # post \<Longrightarrow> x \<notin> set gap \<Longrightarrow>
   (pre = gap \<and> x = y) \<or> (\<exists>q. pre = gap @ y # q \<and> ys = q @ x # post)"
proof (induction gap arbitrary: pre)
  case Nil
  then show ?case by (cases pre) auto
next
  case (Cons a gap)
  then show ?case by (cases pre) auto
qed

lemma pieces_in_place:
  "well_spaced cursor (with_source srcs cs) \<Longrightarrow> pieces srcs cursor cs = pre @ (Some c, len) # post
   \<Longrightarrow> cursor + sum_list (map snd pre) = clStart c \<and> len = clDuration c"
proof (induction cs arbitrary: cursor pre)
  case (Cons d cs)
  show ?case
  proof (cases "source_of srcs (clNode d) = None")
    case True
    with Cons show ?thesis by (simp add: with_source_def)
  next
    case False
    with Cons.prems have d: "clStart d = cursor \<or> 100 < clStart d - cursor" "100 \<le> clDuration d"
      and rest: "well_spaced (clip_end d) (with_source srcs cs)"
      by (simp_all add: with_source_def)
    let ?gap = "if 100 < clStart d - cursor then [(None, clStart d - cursor)] else []"
    have sum: "cursor + sum_list (map snd ?gap) = clStart d" using d by auto
    from Cons.prems(2) False have eq: "?gap @ (Some d, max 100 (clDuration d)) # pieces srcs (clip_end d) cs
        = pre @ (Some c, len) # post" by simp
    have "(Some c, len) \<notin> set ?gap" by simp
    from split_at_element [OF eq this] show ?thesis
    proof (elim disjE conjE exE)
      assume "pre = ?gap" "(Some c, len) = (Some d, max 100 (clDuration d))"
      with sum d(2) show ?thesis by simp
    next
      fix q assume pre: "pre = ?gap @ (Some d, max 100 (clDuration d)) # q"
        and tail: "pieces srcs (clip_end d) cs = q @ (Some c, len) # post"
      have "cursor + sum_list (map snd pre)
          = (cursor + sum_list (map snd ?gap)) + (max 100 (clDuration d) + sum_list (map snd q))"
        unfolding pre map_append sum_list_append by simp
      with Cons.IH [OF rest tail] d(2) show ?thesis unfolding sum by (simp add: clip_end_def)
    qed
  qed
qed simp

section \<open>Properties\<close>

text \<open>Normalizing puts the three default tracks first, keeps every other track once, under distinct
  ids, and normalizing again changes nothing.\<close>

theorem normalize_stable:
  "normalizeTimelineProject (as_partial (normalizeTimelineProject p)) = normalizeTimelineProject p
   \<and> take 3 (tpTracks (normalizeTimelineProject p)) = createDefaultTracks
   \<and> distinct (map trId (tpTracks (normalizeTimelineProject p)))
   \<and> track_ids (normalizeTimelineProject p) = trId ` set createDefaultTracks
       \<union> trId ` set (case ppTracks p of None \<Rightarrow> [] | Some ts \<Rightarrow> ts)
   \<and> tpDuration (normalizeTimelineProject p) = max_end (tpClips (normalizeTimelineProject p))"
proof -
  let ?n = "normalizeTimelineProject p"
  let ?d = "dedup_tracks [] (case ppTracks p of None \<Rightarrow> [] | Some ts \<Rightarrow> ts)"
  have "dedup_tracks [] (tpTracks ?n) = tpTracks ?n"
    using normalize_distinct by (intro dedup_id) simp_all
  then have "tpTracks (normalizeTimelineProject (as_partial ?n)) = tpTracks ?n"
    by (simp add: normalize_tracks as_partial_def defaults_not)
  then have "normalizeTimelineProject (as_partial ?n) = ?n"
    by (intro timeline_project.equality) (simp_all add: normalizeTimelineProject_def as_partial_def Let_def)
  moreover have "take 3 (tpTracks ?n) = createDefaultTracks"
    by (simp add: normalize_tracks) (simp add: createDefaultTracks_def)
  moreover have "track_ids ?n = trId ` set createDefaultTracks
      \<union> trId ` set (case ppTracks p of None \<Rightarrow> [] | Some ts \<Rightarrow> ts)"
  proof -
    have ids: "trId ` set ?d = trId ` set (case ppTracks p of None \<Rightarrow> [] | Some ts \<Rightarrow> ts)"
      using set_dedup_ids[of "[]"] by simp
    have "track_ids ?n = trId ` set createDefaultTracks \<union> trId ` set ?d"
      unfolding normalize_tracks using default_or_not by (auto simp: image_iff)
    with ids show ?thesis by simp
  qed
  moreover have "tpDuration ?n = max_end (tpClips ?n)"
    by (simp add: normalizeTimelineProject_def Let_def)
  ultimately show ?thesis using normalize_distinct by blast
qed

text \<open>A timeline built from nodes with ids and lengths of at least half a millisecond is a valid
  project, and its video clips follow one another without overlap.\<close>

theorem built_timeline_ok:
  assumes "list_all node_ok ns"
  shows "project_ok (buildTimelineFromNodes now ns)
    \<and> disjoint_clips (filter (\<lambda>c. clKind c = VideoKind) (tpClips (buildTimelineFromNodes now ns)))"
proof -
  let ?v = "filter (has_media ''video'') ns"
  let ?a = "filter (has_media ''audio'') ns"
  have ok: "list_all node_ok ?v" "list_all node_ok ?a" using assms by (auto simp: list_all_iff)
  have "list_all built_clip_ok (lay_videos 0 ?v @ lay_audios 0 ?a)"
    using lay_videos_ok [OF _ ok(1)] lay_audios_ok [OF _ ok(2)] by simp
  then have "project_ok (buildTimelineFromNodes now ns)"
    by (auto simp: project_ok_def clip_ok_def buildTimelineFromNodes_def Let_def list_all_iff
        built_clip_ok_def createDefaultTracks_def default_track_def js_def)
  moreover have "disjoint_clips (filter (\<lambda>c. clKind c = VideoKind) (tpClips (buildTimelineFromNodes now ns)))"
    using lay_videos_disjoint [OF _ ok(1), of 0]
    by (simp add: buildTimelineFromNodes_def Let_def lay_audios_kind)
  ultimately show ?thesis by blast
qed

definition ex_node :: canvas_node where
  [js_defs]: "ex_node = \<lparr> cnId = js ''n'', cnType = js ''video'', cnTitle = [], cnContent = Some (js ''u''),
     cnStorageKey = None, cnDuration = Some 9000, cnEntries = Some
       [\<lparr> eIndex = 1, eStart = 1000, eEnd = 2000, eText = js ''hi'' \<rparr>] \<rparr>"

theorem built_timeline_ok_witness: "project_ok (buildTimelineFromNodes [] [ex_node, ex_node])"
proof -
  have "list_all node_ok [ex_node, ex_node]"
    by (simp add: node_ok_def ex_node_def nodeDurationMs_def js_def)
  from built_timeline_ok [OF this] show ?thesis by blast
qed

lemma pieces_clips: "List.map_filter fst (pieces srcs cursor cs) = with_source srcs cs"
proof (induction cs arbitrary: cursor)
  case (Cons c cs)
  then show ?case by (cases "source_of srcs (clNode c)") (simp_all add: with_source_def List.map_filter_simps)
qed (simp add: with_source_def List.map_filter_simps)

text \<open>The video clips that are to be seen: those on tracks that are not hidden (an absent flag means
  visible).\<close>

definition on_visible_track :: "timeline_project \<Rightarrow> timeline_clip \<Rightarrow> bool" where
  "on_visible_track p c \<longleftrightarrow> (\<exists>t \<in> set (tpTracks p). trId t = clTrack c \<and> trVisible t \<noteq> Some False)"

text \<open>C40: In the export of a well spaced timeline whose video tracks are all visible, the clips joined
  are exactly the video clips of visible tracks that have a source, each once, and each is joined in
  exactly at its start and for its length: the steps ask ffmpeg for pieces whose lengths before it add
  up to its start, cut from its source at the clip's source time. (Clips of hidden tracks, which the
  export should skip, are joined as well: \<open>hidden_track_exported\<close>.)\<close>

theorem export_in_place:
  assumes "well_spaced 0 (with_source srcs (getOrderedVideoClips le p))"
    and "\<forall>c \<in> set (tpClips p). clKind c = VideoKind \<longrightarrow> on_visible_track p c"
  shows "list_all2 (makes srcs) (piece_steps cfg srcs 0 0 (getOrderedVideoClips le p))
      (pieces srcs 0 (getOrderedVideoClips le p))
    \<and> plEntries (buildTimelineRenderPlan le p srcs cfg)
        = map stOutput (piece_steps cfg srcs 0 0 (getOrderedVideoClips le p))
    \<and> mset (List.map_filter fst (pieces srcs 0 (getOrderedVideoClips le p)))
        = {#c \<in># mset (tpClips p). clKind c = VideoKind \<and> on_visible_track p c \<and> source_of srcs (clNode c) \<noteq> None#}
    \<and> (\<forall>pre c len post. pieces srcs 0 (getOrderedVideoClips le p) = pre @ (Some c, len) # post
        \<longrightarrow> sum_list (map snd pre) = clStart c \<and> len = clDuration c)"
proof (intro conjI)
  show "mset (List.map_filter fst (pieces srcs 0 (getOrderedVideoClips le p)))
      = {#c \<in># mset (tpClips p). clKind c = VideoKind \<and> on_visible_track p c \<and> source_of srcs (clNode c) \<noteq> None#}"
    using assms(2) unfolding pieces_clips
    by (auto simp: with_source_def getOrderedVideoClips_def ordered_clips_def filter_filter_mset intro!: filter_mset_cong)
qed (use piece_steps_make pieces_in_place [OF assms(1)] in \<open>auto simp: buildTimelineRenderPlan_def Let_def\<close>)

definition ex_film :: timeline_project where
  [js_defs]: "ex_film = ex_project\<lparr>tpClips := [ex_clip ''b'' ''video-1'' 2500 4000, ex_clip ''a'' ''video-1'' 0 2000]\<rparr>"

definition ex_sources :: "render_source list" where
  [js_defs]: "ex_sources = [\<lparr> rsNode = js ''node'', rsFile = js ''in.mp4'', rsDuration = 9000 \<rparr>]"

theorem export_in_place_witness:
  "pieces ex_sources 0 (getOrderedVideoClips (\<lambda>_ _. True) ex_film)
     = [(Some (ex_clip ''a'' ''video-1'' 0 2000), 2000), (None, 500)]
       @ (Some (ex_clip ''b'' ''video-1'' 2500 4000), 4000) # []
   \<and> sum_list (map snd [(Some (ex_clip ''a'' ''video-1'' 0 2000), 2000), (None, 500)])
     = clStart (ex_clip ''b'' ''video-1'' 2500 4000)
   \<and> mset (List.map_filter fst (pieces ex_sources 0 (getOrderedVideoClips (\<lambda>_ _. True) ex_film)))
     = {#c \<in># mset (tpClips ex_film). clKind c = VideoKind \<and> on_visible_track ex_film c
         \<and> source_of ex_sources (clNode c) \<noteq> None#}"
proof -
  have run: "pieces ex_sources 0 (getOrderedVideoClips (\<lambda>_ _. True) ex_film)
     = [(Some (ex_clip ''a'' ''video-1'' 0 2000), 2000), (None, 500)]
       @ (Some (ex_clip ''b'' ''video-1'' 2500 4000), 4000) # []" by code_simp
  have "well_spaced 0 (with_source ex_sources (getOrderedVideoClips (\<lambda>_ _. True) ex_film))" by code_simp
  moreover have "\<forall>c \<in> set (tpClips ex_film). clKind c = VideoKind \<longrightarrow> on_visible_track ex_film c"
    unfolding on_visible_track_def by code_simp
  ultimately show ?thesis using export_in_place run by blast
qed

section \<open>Gaps\<close>

text \<open>Gaps of up to a tenth of a second are left out, and clips shorter than that are lengthened: what
  follows moves away from its place and from its subtitles.\<close>

lemma small_gaps_drift:
  "pieces ex_sources 0 [ex_clip ''a'' ''video-1'' 0 2000, ex_clip ''b'' ''video-1'' 2100 2000,
      ex_clip ''c'' ''video-1'' 4200 2000]
   = [(Some (ex_clip ''a'' ''video-1'' 0 2000), 2000), (Some (ex_clip ''b'' ''video-1'' 2100 2000), 2000),
      (Some (ex_clip ''c'' ''video-1'' 4200 2000), 2000)]"
  by code_simp

text \<open>The clips of a hidden track are exported.\<close>

lemma hidden_track_exported:
  "let p = ex_film\<lparr>tpTracks := map (\<lambda>t. t\<lparr>trVisible := Some False\<rparr>) (tpTracks ex_film)\<rparr>
   in length (plEntries (buildTimelineRenderPlan (\<lambda>_ _. True) p ex_sources defaultContext)) = 3"
  by code_simp

text \<open>After a video clip has been cut, the sync when the timeline is opened takes the subtitles away from
  the first half and lays all of them out again from the start of the second half.\<close>

lemma sync_after_cut:
  "let p = buildTimelineFromNodes [] [ex_node];
       q = (case handleSplitClip p (empty_payload\<lparr>pId := Some (js ''clip-n''), pSplitAt := Some (Num 5000)\<rparr>) of
              Inl _ \<Rightarrow> p | Inr q \<Rightarrow> q);
       r = syncTimelineSubtitleClips [] q [ex_node]
   in map clStart (filter (node_subtitle (js ''n'')) (tpClips q)) = [1000]
    \<and> map clStart (filter (node_subtitle (js ''n'')) (tpClips r)) = [6000]"
  by code_simp

end
