(* ===== verification/TimelineView.thy ===== *)
theory TimelineView
  imports TimelineBuild
begin

text \<open>
  The numbers of the timeline view (\<open>web/src/lib/timeline/timeline-view.ts\<close>): zoom levels, widths,
  the ruler and the time texts; and the summary of a timeline in words
  (\<open>timeline-summary.ts\<close>). Zoom levels are exact; \<open>round_half_up\<close> is \<open>Math.round\<close>.
\<close>

section \<open>Zoom\<close>

definition round_half_up :: "rat \<Rightarrow> int" where
  [js_defs]: "round_half_up x = \<lfloor>x + 1 / 2\<rfloor>"

definition roundZoom :: "rat \<Rightarrow> rat" where
  [js_defs]: "roundZoom v = of_int (round_half_up (v * 100)) / 100"

definition clampTimelineZoom :: "rat \<Rightarrow> rat" where
  [js_defs]: "clampTimelineZoom z = roundZoom (min 4 (max (2 / 100) z))"

definition getBaseTimelineWidth :: "rat \<Rightarrow> rat" where
  [js_defs]: "getBaseTimelineWidth d = max 960 (of_int \<lceil>max 1000 d / 1000\<rceil> * 96)"

definition getTimelinePxPerMs :: "rat \<Rightarrow> rat" where
  [js_defs]: "getTimelinePxPerMs z = 96 * clampTimelineZoom z / 1000"

definition getNextTimelineZoom :: "rat \<Rightarrow> bool \<Rightarrow> rat" where
  [js_defs]: "getNextTimelineZoom z inward =
     clampTimelineZoom (if inward then z * (5 / 4) else z / (5 / 4))"

definition zoomIn :: "rat \<Rightarrow> rat" where
  [js_defs]: "zoomIn z = getNextTimelineZoom z True"

definition zoomOut :: "rat \<Rightarrow> rat" where
  [js_defs]: "zoomOut z = getNextTimelineZoom z False"

definition getFitTimelineZoom :: "rat \<Rightarrow> rat \<Rightarrow> rat" where
  [js_defs]: "getFitTimelineZoom d viewport = clampTimelineZoom (max 320 viewport / getBaseTimelineWidth d)"

definition getTimelineTrackWidth :: "rat \<Rightarrow> rat \<Rightarrow> rat \<Rightarrow> rat" where
  [js_defs]: "getTimelineTrackWidth d z viewport =
     max (max 320 viewport) (of_int (round_half_up (getBaseTimelineWidth d * clampTimelineZoom z)))"

definition getTimelineVisualEndMs :: "timeline_clip list \<Rightarrow> rat" where
  [js_defs]: "getTimelineVisualEndMs cs = max_end cs"

definition ruler_steps :: "rat list" where
  [js_defs]: "ruler_steps = [100, 250, 500, 1000, 2000, 5000, 10000, 15000, 30000, 60000, 120000, 300000]"

definition getRulerTickStep :: "rat \<Rightarrow> rat" where
  [js_defs]: "getRulerTickStep pxPerMs = (let target = 64 / max pxPerMs (1 / 1000000) in
     case find (\<lambda>s. target \<le> s) ruler_steps of Some s \<Rightarrow> s | None \<Rightarrow> last ruler_steps)"

definition formatTimelineTime :: "rat \<Rightarrow> jstext" where
  [js_defs]: "formatTimelineTime ms = (let n = safe_ms ms; total = n div 1000 in
     padStart 2 (dec (total div 60)) @ [58] @ padStart 2 (dec (total mod 60)) @ [46]
     @ dec (n mod 1000 div 100))"

section \<open>Summary\<close>

definition formatMs :: "rat \<Rightarrow> jstext" where
  [js_defs]: "formatMs ms = (let s = safe_ms ms div 1000 in
     dec (s div 60) @ [58] @ padStart 2 (dec (s mod 60)))"

definition or_empty :: "jstext option \<Rightarrow> jstext" where
  [js_defs]: "or_empty t = (case t of None \<Rightarrow> [] | Some s \<Rightarrow> s)"

definition clipLine :: "timeline_clip \<Rightarrow> jstext" where
  [js_defs]: "clipLine c =
     (let label = take 24 (trim (if or_empty (clTitle c) \<noteq> [] then or_empty (clTitle c) else or_empty (clText c)));
          source = (case clMedia c of None \<Rightarrow> [] | Some m \<Rightarrow> take 24 (dmTitle m));
          txt = (if label \<noteq> [] then label else if source \<noteq> [] then source else take 12 (clNode c))
      in js ''  - clip '' @ clId c @ js '' | '' @ kind_name (clKind c) @ js '' | '' @ [0x8F68, 0x9053] @ js '' '' @ clTrack c
         @ js '' | '' @ numText (clStart c) @ js ''-'' @ numText (clip_end c) @ js ''ms | '' @ txt)"

definition kind_label :: "track_kind \<Rightarrow> jstext" where
  [js_defs]: "kind_label k = (case k of VideoKind \<Rightarrow> [0x89C6, 0x9891] | AudioKind \<Rightarrow> [0x97F3, 0x9891]
     | SubtitleKind \<Rightarrow> [0x5B57, 0x5E55] | TextKind \<Rightarrow> [0x6587, 0x672C] | ImageKind \<Rightarrow> [0x56FE, 0x7247])"

definition trackLine :: "timeline_track \<Rightarrow> jstext" where
  [js_defs]: "trackLine t =
     (let flags = join (js ''/'') ((if trVisible t = Some False then [[0x9690, 0x85CF]] else [])
                  @ (if trMuted t = Some True then [[0x9759, 0x97F3]] else []))
      in js ''  - '' @ trId t @ js '' | '' @ kind_label (trKind t) @ [0x8F68] @ js '' | '' @ trLabel t
         @ (if flags \<noteq> [] then js '' | '' @ flags else []))"

definition summarizeTimeline :: "timeline_project \<Rightarrow> jstext" where
  [js_defs]: "summarizeTimeline p =
     (let count = (\<lambda>n. dec (int n));
          subs = filter (\<lambda>c. clKind c = SubtitleKind) (tpClips p);
          nodes = remdups (map clNode (tpClips p));
          direct = filter (\<lambda>c. clMedia c \<noteq> None) (tpClips p);
          tracks = sort_by (\<lambda>a b. trOrder a \<le> trOrder b) (tpTracks p);
          shown = take 60 (tpClips p)
      in join [10]
       ([[0x65F6, 0x95F4, 0x7EBF, 0xFF1A, 0x603B, 0x65F6, 0x957F] @ js '' '' @ formatMs (tpDuration p) @ [0xFF0C] @ count (length (tpTracks p)) @ js '' '' @ [0x6761, 0x8F68, 0x9053, 0xFF0C]
           @ count (length (tpClips p)) @ js '' '' @ [0x4E2A, 0x7247, 0x6BB5, 0xFF08, 0x5B57, 0x5E55] @ js '' '' @ count (length subs) @ [0xFF0C, 0x76F4, 0x8FDE, 0x7D20, 0x6750] @ js '' '' @ count (length direct)
           @ [0xFF0C, 0x5F15, 0x7528, 0x8282, 0x70B9] @ js '' '' @ count (length nodes) @ js '' '' @ [0x4E2A, 0xFF09, 0x3002],
         [0x8F68, 0x9053, 0xFF08, 0x987A, 0x5E8F, 0x4ECE, 0x4E0A, 0x5230, 0x4E0B, 0xFF09, 0xFF1A]] @ map trackLine tracks @ [[0x7247, 0x6BB5, 0xFF1A]]
        @ (if tpClips p = [] then [js ''  '' @ [0xFF08, 0x7A7A, 0x65F6, 0x95F4, 0x7EBF, 0xFF09]]
           else map clipLine shown
             @ (if length shown < length (tpClips p)
                then [js ''  '' @ [0x2026, 0x5176, 0x4F59] @ js '' '' @ count (length (tpClips p) - length shown) @ js '' '' @ [0x4E2A, 0x7247, 0x6BB5, 0x7701, 0x7565]] else []))
        @ (if subs \<noteq> []
           then [[0x5B57, 0x5E55, 0x5171] @ js '' '' @ dec (sum_list (map (\<lambda>c. int (length (or_empty (clText c)))) subs)) @ js '' '' @ [0x5B57, 0x3002]]
           else [])))"

end
