(* ===== verification/TimelineViewClaims.thy ===== *)
theory TimelineViewClaims
  imports TimelineView
begin

text \<open>
  Zooming moves between the limits in finitely many steps and the ruler keeps its ticks apart.
\<close>

text \<open>The levels that clamping produces: whole percents between the limits.\<close>

definition zoom_level :: "rat \<Rightarrow> bool" where
  "zoom_level z \<longleftrightarrow> (\<exists>k :: int. z = of_int k / 100 \<and> 2 \<le> k \<and> k \<le> 400)"

lemma clamp_cases:
  "clampTimelineZoom z = of_int (if z \<le> 2 / 100 then 2 else if 4 \<le> z then 400 else \<lfloor>z * 100 + 1 / 2\<rfloor>) / 100"
proof -
  have two: "roundZoom (2 / 100) = 2 / 100"
  proof -
    have "\<lfloor>2 / 100 * 100 + 1 / 2 :: rat\<rfloor> = 2" by linarith
    then show ?thesis by (simp only: roundZoom_def round_half_up_def)
  qed
  have four: "roundZoom 4 = 4"
  proof -
    have "\<lfloor>4 * 100 + 1 / 2 :: rat\<rfloor> = 400" by linarith
    then show ?thesis by (simp only: roundZoom_def round_half_up_def)
  qed
  consider "z \<le> 2 / 100" | "2 / 100 < z" "z < 4" | "4 \<le> z" by linarith
  then show ?thesis
  proof cases
    case 1
    then have "min 4 (max (2 / 100) z) = 2 / 100" by simp
    with 1 two show ?thesis by (simp add: clampTimelineZoom_def)
  next
    case 2
    then have "min 4 (max (2 / 100) z) = z" by simp
    with 2 show ?thesis by (simp add: clampTimelineZoom_def roundZoom_def round_half_up_def)
  next
    case 3
    then have "min 4 (max (2 / 100) z) = 4" by simp
    with 3 four show ?thesis by (simp add: clampTimelineZoom_def)
  qed
qed

lemma clamp_level: "zoom_level (clampTimelineZoom z)"
proof -
  let ?k = "if z \<le> 2 / 100 then 2 else if 4 \<le> z then 400 else \<lfloor>z * 100 + 1 / 2\<rfloor>"
  have "2 \<le> ?k \<and> ?k \<le> 400" by (auto simp: le_floor_iff floor_le_iff)
  then show ?thesis unfolding zoom_level_def clamp_cases by (intro exI[of _ ?k]) auto
qed

lemma clamp_of_level: "zoom_level z \<Longrightarrow> clampTimelineZoom z = z"
proof -
  assume "zoom_level z"
  then obtain k :: int where k: "z = of_int k / 100" "2 \<le> k" "k \<le> 400" by (auto simp: zoom_level_def)
  have "\<lfloor>of_int k + 1 / 2 :: rat\<rfloor> = k" by linarith
  moreover have "(of_int k :: rat) \<le> 2 \<longleftrightarrow> k \<le> 2" "400 \<le> (of_int k :: rat) \<longleftrightarrow> 400 \<le> k"
    by simp_all
  ultimately show ?thesis using k unfolding clamp_cases by auto
qed

lemma zoomIn_level:
  assumes "zoom_level z"
  shows "zoom_level (zoomIn z) \<and> (if z = 4 then zoomIn z = 4 else z + 1 / 100 \<le> zoomIn z)"
proof -
  from assms obtain k :: int where k: "z = of_int k / 100" "2 \<le> k" "k \<le> 400" by (auto simp: zoom_level_def)
  have step: "zoomIn z = of_int (if 4 \<le> z * (5 / 4) then 400 else \<lfloor>z * (5 / 4) * 100 + 1 / 2\<rfloor>) / 100"
    using k by (simp add: zoomIn_def getNextTimelineZoom_def clamp_cases)
  have "z + 1 / 100 \<le> zoomIn z" if "z \<noteq> 4"
  proof (cases "4 \<le> z * (5 / 4)")
    case True
    have "k < 400" using that k by (cases "k = 400") auto
    with True k show ?thesis unfolding step by simp
  next
    case False
    have "k + 1 \<le> \<lfloor>z * (5 / 4) * 100 + 1 / 2\<rfloor>" using k by (simp add: le_floor_iff)
    then have "(of_int (k + 1) :: rat) \<le> of_int \<lfloor>z * (5 / 4) * 100 + 1 / 2\<rfloor>" by (simp only: of_int_le_iff)
    with False k show ?thesis unfolding step by simp
  qed
  moreover have "zoomIn z = 4" if "z = 4" using that step by simp
  moreover have "zoom_level (zoomIn z)"
    unfolding zoomIn_def getNextTimelineZoom_def by (rule clamp_level)
  ultimately show ?thesis by auto
qed

lemma zoomOut_level:
  assumes "zoom_level z"
  shows "zoom_level (zoomOut z) \<and> (if z = 2 / 100 then zoomOut z = 2 / 100 else zoomOut z \<le> z - 1 / 100)"
proof -
  from assms obtain k :: int where k: "z = of_int k / 100" "2 \<le> k" "k \<le> 400" by (auto simp: zoom_level_def)
  have step: "zoomOut z = of_int (if z / (5 / 4) \<le> 2 / 100 then 2 else \<lfloor>z / (5 / 4) * 100 + 1 / 2\<rfloor>) / 100"
    using k by (auto simp: zoomOut_def getNextTimelineZoom_def clamp_cases)
  have "zoomOut z \<le> z - 1 / 100" if "z \<noteq> 2 / 100"
  proof (cases "z / (5 / 4) \<le> 2 / 100")
    case True
    have "3 \<le> k" using that k by (cases "k = 2") auto
    with True k show ?thesis unfolding step by simp
  next
    case False
    have k3: "3 \<le> k" using that k by (cases "k = 2") auto
    then have "(3 :: rat) \<le> of_int k" by simp
    moreover have "z / (5 / 4) * 100 = of_int k * (4 / 5)" using k(1) by simp
    ultimately have "z / (5 / 4) * 100 + 1 / 2 < of_int k" by linarith
    then have "\<lfloor>z / (5 / 4) * 100 + 1 / 2\<rfloor> < k" by (simp only: floor_less_iff)
    then have "\<lfloor>z / (5 / 4) * 100 + 1 / 2\<rfloor> \<le> k - 1" by linarith
    then have "(of_int \<lfloor>z / (5 / 4) * 100 + 1 / 2\<rfloor> :: rat) \<le> of_int (k - 1)" by (simp only: of_int_le_iff)
    with False k show ?thesis unfolding step by simp
  qed
  moreover have "zoomOut z = 2 / 100" if "z = 2 / 100" using that step by simp
  moreover have "zoom_level (zoomOut z)"
    unfolding zoomOut_def getNextTimelineZoom_def by (rule clamp_level)
  ultimately show ?thesis by auto
qed

lemma zoomIn_iterate:
  "zoom_level z \<Longrightarrow> zoom_level ((zoomIn ^^ n) z) \<and> min 4 (z + of_nat n / 100) \<le> (zoomIn ^^ n) z"
proof (induction n)
  case 0
  then show ?case by simp
next
  case (Suc n)
  then have level: "zoom_level ((zoomIn ^^ n) z)" and low: "min 4 (z + of_nat n / 100) \<le> (zoomIn ^^ n) z"
    by simp_all
  from zoomIn_level [OF level] low show ?case by (auto simp: min_def add_divide_distrib split: if_splits)
qed

lemma zoomOut_iterate:
  "zoom_level z \<Longrightarrow> zoom_level ((zoomOut ^^ n) z) \<and> (zoomOut ^^ n) z \<le> max (2 / 100) (z - of_nat n / 100)"
proof (induction n)
  case 0
  then show ?case by simp
next
  case (Suc n)
  then have level: "zoom_level ((zoomOut ^^ n) z)"
    and high: "(zoomOut ^^ n) z \<le> max (2 / 100) (z - of_nat n / 100)"
    by simp_all
  from zoomOut_level [OF level] high show ?case by (auto simp: max_def add_divide_distrib split: if_splits)
qed

lemma level_bounds: "zoom_level z \<Longrightarrow> 2 / 100 \<le> z \<and> z \<le> 4"
  by (auto simp: zoom_level_def)

lemma ruler_find:
  assumes "64 / 300000 \<le> px"
  obtains s where "find (\<lambda>s. 64 / px \<le> s) ruler_steps = Some s" "64 / px \<le> s"
proof (cases "find (\<lambda>s. 64 / px \<le> s) ruler_steps")
  case None
  then have "\<forall>s \<in> set ruler_steps. \<not> 64 / px \<le> s" by (simp only: find_None_all)
  then have "\<not> 64 / px \<le> 300000" by (simp add: ruler_steps_def)
  moreover have "0 < px" using assms by simp
  ultimately show ?thesis using assms by (simp add: divide_le_eq)
next
  case (Some s)
  with that find_Some_set [OF Some] show ?thesis by blast
qed

section \<open>Properties\<close>

text \<open>From any zoom level, zooming in reaches the largest level and zooming out the smallest one in
  at most 398 steps, every step before that moves by at least a percent, and at every zoom level
  the ticks of the ruler are at least 64 pixels apart.\<close>

theorem zoom_and_ruler:
  "(zoomIn ^^ 398) (clampTimelineZoom z) = 4
   \<and> (zoomOut ^^ 398) (clampTimelineZoom z) = 2 / 100
   \<and> clampTimelineZoom (clampTimelineZoom z) = clampTimelineZoom z
   \<and> (clampTimelineZoom z = 4 \<or> clampTimelineZoom z + 1 / 100 \<le> zoomIn (clampTimelineZoom z))
   \<and> (clampTimelineZoom z = 2 / 100 \<or> zoomOut (clampTimelineZoom z) \<le> clampTimelineZoom z - 1 / 100)
   \<and> 64 \<le> getRulerTickStep (getTimelinePxPerMs z) * getTimelinePxPerMs z"
proof -
  let ?z = "clampTimelineZoom z"
  let ?px = "getTimelinePxPerMs z"
  have z: "zoom_level ?z" by (rule clamp_level)
  note b = level_bounds [OF z]
  have "(zoomIn ^^ 398) ?z = 4"
    using zoomIn_iterate [OF z, of 398] level_bounds[of "(zoomIn ^^ 398) ?z"] b by (simp add: min_def split: if_splits)
  moreover have "(zoomOut ^^ 398) ?z = 2 / 100"
    using zoomOut_iterate [OF z, of 398] level_bounds[of "(zoomOut ^^ 398) ?z"] b by (simp add: max_def split: if_splits)
  moreover have "64 \<le> getRulerTickStep ?px * ?px"
  proof -
    have px: "64 / 300000 \<le> ?px" using b by (simp add: getTimelinePxPerMs_def)
    then obtain s where s: "find (\<lambda>s. 64 / ?px \<le> s) ruler_steps = Some s" "64 / ?px \<le> s"
      by (rule ruler_find)
    have "max ?px (1 / 1000000) = ?px" using px by simp
    with s have "getRulerTickStep ?px = s" by (simp add: getRulerTickStep_def Let_def)
    moreover have "0 < ?px" using px by simp
    ultimately show ?thesis using s(2) by (simp add: pos_divide_le_eq)
  qed
  ultimately show ?thesis
    using zoomIn_level [OF z] zoomOut_level [OF z] clamp_of_level [OF z] by (auto split: if_splits)
qed

end
