(* ===== verification/RuntimeQueue.thy ===== *)
theory RuntimeQueue
  imports Reconciler
begin

text \<open>
  The submission queue of the runtime (\<open>canvas-agent/src/dreamina-cli-runtime.ts\<close>). Every runtime
  process holds a copy of the journal's records in memory (\<open>records\<close>) and the next queue ticket; every
  operation takes the state lock, reloads the journal, changes one record of the copy and writes the
  copy back. Queue leases and reservations live in the journal, with an expiry: a reload ends those
  that have run out.

  An operation maps a state (copy and journal) to a result and a state, since a failing operation
  leaves changes in the copy. Its environment gives the clock, which one operation reads once, and
  the fault of its own write and of the write of its reload: the lock lost before or after the
  replacement, or a failure of the file system. Taking the lock, staging of reference files, timers and
  promises are not modelled.
\<close>

section \<open>Errors\<close>

text \<open>A \<open>DreaminaCliError\<close> or \<open>LocalDreaminaGenerationError\<close> with its code, or any other error.\<close>

datatype runtime_error = CliError string | LocalError string | OtherError

definition stateInvalid :: runtime_error where "stateInvalid = CliError ''dreamina_state_invalid''"
definition stateFenced :: runtime_error where "stateFenced = CliError ''dreamina_state_fenced''"
definition cliFenced :: runtime_error where "cliFenced = CliError ''dreamina_cli_fenced''"
definition accountChanged :: runtime_error where
  "accountChanged = CliError ''dreamina_account_session_changed''"
definition submissionUnknown :: runtime_error where
  "submissionUnknown = CliError ''dreamina_submission_unknown''"
definition idempotencyConflict :: runtime_error where
  "idempotencyConflict = CliError ''dreamina_idempotency_conflict''"
definition generationCapacityFull :: runtime_error where
  "generationCapacityFull = CliError ''dreamina_generation_capacity_full''"
definition taskNotFound :: runtime_error where "taskNotFound = CliError ''dreamina_task_not_found''"
definition cancelledError :: runtime_error where "cancelledError = CliError ''dreamina_cancelled''"
definition generationRequestInvalid :: runtime_error where
  "generationRequestInvalid = LocalError ''local_generation_request_invalid''"

lemmas error_defs = stateInvalid_def stateFenced_def cliFenced_def accountChanged_def
  submissionUnknown_def idempotencyConflict_def generationCapacityFull_def taskNotFound_def
  cancelledError_def generationRequestInvalid_def

text \<open>An error of the journal as the runtime sees it.\<close>

fun journal_failure :: "journal_error \<Rightarrow> runtime_error" where
  "journal_failure JournalStateInvalid = stateInvalid"
| "journal_failure PollFenced = CliError ''dreamina_poll_fenced''"
| "journal_failure QueryResponseInvalid = CliError ''dreamina_query_response_invalid''"
| "journal_failure TaskIdInvalid = OtherError"
| "journal_failure PollOwnerInvalid = OtherError"

fun errorCode :: "runtime_error \<Rightarrow> string" where
  "errorCode (CliError c) = c"
| "errorCode (LocalError c) = c"
| "errorCode OtherError = ''dreamina_generation_failed''"

definition taskFailed :: "string option \<Rightarrow> runtime_error" where
  "taskFailed c = CliError (case c of None \<Rightarrow> ''dreamina_generation_failed'' | Some x \<Rightarrow> x)"

definition isDurableJournalCommitError :: "runtime_error \<Rightarrow> bool" where
  "isDurableJournalCommitError e \<longleftrightarrow> e \<in> {cliFenced, stateFenced,
     CliError ''dreamina_state_busy'', stateInvalid}"

definition submitFailureCode :: "runtime_error \<Rightarrow> bool \<Rightarrow> string" where
  "submitFailureCode e spawned =
     (if \<not> spawned \<and> e = CliError ''dreamina_spawn_failed'' then ''dreamina_submit_spawn_failed''
      else if e = CliError ''dreamina_command_timeout'' then ''dreamina_submit_timeout''
      else if e = CliError ''dreamina_submit_exit_nonzero'' then ''dreamina_submit_exit_nonzero''
      else if e = CliError ''dreamina_submit_receipt_missing'' then ''dreamina_submit_receipt_missing''
      else ''dreamina_submission_unknown'')"

section \<open>Options and state\<close>

record runtime_options =
  op_ownerId :: string
  op_pollIntervalMs :: "rat option"
  op_maxActiveTasks :: "rat option"
  op_reservationLeaseMs :: "rat option"
  op_reservationHeartbeatMs :: "rat option"
  op_durableReloadIntervalMs :: "rat option"

record runtime_config =
  rt_ownerId :: string
  rt_reservationOwnerId :: string
  rt_pollIntervalMs :: int
  maxActiveTasks :: int
  reservationLeaseMs :: int
  reservationHeartbeatMs :: int
  durableReloadIntervalMs :: int
  rt_localeLe :: "string \<Rightarrow> string \<Rightarrow> bool"

definition DEFAULT_SUBMISSION_RESERVATION_LEASE_MS :: int where
  "DEFAULT_SUBMISSION_RESERVATION_LEASE_MS = 30000"
definition DEFAULT_SUBMISSION_RESERVATION_HEARTBEAT_MS :: int where
  "DEFAULT_SUBMISSION_RESERVATION_HEARTBEAT_MS = 5000"

definition boundedInteger :: "rat option \<Rightarrow> int \<Rightarrow> int \<Rightarrow> int \<Rightarrow> int" where
  "boundedInteger v lo hi fallback = (case v of None \<Rightarrow> fallback
     | Some x \<Rightarrow> if of_int \<lfloor>x\<rfloor> = x \<and> lo \<le> \<lfloor>x\<rfloor> \<and> \<lfloor>x\<rfloor> \<le> hi then \<lfloor>x\<rfloor> else fallback)"

text \<open>The constructor; \<open>rid\<close> is the random \<open>reservationOwnerId\<close>.\<close>

definition new_runtime ::
  "string \<Rightarrow> (string \<Rightarrow> string \<Rightarrow> bool) \<Rightarrow> runtime_options \<Rightarrow> runtime_error + runtime_config" where
  "new_runtime rid le x =
     (if \<not> chars_ok owner_char 16 120 (op_ownerId x) then Inl OtherError
      else
        let lease = boundedInteger (op_reservationLeaseMs x) 50 300000
              DEFAULT_SUBMISSION_RESERVATION_LEASE_MS in
        Inr \<lparr>rt_ownerId = op_ownerId x, rt_reservationOwnerId = rid,
             rt_pollIntervalMs = boundedInteger (op_pollIntervalMs x) 0 60000 2000,
             maxActiveTasks = boundedInteger (op_maxActiveTasks x) 1 32 5,
             reservationLeaseMs = lease,
             reservationHeartbeatMs =
               (if op_reservationHeartbeatMs x = Some 0 then 0
                else boundedInteger (op_reservationHeartbeatMs x) 10 lease
                  (min DEFAULT_SUBMISSION_RESERVATION_HEARTBEAT_MS (max 10 (lease div 3)))),
             durableReloadIntervalMs = boundedInteger (op_durableReloadIntervalMs x) 5 5000 250,
             rt_localeLe = le\<rparr>)"

text \<open>\<open>rs_records\<close> is the map \<open>records\<close> in the order of its entries.\<close>

record runtime_state =
  rs_records :: "runtime_record list"
  rs_nextQueueTicket :: int
  rs_disk :: "runtime_disk option"

datatype write_fault = LockLostBefore | WriteFailed | LockLostAfter

record op_env =
  env_now :: int
  env_reload :: "write_fault option"
  env_write :: "write_fault option"

type_synonym 'a outcome = "(runtime_error + 'a) \<times> runtime_state"

abbreviation cached :: "runtime_state \<Rightarrow> string \<Rightarrow> runtime_record option" where
  "cached s k \<equiv> map_get rr_key (rs_records s) k"

text \<open>\<open>records.set\<close> and \<open>records.delete\<close>.\<close>

definition set_record :: "runtime_record \<Rightarrow> runtime_state \<Rightarrow> runtime_state" where
  "set_record r s = s\<lparr>rs_records :=
     (if rr_key r \<in> set (map rr_key (rs_records s))
      then map (\<lambda>x. if rr_key x = rr_key r then r else x) (rs_records s)
      else rs_records s @ [r])\<rparr>"

definition delete_record :: "string \<Rightarrow> runtime_state \<Rightarrow> runtime_state" where
  "delete_record k s = s\<lparr>rs_records := filter (\<lambda>x. rr_key x \<noteq> k) (rs_records s)\<rparr>"

section \<open>Leases\<close>

definition expiry_after :: "int \<Rightarrow> string option \<Rightarrow> bool" where
  "expiry_after now x = (case x of None \<Rightarrow> False
     | Some t \<Rightarrow> (case date_parse t of None \<Rightarrow> False | Some e \<Rightarrow> now < e))"

definition liveQueueLease :: "int \<Rightarrow> runtime_record \<Rightarrow> bool" where
  "liveQueueLease now r \<longleftrightarrow> rr_state r = JQueued \<and> rr_queueOwnerId r \<noteq> None
     \<and> expiry_after now (rr_queueExpiresAt r)"

definition liveReservation :: "int \<Rightarrow> runtime_record \<Rightarrow> bool" where
  "liveReservation now r \<longleftrightarrow> rr_state r = JPending \<and> rr_reservationId r \<noteq> None
     \<and> rr_reservationOwnerId r \<noteq> None \<and> rr_submissionPhase r \<noteq> None
     \<and> expiry_after now (rr_reservationExpiresAt r)"

definition clearQueueLease :: "runtime_record \<Rightarrow> runtime_record" where
  "clearQueueLease r = r\<lparr>rr_queueOwnerId := None, rr_queueExpiresAt := None, rr_queueTicket := None\<rparr>"

definition clearReservation :: "runtime_record \<Rightarrow> runtime_record" where
  "clearReservation r = r\<lparr>rr_reservationId := None, rr_reservationOwnerId := None,
     rr_reservationExpiresAt := None, rr_submissionPhase := None\<rparr>"

record reservation =
  rv_id :: string
  rv_owner :: string

definition matchesReservation :: "runtime_record \<Rightarrow> string \<Rightarrow> reservation \<Rightarrow> bool" where
  "matchesReservation r hash v \<longleftrightarrow> rr_requestHash r = hash \<and> rr_state r = JPending
     \<and> rr_reservationId r = Some (rv_id v) \<and> rr_reservationOwnerId r = Some (rv_owner v)"

definition lease_expiry :: "runtime_config \<Rightarrow> int \<Rightarrow> string" where
  "lease_expiry c now = to_iso_string (now + reservationLeaseMs c)"

section \<open>The queue\<close>

definition isPublicTerminal :: "journal_state \<Rightarrow> bool" where
  "isPublicTerminal s \<longleftrightarrow> s \<in> {JSucceeded, JFailed, JCancelled, JUnknown, JDeleted}"

definition reservesOfficialSlot :: "runtime_record \<Rightarrow> bool" where
  "reservesOfficialSlot r \<longleftrightarrow> rr_state r \<in> {JPending, JUnknown, JAccepted}"

text \<open>\<open>Date.parse(left.createdAt ?? left.updatedAt)\<close>\<close>

definition created_time :: "runtime_record \<Rightarrow> int option" where
  "created_time r = date_parse (case rr_createdAt r of None \<Rightarrow> rr_updatedAt r | Some t \<Rightarrow> t)"

text \<open>\<open>compareDurableQueueOrder(left, right) <= 0\<close>\<close>

definition compareDurableQueueOrder :: "runtime_config \<Rightarrow> runtime_record \<Rightarrow> runtime_record \<Rightarrow> bool" where
  "compareDurableQueueOrder c l r =
     (case (rr_queueTicket l, rr_queueTicket r) of
        (Some a, Some b) \<Rightarrow> a \<le> b
      | (None, Some _) \<Rightarrow> True
      | (Some _, None) \<Rightarrow> False
      | (None, None) \<Rightarrow>
          (case (created_time l, created_time r) of
             (Some a, Some b) \<Rightarrow>
               if a \<noteq> b then a < b
               else rt_localeLe c (rr_idempotencyKey l) (rr_idempotencyKey r)
           | _ \<Rightarrow> rt_localeLe c (rr_idempotencyKey l) (rr_idempotencyKey r)))"

definition slots_taken :: "runtime_record list \<Rightarrow> int" where
  "slots_taken rs = int (length (filter reservesOfficialSlot rs))"

definition hasGenerationCapacity :: "runtime_config \<Rightarrow> runtime_state \<Rightarrow> bool" where
  "hasGenerationCapacity c s \<longleftrightarrow> slots_taken (rs_records s) < maxActiveTasks c"

definition hasQueuedGenerationPriority ::
  "runtime_config \<Rightarrow> int \<Rightarrow> runtime_state \<Rightarrow> runtime_record \<Rightarrow> bool" where
  "hasQueuedGenerationPriority c now s r =
     (let available = maxActiveTasks c - slots_taken (rs_records s) in
      if available \<le> 0 then False
      else list_ex (\<lambda>x. rr_key x = rr_key r)
        (take (nat available)
          (sort_by (compareDurableQueueOrder c) (filter (liveQueueLease now) (rs_records s)))))"

section \<open>Writing and reloading the journal\<close>

text \<open>A write gives the records of the copy the versions of the journal. When it is refused the
  copy keeps its versions (the code may have assigned some; they are not read before the next
  reload).\<close>

definition adopt_version :: "runtime_disk \<Rightarrow> runtime_record \<Rightarrow> runtime_record" where
  "adopt_version d r = (case map_get rr_key (rd_records d) (rr_key r) of
     None \<Rightarrow> r | Some i \<Rightarrow> r\<lparr>rr_journalVersion := rr_journalVersion i\<rparr>)"

definition persistUnlocked :: "runtime_config \<Rightarrow> write_fault option \<Rightarrow> runtime_state \<Rightarrow> unit outcome" where
  "persistUnlocked c fault s =
     (if fault = Some LockLostBefore then (Inl stateFenced, s)
      else
        let payload = \<lparr>rd_records = sort_by (\<lambda>l r. rt_localeLe c (rr_idempotencyKey l) (rr_idempotencyKey r))
                         (rs_records s), rd_nextQueueTicket = Some (rs_nextQueueTicket s)\<rparr> in
        case write_journal (rt_ownerId c) (rs_disk s) payload of
          Inl e \<Rightarrow> (Inl (journal_failure e), s)
        | Inr d' \<Rightarrow>
            let s' = s\<lparr>rs_records := (case d' of None \<Rightarrow> rs_records s
                         | Some d \<Rightarrow> map (adopt_version d) (rs_records s))\<rparr> in
            (case fault of
               Some WriteFailed \<Rightarrow> (Inl stateInvalid, s')
             | Some _ \<Rightarrow> (Inl stateFenced, s'\<lparr>rs_disk := d'\<rparr>)
             | None \<Rightarrow> (Inr (), s'\<lparr>rs_disk := d'\<rparr>)))"

text \<open>The record a reload puts in place of one whose lease has run out.\<close>

definition dead_pending :: "int \<Rightarrow> runtime_record \<Rightarrow> bool" where
  "dead_pending now r \<longleftrightarrow> rr_state r = JPending \<and> \<not> liveReservation now r"

definition dead_queued :: "int \<Rightarrow> runtime_record \<Rightarrow> bool" where
  "dead_queued now r \<longleftrightarrow>
     truthy_int (rr_taskVersion r) \<noteq> None \<and> rr_state r = JQueued \<and> \<not> liveQueueLease now r"

definition recover_record :: "int \<Rightarrow> runtime_record \<Rightarrow> runtime_record" where
  "recover_record now r =
     (if dead_pending now r then
        let r' = (if rr_submissionPhase r = Some Reserved \<and> truthy (rr_reservationId r)
                     \<and> truthy (rr_reservationOwnerId r)
                  then r\<lparr>rr_state := JFailed,
                         rr_errorCode := Some ''dreamina_interrupted_before_submission''\<rparr>
                  else if truthy_int (rr_taskVersion r) \<noteq> None
                  then r\<lparr>rr_state := JUnknown, rr_errorCode := Some ''dreamina_submission_unknown''\<rparr>
                  else r\<lparr>rr_state := JUnknown\<rparr>) in
        clearReservation (r'\<lparr>rr_updatedAt := to_iso_string now\<rparr>)
      else if dead_queued now r then
        clearQueueLease (r\<lparr>rr_state := JFailed,
          rr_errorCode := Some ''dreamina_interrupted_before_submission'',
          rr_updatedAt := to_iso_string now\<rparr>)
      else r)"

text \<open>The journal may not have lost a record of the copy, nor have sent one back.\<close>

definition reload_accepts :: "runtime_record list \<Rightarrow> runtime_record list \<Rightarrow> bool" where
  "reload_accepts new old \<longleftrightarrow>
     list_all (\<lambda>cur. case map_get rr_key new (rr_key cur) of None \<Rightarrow> False
       | Some i \<Rightarrow> rr_requestHash i = rr_requestHash cur
           \<and> stateRank (rr_state cur) \<le> stateRank (rr_state i)) old"

definition next_ticket :: "runtime_disk \<Rightarrow> int" where
  "next_ticket d = foldr max (map (\<lambda>r. int_or 0 (rr_queueTicket r) + 1) (rd_records d))
     (int_or 1 (rd_nextQueueTicket d))"

definition reloadFromDisk :: "runtime_config \<Rightarrow> op_env \<Rightarrow> runtime_state \<Rightarrow> unit outcome" where
  "reloadFromDisk c env s =
     (case readRuntimeDiskState (rt_ownerId c) (rs_disk s) of
        Inl e \<Rightarrow> (Inl (journal_failure e), s)
      | Inr None \<Rightarrow> if rs_records s = [] then (Inr (), s) else (Inl stateInvalid, s)
      | Inr (Some d) \<Rightarrow>
          let new = map (recover_record (env_now env)) (rd_records d) in
          if \<not> reload_accepts new (rs_records s) then (Inl stateInvalid, s)
          else
            let s' = s\<lparr>rs_records := new, rs_nextQueueTicket := next_ticket d\<rparr> in
            if list_ex (\<lambda>r. dead_pending (env_now env) r \<or> dead_queued (env_now env) r) (rd_records d)
            then persistUnlocked c (env_reload env) s' else (Inr (), s'))"

text \<open>The frame of every operation: reload, then the body; \<open>saved\<close> ends a body that writes.\<close>

definition reloaded ::
  "runtime_config \<Rightarrow> op_env \<Rightarrow> (runtime_state \<Rightarrow> 'a outcome) \<Rightarrow> runtime_state \<Rightarrow> 'a outcome" where
  "reloaded c env body s = (case reloadFromDisk c env s of (Inl e, s') \<Rightarrow> (Inl e, s') | (Inr _, s') \<Rightarrow> body s')"

definition saved :: "runtime_config \<Rightarrow> op_env \<Rightarrow> 'a \<Rightarrow> runtime_state \<Rightarrow> 'a outcome" where
  "saved c env x s = (case persistUnlocked c (env_write env) s of (Inl e, s') \<Rightarrow> (Inl e, s')
     | (Inr _, s') \<Rightarrow> (Inr x, s'))"

end
