(* ===== verification/GenerationContract.thy ===== *)
theory GenerationContract
  imports TimelineModel TaskStore
begin

text \<open>
  What may be asked of the provider: the generation requests and the checks on them
  (\<open>canvas-agent/src/dreamina-cli-contract.ts\<close>), the catalog of models published from the same
  tables (\<open>dreamina-model-catalog.ts\<close>), and the command line arguments a request becomes
  (\<open>generationArguments\<close> and its neighbours of \<open>dreamina-cli-runtime.ts\<close>).

  A schema is the list of values its enumerations admit; the checks on lengths and numbers are
  written out. Prompts and paths are lists of code units, numbers are \<open>rat\<close>; the text of a number
  that is not whole is an argument.
\<close>

section \<open>Requests\<close>

datatype (plugins only: code size) generation_input =
    Text2Image (gi_key: string) (t2i_prompt: jstext) (t2i_model: "string option") (t2i_ratio: "string option")
      (t2i_resolution: "string option") (t2i_num: "rat option")
  | Image2Image (gi_key: string) (i2i_prompt: jstext) (i2i_model: "string option") (i2i_ratio: "string option")
      (i2i_resolution: "string option") (i2i_num: "rat option") (i2i_images: "jstext list")
  | ImageUpscale (gi_key: string) (up_resolution: string) (up_images: "jstext list")
  | Text2Video (gi_key: string) (t2v_prompt: jstext) (t2v_model: "string option") (t2v_ratio: "string option")
      (t2v_resolution: string) (t2v_duration: "rat option")
  | Image2Video (gi_key: string) (i2v_prompt: jstext) (i2v_model: "string option")
      (i2v_resolution: string) (i2v_duration: "rat option") (i2v_images: "jstext list")
  | Frames2Video (gi_key: string) (f2v_prompt: jstext) (f2v_model: "string option")
      (f2v_resolution: string) (f2v_duration: "rat option") (f2v_images: "jstext list")
  | Multiframe2Video (gi_key: string) (m2v_resolution: string) (m2v_images: "jstext list")
      (m2v_prompt: "jstext option") (m2v_duration: "rat option")
      (m2v_transitions: "jstext list option") (m2v_durations: "rat list option")
  | Multimodal2Video (gi_key: string) (mm_prompt: "jstext option") (mm_model: "string option")
      (mm_ratio: "string option") (mm_resolution: string) (mm_duration: "rat option")
      (mm_images: "jstext list option") (mm_videos: "jstext list option") (mm_audios: "jstext list option")

fun operation_name :: "generation_input \<Rightarrow> string" where
  "operation_name (Text2Image _ _ _ _ _ _) = ''text2image''"
| "operation_name (Image2Image _ _ _ _ _ _ _) = ''image2image''"
| "operation_name (ImageUpscale _ _ _) = ''image_upscale''"
| "operation_name (Text2Video _ _ _ _ _ _) = ''text2video''"
| "operation_name (Image2Video _ _ _ _ _ _) = ''image2video''"
| "operation_name (Frames2Video _ _ _ _ _ _) = ''frames2video''"
| "operation_name (Multiframe2Video _ _ _ _ _ _ _) = ''multiframe2video''"
| "operation_name (Multimodal2Video _ _ _ _ _ _ _ _ _) = ''multimodal2video''"

text \<open>The properties the code reads from a request of any kind, absent where a kind has none.\<close>

fun prompt_of :: "generation_input \<Rightarrow> jstext option" where
  "prompt_of (Text2Image _ p _ _ _ _) = Some p"
| "prompt_of (Image2Image _ p _ _ _ _ _) = Some p"
| "prompt_of (ImageUpscale _ _ _) = None"
| "prompt_of (Text2Video _ p _ _ _ _) = Some p"
| "prompt_of (Image2Video _ p _ _ _ _) = Some p"
| "prompt_of (Frames2Video _ p _ _ _ _) = Some p"
| "prompt_of (Multiframe2Video _ _ _ p _ _ _) = p"
| "prompt_of (Multimodal2Video _ p _ _ _ _ _ _ _) = p"

fun model_of :: "generation_input \<Rightarrow> string option" where
  "model_of (Text2Image _ _ m _ _ _) = m"
| "model_of (Image2Image _ _ m _ _ _ _) = m"
| "model_of (ImageUpscale _ _ _) = None"
| "model_of (Text2Video _ _ m _ _ _) = m"
| "model_of (Image2Video _ _ m _ _ _) = m"
| "model_of (Frames2Video _ _ m _ _ _) = m"
| "model_of (Multiframe2Video _ _ _ _ _ _ _) = None"
| "model_of (Multimodal2Video _ _ m _ _ _ _ _ _) = m"

fun ratio_of :: "generation_input \<Rightarrow> string option" where
  "ratio_of (Text2Image _ _ _ r _ _) = r"
| "ratio_of (Image2Image _ _ _ r _ _ _) = r"
| "ratio_of (Text2Video _ _ _ r _ _) = r"
| "ratio_of (Multimodal2Video _ _ _ r _ _ _ _ _) = r"
| "ratio_of _ = None"

fun resolution_type_of :: "generation_input \<Rightarrow> string option" where
  "resolution_type_of (Text2Image _ _ _ _ x _) = x"
| "resolution_type_of (Image2Image _ _ _ _ x _ _) = x"
| "resolution_type_of (ImageUpscale _ x _) = Some x"
| "resolution_type_of _ = None"

fun video_resolution_of :: "generation_input \<Rightarrow> string option" where
  "video_resolution_of (Text2Video _ _ _ _ x _) = Some x"
| "video_resolution_of (Image2Video _ _ _ x _ _) = Some x"
| "video_resolution_of (Frames2Video _ _ _ x _ _) = Some x"
| "video_resolution_of (Multiframe2Video _ x _ _ _ _ _) = Some x"
| "video_resolution_of (Multimodal2Video _ _ _ _ x _ _ _ _) = Some x"
| "video_resolution_of _ = None"

fun duration_of :: "generation_input \<Rightarrow> rat option" where
  "duration_of (Text2Video _ _ _ _ _ d) = d"
| "duration_of (Image2Video _ _ _ _ d _) = d"
| "duration_of (Frames2Video _ _ _ _ d _) = d"
| "duration_of (Multiframe2Video _ _ _ _ d _ _) = d"
| "duration_of (Multimodal2Video _ _ _ _ _ d _ _ _) = d"
| "duration_of _ = None"

fun generate_num_of :: "generation_input \<Rightarrow> rat option" where
  "generate_num_of (Text2Image _ _ _ _ _ n) = n"
| "generate_num_of (Image2Image _ _ _ _ _ n _) = n"
| "generate_num_of _ = None"

fun reference_images_of :: "generation_input \<Rightarrow> jstext list" where
  "reference_images_of (Image2Image _ _ _ _ _ _ xs) = xs"
| "reference_images_of (ImageUpscale _ _ xs) = xs"
| "reference_images_of (Image2Video _ _ _ _ _ xs) = xs"
| "reference_images_of (Frames2Video _ _ _ _ _ xs) = xs"
| "reference_images_of (Multiframe2Video _ _ xs _ _ _ _) = xs"
| "reference_images_of (Multimodal2Video _ _ _ _ _ _ xs _ _) = (case xs of None \<Rightarrow> [] | Some x \<Rightarrow> x)"
| "reference_images_of _ = []"

section \<open>The tables\<close>

definition imageRatio :: "string list" where
  "imageRatio = [''21:9'', ''16:9'', ''4:3'', ''3:2'', ''1:1'', ''2:3'', ''3:4'', ''9:16'']"
definition videoRatio :: "string list" where
  "videoRatio = [''21:9'', ''16:9'', ''4:3'', ''1:1'', ''3:4'', ''9:16'']"
definition imageResolution :: "string list" where "imageResolution = [''1k'', ''2k'', ''4k'']"
definition videoResolution :: "string list" where
  "videoResolution = [''480p'', ''720p'', ''1080p'', ''4k'']"
definition dreaminaImageModelSchema :: "string list" where
  "dreaminaImageModelSchema =
     [''3.0'', ''3.1'', ''4.0'', ''4.1'', ''4.5'', ''4.6'', ''4.7'', ''5.0'', ''5.0Pro'']"
definition imageEditModel :: "string list" where
  "imageEditModel = [''4.0'', ''4.1'', ''4.5'', ''4.6'', ''4.7'', ''5.0'', ''5.0Pro'']"
definition seedanceModel :: "string list" where
  "seedanceModel = [''seedance2.0'', ''seedance2.0fast'', ''seedance2.0_vip'', ''seedance2.0fast_vip'',
     ''seedance2.0mini'', ''seedance2.5'']"
definition imageVideoModel :: "string list" where
  "imageVideoModel = [''seedance1.0fast'', ''seedance1.5pro'', ''seedance2.0'', ''seedance2.0fast'',
     ''seedance2.0_vip'', ''seedance2.0fast_vip'', ''seedance2.0mini'', ''seedance2.5'']"

text \<open>The enumerations of a schema (\<open>None\<close> where the request has no such property).\<close>

record schema_shape =
  sh_operation :: string
  sh_models :: "string list option"
  sh_ratios :: "string list option"
  sh_resolutionTypes :: "string list option"
  sh_videoResolutions :: "string list option"

definition dreaminaGenerationSchemas :: "schema_shape list" where
  "dreaminaGenerationSchemas =
    [\<lparr>sh_operation = ''text2image'', sh_models = Some dreaminaImageModelSchema, sh_ratios = Some imageRatio,
      sh_resolutionTypes = Some imageResolution, sh_videoResolutions = None\<rparr>,
     \<lparr>sh_operation = ''image2image'', sh_models = Some imageEditModel, sh_ratios = Some imageRatio,
      sh_resolutionTypes = Some imageResolution, sh_videoResolutions = None\<rparr>,
     \<lparr>sh_operation = ''image_upscale'', sh_models = None, sh_ratios = None,
      sh_resolutionTypes = Some [''2k'', ''4k'', ''8k''], sh_videoResolutions = None\<rparr>,
     \<lparr>sh_operation = ''text2video'', sh_models = Some seedanceModel, sh_ratios = Some videoRatio,
      sh_resolutionTypes = None, sh_videoResolutions = Some videoResolution\<rparr>,
     \<lparr>sh_operation = ''image2video'', sh_models = Some imageVideoModel, sh_ratios = None,
      sh_resolutionTypes = None, sh_videoResolutions = Some videoResolution\<rparr>,
     \<lparr>sh_operation = ''frames2video'', sh_models = Some [''seedance1.5pro'', ''seedance2.0'',
        ''seedance2.0fast'', ''seedance2.0_vip'', ''seedance2.0fast_vip'', ''seedance2.0mini'', ''seedance2.5''],
      sh_ratios = None, sh_resolutionTypes = None, sh_videoResolutions = Some videoResolution\<rparr>,
     \<lparr>sh_operation = ''multiframe2video'', sh_models = None, sh_ratios = None,
      sh_resolutionTypes = None, sh_videoResolutions = Some [''720p'', ''1080p'']\<rparr>,
     \<lparr>sh_operation = ''multimodal2video'', sh_models = Some seedanceModel, sh_ratios = Some videoRatio,
      sh_resolutionTypes = None, sh_videoResolutions = Some videoResolution\<rparr>]"

record video_capability =
  vc_resolutions :: "string list"
  vc_min :: rat
  vc_max :: rat

definition dreaminaVideoModelCapability :: "string \<Rightarrow> video_capability" where
  "dreaminaVideoModelCapability m =
     (if m = ''seedance1.0fast'' then \<lparr>vc_resolutions = [''720p''], vc_min = 5, vc_max = 10\<rparr>
      else if m = ''seedance1.5pro'' then \<lparr>vc_resolutions = [''720p''], vc_min = 5, vc_max = 12\<rparr>
      else if m = ''seedance2.0_vip'' then \<lparr>vc_resolutions = [''720p'', ''1080p'', ''4k''], vc_min = 4, vc_max = 15\<rparr>
      else if m = ''seedance2.5'' then \<lparr>vc_resolutions = [''480p'', ''720p''], vc_min = 4, vc_max = 30\<rparr>
      else \<lparr>vc_resolutions = [''720p''], vc_min = 4, vc_max = 15\<rparr>)"

text \<open>The reference images of the capability metadata; the other limits stand in the checks below.\<close>

definition dreaminaMaxReferenceImages :: "string \<Rightarrow> string \<Rightarrow> nat" where
  "dreaminaMaxReferenceImages op m =
     (if op = ''image2image'' then 10
      else if op = ''image2video'' then 1
      else if op = ''frames2video'' then 2
      else if op = ''multimodal2video'' then (if m = ''seedance2.5'' then 30 else 9)
      else 0)"

section \<open>The checks\<close>

definition prompt_ok :: "jstext \<Rightarrow> bool" where
  "prompt_ok p \<longleftrightarrow> 1 \<le> length p \<and> length p \<le> 20000"

definition paths_ok :: "nat \<Rightarrow> nat \<Rightarrow> jstext list \<Rightarrow> bool" where
  "paths_ok lo hi xs \<longleftrightarrow> lo \<le> length xs \<and> length xs \<le> hi
     \<and> list_all (\<lambda>p. 1 \<le> length p \<and> length p \<le> 2048) xs"

definition whole_between :: "rat \<Rightarrow> rat \<Rightarrow> rat \<Rightarrow> bool" where
  "whole_between lo hi x \<longleftrightarrow> of_int \<lfloor>x\<rfloor> = x \<and> lo \<le> x \<and> x \<le> hi"

definition shape_of :: "generation_input \<Rightarrow> schema_shape option" where
  "shape_of i = find (\<lambda>s. sh_operation s = operation_name i) dreaminaGenerationSchemas"

definition in_enum :: "string option \<Rightarrow> string list option \<Rightarrow> bool" where
  "in_enum x ys = opt_ok (\<lambda>v. v \<in> set (case ys of None \<Rightarrow> [] | Some l \<Rightarrow> l)) x"

text \<open>The enumerated properties of a request, against the schema of its operation.\<close>

definition enums_ok :: "generation_input \<Rightarrow> bool" where
  "enums_ok i = (case shape_of i of None \<Rightarrow> False
     | Some s \<Rightarrow> in_enum (model_of i) (sh_models s) \<and> in_enum (ratio_of i) (sh_ratios s)
         \<and> in_enum (resolution_type_of i) (sh_resolutionTypes s)
         \<and> in_enum (video_resolution_of i) (sh_videoResolutions s))"

text \<open>Lengths and numbers.\<close>

fun fields_ok :: "generation_input \<Rightarrow> bool" where
  "fields_ok (Text2Image _ p _ _ _ n) = (prompt_ok p \<and> opt_ok (whole_between 1 10) n)"
| "fields_ok (Image2Image _ p _ _ _ n xs) =
     (prompt_ok p \<and> opt_ok (whole_between 1 10) n \<and> paths_ok 1 10 xs)"
| "fields_ok (ImageUpscale _ _ xs) = paths_ok 1 1 xs"
| "fields_ok (Text2Video _ p _ _ _ d) = (prompt_ok p \<and> opt_ok (whole_between 4 30) d)"
| "fields_ok (Image2Video _ p _ _ d xs) =
     (prompt_ok p \<and> opt_ok (whole_between 4 30) d \<and> paths_ok 1 1 xs)"
| "fields_ok (Frames2Video _ p _ _ d xs) =
     (prompt_ok p \<and> opt_ok (whole_between 4 30) d \<and> paths_ok 2 2 xs)"
| "fields_ok (Multiframe2Video _ _ xs p d ts ds) =
     (paths_ok 2 20 xs \<and> opt_ok prompt_ok p \<and> opt_ok (\<lambda>x. 1 \<le> x \<and> x \<le> 8) d
      \<and> opt_ok (\<lambda>l. 1 \<le> length l \<and> length l \<le> 19 \<and> list_all prompt_ok l) ts
      \<and> opt_ok (\<lambda>l. 1 \<le> length l \<and> length l \<le> 19 \<and> list_all (\<lambda>x. 1 \<le> x \<and> x \<le> 8) l) ds)"
| "fields_ok (Multimodal2Video _ p _ _ _ d xs vs as) =
     (opt_ok prompt_ok p \<and> opt_ok (whole_between 4 30) d \<and> opt_ok (paths_ok 0 30) xs
      \<and> opt_ok (paths_ok 0 10) vs \<and> opt_ok (paths_ok 0 10) as)"

definition validateVideoCombination :: "string \<Rightarrow> string \<Rightarrow> rat option \<Rightarrow> bool" where
  "validateVideoCombination m res d =
     (let seconds = (case d of None \<Rightarrow> 5 | Some x \<Rightarrow> x); cap = dreaminaVideoModelCapability m in
      res \<in> set (vc_resolutions cap) \<and> \<not> seconds < vc_min cap \<and> \<not> vc_max cap < seconds)"

abbreviation model_or :: "string option \<Rightarrow> string \<Rightarrow> string" where
  "model_or m d \<equiv> (case m of None \<Rightarrow> d | Some x \<Rightarrow> x)"

abbreviation list_or :: "'a list option \<Rightarrow> 'a list" where
  "list_or xs \<equiv> (case xs of None \<Rightarrow> [] | Some l \<Rightarrow> l)"

definition image_tier_ok :: "string \<Rightarrow> string option \<Rightarrow> bool" where
  "image_tier_ok m res \<longleftrightarrow> \<not> (m \<in> {''3.0'', ''3.1''} \<and> res = Some ''4k'')
     \<and> \<not> (m \<noteq> ''5.0Pro'' \<and> m \<notin> {''3.0'', ''3.1''} \<and> res = Some ''1k'')"

text \<open>\<open>validateOperationCombination\<close>: true when it raises no issue.\<close>

fun validateOperationCombination :: "generation_input \<Rightarrow> bool" where
  "validateOperationCombination (Text2Image _ _ m _ res _) = image_tier_ok (model_or m ''5.0'') res"
| "validateOperationCombination (Image2Image _ _ m _ res _ _) = image_tier_ok (model_or m ''5.0'') res"
| "validateOperationCombination (ImageUpscale _ _ _) = True"
| "validateOperationCombination (Multiframe2Video _ _ xs p d ts ds) =
     (if length xs = 2 then (case p of None \<Rightarrow> False | Some t \<Rightarrow> t \<noteq> []) \<and> ts = None \<and> ds = None
      else (p = None \<or> p = Some []) \<and> d = None
        \<and> (case ts of None \<Rightarrow> False | Some l \<Rightarrow> length l = length xs - 1)
        \<and> opt_ok (\<lambda>l. length l = length xs - 1) ds)"
| "validateOperationCombination (Multimodal2Video _ _ m _ res d xs vs as) =
     (let images = length (list_or xs); videos = length (list_or vs); audios = length (list_or as);
          mm = model_or m ''seedance2.0_vip'' in
      \<not> (images + videos + audios = 0 \<or> mm \<noteq> ''seedance2.5'' \<and> images + videos = 0)
      \<and> \<not> (if mm = ''seedance2.5'' then 50 < images + videos + audios
           else 9 < images \<or> 3 < videos \<or> 3 < audios \<or> 12 < images + videos + audios)
      \<and> validateVideoCombination mm res d)"
| "validateOperationCombination (Text2Video _ _ m _ res d) =
     validateVideoCombination (model_or m ''seedance2.0fast'') res d"
| "validateOperationCombination (Image2Video _ _ m res d _) =
     validateVideoCombination (model_or m ''seedance2.0_vip'') res d"
| "validateOperationCombination (Frames2Video _ _ m res d _) =
     validateVideoCombination (model_or m ''seedance2.0_vip'') res d"

text \<open>\<open>dreaminaGenerationInputSchema\<close>; a refinement runs only on a request that fits its schema.\<close>

definition accepts_input :: "generation_input \<Rightarrow> bool" where
  "accepts_input i \<longleftrightarrow> chars_ok id_char 8 160 (gi_key i) \<and> enums_ok i \<and> fields_ok i
     \<and> validateOperationCombination i"

section \<open>What a request becomes\<close>

definition resultMode :: "generation_input \<Rightarrow> task_mode" where
  "resultMode i = (if operation_name i \<in> {''text2image'', ''image2image'', ''image_upscale''}
     then ImageMode else VideoMode)"

definition modelName :: "generation_input \<Rightarrow> string" where
  "modelName i =
     (if truthy (model_of i) then the (model_of i)
      else if operation_name i \<in> {''text2image'', ''image2image''} then ''5.0''
      else if operation_name i = ''image_upscale'' then ''image-upscale''
      else if operation_name i = ''text2video'' then ''seedance2.0fast''
      else ''seedance2.0_vip'')"

text \<open>\<open>`--name=value`\<close>\<close>

definition flag :: "string \<Rightarrow> jstext \<Rightarrow> jstext" where
  "flag name v = js ''--'' @ js name @ js ''='' @ v"

definition flag_if :: "string \<Rightarrow> jstext option \<Rightarrow> jstext list" where
  "flag_if name v = (case v of None \<Rightarrow> [] | Some x \<Rightarrow> [flag name x])"

fun join_comma :: "jstext list \<Rightarrow> jstext" where
  "join_comma [] = []"
| "join_comma [x] = x"
| "join_comma (x # xs) = x @ js '','' @ join_comma xs"

abbreviation truthy_text :: "jstext option \<Rightarrow> jstext option" where
  "truthy_text x \<equiv> (if x = Some [] then None else x)"

text \<open>The arguments each kind of request adds for its references.\<close>

fun reference_arguments :: "(rat \<Rightarrow> jstext) \<Rightarrow> generation_input \<Rightarrow> jstext list" where
  "reference_arguments num (Image2Image _ _ _ _ _ _ xs) = [flag ''images'' (join_comma xs)]"
| "reference_arguments num (ImageUpscale _ _ xs) = [flag ''image'' (xs ! 0)]"
| "reference_arguments num (Image2Video _ _ _ _ _ xs) = [flag ''image'' (xs ! 0)]"
| "reference_arguments num (Frames2Video _ _ _ _ _ xs) = [flag ''first'' (xs ! 0), flag ''last'' (xs ! 1)]"
| "reference_arguments num (Multiframe2Video _ _ xs _ _ ts ds) =
     flag ''images'' (join_comma xs) # map (flag ''transition-prompt'') (list_or ts)
       @ map (\<lambda>d. flag ''transition-duration'' (num d)) (list_or ds)"
| "reference_arguments num (Multimodal2Video _ _ _ _ _ _ xs vs as) =
     map (flag ''image'') (list_or xs) @ map (flag ''video'') (list_or vs) @ map (flag ''audio'') (list_or as)"
| "reference_arguments num _ = []"

definition generationArguments :: "(rat \<Rightarrow> jstext) \<Rightarrow> generation_input \<Rightarrow> jstext list" where
  "generationArguments num i =
     js (operation_name i)
     # flag_if ''prompt'' (truthy_text (prompt_of i))
     @ flag_if ''model_version'' (if truthy (model_of i) then map_option js (model_of i) else None)
     @ flag_if ''ratio'' (if truthy (ratio_of i) then map_option js (ratio_of i) else None)
     @ flag_if ''resolution_type'' (map_option js (resolution_type_of i))
     @ flag_if ''video_resolution'' (map_option js (video_resolution_of i))
     @ flag_if ''duration'' (map_option num (duration_of i))
     @ flag_if ''generate_num'' (map_option num (generate_num_of i))
     @ reference_arguments num i"

section \<open>The catalog of models\<close>

datatype modality = ImageModality | VideoModality

text \<open>A JavaScript \<open>Set\<close>, in the order of insertion.\<close>

definition add_new :: "'a list \<Rightarrow> 'a \<Rightarrow> 'a list" where
  "add_new xs x = (if x \<in> set xs then xs else xs @ [x])"

record catalog_entry =
  ce_id :: string
  ce_modality :: modality
  ce_operations :: "string list"
  ce_aspects :: "string list"
  ce_minDuration :: "rat option"
  ce_maxDuration :: "rat option"
  ce_maxReferenceImages :: nat
  ce_tiers :: "string list"

definition catalogOperationFor :: "string \<Rightarrow> string option" where
  "catalogOperationFor op =
     (if op = ''text2image'' then Some ''text-to-image''
      else if op = ''image2image'' then Some ''image-to-image''
      else if op = ''text2video'' then Some ''text-to-video''
      else if op = ''image2video'' then Some ''image-to-video''
      else if op \<in> {''frames2video'', ''multimodal2video''} then Some ''reference-to-video''
      else None)"

definition modality_for :: "string \<Rightarrow> modality" where
  "modality_for cop =
     (if includes_str cop ''image'' \<and> \<not> includes_str cop ''video'' then ImageModality else VideoModality)"

definition empty_entry :: "modality \<Rightarrow> string \<Rightarrow> catalog_entry" where
  "empty_entry md m = \<lparr>ce_id = m, ce_modality = md, ce_operations = [], ce_aspects = [],
     ce_minDuration = None, ce_maxDuration = None, ce_maxReferenceImages = 0, ce_tiers = []\<rparr>"

text \<open>What one schema adds to the entry of one of its models.\<close>

definition extend_entry ::
  "schema_shape \<Rightarrow> string \<Rightarrow> modality \<Rightarrow> string \<Rightarrow> catalog_entry \<Rightarrow> catalog_entry" where
  "extend_entry s cop md m e =
     (let cap = (if md = VideoModality then Some (dreaminaVideoModelCapability m) else None);
          tiers = (case sh_resolutionTypes s of Some x \<Rightarrow> x | None \<Rightarrow> list_or (sh_videoResolutions s)) in
      e\<lparr>ce_operations := add_new (ce_operations e) cop,
        ce_aspects := foldl add_new (ce_aspects e) (list_or (sh_ratios s)),
        ce_tiers := foldl add_new (ce_tiers e)
          (filter (\<lambda>t. case cap of None \<Rightarrow> True | Some c \<Rightarrow> t \<in> set (vc_resolutions c)) tiers),
        ce_maxReferenceImages := max (ce_maxReferenceImages e) (dreaminaMaxReferenceImages (sh_operation s) m),
        ce_minDuration := (case cap of None \<Rightarrow> ce_minDuration e | Some c \<Rightarrow> Some (vc_min c)),
        ce_maxDuration := (case cap of None \<Rightarrow> ce_maxDuration e | Some c \<Rightarrow> Some (vc_max c))\<rparr>)"

abbreviation entry_is :: "modality \<Rightarrow> string \<Rightarrow> catalog_entry \<Rightarrow> bool" where
  "entry_is md m e \<equiv> ce_modality e = md \<and> ce_id e = m"

definition catalog_add :: "schema_shape \<Rightarrow> string \<Rightarrow> catalog_entry list \<Rightarrow> string \<Rightarrow> catalog_entry list" where
  "catalog_add s cop es m =
     (let md = modality_for cop in
      if list_ex (entry_is md m) es then update_first (entry_is md m) (extend_entry s cop md m) es
      else es @ [extend_entry s cop md m (empty_entry md m)])"

definition catalog_schema :: "catalog_entry list \<Rightarrow> schema_shape \<Rightarrow> catalog_entry list" where
  "catalog_schema es s = (case (catalogOperationFor (sh_operation s), sh_models s) of
     (Some cop, Some models) \<Rightarrow> foldl (catalog_add s cop) es models
   | _ \<Rightarrow> es)"

definition projectDreaminaModelCatalog :: "schema_shape list \<Rightarrow> catalog_entry list" where
  "projectDreaminaModelCatalog schemas = foldl catalog_schema [] schemas"

end
