(* ===== verification/RuntimeOps.thy ===== *)
theory RuntimeOps
  imports Arbiter RuntimeQueue GenerationContract
begin

text \<open>
  The operations of the runtime (\<open>canvas-agent/src/dreamina-cli-runtime.ts\<close>) on the queue: entering a
  request, taking and keeping a slot, the three commits around a submission, cancelling, deleting and
  failing tasks, and the direct submission of \<open>run\<close>, which holds the state lock throughout.
\<close>

section \<open>Entering the queue\<close>

text \<open>What \<open>enqueueNew\<close> is given.\<close>

record enqueue_request =
  rq_input :: generation_input
  rq_hash :: string
  rq_clientOperationId :: "string option"
  rq_context :: "task_context option"

abbreviation rq_key :: "runtime_config \<Rightarrow> enqueue_request \<Rightarrow> string" where
  "rq_key c q \<equiv> recordKey (rt_ownerId c) (gi_key (rq_input q))"

definition queued_record :: "runtime_config \<Rightarrow> int \<Rightarrow> int \<Rightarrow> enqueue_request \<Rightarrow> runtime_record" where
  "queued_record c now tk q =
     \<lparr>rr_ownerId = rt_ownerId c, rr_idempotencyKey = gi_key (rq_input q),
      rr_clientOperationId = Some (case rq_clientOperationId q of None \<Rightarrow> gi_key (rq_input q) | Some x \<Rightarrow> x),
      rr_context = Some (case rq_context q of None \<Rightarrow> LegacyUnscoped | Some x \<Rightarrow> x),
      rr_requestHash = rq_hash q, rr_state = JQueued, rr_journalVersion = None, rr_fenceEpoch = None,
      rr_accountBinding = None, rr_sessionEpoch = None, rr_reservationId = None,
      rr_reservationOwnerId = None, rr_reservationExpiresAt = None, rr_submissionPhase = None,
      rr_queueOwnerId = Some (rt_reservationOwnerId c), rr_queueExpiresAt = Some (lease_expiry c now),
      rr_queueTicket = Some tk, rr_updatedAt = to_iso_string now, rr_submitId = None,
      rr_taskVersion = Some 1, rr_operation = Some (operation_name (rq_input q)),
      rr_mode = Some (resultMode (rq_input q)), rr_model = Some (modelName (rq_input q)),
      rr_createdAt = Some (to_iso_string now), rr_errorCode = None, rr_officialStatus = None,
      rr_nextPollAt = None, rr_pollLease = None, rr_retryCount = None, rr_lastObservedAt = None,
      rr_providerOutputs = None, rr_hidden = False\<rparr>"

text \<open>The locked part of \<open>enqueueNew\<close>, and what its error handler does to the copy.\<close>

definition enqueue_locked :: "runtime_config \<Rightarrow> op_env \<Rightarrow> enqueue_request \<Rightarrow> runtime_state \<Rightarrow> unit outcome" where
  "enqueue_locked c env q = reloaded c env (\<lambda>s.
     case cached s (rq_key c q) of
       Some r \<Rightarrow> (Inl (if rr_requestHash r \<noteq> rq_hash q then idempotencyConflict else submissionUnknown), s)
     | None \<Rightarrow>
         let tk = rs_nextQueueTicket s in
         if \<not> safe_integer tk \<or> tk < 1 \<or> 9007199254740991 \<le> tk then (Inl stateInvalid, s)
         else saved c env () (set_record (queued_record c (env_now env) tk q)
                (s\<lparr>rs_nextQueueTicket := tk + 1\<rparr>)))"

definition enqueue_undo :: "runtime_config \<Rightarrow> enqueue_request \<Rightarrow> runtime_state \<Rightarrow> runtime_state" where
  "enqueue_undo c q s = (case cached s (rq_key c q) of
     Some r \<Rightarrow> if rr_requestHash r = rq_hash q \<and> rr_state r = JQueued then delete_record (rq_key c q) s else s
   | None \<Rightarrow> s)"

datatype enqueue_result = Existing runtime_record | Entered

text \<open>\<open>enqueueNew\<close> up to the start of the task: the first reload is that of \<open>load\<close>; \<open>staged\<close> is the
  outcome of copying the reference files.\<close>

definition enqueueNew ::
  "runtime_config \<Rightarrow> op_env \<Rightarrow> runtime_error option \<Rightarrow> op_env \<Rightarrow> enqueue_request \<Rightarrow> runtime_state
   \<Rightarrow> enqueue_result outcome" where
  "enqueueNew c env0 staged env q = reloaded c env0 (\<lambda>s.
     case cached s (rq_key c q) of
       Some r \<Rightarrow>
         (if rr_requestHash r \<noteq> rq_hash q then Inl idempotencyConflict
          else if truthy_int (rr_taskVersion r) = None then Inl submissionUnknown
          else Inr (Existing r), s)
     | None \<Rightarrow>
         (case staged of Some e \<Rightarrow> (Inl e, s)
          | None \<Rightarrow> (case enqueue_locked c env q s of
              (Inl e, s') \<Rightarrow> (Inl e, enqueue_undo c q s')
            | (Inr _, s') \<Rightarrow> (Inr Entered, s'))))"

section \<open>Slots and leases\<close>

definition reserved_record :: "runtime_config \<Rightarrow> int \<Rightarrow> reservation \<Rightarrow> runtime_record \<Rightarrow> runtime_record" where
  "reserved_record c now v r = (clearQueueLease r)\<lparr>rr_state := JPending,
     rr_reservationId := Some (rv_id v), rr_reservationOwnerId := Some (rv_owner v),
     rr_submissionPhase := Some Reserved, rr_reservationExpiresAt := Some (lease_expiry c now),
     rr_updatedAt := to_iso_string now\<rparr>"

text \<open>\<open>rid\<close> is the random reservation id.\<close>

definition reserveSubmissionSlot ::
  "runtime_config \<Rightarrow> op_env \<Rightarrow> string \<Rightarrow> string \<Rightarrow> string \<Rightarrow> runtime_state \<Rightarrow> reservation option outcome" where
  "reserveSubmissionSlot c env k hash rid = reloaded c env (\<lambda>s.
     case cached s k of None \<Rightarrow> (Inl stateInvalid, s)
     | Some r \<Rightarrow>
         if rr_requestHash r \<noteq> hash then (Inl stateInvalid, s)
         else if rr_state r \<noteq> JQueued then (Inl submissionUnknown, s)
         else if \<not> hasQueuedGenerationPriority c (env_now env) s r then (Inr None, s)
         else
           let v = \<lparr>rv_id = rid, rv_owner = rt_reservationOwnerId c\<rparr> in
           saved c env (Some v) (set_record (reserved_record c (env_now env) v r) s))"

definition renewQueueLease ::
  "runtime_config \<Rightarrow> op_env \<Rightarrow> string \<Rightarrow> string \<Rightarrow> runtime_state \<Rightarrow> unit outcome" where
  "renewQueueLease c env k hash = reloaded c env (\<lambda>s.
     case cached s k of None \<Rightarrow> (Inl cliFenced, s)
     | Some r \<Rightarrow>
         if rr_requestHash r \<noteq> hash \<or> rr_state r \<noteq> JQueued
            \<or> rr_queueOwnerId r \<noteq> Some (rt_reservationOwnerId c) \<or> \<not> liveQueueLease (env_now env) r
         then (Inl cliFenced, s)
         else saved c env () (set_record (r\<lparr>rr_queueExpiresAt := Some (lease_expiry c (env_now env))\<rparr>) s))"

definition renewReservation ::
  "runtime_config \<Rightarrow> op_env \<Rightarrow> string \<Rightarrow> string \<Rightarrow> reservation \<Rightarrow> runtime_state \<Rightarrow> unit outcome" where
  "renewReservation c env k hash v = reloaded c env (\<lambda>s.
     case cached s k of None \<Rightarrow> (Inl cliFenced, s)
     | Some r \<Rightarrow>
         if \<not> matchesReservation r hash v \<or> \<not> liveReservation (env_now env) r then (Inl cliFenced, s)
         else saved c env () (set_record (r\<lparr>rr_reservationExpiresAt := Some (lease_expiry c (env_now env))\<rparr>) s))"

section \<open>The commits around a submission\<close>

text \<open>The account of an expected session, when it names one.\<close>

definition bound_account :: "session_snapshot option \<Rightarrow> (string \<times> int) option" where
  "bound_account x = (case x of None \<Rightarrow> None
     | Some y \<Rightarrow> if truthy (s_binding y) then Some (the (s_binding y), s_epoch y) else None)"

text \<open>The account and epoch of the session are written into the record unless it belongs to another.\<close>

definition bind_account :: "session_snapshot option \<Rightarrow> runtime_record \<Rightarrow> runtime_record" where
  "bind_account x r = (case bound_account x of None \<Rightarrow> r
     | Some (a, e) \<Rightarrow> r\<lparr>rr_accountBinding := Some a, rr_sessionEpoch := Some e\<rparr>)"

definition account_differs :: "session_snapshot option \<Rightarrow> runtime_record \<Rightarrow> bool" where
  "account_differs x r = (case bound_account x of None \<Rightarrow> False
     | Some (a, e) \<Rightarrow> truthy (rr_accountBinding r) \<and> rr_accountBinding r \<noteq> Some a)"

definition fenced_record ::
  "runtime_config \<Rightarrow> int \<Rightarrow> int \<Rightarrow> session_snapshot option \<Rightarrow> runtime_record \<Rightarrow> runtime_record" where
  "fenced_record c now fe x r = (bind_account x (r\<lparr>rr_fenceEpoch := Some fe\<rparr>))
     \<lparr>rr_submissionPhase := Some SpawnPermitted, rr_reservationExpiresAt := Some (lease_expiry c now)\<rparr>"

definition commitInvocationFence ::
  "runtime_config \<Rightarrow> op_env \<Rightarrow> string \<Rightarrow> string \<Rightarrow> reservation \<Rightarrow> int \<Rightarrow> session_snapshot option
   \<Rightarrow> runtime_state \<Rightarrow> unit outcome" where
  "commitInvocationFence c env k hash v fe x = reloaded c env (\<lambda>s.
     case cached s k of None \<Rightarrow> (Inl cliFenced, s)
     | Some r \<Rightarrow>
         if \<not> matchesReservation r hash v \<or> \<not> liveReservation (env_now env) r then (Inl cliFenced, s)
         else if \<not> opt_ok (\<lambda>e. e \<le> fe) (rr_fenceEpoch r) then (Inl cliFenced, s)
         else if account_differs x r then (Inl accountChanged, set_record (r\<lparr>rr_fenceEpoch := Some fe\<rparr>) s)
         else saved c env () (set_record (fenced_record c (env_now env) fe x r) s))"

definition accepted_record :: "int \<Rightarrow> string \<Rightarrow> runtime_record \<Rightarrow> runtime_record" where
  "accepted_record now submit r =
     clearReservation (r\<lparr>rr_state := JAccepted, rr_submitId := Some submit, rr_updatedAt := to_iso_string now\<rparr>)"

text \<open>\<open>current\<close> is the outcome of the arbiter's \<open>assertCurrent\<close>.\<close>

definition commitAcceptedReceipt ::
  "runtime_config \<Rightarrow> op_env \<Rightarrow> string \<Rightarrow> string \<Rightarrow> reservation \<Rightarrow> int \<Rightarrow> string \<Rightarrow> runtime_error option
   \<Rightarrow> session_snapshot option \<Rightarrow> runtime_state \<Rightarrow> unit outcome" where
  "commitAcceptedReceipt c env k hash v fe submit current x = reloaded c env (\<lambda>s.
     case cached s k of None \<Rightarrow> (Inl cliFenced, s)
     | Some r \<Rightarrow>
         if \<not> matchesReservation r hash v \<or> rr_submissionPhase r \<noteq> Some SpawnPermitted
            \<or> rr_fenceEpoch r \<noteq> Some fe then (Inl cliFenced, s)
         else if (case bound_account x of None \<Rightarrow> False
              | Some (a, e) \<Rightarrow> rr_accountBinding r \<noteq> Some a \<or> rr_sessionEpoch r \<noteq> Some e)
         then (Inl accountChanged, s)
         else (case current of Some e \<Rightarrow> (Inl e, s)
           | None \<Rightarrow> saved c env () (set_record (accepted_record (env_now env) submit r) s)))"

definition unknown_record :: "int \<Rightarrow> string \<Rightarrow> runtime_record \<Rightarrow> runtime_record" where
  "unknown_record now code r =
     clearReservation (r\<lparr>rr_state := JUnknown, rr_errorCode := Some code, rr_updatedAt := to_iso_string now\<rparr>)"

definition commitSubmissionFailure ::
  "runtime_config \<Rightarrow> op_env \<Rightarrow> string \<Rightarrow> string \<Rightarrow> reservation \<Rightarrow> int option \<Rightarrow> bool \<Rightarrow> string
   \<Rightarrow> runtime_state \<Rightarrow> unit outcome" where
  "commitSubmissionFailure c env k hash v fe spawned code = reloaded c env (\<lambda>s.
     case cached s k of None \<Rightarrow> (Inl cliFenced, s)
     | Some r \<Rightarrow>
         if \<not> matchesReservation r hash v then (Inl cliFenced, s)
         else if fe \<noteq> None \<and> rr_fenceEpoch r \<noteq> fe then (Inl cliFenced, s)
         else if \<not> spawned then saved c env () (delete_record k s)
         else saved c env () (set_record (unknown_record (env_now env) code r) s))"

definition persistCleanupWarning ::
  "runtime_config \<Rightarrow> op_env \<Rightarrow> string \<Rightarrow> int \<Rightarrow> runtime_state \<Rightarrow> unit outcome" where
  "persistCleanupWarning c env k fe = reloaded c env (\<lambda>s.
     case cached s k of None \<Rightarrow> (Inl cliFenced, s)
     | Some r \<Rightarrow>
         if rr_state r \<noteq> JAccepted \<or> rr_fenceEpoch r \<noteq> Some fe then (Inl cliFenced, s)
         else saved c env () (set_record (r\<lparr>rr_errorCode := Some ''dreamina_reference_cleanup_failed'',
                rr_updatedAt := to_iso_string (env_now env)\<rparr>) s))"

section \<open>Ending a task\<close>

text \<open>The result is the record as it stands in the copy.\<close>

definition transitionTask ::
  "runtime_config \<Rightarrow> op_env \<Rightarrow> string \<Rightarrow> (runtime_record \<Rightarrow> runtime_record) \<Rightarrow> runtime_state
   \<Rightarrow> runtime_record outcome" where
  "transitionTask c env k f = reloaded c env (\<lambda>s.
     case cached s k of None \<Rightarrow> (Inl stateInvalid, s)
     | Some r \<Rightarrow>
         if truthy_int (rr_taskVersion r) = None then (Inl stateInvalid, s)
         else if isPublicTerminal (rr_state r) then (Inr r, s)
         else saved c env (f r) (set_record (f r) s))"

definition failed_record :: "int \<Rightarrow> string \<Rightarrow> runtime_record \<Rightarrow> runtime_record" where
  "failed_record now code r =
     clearQueueLease (r\<lparr>rr_state := JFailed, rr_errorCode := Some code, rr_updatedAt := to_iso_string now\<rparr>)"

text \<open>What \<open>failTask\<close> does to the records; the copy decides whether there is anything to do.\<close>

definition failTask :: "runtime_config \<Rightarrow> op_env \<Rightarrow> string \<Rightarrow> string \<Rightarrow> runtime_state \<Rightarrow> unit outcome" where
  "failTask c env k code s =
     (case cached s k of None \<Rightarrow> (Inr (), s)
      | Some r \<Rightarrow>
          if isPublicTerminal (rr_state r) then (Inr (), s)
          else (case transitionTask c env k (failed_record (env_now env) code) s of
              (Inl e, s') \<Rightarrow> (Inl e, s') | (Inr _, s') \<Rightarrow> (Inr (), s')))"

definition interrupted_record :: "int \<Rightarrow> runtime_record \<Rightarrow> runtime_record" where
  "interrupted_record now r = clearQueueLease (r\<lparr>rr_state := JFailed,
     rr_errorCode := Some ''dreamina_interrupted_before_submission'', rr_updatedAt := to_iso_string now\<rparr>)"

definition owns_queued :: "runtime_config \<Rightarrow> runtime_record \<Rightarrow> bool" where
  "owns_queued c r \<longleftrightarrow> rr_state r = JQueued \<and> rr_queueOwnerId r = Some (rt_reservationOwnerId c)"

definition failOwnedQueuedTasksOnDispose ::
  "runtime_config \<Rightarrow> op_env \<Rightarrow> runtime_state \<Rightarrow> unit outcome" where
  "failOwnedQueuedTasksOnDispose c env s =
     (if \<not> list_ex (owns_queued c) (rs_records s) then (Inr (), s)
      else reloaded c env (\<lambda>s.
        if list_ex (owns_queued c) (rs_records s)
        then saved c env () (s\<lparr>rs_records := map (\<lambda>r. if owns_queued c r
               then interrupted_record (env_now env) r else r) (rs_records s)\<rparr>)
        else (Inr (), s)) s)"

definition validateIdempotencyKey :: "string \<Rightarrow> runtime_error + unit" where
  "validateIdempotencyKey k = (if chars_ok id_char 8 160 k then Inr () else Inl generationRequestInvalid)"

definition cancelled_record :: "int \<Rightarrow> runtime_record \<Rightarrow> runtime_record" where
  "cancelled_record now r = clearQueueLease (r\<lparr>rr_state := JCancelled,
     rr_errorCode := Some ''dreamina_cancelled'', rr_updatedAt := to_iso_string now\<rparr>)"

text \<open>The result is the final record and whether it was cancelled now; the first reload is that of
  \<open>load\<close>.\<close>

definition cancelTask ::
  "runtime_config \<Rightarrow> op_env \<Rightarrow> op_env \<Rightarrow> string \<Rightarrow> runtime_state \<Rightarrow> (runtime_record \<times> bool) outcome" where
  "cancelTask c env0 env idem s =
     (case validateIdempotencyKey idem of Inl e \<Rightarrow> (Inl e, s)
      | Inr _ \<Rightarrow> reloaded c env0 (reloaded c env (\<lambda>s.
          case cached s (recordKey (rt_ownerId c) idem) of None \<Rightarrow> (Inl taskNotFound, s)
          | Some r \<Rightarrow>
              if truthy_int (rr_taskVersion r) = None then (Inl taskNotFound, s)
              else if isPublicTerminal (rr_state r) then (Inr (r, False), s)
              else if rr_state r = JPending then (Inl submissionUnknown, s)
              else if rr_state r = JAccepted \<and> truthy (rr_submitId r) then (Inr (r, False), s)
              else
                let n = cancelled_record (env_now env) r in
                saved c env (n, True) (set_record n s))) s)"

definition removed_record :: "int \<Rightarrow> runtime_record \<Rightarrow> runtime_record" where
  "removed_record now r =
     (if rr_state r = JQueued \<or> rr_state r = JPending \<and> rr_submissionPhase r = Some Reserved
      then clearQueueLease (r\<lparr>rr_state := JDeleted, rr_updatedAt := to_iso_string now\<rparr>)
      else r\<lparr>rr_hidden := True, rr_updatedAt := to_iso_string now\<rparr>)"

definition deleteTask ::
  "runtime_config \<Rightarrow> op_env \<Rightarrow> op_env \<Rightarrow> string \<Rightarrow> runtime_state \<Rightarrow> unit outcome" where
  "deleteTask c env0 env idem s =
     (case validateIdempotencyKey idem of Inl e \<Rightarrow> (Inl e, s)
      | Inr _ \<Rightarrow> reloaded c env0 (reloaded c env (\<lambda>s.
          case cached s (recordKey (rt_ownerId c) idem) of None \<Rightarrow> (Inl taskNotFound, s)
          | Some r \<Rightarrow>
              if rr_state r = JDeleted \<or> rr_hidden r then (Inr (), s)
              else if truthy_int (rr_taskVersion r) = None then (Inl taskNotFound, s)
              else saved c env () (set_record (removed_record (env_now env) r) s))) s)"

end
