(* ===== verification/ProviderArtifacts.thy ===== *)
theory ProviderArtifacts
  imports RuntimeQueue
begin

text \<open>
  The results of completed tasks on their way from the download directory to the journal: reading the
  downloaded files (\<open>collectDreaminaGenerationResult\<close> of \<open>canvas-agent/src/dreamina-generation.ts\<close>) and
  the store of artifacts (\<open>canvas-agent/src/dreamina-provider-artifacts.ts\<close>), which keeps each result as
  a directory with a manifest and names its outputs by reference.

  A byte of a buffer is a \<open>char\<close>, which has the same 256 values. SHA-256 is an argument, the random id of
  a set too. A directory of the store is its manifest, its files and its time of change; \<open>lstat\<close> checks on
  links, permissions, and the size of the manifest file are not modelled.
\<close>

type_synonym bytes = string

section \<open>Base64\<close>

text \<open>\<open>toString("base64")\<close>, and \<open>Buffer.from(s, "base64")\<close> on texts of the alphabet: what is left of
  incomplete groups is dropped, padding and other characters are skipped.\<close>

definition base64_digit :: "nat \<Rightarrow> char" where
  [js_defs]: "base64_digit n = (if n < 26 then char_of (65 + n) else if n < 52 then char_of (71 + n)
     else if n < 62 then char_of (n - 4) else if n = 62 then CHR ''+'' else CHR ''/'')"

definition base64_char :: "char \<Rightarrow> bool" where
  [js_defs]: "base64_char c \<longleftrightarrow> is_upper c \<or> is_lower c \<or> is_digit c \<or> c = CHR ''+'' \<or> c = CHR ''/''"

definition base64_value :: "char \<Rightarrow> nat option" where
  [js_defs]: "base64_value c =
     (if is_upper c then Some (of_char c - 65)
      else if is_lower c then Some (of_char c - 71)
      else if is_digit c then Some (of_char c + 4)
      else if c = CHR ''+'' then Some 62
      else if c = CHR ''/'' then Some 63
      else None)"

abbreviation byte :: "char \<Rightarrow> nat" where "byte \<equiv> of_char"

fun encode64 :: "bytes \<Rightarrow> string" where
  "encode64 [] = []"
| "encode64 [a] = [base64_digit (byte a div 4), base64_digit (byte a mod 4 * 16), CHR ''='', CHR ''='']"
| "encode64 [a, b] = [base64_digit (byte a div 4), base64_digit (byte a mod 4 * 16 + byte b div 16),
     base64_digit (byte b mod 16 * 4), CHR ''='']"
| "encode64 (a # b # c # s) = base64_digit (byte a div 4) # base64_digit (byte a mod 4 * 16 + byte b div 16)
     # base64_digit (byte b mod 16 * 4 + byte c div 64) # base64_digit (byte c mod 64) # encode64 s"

fun decode_sextets :: "nat list \<Rightarrow> bytes" where
  "decode_sextets (p # q # r # s # xs) = char_of (p * 4 + q div 16) # char_of (q mod 16 * 16 + r div 4)
     # char_of (r mod 4 * 64 + s) # decode_sextets xs"
| "decode_sextets [p, q, r] = [char_of (p * 4 + q div 16), char_of (q mod 16 * 16 + r div 4)]"
| "decode_sextets [p, q] = [char_of (p * 4 + q div 16)]"
| "decode_sextets _ = []"

definition decode64 :: "string \<Rightarrow> bytes" where
  [js_defs]: "decode64 s = decode_sextets (List.map_filter base64_value s)"

text \<open>\<open>/^[A-Za-z0-9+/]+={0,2}$/\<close>\<close>

definition base64_text :: "string \<Rightarrow> bool" where
  [js_defs]: "base64_text s \<longleftrightarrow> takeWhile base64_char s \<noteq> []
     \<and> dropWhile base64_char s \<in> set [[], ''='', ''=='']"

section \<open>Results\<close>

record media_item =
  mi_dataUrl :: string
  mi_mimeType :: string
  mi_bytes :: int

record generation_result =
  gr_mode :: task_mode
  gr_images :: "media_item list option"
  gr_video :: "media_item option"

definition data_prefix :: "string \<Rightarrow> string" where
  [js_defs]: "data_prefix mime = ''data:'' @ mime @ '';base64,''"

definition media_of_bytes :: "string \<Rightarrow> bytes \<Rightarrow> media_item" where
  [js_defs]: "media_of_bytes mime b =
     \<lparr>mi_dataUrl = data_prefix mime @ encode64 b, mi_mimeType = mime, mi_bytes = int (length b)\<rparr>"

section \<open>Reading the downloaded files\<close>

definition MAX_RESULT_BYTES :: int where [js_defs]: "MAX_RESULT_BYTES = 268435456"

definition resultInvalid :: runtime_error where
  [js_defs]: "resultInvalid = LocalError ''local_generation_result_invalid''"

definition imageExtensions :: "(string \<times> string) list" where
  [js_defs]: "imageExtensions = [(''.png'', ''image/png''), (''.jpg'', ''image/jpeg''), (''.jpeg'', ''image/jpeg''),
     (''.webp'', ''image/webp'')]"

definition videoExtensions :: "(string \<times> string) list" where
  [js_defs]: "videoExtensions = [(''.mp4'', ''video/mp4''), (''.mov'', ''video/quicktime''), (''.webm'', ''video/webm'')]"

text \<open>\<open>toLowerCase\<close> on the letters the tables consist of, and \<open>path.extname\<close>: from the last dot of the
  last segment, which must not start it.\<close>

definition lower_char :: "char \<Rightarrow> char" where
  [js_defs]: "lower_char c = (if is_upper c then char_of (of_char c + 32 :: nat) else c)"

definition extname :: "string \<Rightarrow> string" where
  [js_defs]: "extname f =
     (let base = takeWhile (\<lambda>c. c \<noteq> CHR ''/'') (rev f); rest = dropWhile (\<lambda>c. c \<noteq> CHR ''.'') base in
      if rest = [] \<or> tl rest = [] then [] else CHR ''.'' # rev (takeWhile (\<lambda>c. c \<noteq> CHR ''.'') base))"

definition mime_of_file :: "task_mode \<Rightarrow> string \<Rightarrow> string option" where
  [js_defs]: "mime_of_file md f =
     map_of (case md of ImageMode \<Rightarrow> imageExtensions | VideoMode \<Rightarrow> videoExtensions) (map lower_char (extname f))"

text \<open>\<open>toString("ascii", from, to)\<close> ignores the highest bit of each byte.\<close>

definition ascii_at :: "nat \<Rightarrow> nat \<Rightarrow> bytes \<Rightarrow> string" where
  [js_defs]: "ascii_at i n b = map (\<lambda>c. char_of (byte c mod 128)) (take n (drop i b))"

definition PNG_SIGNATURE :: bytes where
  [js_defs]: "PNG_SIGNATURE = map char_of [0x89, 0x50, 0x4E, 0x47, 0x0D, 0x0A, 0x1A, 0x0A :: nat]"

definition JPEG_SIGNATURE :: bytes where
  [js_defs]: "JPEG_SIGNATURE = map char_of [0xFF, 0xD8, 0xFF :: nat]"

definition WEBM_SIGNATURE :: bytes where
  [js_defs]: "WEBM_SIGNATURE = map char_of [0x1A, 0x45, 0xDF, 0xA3 :: nat]"

definition hasExpectedMediaSignature :: "bytes \<Rightarrow> string \<Rightarrow> bool" where
  [js_defs]: "hasExpectedMediaSignature b mime =
     (if mime = ''image/png'' then 8 \<le> length b \<and> take 8 b = PNG_SIGNATURE
      else if mime = ''image/jpeg'' then 3 \<le> length b \<and> take 3 b = JPEG_SIGNATURE
      else if mime = ''image/webp'' then 12 \<le> length b \<and> ascii_at 0 4 b = ''RIFF'' \<and> ascii_at 8 4 b = ''WEBP''
      else if mime = ''video/mp4'' \<or> mime = ''video/quicktime'' then 12 \<le> length b \<and> ascii_at 4 4 b = ''ftyp''
      else if mime = ''video/webm'' then 4 \<le> length b \<and> take 4 b = WEBM_SIGNATURE
      else if mime = ''audio/mpeg'' then 3 \<le> length b
        \<and> (ascii_at 0 3 b = ''ID3'' \<or> byte (b ! 0) = 0xFF \<and> 0xE0 \<le> byte (b ! 1))
      else if mime = ''audio/wav'' then 12 \<le> length b \<and> ascii_at 0 4 b = ''RIFF'' \<and> ascii_at 8 4 b = ''WAVE''
      else if mime = ''audio/mp4'' then 12 \<le> length b \<and> ascii_at 4 4 b = ''ftyp''
      else if mime = ''audio/aac'' then 2 \<le> length b \<and> byte (b ! 0) = 0xFF \<and> 0xF0 \<le> byte (b ! 1)
      else mime = ''audio/flac'' \<and> 4 \<le> length b \<and> ascii_at 0 4 b = ''fLaC'')"

definition read_media :: "string \<Rightarrow> bytes \<Rightarrow> runtime_error + media_item" where
  "read_media mime b =
     (if b = [] \<or> MAX_RESULT_BYTES < int (length b) \<or> \<not> hasExpectedMediaSignature b mime
      then Inl resultInvalid else Inr (media_of_bytes mime b))"

fun read_all_media :: "(string \<times> bytes) list \<Rightarrow> runtime_error + media_item list" where
  "read_all_media [] = Inr []"
| "read_all_media ((mime, b) # fs) = bindE (read_media mime b) (\<lambda>m. bindE (read_all_media fs) (\<lambda>ms. Inr (m # ms)))"

text \<open>\<open>found\<close> is what \<open>collectRegularMediaFiles\<close> finds, each file with its content.\<close>

definition collectDreaminaGenerationResult ::
  "runtime_error + (string \<times> bytes) list \<Rightarrow> task_mode \<Rightarrow> runtime_error + generation_result" where
  "collectDreaminaGenerationResult found md =
     bindE found (\<lambda>fs.
       let files = List.map_filter (\<lambda>(f, b). map_option (\<lambda>m. (m, b)) (mime_of_file md f)) fs in
       if files = [] \<or> 4 < length files \<or> md = VideoMode \<and> length files \<noteq> 1 then Inl resultInvalid
       else bindE (read_all_media files) (\<lambda>media.
         if MAX_RESULT_BYTES < sum_list (map mi_bytes media) then Inl resultInvalid
         else Inr (case md of
             ImageMode \<Rightarrow> \<lparr>gr_mode = md, gr_images = Some media, gr_video = None\<rparr>
           | VideoMode \<Rightarrow> \<lparr>gr_mode = md, gr_images = None, gr_video = Some (hd media)\<rparr>)))"

section \<open>Checking a result\<close>

abbreviation artifactInvalid :: runtime_error where "artifactInvalid \<equiv> OtherError"

definition validMedia :: "bytes \<Rightarrow> string \<Rightarrow> task_mode \<Rightarrow> bool" where
  [js_defs]: "validMedia b mime md = (case md of
     ImageMode \<Rightarrow>
       if mime = ''image/png'' then 8 \<le> length b \<and> take 8 b = PNG_SIGNATURE
       else if mime = ''image/jpeg'' then 3 \<le> length b \<and> take 3 b = JPEG_SIGNATURE
       else mime = ''image/webp'' \<and> 12 \<le> length b \<and> ascii_at 0 4 b = ''RIFF'' \<and> ascii_at 8 4 b = ''WEBP''
   | VideoMode \<Rightarrow>
       if mime = ''video/mp4'' \<or> mime = ''video/quicktime'' then 12 \<le> length b \<and> ascii_at 4 4 b = ''ftyp''
       else mime = ''video/webm'' \<and> 4 \<le> length b \<and> take 4 b = WEBM_SIGNATURE)"

text \<open>One item; \<open>before\<close> are the bytes of the items before it.\<close>

definition decode_item :: "task_mode \<Rightarrow> int \<Rightarrow> media_item \<Rightarrow> runtime_error + bytes" where
  "decode_item md before x =
     (if \<not> safe_integer (mi_bytes x) \<or> mi_bytes x \<le> 0
         \<or> \<not> starts_with (mi_dataUrl x) (data_prefix (mi_mimeType x)) then Inl artifactInvalid
      else
        let encoded = drop (length (data_prefix (mi_mimeType x))) (mi_dataUrl x); b = decode64 encoded in
        if \<not> base64_text encoded \<or> int (length b) \<noteq> mi_bytes x \<or> encode64 b \<noteq> encoded
           \<or> MAX_RESULT_BYTES < before + int (length b) \<or> \<not> validMedia b (mi_mimeType x) md
        then Inl artifactInvalid else Inr b)"

fun decode_items :: "task_mode \<Rightarrow> int \<Rightarrow> media_item list \<Rightarrow> runtime_error + (bytes \<times> string) list" where
  "decode_items md before [] = Inr []"
| "decode_items md before (x # xs) =
     bindE (decode_item md before x) (\<lambda>b. bindE (decode_items md (before + int (length b)) xs)
       (\<lambda>r. Inr ((b, mi_mimeType x) # r)))"

definition result_items :: "generation_result \<Rightarrow> media_item list" where
  "result_items g = (case gr_mode g of
     ImageMode \<Rightarrow> (case gr_images g of None \<Rightarrow> [] | Some xs \<Rightarrow> xs)
   | VideoMode \<Rightarrow> (case gr_video g of None \<Rightarrow> [] | Some x \<Rightarrow> [x]))"

definition decodeResult :: "generation_result \<Rightarrow> task_mode \<Rightarrow> runtime_error + (bytes \<times> string) list" where
  "decodeResult g md =
     (if gr_mode g \<noteq> md \<or> result_items g = [] \<or> 4 < length (result_items g)
         \<or> md = VideoMode \<and> length (result_items g) \<noteq> 1
      then Inl artifactInvalid else decode_items md 0 (result_items g))"

section \<open>The store of artifacts\<close>

record artifact_binding =
  ab_ownerId :: string
  ab_key :: string
  ab_account :: "string option"
  ab_fence :: "int option"
  ab_mode :: task_mode

record manifest_output =
  mo_index :: int
  mo_media :: task_mode
  mo_mimeType :: string
  mo_bytes :: int
  mo_sha256 :: string

record artifact_manifest =
  am_setId :: string
  am_ownerBinding :: string
  am_taskBinding :: string
  am_account :: "string option"
  am_fence :: int
  am_mode :: task_mode
  am_outputs :: "manifest_output list"
  am_createdAt :: string

text \<open>A set whose manifest does not parse has none.\<close>

record stored_set =
  ss_manifest :: "artifact_manifest option"
  ss_files :: "(string \<times> bytes) list"
  ss_changed :: int

text \<open>The sets by their id, and the unfinished sets with the time of their change.\<close>

record artifact_root =
  ar_sets :: "(string \<times> stored_set) list"
  ar_temporary :: "(string \<times> int) list"

definition validateBinding :: "artifact_binding \<Rightarrow> runtime_error + unit" where
  "validateBinding b = ensure artifactInvalid (chars_ok owner_char 16 120 (ab_ownerId b)
     \<and> chars_ok id_char 8 160 (ab_key b) \<and> opt_ok (chars_ok hex_char 64 64) (ab_account b)
     \<and> opt_ok (\<lambda>n. safe_integer n \<and> 1 \<le> n) (ab_fence b))"

definition artifactRef :: "string \<Rightarrow> nat \<Rightarrow> string" where
  "artifactRef sid i = ARTIFACT_PREFIX @ sid @ '':'' @ decimal i"

definition mediaName :: "nat \<Rightarrow> string" where
  "mediaName i = pad_number 3 (int i) @ ''.media''"

definition manifest_outputs :: "(bytes \<Rightarrow> string) \<Rightarrow> task_mode \<Rightarrow> (bytes \<times> string) list \<Rightarrow> manifest_output list" where
  "manifest_outputs sha md media = map (\<lambda>(i, b, mime).
     \<lparr>mo_index = int i, mo_media = md, mo_mimeType = mime, mo_bytes = int (length b), mo_sha256 = sha b\<rparr>)
     (List.enumerate 0 media)"

definition manifest_of ::
  "(bytes \<Rightarrow> string) \<Rightarrow> string \<Rightarrow> int \<Rightarrow> artifact_binding \<Rightarrow> (bytes \<times> string) list \<Rightarrow> artifact_manifest" where
  "manifest_of sha sid now b media =
     \<lparr>am_setId = sid, am_ownerBinding = sha (ab_ownerId b), am_taskBinding = sha (ab_key b),
      am_account = ab_account b, am_fence = (case ab_fence b of None \<Rightarrow> 0 | Some n \<Rightarrow> n), am_mode = ab_mode b,
      am_outputs = manifest_outputs sha (ab_mode b) media, am_createdAt = to_iso_string now\<rparr>"

text \<open>How writing the set can fail: before the rename, with or without the temporary directory left
  behind, or after it, when the set is there already.\<close>

datatype artifact_fault = SetRemoved | SetAbandoned | SetComplete

definition provider_outputs :: "string \<Rightarrow> task_mode \<Rightarrow> (bytes \<times> string) list \<Rightarrow> provider_output list" where
  "provider_outputs sid md media = map (\<lambda>i. \<lparr>po_index = int i, po_media = media_of_mode md,
     po_ref = artifactRef sid i\<rparr>) [0..<length media]"

definition persistResult ::
  "(bytes \<Rightarrow> string) \<Rightarrow> string \<Rightarrow> int \<Rightarrow> artifact_fault option \<Rightarrow> generation_result \<Rightarrow> artifact_binding
   \<Rightarrow> artifact_root \<Rightarrow> (runtime_error + provider_output list) \<times> artifact_root" where
  "persistResult sha sid now fault g b store =
     (case validateBinding b of Inl e \<Rightarrow> (Inl e, store)
      | Inr _ \<Rightarrow> (case decodeResult g (ab_mode b) of Inl e \<Rightarrow> (Inl e, store)
        | Inr media \<Rightarrow>
            let added = store\<lparr>ar_sets := (sid, \<lparr>ss_manifest = Some (manifest_of sha sid now b media),
                  ss_files = map (\<lambda>(i, c, _). (mediaName i, c)) (List.enumerate 0 media),
                  ss_changed = now\<rparr>) # ar_sets store\<rparr> in
            (case fault of
               None \<Rightarrow> (Inr (provider_outputs sid (ab_mode b) media), added)
             | Some SetRemoved \<Rightarrow> (Inl OtherError, store)
             | Some SetAbandoned \<Rightarrow> (Inl OtherError, store\<lparr>ar_temporary := (sid, now) # ar_temporary store\<rparr>)
             | Some SetComplete \<Rightarrow> (Inl OtherError, added))))"

subsection \<open>Reading a result back\<close>

definition parseRef :: "string \<Rightarrow> runtime_error + string \<times> int" where
  "parseRef s =
     (let t = drop (length ARTIFACT_PREFIX) s; sid = take 36 t in
      if \<not> artifact_ref_ok s \<or> \<not> random_uuid_ok sid then Inl artifactInvalid
      else (case read_number (drop 37 t) of None \<Rightarrow> Inl artifactInvalid | Some n \<Rightarrow> Inr (sid, n)))"

fun parse_refs :: "provider_output list \<Rightarrow> runtime_error + (string \<times> int) list" where
  "parse_refs [] = Inr []"
| "parse_refs (x # xs) = bindE (parseRef (po_ref x)) (\<lambda>r. bindE (parse_refs xs) (\<lambda>rs. Inr (r # rs)))"

definition validManifestOutput :: "manifest_output \<Rightarrow> bool" where
  "validManifestOutput x \<longleftrightarrow> safe_integer (mo_index x) \<and> 0 \<le> mo_index x \<and> mo_index x < 4
     \<and> safe_integer (mo_bytes x) \<and> 0 < mo_bytes x \<and> mo_bytes x \<le> MAX_RESULT_BYTES
     \<and> chars_ok hex_char 64 64 (mo_sha256 x)"

definition valid_manifest :: "artifact_manifest \<Rightarrow> bool" where
  "valid_manifest m \<longleftrightarrow> random_uuid_ok (am_setId m) \<and> chars_ok hex_char 64 64 (am_ownerBinding m)
     \<and> chars_ok hex_char 64 64 (am_taskBinding m) \<and> opt_ok (chars_ok hex_char 64 64) (am_account m)
     \<and> safe_integer (am_fence m) \<and> 0 \<le> am_fence m \<and> date_ok (am_createdAt m)
     \<and> am_outputs m \<noteq> [] \<and> length (am_outputs m) \<le> 4 \<and> list_all validManifestOutput (am_outputs m)
     \<and> distinct (map mo_index (am_outputs m))"

definition manifest_matches ::
  "(bytes \<Rightarrow> string) \<Rightarrow> string \<Rightarrow> artifact_binding \<Rightarrow> nat \<Rightarrow> artifact_manifest \<Rightarrow> bool" where
  "manifest_matches sha sid b n m \<longleftrightarrow> am_setId m = sid \<and> am_ownerBinding m = sha (ab_ownerId b)
     \<and> am_taskBinding m = sha (ab_key b) \<and> am_account m = ab_account b
     \<and> am_fence m = (case ab_fence b of None \<Rightarrow> 0 | Some k \<Rightarrow> k) \<and> am_mode m = ab_mode b
     \<and> length (am_outputs m) = n"

definition read_output ::
  "(bytes \<Rightarrow> string) \<Rightarrow> artifact_binding \<Rightarrow> stored_set \<Rightarrow> artifact_manifest \<Rightarrow> int \<Rightarrow> provider_output
   \<Rightarrow> int \<Rightarrow> runtime_error + media_item" where
  "read_output sha b st m before x i =
     (case find (\<lambda>c. mo_index c = i) (am_outputs m) of None \<Rightarrow> Inl artifactInvalid
      | Some c \<Rightarrow>
          if po_index x \<noteq> i \<or> po_media x \<noteq> media_of_mode (ab_mode b) \<or> mo_media c \<noteq> ab_mode b
          then Inl artifactInvalid
          else (case map_of (ss_files st) (mediaName (nat i)) of None \<Rightarrow> Inl OtherError
            | Some content \<Rightarrow>
                if int (length content) \<noteq> mo_bytes c \<or> MAX_RESULT_BYTES < before + int (length content)
                   \<or> sha content \<noteq> mo_sha256 c \<or> \<not> validMedia content (mo_mimeType c) (ab_mode b)
                then Inl artifactInvalid else Inr (media_of_bytes (mo_mimeType c) content)))"

fun read_outputs ::
  "(bytes \<Rightarrow> string) \<Rightarrow> artifact_binding \<Rightarrow> stored_set \<Rightarrow> artifact_manifest \<Rightarrow> int
   \<Rightarrow> (provider_output \<times> int) list \<Rightarrow> runtime_error + media_item list" where
  "read_outputs sha b st m before [] = Inr []"
| "read_outputs sha b st m before ((x, i) # xs) =
     bindE (read_output sha b st m before x i) (\<lambda>y.
       bindE (read_outputs sha b st m (before + mi_bytes y) xs) (\<lambda>ys. Inr (y # ys)))"

definition readResult ::
  "(bytes \<Rightarrow> string) \<Rightarrow> provider_output list \<Rightarrow> artifact_binding \<Rightarrow> artifact_root
   \<Rightarrow> runtime_error + generation_result" where
  "readResult sha outs b store =
     bindE (validateBinding b) (\<lambda>_. bindE (parse_refs outs) (\<lambda>refs.
       if refs = [] \<or> 4 < length refs \<or> list_ex (\<lambda>r. fst r \<noteq> fst (hd refs)) refs then Inl artifactInvalid
       else (case map_of (ar_sets store) (fst (hd refs)) of None \<Rightarrow> Inl OtherError
         | Some st \<Rightarrow> (case ss_manifest st of None \<Rightarrow> Inl artifactInvalid
             | Some m \<Rightarrow>
                 if \<not> valid_manifest m \<or> \<not> manifest_matches sha (fst (hd refs)) b (length outs) m
                 then Inl artifactInvalid
                 else bindE (read_outputs sha b st m 0 (zip outs (map snd refs))) (\<lambda>media.
                   Inr (case ab_mode b of
                       ImageMode \<Rightarrow> \<lparr>gr_mode = ImageMode, gr_images = Some media, gr_video = None\<rparr>
                     | VideoMode \<Rightarrow> \<lparr>gr_mode = VideoMode, gr_images = None, gr_video = Some (hd media)\<rparr>))))))"

subsection \<open>Clearing away what nobody refers to\<close>

definition ORPHAN_GRACE_MS :: int where "ORPHAN_GRACE_MS = 86400000"

definition scavenge :: "int \<Rightarrow> provider_output list \<Rightarrow> artifact_root \<Rightarrow> (runtime_error + unit) \<times> artifact_root" where
  "scavenge now kept store =
     (case parse_refs kept of Inl e \<Rightarrow> (Inl e, store)
      | Inr refs \<Rightarrow>
          (Inr (), store\<lparr>
             ar_sets := filter (\<lambda>(sid, st). sid \<in> fst ` set refs \<or> now - ORPHAN_GRACE_MS < ss_changed st) (ar_sets store),
             ar_temporary := filter (\<lambda>(sid, t). now - ORPHAN_GRACE_MS < t) (ar_temporary store)\<rparr>))"

end
