(* ===== verification/CliOutput.thy ===== *)
theory CliOutput
  imports ProviderArtifacts
begin

text \<open>
  Reading the output of the command line program (\<open>canvas-agent/src/dreamina-cli-runtime.ts\<close>, its last
  third): the receipt of a submission, the answer to a query with the whitelist it is cut down to, and
  the status taken from it. \<open>JSON.parse\<close> is the argument's business: an output is the value it parses
  to, or nothing when it does not parse. Numbers are \<open>rat\<close>. The text \<open>sanitizeDreaminaDiagnostic\<close> makes of a
  message is an argument.
\<close>

datatype json = JsonNull | JsonBool bool | JsonNumber rat | JsonString string
  | JsonArray "json list" | JsonObject "(string \<times> json) list"

text \<open>A property of an object; \<open>JSON.parse\<close> keeps the last of two equal keys. \<open>a ?? b\<close> skips an absent
  value and null.\<close>

definition json_member :: "(string \<times> json) list \<Rightarrow> string \<Rightarrow> json option" where
  "json_member obj k = map_of (rev obj) k"

fun nullish :: "json option \<Rightarrow> bool" where
  "nullish None = True"
| "nullish (Some v) = (v = JsonNull)"

definition or_else :: "json option \<Rightarrow> json option \<Rightarrow> json option" where
  "or_else a b = (if nullish a then b else a)"

section \<open>Receipts\<close>

record process_result =
  pr_exitCode :: "int option"
  pr_stdout :: "json option"

definition id_value :: "json option \<Rightarrow> string option" where
  "id_value v = (case v of Some (JsonString s) \<Rightarrow> if chars_ok id_char 8 160 s then Some s else None | _ \<Rightarrow> None)"

text \<open>The empty text stands for no receipt; reading a property of null throws, of another value is
  undefined.\<close>

definition extractSubmitId :: "json option \<Rightarrow> string" where
  "extractSubmitId out = (case out of Some (JsonObject obj) \<Rightarrow>
       (case id_value (or_else (json_member obj ''submit_id'') (json_member obj ''submitId'')) of None \<Rightarrow> [] | Some s \<Rightarrow> s)
     | _ \<Rightarrow> [])"

definition submittedReceipt :: "process_result \<Rightarrow> string + string" where
  "submittedReceipt r =
     (if pr_exitCode r \<noteq> Some 0 then Inl ''dreamina_submit_exit_nonzero''
      else let s = extractSubmitId (pr_stdout r) in
        if s \<noteq> [] then Inr s else Inl ''dreamina_submit_receipt_missing'')"

definition isSubmitReceiptOutput :: "json \<Rightarrow> bool" where
  "isSubmitReceiptOutput v = (case v of JsonObject obj \<Rightarrow>
       list_all (\<lambda>(k, _). k = ''submit_id'' \<or> k = ''submitId'') obj
       \<and> id_value (or_else (json_member obj ''submit_id'') (json_member obj ''submitId'')) \<noteq> None
     | _ \<Rightarrow> False)"

section \<open>Answers\<close>

definition QUERY_STATUS_MAP :: "(string \<times> string) list" where
  "QUERY_STATUS_MAP =
    [(''pending'', ''pending''), (''processing'', ''processing''), (''querying'', ''processing''),
     (''running'', ''processing''), (''completed'', ''completed''), (''success'', ''completed''),
     (''succeeded'', ''completed''), (''fail'', ''failed''), (''failed'', ''failed''), (''error'', ''failed''),
     (''cancelled'', ''cancelled''), (''canceled'', ''cancelled'')]"

definition QUERY_CODE_MAP :: "(string \<times> string) list" where
  "QUERY_CODE_MAP =
    [(''0'', ''success''), (''ok'', ''success''), (''success'', ''success''), (''pending'', ''pending''),
     (''processing'', ''processing''), (''failed'', ''failed''), (''cancelled'', ''cancelled''),
     (''canceled'', ''cancelled'')]"

definition queryResponseInvalid :: runtime_error where
  "queryResponseInvalid = CliError ''dreamina_query_response_invalid''"

text \<open>An absent property is no error, one of another type is.\<close>

definition safeQueryEnum :: "json option \<Rightarrow> (string \<times> string) list \<Rightarrow> runtime_error + string option" where
  "safeQueryEnum v table = (case v of None \<Rightarrow> Inr None
     | Some (JsonString s) \<Rightarrow>
         (case map_of table (map lower_char s) of None \<Rightarrow> Inl queryResponseInvalid | Some x \<Rightarrow> Inr (Some x))
     | Some _ \<Rightarrow> Inl queryResponseInvalid)"

record query_result =
  qr_submitId :: "string option"
  qr_status :: "string option"
  qr_state :: "string option"
  qr_genStatus :: "string option"
  qr_code :: "string option"
  qr_progress :: "rat option"
  qr_completed :: "bool option"
  qr_message :: "string option"

definition safe_progress :: "json option \<Rightarrow> rat option" where
  "safe_progress v = (case v of Some (JsonNumber n) \<Rightarrow> if 0 \<le> n \<and> n \<le> 100 then Some n else None | _ \<Rightarrow> None)"

definition safe_completed :: "json option \<Rightarrow> json option \<Rightarrow> bool option" where
  "safe_completed c u = (case c of Some (JsonBool b) \<Rightarrow> Some b
     | _ \<Rightarrow> (case u of Some (JsonBool b) \<Rightarrow> Some b | _ \<Rightarrow> None))"

definition safe_message :: "(string \<Rightarrow> string) \<Rightarrow> json option \<Rightarrow> string option" where
  "safe_message sanitize v = (case v of Some (JsonString s) \<Rightarrow> truthy_str (Some (sanitize s)) | _ \<Rightarrow> None)"

definition query_fields :: "query_result \<Rightarrow> bool" where
  "query_fields q \<longleftrightarrow> qr_submitId q \<noteq> None \<or> qr_status q \<noteq> None \<or> qr_state q \<noteq> None \<or> qr_genStatus q \<noteq> None
     \<or> qr_code q \<noteq> None \<or> qr_progress q \<noteq> None \<or> qr_completed q \<noteq> None \<or> qr_message q \<noteq> None"

definition safeQueryResult :: "(string \<Rightarrow> string) \<Rightarrow> json \<Rightarrow> runtime_error + query_result" where
  "safeQueryResult sanitize v = (case v of JsonObject obj \<Rightarrow>
       bindE (safeQueryEnum (json_member obj ''status'') QUERY_STATUS_MAP) (\<lambda>status.
       bindE (safeQueryEnum (json_member obj ''state'') QUERY_STATUS_MAP) (\<lambda>state.
       bindE (safeQueryEnum (json_member obj ''gen_status'') QUERY_STATUS_MAP) (\<lambda>gen.
       bindE (safeQueryEnum (json_member obj ''code'') QUERY_CODE_MAP) (\<lambda>code.
         let q = \<lparr>qr_submitId = id_value (or_else (json_member obj ''submit_id'') (json_member obj ''submitId'')),
                  qr_status = status, qr_state = state, qr_genStatus = gen, qr_code = code,
                  qr_progress = safe_progress (json_member obj ''progress''),
                  qr_completed = safe_completed (json_member obj ''completed'') (json_member obj ''success''),
                  qr_message = safe_message sanitize (json_member obj ''message'')\<rparr> in
         if query_fields q then Inr q else Inl queryResponseInvalid))))
     | _ \<Rightarrow> Inl queryResponseInvalid)"

definition safeJsonResult :: "(string \<Rightarrow> string) \<Rightarrow> json option \<Rightarrow> runtime_error + query_result" where
  "safeJsonResult sanitize out = (case out of None \<Rightarrow> Inl queryResponseInvalid | Some v \<Rightarrow> safeQueryResult sanitize v)"

definition isCompleteQueryOutput :: "(string \<Rightarrow> string) \<Rightarrow> json \<Rightarrow> bool" where
  "isCompleteQueryOutput sanitize v = (case safeQueryResult sanitize v of Inl _ \<Rightarrow> False
     | Inr q \<Rightarrow> qr_status q \<noteq> None \<or> qr_state q \<noteq> None \<or> qr_genStatus q \<noteq> None \<or> qr_code q \<noteq> None
         \<or> qr_completed q \<noteq> None)"

definition first_of :: "'a option list \<Rightarrow> 'a option" where
  "first_of xs = (case filter (\<lambda>x. x \<noteq> None) xs of [] \<Rightarrow> None | x # _ \<Rightarrow> x)"

definition status_word :: "string \<Rightarrow> provider_status option" where
  "status_word s =
     (if s = ''pending'' then Some Pending else if s = ''processing'' then Some Processing
      else if s = ''completed'' then Some Completed else if s = ''failed'' then Some Failed
      else if s = ''cancelled'' then Some Cancelled else None)"

definition queryOfficialStatus :: "query_result \<Rightarrow> runtime_error + provider_status" where
  "queryOfficialStatus q =
     (case first_of [qr_genStatus q, qr_status q, qr_state q, qr_code q] of
        None \<Rightarrow> Inl queryResponseInvalid
      | Some s \<Rightarrow> (case status_word s of None \<Rightarrow> Inl queryResponseInvalid | Some x \<Rightarrow> Inr x))"

datatype query_state = QueryPending | QueryCompleted | QueryIncomplete

definition queryState :: "query_result \<Rightarrow> query_state" where
  "queryState q =
     (let st = (case first_of [qr_status q, qr_state q, qr_genStatus q, qr_code q] of None \<Rightarrow> [] | Some s \<Rightarrow> map lower_char s) in
      if list_ex (includes_str st) [''fail'', ''error'', ''reject'', ''cancel'', ''blocked'', ''denied''] then QueryIncomplete
      else if list_ex (includes_str st) [''success'', ''complete'', ''finished'', ''done''] \<or> qr_completed q = Some True
      then QueryCompleted else QueryPending)"

section \<open>Observing a task\<close>

definition reconciliationRetryCode :: "runtime_error \<Rightarrow> string" where
  "reconciliationRetryCode e = (case e of
     CliError c \<Rightarrow> if c = ''dreamina_account_session_changed'' \<or> error_code_ok c then c
                  else ''dreamina_query_materialization_retry''
   | LocalError c \<Rightarrow> if error_code_ok c \<and> c \<noteq> ''local_generation_result_invalid'' then c
                  else ''dreamina_query_materialization_retry''
   | OtherError \<Rightarrow> ''dreamina_query_materialization_retry'')"

text \<open>The account checks a query starts with: \<open>binding\<close> is the account of the record, \<open>ready\<close> the session
  the runtime has.\<close>

definition query_account_ok :: "string option \<Rightarrow> string option option \<Rightarrow> bool" where
  "query_account_ok binding ready = (case binding of
     Some a \<Rightarrow> (case ready of None \<Rightarrow> False | Some b \<Rightarrow> b = Some a)
   | None \<Rightarrow> ready = None)"

text \<open>What storing the artifacts of a record is bound to.\<close>

definition artifactBinding :: "runtime_record \<Rightarrow> task_mode \<Rightarrow> artifact_binding" where
  "artifactBinding r md = \<lparr>ab_ownerId = rr_ownerId r, ab_key = rr_idempotencyKey r,
     ab_account = truthy_str (rr_accountBinding r), ab_fence = truthy_int (rr_fenceEpoch r), ab_mode = md\<rparr>"

text \<open>The outcomes of the calls of an observation: the query for the status, the query that downloads
  (with the preparation of its directory), the files found then, and the fault of the store.\<close>

record observe_env =
  oe_sha :: "bytes \<Rightarrow> string"
  oe_now :: int
  oe_query :: "string \<Rightarrow> runtime_error + query_result"
  oe_download :: "string \<Rightarrow> runtime_error + query_result"
  oe_found :: "runtime_error + (string \<times> bytes) list"
  oe_set :: string
  oe_fault :: "artifact_fault option"

definition materializeCompletedResultOnce ::
  "observe_env \<Rightarrow> string \<Rightarrow> task_mode \<Rightarrow> runtime_error + generation_result" where
  "materializeCompletedResultOnce e sid md = bindE (oe_download e sid) (\<lambda>q.
     if queryState q \<noteq> QueryCompleted then Inl (CliError ''dreamina_query_materialization_retry'')
     else collectDreaminaGenerationResult (oe_found e) md)"

definition observed_at :: "int \<Rightarrow> provider_status \<Rightarrow> poll_observation" where
  "observed_at now status = \<lparr>ob_status = status, ob_observedAt = to_iso_string now,
     ob_providerOutputs = None, ob_retryCode = None\<rparr>"

definition observeReconciliation ::
  "observe_env \<Rightarrow> runtime_record \<Rightarrow> artifact_root \<Rightarrow> (runtime_error + poll_observation) \<times> artifact_root" where
  "observeReconciliation e r store =
     (let sid = the (rr_submitId r); md = (case rr_mode r of None \<Rightarrow> VideoMode | Some m \<Rightarrow> m) in
      if \<not> truthy (rr_submitId r) then (Inl submissionUnknown, store)
      else
        case bindE (oe_query e sid) queryOfficialStatus of Inl err \<Rightarrow> (Inl err, store)
        | Inr status \<Rightarrow>
            let ob = observed_at (oe_now e) status;
                failed = (\<lambda>err. Inr (ob\<lparr>ob_retryCode := Some (reconciliationRetryCode err)\<rparr>)) in
            if status \<noteq> Completed then (Inr ob, store)
            else (case materializeCompletedResultOnce e sid md of Inl err \<Rightarrow> (failed err, store)
              | Inr g \<Rightarrow>
                  (case persistResult (oe_sha e) (oe_set e) (oe_now e) (oe_fault e) g (artifactBinding r md) store of
                     (Inl err, store') \<Rightarrow> (failed err, store')
                   | (Inr outs, store') \<Rightarrow> (Inr (ob\<lparr>ob_providerOutputs := Some outs\<rparr>), store'))))"

end
