(* ===== verification/RuntimeSubmit.thy ===== *)
theory RuntimeSubmit
  imports RuntimeOps CliOutput
begin

text \<open>
  One submission as a whole (\<open>submitPrepared\<close>, \<open>startTaskNow\<close> and the direct \<open>submitWithLock\<close> and
  \<open>submit\<close> of \<open>canvas-agent/src/dreamina-cli-runtime.ts\<close>): the calls to the host, to the arbiter and
  to the command line program have given outcomes, and between the commits other processes change the
  journal.
\<close>

section \<open>Through the queue\<close>

text \<open>The outcomes of the calls. A failed process says whether it had been spawned. \<open>sv_others\<close> are what
  everyone else does to the journal before the fence, the receipt, the failure and the warning.\<close>

record submit_env =
  sv_aborted :: bool
  sv_ready :: "runtime_error + session_snapshot option"
  sv_discover :: "runtime_error + bool"
  sv_acquire :: "runtime_error + int"
  sv_process :: "(runtime_error \<times> bool) + process_result"
  sv_current :: "runtime_error option"
  sv_current_locked :: "runtime_error option"
  sv_release :: "runtime_error option"
  sv_cleanup :: bool
  sv_fence_env :: op_env
  sv_accept_env :: op_env
  sv_failure_env :: op_env
  sv_warning_env :: op_env
  sv_others_fence :: "runtime_disk option \<Rightarrow> runtime_disk option"
  sv_others_accept :: "runtime_disk option \<Rightarrow> runtime_disk option"
  sv_others_failure :: "runtime_disk option \<Rightarrow> runtime_disk option"
  sv_others_warning :: "runtime_disk option \<Rightarrow> runtime_disk option"

definition meanwhile :: "(runtime_disk option \<Rightarrow> runtime_disk option) \<Rightarrow> runtime_state \<Rightarrow> runtime_state" where
  "meanwhile f s = s\<lparr>rs_disk := f (rs_disk s)\<rparr>"

text \<open>The outcome of the inner part, with whether the process was spawned and the fence epoch.\<close>

record attempt =
  at_result :: "runtime_error + string"
  at_spawned :: bool
  at_fence :: "int option"

text \<open>What the \<open>finally\<close> with \<open>release\<close> makes of an outcome.\<close>

definition after_lease :: "submit_env \<Rightarrow> attempt \<Rightarrow> attempt" where
  "after_lease e a = (case sv_release e of None \<Rightarrow> a | Some x \<Rightarrow> a\<lparr>at_result := Inl x\<rparr>)"

definition run_submission ::
  "runtime_config \<Rightarrow> submit_env \<Rightarrow> string \<Rightarrow> string \<Rightarrow> reservation \<Rightarrow> int \<Rightarrow> session_snapshot option
   \<Rightarrow> runtime_state \<Rightarrow> attempt \<times> runtime_state" where
  "run_submission c e k hash v fe x s =
     (case commitInvocationFence c (sv_fence_env e) k hash v fe x (meanwhile (sv_others_fence e) s) of
        (Inl err, s1) \<Rightarrow> (\<lparr>at_result = Inl err, at_spawned = False, at_fence = Some fe\<rparr>, s1)
      | (Inr _, s1) \<Rightarrow>
          (case sv_process e of
             Inl (err, sp) \<Rightarrow> (\<lparr>at_result = Inl err, at_spawned = sp, at_fence = Some fe\<rparr>, s1)
           | Inr pr \<Rightarrow>
               (case submittedReceipt pr of
                  Inl code \<Rightarrow> (\<lparr>at_result = Inl (CliError code), at_spawned = True, at_fence = Some fe\<rparr>, s1)
                | Inr sid \<Rightarrow>
                    (case sv_current e of
                       Some err \<Rightarrow> (\<lparr>at_result = Inl err, at_spawned = True, at_fence = Some fe\<rparr>, s1)
                     | None \<Rightarrow>
                         (case commitAcceptedReceipt c (sv_accept_env e) k hash v fe sid (sv_current_locked e) x
                             (meanwhile (sv_others_accept e) s1) of
                            (Inl err, s2) \<Rightarrow> (\<lparr>at_result = Inl err, at_spawned = True, at_fence = Some fe\<rparr>, s2)
                          | (Inr _, s2) \<Rightarrow> (\<lparr>at_result = Inr sid, at_spawned = True, at_fence = Some fe\<rparr>, s2))))))"

definition submit_attempt ::
  "runtime_config \<Rightarrow> submit_env \<Rightarrow> string \<Rightarrow> string \<Rightarrow> reservation \<Rightarrow> runtime_state \<Rightarrow> attempt \<times> runtime_state" where
  "submit_attempt c e k hash v s =
     (let failed = (\<lambda>err. (\<lparr>at_result = Inl err, at_spawned = False, at_fence = None\<rparr>, s)) in
      if sv_aborted e then failed cancelledError
      else case sv_ready e of Inl err \<Rightarrow> failed err
      | Inr x \<Rightarrow> (case sv_discover e of Inl err \<Rightarrow> failed err
      | Inr installed \<Rightarrow>
          if \<not> installed then failed (CliError ''dreamina_missing'')
          else (case sv_acquire e of Inl err \<Rightarrow> failed err
          | Inr fe \<Rightarrow> (case run_submission c e k hash v fe x s of (a, s') \<Rightarrow> (after_lease e a, s')))))"

fun is_cli_error :: "runtime_error \<Rightarrow> bool" where
  "is_cli_error (CliError _) = True"
| "is_cli_error _ = False"

text \<open>Errors after which nothing is written: another holder decides about the record.\<close>

definition leaves_record :: "runtime_error \<Rightarrow> bool" where
  "leaves_record e \<longleftrightarrow> e = cliFenced \<or> e = accountChanged"

definition submitPrepared ::
  "runtime_config \<Rightarrow> submit_env \<Rightarrow> string \<Rightarrow> string \<Rightarrow> reservation \<Rightarrow> runtime_state \<Rightarrow> string outcome" where
  "submitPrepared c e k hash v s =
     (case submit_attempt c e k hash v s of (a, s1) \<Rightarrow>
        (case at_result a of
           Inr sid \<Rightarrow>
             (Inr sid,
              if sv_cleanup e then s1
              else case at_fence a of None \<Rightarrow> s1
                | Some fe \<Rightarrow> snd (persistCleanupWarning c (sv_warning_env e) k fe (meanwhile (sv_others_warning e) s1)))
         | Inl err \<Rightarrow>
             if leaves_record err then (Inl err, s1)
             else
               let code = submitFailureCode err (at_spawned a) in
               (case commitSubmissionFailure c (sv_failure_env e) k hash v (at_fence a) (at_spawned a) code
                   (meanwhile (sv_others_failure e) s1) of
                  (res, s2) \<Rightarrow>
                    (case res of
                       Inl ce \<Rightarrow> if isDurableJournalCommitError ce then Inl ce
                         else if \<not> at_spawned a \<and> is_cli_error err \<and> err \<noteq> submissionUnknown
                         then Inl (if err = CliError ''dreamina_spawn_failed'' then CliError ''dreamina_submit_spawn_failed'' else err)
                         else Inl (CliError code)
                     | Inr _ \<Rightarrow>
                         if \<not> at_spawned a \<and> is_cli_error err \<and> err \<noteq> submissionUnknown
                         then Inl (if err = CliError ''dreamina_spawn_failed'' then CliError ''dreamina_submit_spawn_failed'' else err)
                         else Inl (CliError code), s2))))"

text \<open>What became of a start: the task stays queued, or its submission was accepted.\<close>

datatype start_result = StillQueued | Submitted string

definition startTaskNow ::
  "runtime_config \<Rightarrow> bool \<Rightarrow> op_env \<Rightarrow> string \<Rightarrow> submit_env \<Rightarrow> op_env \<Rightarrow> string \<Rightarrow> string
   \<Rightarrow> runtime_state \<Rightarrow> start_result outcome" where
  "startTaskNow c disposed renv rid e fenv k hash s =
     (if disposed then (Inl cancelledError, s)
      else case reserveSubmissionSlot c renv k hash rid s of
        (Inl err, s1) \<Rightarrow> (Inl err, s1)
      | (Inr None, s1) \<Rightarrow> (Inr StillQueued, s1)
      | (Inr (Some v), s1) \<Rightarrow>
          (case submitPrepared c e k hash v s1 of
             (Inr sid, s2) \<Rightarrow> (Inr (Submitted sid), s2)
           | (Inl err, s2) \<Rightarrow>
               if leaves_record err then (Inl err, s2)
               else (case failTask c fenv k (errorCode err) s2 of
                   (Inl err', s3) \<Rightarrow> (Inl err', s3) | (Inr _, s3) \<Rightarrow> (Inl err, s3))))"

section \<open>Directly\<close>

text \<open>The outcomes of the calls of \<open>submit\<close>; the error of a call stands also for an abort or the loss of
  the lock noticed beside it. The four faults are those of its writes, in order.\<close>

record direct_env =
  dn_now :: int
  dn_prepare :: "runtime_error + session_snapshot option"
  dn_acquire :: "runtime_error + int"
  dn_process :: "(runtime_error \<times> bool) + process_result"
  dn_current :: "runtime_error option"
  dn_release :: "runtime_error option"
  dn_cleanup :: bool
  dn_intent_fault :: "write_fault option"
  dn_fence_fault :: "write_fault option"
  dn_receipt_fault :: "write_fault option"
  dn_last_fault :: "write_fault option"

definition intent_record :: "runtime_config \<Rightarrow> int \<Rightarrow> string \<Rightarrow> string \<Rightarrow> runtime_record" where
  "intent_record c now idem hash =
     \<lparr>rr_ownerId = rt_ownerId c, rr_idempotencyKey = idem, rr_clientOperationId = None, rr_context = None,
      rr_requestHash = hash, rr_state = JPending, rr_journalVersion = None, rr_fenceEpoch = None,
      rr_accountBinding = None, rr_sessionEpoch = None, rr_reservationId = None,
      rr_reservationOwnerId = None, rr_reservationExpiresAt = None, rr_submissionPhase = None,
      rr_queueOwnerId = None, rr_queueExpiresAt = None, rr_queueTicket = None,
      rr_updatedAt = to_iso_string now, rr_submitId = None, rr_taskVersion = None, rr_operation = None,
      rr_mode = None, rr_model = None, rr_createdAt = None, rr_errorCode = None, rr_officialStatus = None,
      rr_nextPollAt = None, rr_pollLease = None, rr_retryCount = None, rr_lastObservedAt = None,
      rr_providerOutputs = None, rr_hidden = False\<rparr>"

text \<open>Changing the record of the direct submission, which is the one under its key.\<close>

definition update_record :: "string \<Rightarrow> (runtime_record \<Rightarrow> runtime_record) \<Rightarrow> runtime_state \<Rightarrow> runtime_state" where
  "update_record k f s = s\<lparr>rs_records := map (\<lambda>r. if rr_key r = k then f r else r) (rs_records s)\<rparr>"

text \<open>The error handler of \<open>submit\<close>; \<open>receipt\<close> is the receipt if it was written.\<close>

definition direct_failed ::
  "runtime_config \<Rightarrow> direct_env \<Rightarrow> string \<Rightarrow> runtime_error \<Rightarrow> bool \<Rightarrow> string option \<Rightarrow> runtime_state \<Rightarrow> string outcome" where
  "direct_failed c e k err spawned receipt s =
     (if err = cliFenced then (Inl err, s)
      else case receipt of Some sid \<Rightarrow> (Inr sid, s)
      | None \<Rightarrow>
          if \<not> spawned \<and> err = stateFenced then (Inl err, delete_record k s)
          else if \<not> spawned \<and> is_cli_error err \<and> err \<noteq> submissionUnknown
          then (case persistUnlocked c (dn_last_fault e) (delete_record k s) of
              (Inl err', s') \<Rightarrow> (Inl err', s') | (Inr _, s') \<Rightarrow> (Inl err, s'))
          else
            let code = submitFailureCode err spawned;
                s' = update_record k (\<lambda>r. r\<lparr>rr_state := JUnknown, rr_errorCode := Some code,
                       rr_updatedAt := to_iso_string (dn_now e), rr_submitId := None\<rparr>) s in
            (Inl (CliError code), snd (persistUnlocked c (dn_last_fault e) s')))"

text \<open>A failing \<open>release\<close> overrides what the inner part ended with.\<close>

definition after_release :: "direct_env \<Rightarrow> runtime_error option \<Rightarrow> runtime_error option" where
  "after_release e x = (case dn_release e of None \<Rightarrow> x | Some r \<Rightarrow> Some r)"

definition direct_accepted :: "runtime_config \<Rightarrow> direct_env \<Rightarrow> string \<Rightarrow> string \<Rightarrow> runtime_state \<Rightarrow> string outcome" where
  "direct_accepted c e k sid s =
     (case after_release e None of Some err \<Rightarrow> direct_failed c e k err True (Some sid) s
      | None \<Rightarrow>
          if dn_cleanup e then (Inr sid, s)
          else (Inr sid, snd (persistUnlocked c (dn_last_fault e)
            (update_record k (\<lambda>r. r\<lparr>rr_errorCode := Some ''dreamina_reference_cleanup_failed'',
               rr_updatedAt := to_iso_string (dn_now e)\<rparr>) s))))"

definition direct_process ::
  "runtime_config \<Rightarrow> direct_env \<Rightarrow> string \<Rightarrow> runtime_state \<Rightarrow> string outcome" where
  "direct_process c e k s =
     (let failed = (\<lambda>err sp s. direct_failed c e k (the (after_release e (Some err))) sp None s) in
      case dn_process e of
        Inl (err, sp) \<Rightarrow> failed err sp s
      | Inr pr \<Rightarrow> (case submittedReceipt pr of
          Inl code \<Rightarrow> failed (CliError code) True s
        | Inr sid \<Rightarrow> (case dn_current e of
            Some err \<Rightarrow> failed err True s
          | None \<Rightarrow>
              (case persistUnlocked c (dn_receipt_fault e) (update_record k (\<lambda>r. r\<lparr>rr_state := JAccepted,
                  rr_submitId := Some sid, rr_updatedAt := to_iso_string (dn_now e)\<rparr>) s) of
                 (Inl err, s') \<Rightarrow> failed err True s'
               | (Inr _, s') \<Rightarrow> direct_accepted c e k sid s'))))"

definition submit_direct ::
  "runtime_config \<Rightarrow> direct_env \<Rightarrow> string \<Rightarrow> string \<Rightarrow> runtime_state \<Rightarrow> string outcome" where
  "submit_direct c e idem hash s =
     (let k = recordKey (rt_ownerId c) idem in
      case dn_prepare e of Inl err \<Rightarrow> (Inl err, s)
      | Inr x \<Rightarrow>
          (case persistUnlocked c (dn_intent_fault e) (set_record (intent_record c (dn_now e) idem hash) s) of
             (Inl err, s1) \<Rightarrow> (Inl err, s1)
           | (Inr _, s1) \<Rightarrow>
               (case dn_acquire e of Inl err \<Rightarrow> direct_failed c e k err False None s1
                | Inr fe \<Rightarrow>
                    (case persistUnlocked c (dn_fence_fault e)
                        (update_record k (\<lambda>r. bind_account x (r\<lparr>rr_fenceEpoch := Some fe\<rparr>)) s1) of
                       (Inl err, s2) \<Rightarrow> direct_failed c e k err False None s2
                     | (Inr _, s2) \<Rightarrow> direct_process c e k s2))))"

definition submitWithLock ::
  "runtime_config \<Rightarrow> op_env \<Rightarrow> direct_env \<Rightarrow> string \<Rightarrow> string \<Rightarrow> runtime_state \<Rightarrow> string outcome" where
  "submitWithLock c env e idem hash = reloaded c env (\<lambda>s.
     case cached s (recordKey (rt_ownerId c) idem) of
       Some r \<Rightarrow>
         (if rr_requestHash r \<noteq> hash then Inl idempotencyConflict
          else if rr_state r = JAccepted \<and> truthy (rr_submitId r) then Inr (the (rr_submitId r))
          else Inl submissionUnknown, s)
     | None \<Rightarrow>
         if \<not> hasGenerationCapacity c s then (Inl generationCapacityFull, s)
         else submit_direct c e idem hash s)"

end
