(* ===== verification/RuntimeQueueProofs.thy ===== *)
theory RuntimeQueueProofs
  imports RuntimeSubmit ReconcilerProgress
begin

text \<open>
  The runtime's operations as changes of the journal: a locked section reloads the journal, which ends
  what has run out, and then changes the records in one of the ways of \<open>rt_change\<close> or not at all,
  whatever the copy in memory was before.
\<close>

section \<open>Contents\<close>

text \<open>Records without their versions; the order in the file carries no meaning.\<close>

abbreviation content :: "runtime_record list \<Rightarrow> runtime_record multiset" where
  "content rs \<equiv> image_mset unversioned (mset rs)"

abbreviation disk_content :: "runtime_disk option \<Rightarrow> runtime_record multiset" where
  "disk_content d \<equiv> content (disk_records d)"

lemma content_eqD:
  assumes "content rs = content qs" "r \<in> set rs"
  obtains q where "q \<in> set qs" "unversioned q = unversioned r"
proof -
  have "unversioned r \<in># content rs" using assms(2) by simp
  then have "unversioned r \<in># content qs" by (simp only: assms(1))
  then show thesis using that by auto
qed

lemma content_map:
  assumes "\<And>r. unversioned (f r) = f (unversioned r)" "content rs = content qs"
  shows "content (map f rs) = content (map f qs)"
proof -
  have *: "content (map f xs) = image_mset f (content xs)" for xs
    by (induction xs) (simp_all add: assms(1))
  show ?thesis unfolding * by (simp only: assms(2))
qed

lemma keys_of_content: "content rs = content qs \<Longrightarrow> mset (map rr_key rs) = mset (map rr_key qs)"
proof -
  have *: "mset (map rr_key xs) = image_mset rr_key (content xs)" for xs
    by (induction xs) simp_all
  show "content rs = content qs \<Longrightarrow> mset (map rr_key rs) = mset (map rr_key qs)" unfolding * by simp
qed

lemma distinct_of_content: "content rs = content qs \<Longrightarrow> distinct (map rr_key rs) = distinct (map rr_key qs)"
  using keys_of_content mset_eq_imp_distinct_iff by blast

lemma same_fields:
  assumes "unversioned r = unversioned q"
  shows "rr_requestHash r = rr_requestHash q" "rr_reservationId r = rr_reservationId q"
    "rr_reservationOwnerId r = rr_reservationOwnerId q" "rr_submissionPhase r = rr_submissionPhase q"
    "rr_reservationExpiresAt r = rr_reservationExpiresAt q" "rr_queueTicket r = rr_queueTicket q"
    "rr_queueOwnerId r = rr_queueOwnerId q" "rr_queueExpiresAt r = rr_queueExpiresAt q"
    "rr_createdAt r = rr_createdAt q" "rr_updatedAt r = rr_updatedAt q"
  using arg_cong[OF assms, of rr_requestHash] arg_cong[OF assms, of rr_reservationId]
    arg_cong[OF assms, of rr_reservationOwnerId] arg_cong[OF assms, of rr_submissionPhase]
    arg_cong[OF assms, of rr_reservationExpiresAt] arg_cong[OF assms, of rr_queueTicket]
    arg_cong[OF assms, of rr_queueOwnerId] arg_cong[OF assms, of rr_queueExpiresAt]
    arg_cong[OF assms, of rr_createdAt] arg_cong[OF assms, of rr_updatedAt] by simp_all

section \<open>Writes\<close>

lemma write_effect:
  assumes "write_journal owner d payload = Inr e"
  obtains y where "opt_ok (validRuntimeDiskState owner) d" "e = Some y" "validRuntimeDiskState owner y"
    "map unversioned (rd_records y) = map unversioned (rd_records payload)"
    "rd_nextQueueTicket y = rd_nextQueueTicket payload"
proof -
  obtain y where y: "persistRuntimeDiskState owner \<lparr>j_primary = d, j_backup = None\<rparr> payload = Inr y" "e = Some y"
    using assms unfolding write_journal_def
    by (cases "persistRuntimeDiskState owner \<lparr>j_primary = d, j_backup = None\<rparr> payload") auto
  obtain fs' where "recoverStateReplacement owner \<lparr>j_primary = d, j_backup = None\<rparr> = Inr fs'"
    "opt_ok (validRuntimeDiskState owner) (j_primary fs')"
    "assignJournalVersions (j_primary fs') payload = Inr y" "validRuntimeDiskState owner y"
    using persistD[OF y(1)] by blast
  then have p: "opt_ok (validRuntimeDiskState owner) d" "assignJournalVersions d payload = Inr y"
    "validRuntimeDiskState owner y" by auto
  from that[OF p(1) y(2) p(3) assignD(1,2)[OF p(2) valid_distinct[OF p(1)]]] show thesis .
qed

lemma adopt_version_simps [simp]: "unversioned (adopt_version d r) = unversioned r"
  "rr_ownerId (adopt_version d r) = rr_ownerId r" "rr_idempotencyKey (adopt_version d r) = rr_idempotencyKey r"
  by (simp_all add: adopt_version_def split: option.splits)

text \<open>A write leaves the copy as it is, up to versions, and either leaves the journal alone or makes it
  the copy.\<close>

lemma persist_effect:
  assumes "persistUnlocked c fault s = (res, s')"
  shows "content (rs_records s') = content (rs_records s)" "rs_nextQueueTicket s' = rs_nextQueueTicket s"
    "map rr_key (rs_records s') = map rr_key (rs_records s)"
    "rs_disk s' = rs_disk s \<and> res \<noteq> Inr ()
      \<or> opt_ok (validRuntimeDiskState (rt_ownerId c)) (rs_disk s)
        \<and> opt_ok (validRuntimeDiskState (rt_ownerId c)) (rs_disk s')
        \<and> disk_content (rs_disk s') = content (rs_records s) \<and> disk_ticket (rs_disk s') = rs_nextQueueTicket s"
proof -
  let ?p = "\<lparr>rd_records = sort_by (\<lambda>l r. rt_localeLe c (rr_idempotencyKey l) (rr_idempotencyKey r))
      (rs_records s), rd_nextQueueTicket = Some (rs_nextQueueTicket s)\<rparr>"
  let ?g = "content (rs_records s') = content (rs_records s) \<and> rs_nextQueueTicket s' = rs_nextQueueTicket s
    \<and> map rr_key (rs_records s') = map rr_key (rs_records s)
    \<and> (rs_disk s' = rs_disk s \<and> res \<noteq> Inr ()
      \<or> opt_ok (validRuntimeDiskState (rt_ownerId c)) (rs_disk s)
        \<and> opt_ok (validRuntimeDiskState (rt_ownerId c)) (rs_disk s')
        \<and> disk_content (rs_disk s') = content (rs_records s) \<and> disk_ticket (rs_disk s') = rs_nextQueueTicket s)"
  have ?g
  proof (cases "fault = Some LockLostBefore")
    case True
    with assms show ?thesis by (auto simp: persistUnlocked_def)
  next
    case False
    show ?thesis
    proof (cases "write_journal (rt_ownerId c) (rs_disk s) ?p")
      case (Inl x)
      with assms False show ?thesis by (auto simp: persistUnlocked_def)
    next
      case (Inr e)
      from write_effect[OF Inr] obtain y where y: "opt_ok (validRuntimeDiskState (rt_ownerId c)) (rs_disk s)"
        "e = Some y" "validRuntimeDiskState (rt_ownerId c) y"
        "map unversioned (rd_records y) = map unversioned (rd_records ?p)"
        "rd_nextQueueTicket y = rd_nextQueueTicket ?p" by blast
      have "content (rd_records y) = mset (map unversioned (rd_records y))" by simp
      also have "\<dots> = mset (map unversioned (rd_records ?p))" by (simp only: y(4))
      finally have cy: "content (rd_records y) = content (rs_records s)" by simp
      have adopt: "content (map (adopt_version y) xs) = content xs"
        "map rr_key (map (adopt_version y) xs) = map rr_key xs" for xs
        by (induction xs) simp_all
      from assms False Inr y(1-3,5) cy show ?thesis
        unfolding persistUnlocked_def Let_def
        by (cases fault rule: option.exhaust; cases "the fault") (auto simp: adopt[simplified] int_or_def)
    qed
  qed
  then show "content (rs_records s') = content (rs_records s)" "rs_nextQueueTicket s' = rs_nextQueueTicket s"
    "map rr_key (rs_records s') = map rr_key (rs_records s)"
    "rs_disk s' = rs_disk s \<and> res \<noteq> Inr ()
      \<or> opt_ok (validRuntimeDiskState (rt_ownerId c)) (rs_disk s)
        \<and> opt_ok (validRuntimeDiskState (rt_ownerId c)) (rs_disk s')
        \<and> disk_content (rs_disk s') = content (rs_records s) \<and> disk_ticket (rs_disk s') = rs_nextQueueTicket s"
    by blast+
qed

section \<open>Reloading\<close>

lemma dead_unversioned [simp]: "dead_pending now (r\<lparr>rr_journalVersion := v\<rparr>) = dead_pending now r"
  "dead_queued now (r\<lparr>rr_journalVersion := v\<rparr>) = dead_queued now r"
  by (simp_all add: dead_pending_def dead_queued_def liveReservation_def liveQueueLease_def)

lemma recover_unversioned: "unversioned (recover_record now r) = recover_record now (unversioned r)"
  by (cases "dead_pending now r"; cases "dead_queued now r")
    (simp_all add: recover_record_def clearReservation_def clearQueueLease_def Let_def)

lemma recover_fields [simp]:
  "rr_ownerId (recover_record now r) = rr_ownerId r" "rr_idempotencyKey (recover_record now r) = rr_idempotencyKey r"
  "rr_requestHash (recover_record now r) = rr_requestHash r" "rr_taskVersion (recover_record now r) = rr_taskVersion r"
  by (simp_all add: recover_record_def clearReservation_def clearQueueLease_def Let_def)

lemma recover_alive: "\<not> dead_pending now r \<Longrightarrow> \<not> dead_queued now r \<Longrightarrow> recover_record now r = r"
  by (simp add: recover_record_def)

abbreviation recovered :: "int \<Rightarrow> runtime_disk option \<Rightarrow> runtime_record multiset" where
  "recovered now d \<equiv> content (map (recover_record now) (disk_records d))"

text \<open>What a reload may do to the journal, and what a successful one leaves behind.\<close>

definition load_step :: "runtime_config \<Rightarrow> int \<Rightarrow> runtime_disk option \<Rightarrow> runtime_disk option \<Rightarrow> bool" where
  "load_step c now d e \<longleftrightarrow> e = d \<or> opt_ok (validRuntimeDiskState (rt_ownerId c)) d
     \<and> opt_ok (validRuntimeDiskState (rt_ownerId c)) e \<and> disk_content e = recovered now d"

definition fresh :: "runtime_config \<Rightarrow> int \<Rightarrow> runtime_disk option \<Rightarrow> runtime_state \<Rightarrow> bool" where
  "fresh c now d s \<longleftrightarrow> opt_ok (validRuntimeDiskState (rt_ownerId c)) d
     \<and> opt_ok (validRuntimeDiskState (rt_ownerId c)) (rs_disk s)
     \<and> content (rs_records s) = recovered now d \<and> disk_content (rs_disk s) = recovered now d
     \<and> distinct (map rr_key (rs_records s))"

lemma reload_effect:
  assumes "reloadFromDisk c env s = (res, s')"
  shows "load_step c (env_now env) (rs_disk s) (rs_disk s')"
    "res = Inr () \<Longrightarrow> fresh c (env_now env) (rs_disk s) s'"
proof -
  let ?t = "env_now env"
  have "load_step c ?t (rs_disk s) (rs_disk s') \<and> (res = Inr () \<longrightarrow> fresh c ?t (rs_disk s) s')"
  proof (cases "readRuntimeDiskState (rt_ownerId c) (rs_disk s)")
    case (Inl e)
    with assms show ?thesis by (auto simp: reloadFromDisk_def load_step_def)
  next
    case (Inr x)
    from read_validD[OF Inr] have v: "opt_ok (validRuntimeDiskState (rt_ownerId c)) (rs_disk s)"
      and x: "rs_disk s = x" by auto
    show ?thesis
    proof (cases x)
      case None
      with assms Inr x show ?thesis
        by (auto simp: reloadFromDisk_def load_step_def fresh_def split: if_splits)
    next
      case (Some d)
      let ?new = "map (recover_record ?t) (rd_records d)"
      let ?s = "s\<lparr>rs_records := ?new, rs_nextQueueTicket := next_ticket d\<rparr>"
      have dist: "distinct (map rr_key ?new)"
        using valid_distinct[OF v] x Some by (simp add: comp_def)
      show ?thesis
      proof (cases "reload_accepts ?new (rs_records s)")
        case False
        with assms Inr Some x show ?thesis by (auto simp: reloadFromDisk_def load_step_def Let_def)
      next
        case ok: True
        show ?thesis
        proof (cases "list_ex (\<lambda>r. dead_pending ?t r \<or> dead_queued ?t r) (rd_records d)")
          case True
          with assms Inr Some ok have p: "persistUnlocked c (env_reload env) ?s = (res, s')"
            by (simp add: reloadFromDisk_def Let_def)
          note e = persist_effect[OF p]
          have "distinct (map rr_key (rs_records s'))" unfolding e(3) using dist by simp
          with e(1,4) v x Some show ?thesis by (auto simp: load_step_def fresh_def)
        next
          case False
          then have "?new = rd_records d"
            by (intro map_idI) (auto simp: list_ex_iff intro: recover_alive)
          with assms Inr Some ok False v x dist show ?thesis
            by (auto simp: reloadFromDisk_def Let_def load_step_def fresh_def)
        qed
      qed
    qed
  qed
  then show "load_step c (env_now env) (rs_disk s) (rs_disk s')"
    "res = Inr () \<Longrightarrow> fresh c (env_now env) (rs_disk s) s'" by blast+
qed

text \<open>A locked section: either only the reload acted, or the body ran on a fresh copy.\<close>

lemma reloaded_cases:
  assumes "reloaded c env body s = (res, s')"
  obtains (stopped) e where "res = Inl e" "load_step c (env_now env) (rs_disk s) (rs_disk s')"
  | (ran) s1 where "fresh c (env_now env) (rs_disk s) s1" "body s1 = (res, s')"
proof (cases "reloadFromDisk c env s")
  case (Pair r s1)
  show thesis
  proof (cases r)
    case (Inl e)
    with Pair assms reload_effect(1)[OF Pair] show thesis by (intro stopped[of e]) (auto simp: reloaded_def)
  next
    case (Inr u)
    with Pair assms reload_effect(2)[OF Pair] show thesis by (intro ran[of s1]) (auto simp: reloaded_def)
  qed
qed

lemma fresh_load: "fresh c now d s \<Longrightarrow> load_step c now d (rs_disk s)"
  by (simp add: fresh_def load_step_def)

lemma saved_effect:
  assumes "saved c env x s = (res, s')"
  shows "rs_disk s' = rs_disk s \<and> (\<exists>e. res = Inl e)
      \<or> opt_ok (validRuntimeDiskState (rt_ownerId c)) (rs_disk s')
        \<and> disk_content (rs_disk s') = content (rs_records s) \<and> disk_ticket (rs_disk s') = rs_nextQueueTicket s"
    "res = Inr y \<Longrightarrow> y = x"
proof -
  obtain r t where p: "persistUnlocked c (env_write env) s = (r, t)" by fastforce
  note e = persist_effect(4)[OF p]
  show "rs_disk s' = rs_disk s \<and> (\<exists>e. res = Inl e)
      \<or> opt_ok (validRuntimeDiskState (rt_ownerId c)) (rs_disk s')
        \<and> disk_content (rs_disk s') = content (rs_records s) \<and> disk_ticket (rs_disk s') = rs_nextQueueTicket s"
    using assms p e by (cases r) (auto simp: saved_def)
  show "res = Inr y \<Longrightarrow> y = x" using assms p by (cases r) (auto simp: saved_def)
qed

lemma cached_iff:
  assumes "fresh c now d s"
  shows "cached s k = Some r \<longleftrightarrow> r \<in> set (rs_records s) \<and> rr_key r = k"
  using assms by (intro map_get_iff) (simp add: fresh_def)

lemma cached_None: "cached s k = None \<longleftrightarrow> k \<notin> rr_key ` set (rs_records s)"
  by (auto simp: map_get_None)

end
