(* ===== verification/RuntimeQueueSteps.thy ===== *)
theory RuntimeQueueSteps
  imports RuntimeQueueProofs
begin

text \<open>
  The runtime as a machine on the journal: its operations, what each may do to the records, and runs in
  which any number of runtimes, each with its own copy, and the reconcilers take turns.
\<close>

section \<open>The operations\<close>

text \<open>Every constructor is a call; the reloads before the main one have environments of their own.\<close>

datatype rt_op =
    Reload
  | Enter op_env "runtime_error option" enqueue_request
  | Reserve string string string
  | RenewQueue string string
  | Renew string string reservation
  | Permit string string reservation int "session_snapshot option"
  | Receive string string reservation int string "runtime_error option" "session_snapshot option"
  | GiveUp string string reservation "int option" bool string
  | Warn string int
  | FailIt string string
  | CancelIt op_env string
  | Remove op_env string
  | Dispose
  | Direct direct_env string string

fun run_rt :: "runtime_config \<Rightarrow> op_env \<Rightarrow> rt_op \<Rightarrow> runtime_state \<Rightarrow> runtime_state" where
  "run_rt c env Reload s = snd (reloadFromDisk c env s)"
| "run_rt c env (Enter env0 staged q) s = snd (enqueueNew c env0 staged env q s)"
| "run_rt c env (Reserve k h rid) s = snd (reserveSubmissionSlot c env k h rid s)"
| "run_rt c env (RenewQueue k h) s = snd (renewQueueLease c env k h s)"
| "run_rt c env (Renew k h v) s = snd (renewReservation c env k h v s)"
| "run_rt c env (Permit k h v fe x) s = snd (commitInvocationFence c env k h v fe x s)"
| "run_rt c env (Receive k h v fe sid cur x) s = snd (commitAcceptedReceipt c env k h v fe sid cur x s)"
| "run_rt c env (GiveUp k h v fe sp code) s = snd (commitSubmissionFailure c env k h v fe sp code s)"
| "run_rt c env (Warn k fe) s = snd (persistCleanupWarning c env k fe s)"
| "run_rt c env (FailIt k code) s = snd (failTask c env k code s)"
| "run_rt c env (CancelIt env0 k) s = snd (cancelTask c env0 env k s)"
| "run_rt c env (Remove env0 k) s = snd (deleteTask c env0 env k s)"
| "run_rt c env Dispose s = snd (failOwnedQueuedTasksOnDispose c env s)"
| "run_rt c env (Direct e k h) s = snd (submitWithLock c env e k h s)"

section \<open>Changes of the records\<close>

abbreviation replaced :: "runtime_record \<Rightarrow> runtime_record list \<Rightarrow> runtime_record list" where
  "replaced r rs \<equiv> map (\<lambda>x. if rr_key x = rr_key r then r else x) rs"

text \<open>What an operation may make of one record.\<close>

inductive rec_change :: "runtime_config \<Rightarrow> int \<Rightarrow> rt_op \<Rightarrow> runtime_record \<Rightarrow> runtime_record \<Rightarrow> bool"
  for c t where
  queue_renewed: "rr_state r = JQueued \<Longrightarrow>
    rec_change c t (RenewQueue (rr_key r) h) r (r\<lparr>rr_queueExpiresAt := Some (lease_expiry c t)\<rparr>)"
| slot_renewed: "matchesReservation r h v \<Longrightarrow>
    rec_change c t (Renew (rr_key r) h v) r (r\<lparr>rr_reservationExpiresAt := Some (lease_expiry c t)\<rparr>)"
| permitted: "matchesReservation r h v \<Longrightarrow> liveReservation t r \<Longrightarrow>
    rec_change c t (Permit (rr_key r) h v fe x) r (fenced_record c t fe x r)"
| accepted: "matchesReservation r h v \<Longrightarrow> rr_submissionPhase r = Some SpawnPermitted \<Longrightarrow>
    rec_change c t (Receive (rr_key r) h v fe sid cur x) r (accepted_record t sid r)"
| uncertain: "matchesReservation r h v \<Longrightarrow>
    rec_change c t (GiveUp (rr_key r) h v fe True code) r (unknown_record t code r)"
| warned: "rr_state r = JAccepted \<Longrightarrow>
    rec_change c t (Warn (rr_key r) fe) r (r\<lparr>rr_errorCode := Some ''dreamina_reference_cleanup_failed'',
      rr_updatedAt := to_iso_string t\<rparr>)"
| ended: "\<not> isPublicTerminal (rr_state r) \<Longrightarrow> rec_change c t (FailIt (rr_key r) code) r (failed_record t code r)"
| stopped: "\<not> isPublicTerminal (rr_state r) \<Longrightarrow> rr_state r \<noteq> JPending \<Longrightarrow>
    rec_change c t (CancelIt env0 (rr_idempotencyKey r)) r (cancelled_record t r)"
| removed: "rec_change c t (Remove env0 (rr_idempotencyKey r)) r (removed_record t r)"

lemmas change_defs = fenced_record_def bind_account_def accepted_record_def unknown_record_def
  failed_record_def cancelled_record_def removed_record_def interrupted_record_def reserved_record_def
  clearQueueLease_def clearReservation_def

lemma bind_account_simps [simp]: "rr_ownerId (bind_account x r) = rr_ownerId r"
  "rr_idempotencyKey (bind_account x r) = rr_idempotencyKey r" "rr_state (bind_account x r) = rr_state r"
  "rr_reservationId (bind_account x r) = rr_reservationId r"
  "rr_reservationOwnerId (bind_account x r) = rr_reservationOwnerId r"
  "rr_requestHash (bind_account x r) = rr_requestHash r"
  "rr_reservationExpiresAt (bind_account x r) = rr_reservationExpiresAt r"
  by (simp_all add: bind_account_def split: option.splits prod.splits)

lemma rec_change_key: "rec_change c t x r r' \<Longrightarrow> rr_key r' = rr_key r"
  by (cases rule: rec_change.cases)
    (auto simp: fenced_record_def accepted_record_def unknown_record_def failed_record_def cancelled_record_def
      removed_record_def clearQueueLease_def clearReservation_def)

definition direct_state :: "runtime_record \<Rightarrow> bool" where
  "direct_state r \<longleftrightarrow> rr_state r \<in> {JPending, JAccepted, JUnknown} \<and> rr_reservationId r = None"

lemma direct_state_version [simp]: "direct_state (unversioned r) = direct_state r"
  by (simp add: direct_state_def)

text \<open>What a locked section may make of all of them. A direct submission leaves at most one record
  behind, which no other has the key of.\<close>

inductive rt_change :: "runtime_config \<Rightarrow> int \<Rightarrow> rt_op \<Rightarrow> runtime_record list \<Rightarrow> runtime_record list \<Rightarrow> bool"
  for c t where
  one: "r \<in> set rs \<Longrightarrow> rec_change c t x r r' \<Longrightarrow> rt_change c t x rs (replaced r' rs)"
| reserved: "r \<in> set (rs_records s) \<Longrightarrow> rr_requestHash r = h \<Longrightarrow> rr_state r = JQueued \<Longrightarrow>
    hasQueuedGenerationPriority c t s r \<Longrightarrow>
    rt_change c t (Reserve (rr_key r) h rid) (rs_records s)
      (replaced (reserved_record c t \<lparr>rv_id = rid, rv_owner = rt_reservationOwnerId c\<rparr> r) (rs_records s))"
| entered: "rq_key c q \<notin> rr_key ` set rs \<Longrightarrow>
    rt_change c t (Enter env0 st q) rs (rs @ [queued_record c t n q])"
| withdrawn: "r \<in> set rs \<Longrightarrow> matchesReservation r h v \<Longrightarrow>
    rt_change c t (GiveUp (rr_key r) h v fe False code) rs (filter (\<lambda>x. rr_key x \<noteq> rr_key r) rs)"
| disposed: "rt_change c t Dispose rs (map (\<lambda>r. if owns_queued c r then interrupted_record t r else r) rs)"
| direct: "slots_taken rs < maxActiveTasks c \<Longrightarrow> rr_key r = recordKey (rt_ownerId c) k \<Longrightarrow>
    rr_key r \<notin> rr_key ` set rs \<Longrightarrow> direct_state r \<Longrightarrow>
    rt_change c t (Direct e k h) rs (rs @ [r])"

definition section_step ::
  "runtime_config \<Rightarrow> int \<Rightarrow> rt_op \<Rightarrow> runtime_disk option \<Rightarrow> runtime_disk option \<Rightarrow> bool" where
  "section_step c t x d e \<longleftrightarrow> load_step c t d e
     \<or> opt_ok (validRuntimeDiskState (rt_ownerId c)) d \<and> opt_ok (validRuntimeDiskState (rt_ownerId c)) e
       \<and> (\<exists>rs rs'. content rs = recovered t d \<and> distinct (map rr_key rs) \<and> rt_change c t x rs rs'
            \<and> disk_content e = content rs')"

lemma section_load: "load_step c t d e \<Longrightarrow> section_step c t x d e"
  by (simp add: section_step_def)

lemma section_same: "fresh c t d s \<Longrightarrow> section_step c t x d (rs_disk s)"
  by (intro section_load fresh_load)

lemma section_saved:
  assumes f: "fresh c t d s1" and "rt_change c t x (rs_records s1) (rs_records s2)" "rs_disk s2 = rs_disk s1"
    and "saved c env y s2 = (res, s')"
  shows "section_step c t x d (rs_disk s')"
  using saved_effect(1)[OF assms(4)]
proof
  assume "rs_disk s' = rs_disk s2 \<and> (\<exists>e. res = Inl e)"
  with section_same[OF f] assms(3) show ?thesis by simp
next
  assume "opt_ok (validRuntimeDiskState (rt_ownerId c)) (rs_disk s')
        \<and> disk_content (rs_disk s') = content (rs_records s2) \<and> disk_ticket (rs_disk s') = rs_nextQueueTicket s2"
  with f assms(2) show ?thesis unfolding section_step_def fresh_def by blast
qed

lemma set_record_replaced:
  "rr_key r' \<in> rr_key ` set (rs_records s) \<Longrightarrow> rs_records (set_record r' s) = replaced r' (rs_records s)"
  "rs_disk (set_record r' s) = rs_disk s"
  by (simp_all add: set_record_def)

lemma section_one:
  assumes f: "fresh c t d s1" and k: "cached s1 k = Some r" and ch: "rec_change c t x r r'"
    and w: "saved c env y (set_record r' s1) = (res, s')"
  shows "section_step c t x d (rs_disk s')"
proof -
  have r: "r \<in> set (rs_records s1)" using cached_iff[OF f] k by simp
  have "rr_key r' \<in> rr_key ` set (rs_records s1)" unfolding rec_change_key[OF ch] using r by (rule imageI)
  note rep = set_record_replaced(1)[OF this]
  have "rt_change c t x (rs_records s1) (rs_records (set_record r' s1))" unfolding rep using r ch by (rule one)
  then show ?thesis using w by (rule section_saved[OF f _ set_record_replaced(2)])
qed

text \<open>The operations that change one record are instances of one shape.\<close>

lemma reloaded_section:
  assumes "reloaded c env body s = (res, s')"
    and "\<And>s1. fresh c (env_now env) (rs_disk s) s1 \<Longrightarrow> body s1 = (res, s') \<Longrightarrow>
      section_step c (env_now env) x (rs_disk s) (rs_disk s')"
  shows "section_step c (env_now env) x (rs_disk s) (rs_disk s')"
  using assms(1) by (cases rule: reloaded_cases) (use assms(2) section_load in auto)

lemma reserve_step:
  assumes "reserveSubmissionSlot c env k h rid s = (res, s')"
  shows "section_step c (env_now env) (Reserve k h rid) (rs_disk s) (rs_disk s')"
  using assms unfolding reserveSubmissionSlot_def
proof (rule reloaded_section)
  fix s1 assume f: "fresh c (env_now env) (rs_disk s) s1"
    and b: "(case cached s1 k of None \<Rightarrow> (Inl stateInvalid, s1)
     | Some r \<Rightarrow>
         if rr_requestHash r \<noteq> h then (Inl stateInvalid, s1)
         else if rr_state r \<noteq> JQueued then (Inl submissionUnknown, s1)
         else if \<not> hasQueuedGenerationPriority c (env_now env) s1 r then (Inr None, s1)
         else
           let v = \<lparr>rv_id = rid, rv_owner = rt_reservationOwnerId c\<rparr> in
           saved c env (Some v) (set_record (reserved_record c (env_now env) v r) s1)) = (res, s')"
  show "section_step c (env_now env) (Reserve k h rid) (rs_disk s) (rs_disk s')"
  proof (cases "cached s1 k")
    case None
    with b section_same[OF f] show ?thesis by auto
  next
    case (Some r)
    let ?r = "reserved_record c (env_now env) \<lparr>rv_id = rid, rv_owner = rt_reservationOwnerId c\<rparr> r"
    show ?thesis
    proof (cases "rr_requestHash r = h \<and> rr_state r = JQueued \<and> hasQueuedGenerationPriority c (env_now env) s1 r")
      case False
      with Some b section_same[OF f] show ?thesis by (auto split: if_splits)
    next
      case True
      have r: "r \<in> set (rs_records s1)" "rr_key r = k" using cached_iff[OF f] Some by simp_all
      have key: "rr_key ?r = rr_key r" by (simp add: reserved_record_def clearQueueLease_def)
      have "rr_key ?r \<in> rr_key ` set (rs_records s1)" unfolding key using r(1) by (rule imageI)
      note rep = set_record_replaced(1)[OF this]
      have "rt_change c (env_now env) (Reserve (rr_key r) h rid) (rs_records s1) (replaced ?r (rs_records s1))"
        using r(1) True by (intro reserved) blast+
      then have "rt_change c (env_now env) (Reserve k h rid) (rs_records s1) (rs_records (set_record ?r s1))"
        unfolding rep r(2) .
      moreover have "saved c env (Some \<lparr>rv_id = rid, rv_owner = rt_reservationOwnerId c\<rparr>) (set_record ?r s1) = (res, s')"
        using b Some True by (simp add: Let_def)
      ultimately show ?thesis by (rule section_saved[OF f _ set_record_replaced(2)])
    qed
  qed
qed

lemma fresh_owner:
  assumes "fresh c t d s" "r \<in> set (rs_records s)"
  shows "rr_ownerId r = rt_ownerId c"
proof -
  have "content (rs_records s) = disk_content (rs_disk s)" using assms(1) by (simp add: fresh_def)
  from content_eqD[OF this assms(2)] obtain q where q: "q \<in> set (disk_records (rs_disk s))"
    "unversioned q = unversioned r" by blast
  have "opt_ok (validRuntimeDiskState (rt_ownerId c)) (rs_disk s)" using assms(1) by (simp add: fresh_def)
  with q(1) have "rr_ownerId q = rt_ownerId c" using valid_record_in by blast
  moreover have "rr_ownerId q = rr_ownerId r" using unversioned_fields(1)[OF q(2)] .
  ultimately show ?thesis by simp
qed

text \<open>The body for a record that is there; it either leaves the journal alone or saves one change.\<close>

lemma one_record_step:
  assumes "reloaded c env (\<lambda>s. case cached s k of None \<Rightarrow> (Inl e, s) | Some r \<Rightarrow> B s r) s = (res, s')"
    and B: "\<And>s1 r. rr_key r = k \<Longrightarrow> rr_ownerId r = rt_ownerId c \<Longrightarrow> B s1 r = (res, s') \<Longrightarrow> rs_disk s' = rs_disk s1
      \<or> (\<exists>r' y. rec_change c (env_now env) x r r' \<and> saved c env y (set_record r' s1) = (res, s'))"
  shows "section_step c (env_now env) x (rs_disk s) (rs_disk s')"
  using assms(1)
proof (rule reloaded_section)
  fix s1 assume f: "fresh c (env_now env) (rs_disk s) s1"
    and b: "(case cached s1 k of None \<Rightarrow> (Inl e, s1) | Some r \<Rightarrow> B s1 r) = (res, s')"
  show "section_step c (env_now env) x (rs_disk s) (rs_disk s')"
  proof (cases "cached s1 k")
    case None
    with b section_same[OF f] show ?thesis by auto
  next
    case (Some r)
    have "r \<in> set (rs_records s1)" "rr_key r = k" using Some unfolding cached_iff[OF f] by blast+
    moreover from this(1) have "rr_ownerId r = rt_ownerId c" by (rule fresh_owner[OF f])
    moreover have "B s1 r = (res, s')" using b Some by simp
    ultimately have "rs_disk s' = rs_disk s1
      \<or> (\<exists>r' y. rec_change c (env_now env) x r r' \<and> saved c env y (set_record r' s1) = (res, s'))" using B by blast
    with section_same[OF f] section_one[OF f Some] show ?thesis by metis
  qed
qed

lemma renew_queue_step:
  assumes "renewQueueLease c env k h s = (res, s')"
  shows "section_step c (env_now env) (RenewQueue k h) (rs_disk s) (rs_disk s')"
  by (rule one_record_step[OF assms[unfolded renewQueueLease_def]])
    (metis queue_renewed fst_conv snd_conv prod.inject)

lemma renew_slot_step:
  assumes "renewReservation c env k h v s = (res, s')"
  shows "section_step c (env_now env) (Renew k h v) (rs_disk s) (rs_disk s')"
  by (rule one_record_step[OF assms[unfolded renewReservation_def]]) (metis slot_renewed prod.inject)

lemma permit_step:
  assumes "commitInvocationFence c env k h v fe x s = (res, s')"
  shows "section_step c (env_now env) (Permit k h v fe x) (rs_disk s) (rs_disk s')"
  by (rule one_record_step[OF assms[unfolded commitInvocationFence_def]])
    (metis permitted prod.inject set_record_replaced(2))

lemma warn_step:
  assumes "persistCleanupWarning c env k fe s = (res, s')"
  shows "section_step c (env_now env) (Warn k fe) (rs_disk s) (rs_disk s')"
  by (rule one_record_step[OF assms[unfolded persistCleanupWarning_def]]) (metis warned prod.inject)

lemma receive_step:
  assumes "commitAcceptedReceipt c env k h v fe sid cur x s = (res, s')"
  shows "section_step c (env_now env) (Receive k h v fe sid cur x) (rs_disk s) (rs_disk s')"
proof (rule one_record_step[OF assms[unfolded commitAcceptedReceipt_def]])
  fix s1 r assume k: "rr_key r = k" and "rr_ownerId r = rt_ownerId c"
    and b: "(if \<not> matchesReservation r h v \<or> rr_submissionPhase r \<noteq> Some SpawnPermitted \<or> rr_fenceEpoch r \<noteq> Some fe
       then (Inl cliFenced, s1)
       else if (case bound_account x of None \<Rightarrow> False | Some (a, e) \<Rightarrow> rr_accountBinding r \<noteq> Some a \<or> rr_sessionEpoch r \<noteq> Some e)
       then (Inl accountChanged, s1)
       else (case cur of Some e \<Rightarrow> (Inl e, s1)
         | None \<Rightarrow> saved c env () (set_record (accepted_record (env_now env) sid r) s1))) = (res, s')"
  show "rs_disk s' = rs_disk s1 \<or> (\<exists>r' y. rec_change c (env_now env) (Receive k h v fe sid cur x) r r'
      \<and> saved c env y (set_record r' s1) = (res, s'))"
  proof (cases "rs_disk s' = rs_disk s1")
    case False
    then have *: "matchesReservation r h v" "rr_submissionPhase r = Some SpawnPermitted"
      "saved c env () (set_record (accepted_record (env_now env) sid r) s1) = (res, s')"
      using b by (auto split: if_splits option.splits)
    from accepted[OF *(1,2)] *(3) show ?thesis unfolding k by blast
  qed simp
qed

lemma give_up_step:
  assumes "commitSubmissionFailure c env k h v fe sp code s = (res, s')"
  shows "section_step c (env_now env) (GiveUp k h v fe sp code) (rs_disk s) (rs_disk s')"
  using assms unfolding commitSubmissionFailure_def
proof (rule reloaded_section)
  fix s1 assume f: "fresh c (env_now env) (rs_disk s) s1"
    and b: "(case cached s1 k of None \<Rightarrow> (Inl cliFenced, s1)
     | Some r \<Rightarrow>
         if \<not> matchesReservation r h v then (Inl cliFenced, s1)
         else if fe \<noteq> None \<and> rr_fenceEpoch r \<noteq> fe then (Inl cliFenced, s1)
         else if \<not> sp then saved c env () (delete_record k s1)
         else saved c env () (set_record (unknown_record (env_now env) code r) s1)) = (res, s')"
  show "section_step c (env_now env) (GiveUp k h v fe sp code) (rs_disk s) (rs_disk s')"
  proof (cases "rs_disk s' = rs_disk s1")
    case True
    with section_same[OF f] show ?thesis by simp
  next
    case False
    with b obtain r where r: "cached s1 k = Some r" "matchesReservation r h v"
      "if sp then saved c env () (set_record (unknown_record (env_now env) code r) s1) = (res, s')
       else saved c env () (delete_record k s1) = (res, s')"
      by (auto split: option.splits if_splits)
    have k: "r \<in> set (rs_records s1)" "rr_key r = k" using r(1) unfolding cached_iff[OF f] by blast+
    show ?thesis
    proof (cases sp)
      case True
      with uncertain[OF r(2)] k(2) have "rec_change c (env_now env) (GiveUp k h v fe sp code) r
        (unknown_record (env_now env) code r)" by simp
      then show ?thesis by (rule section_one[OF f r(1)]) (use r(3) True in simp)
    next
      case sp: False
      have "rt_change c (env_now env) (GiveUp k h v fe False code) (rs_records s1) (rs_records (delete_record k s1))"
        using withdrawn[OF k(1) r(2)] unfolding delete_record_def k(2) by simp
      moreover have "rs_disk (delete_record k s1) = rs_disk s1" by (simp add: delete_record_def)
      moreover have "saved c env () (delete_record k s1) = (res, s')" using r(3) sp by simp
      ultimately have "section_step c (env_now env) (GiveUp k h v fe False code) (rs_disk s) (rs_disk s')"
        by (rule section_saved[OF f])
      with sp show ?thesis by simp
    qed
  qed
qed

lemma fail_step:
  assumes "failTask c env k code s = (res, s')"
  shows "section_step c (env_now env) (FailIt k code) (rs_disk s) (rs_disk s')"
proof (cases "\<exists>res'. transitionTask c env k (failed_record (env_now env) code) s = (res', s')")
  case True
  then obtain res' where t: "transitionTask c env k (failed_record (env_now env) code) s = (res', s')" ..
  show ?thesis
    by (rule one_record_step[OF t[unfolded transitionTask_def]]) (metis ended prod.inject)
next
  case False
  with assms have "s' = s" by (auto simp: failTask_def split: option.splits if_splits prod.splits sum.splits)
  then show ?thesis by (simp add: section_load load_step_def)
qed

lemma dispose_step:
  assumes "failOwnedQueuedTasksOnDispose c env s = (res, s')"
  shows "section_step c (env_now env) Dispose (rs_disk s) (rs_disk s')"
proof (cases "list_ex (owns_queued c) (rs_records s)")
  case False
  with assms show ?thesis by (simp add: failOwnedQueuedTasksOnDispose_def section_load load_step_def)
next
  case True
  let ?dead = "\<lambda>s. s\<lparr>rs_records := map (\<lambda>r. if owns_queued c r then interrupted_record (env_now env) r else r) (rs_records s)\<rparr>"
  from True assms have "reloaded c env (\<lambda>s. if list_ex (owns_queued c) (rs_records s)
      then saved c env () (?dead s) else (Inr (), s)) s = (res, s')"
    by (simp add: failOwnedQueuedTasksOnDispose_def)
  then show ?thesis
  proof (rule reloaded_section)
    fix s1 assume f: "fresh c (env_now env) (rs_disk s) s1"
      and b: "(if list_ex (owns_queued c) (rs_records s1) then saved c env () (?dead s1) else (Inr (), s1)) = (res, s')"
    show "section_step c (env_now env) Dispose (rs_disk s) (rs_disk s')"
    proof (cases "list_ex (owns_queued c) (rs_records s1)")
      case True
      have "rt_change c (env_now env) Dispose (rs_records s1) (rs_records (?dead s1))"
        using disposed[of c "env_now env" "rs_records s1"] by simp
      moreover have "rs_disk (?dead s1) = rs_disk s1" by simp
      moreover have "saved c env () (?dead s1) = (res, s')" using b True by simp
      ultimately show ?thesis by (rule section_saved[OF f])
    next
      case False
      with b section_same[OF f] show ?thesis by simp
    qed
  qed
qed

section \<open>Operations with two sections\<close>

text \<open>An operation is a reload, for those that begin with one, and a locked section.\<close>

definition op_step :: "runtime_config \<Rightarrow> int \<Rightarrow> rt_op \<Rightarrow> runtime_disk option \<Rightarrow> runtime_disk option \<Rightarrow> bool" where
  "op_step c t x d e \<longleftrightarrow> (\<exists>m t0. load_step c t0 d m \<and> section_step c t x m e)"

lemma load_step_refl: "load_step c t d d"
  by (simp add: load_step_def)

lemma op_section: "section_step c t x d e \<Longrightarrow> op_step c t x d e"
  unfolding op_step_def using load_step_refl by blast

lemma op_load: "load_step c t0 d e \<Longrightarrow> op_step c t x d e"
  unfolding op_step_def using load_step_refl section_load by blast

lemma twice_step:
  assumes "reloaded c env0 body s = (res, s')"
    and "\<And>s1. body s1 = (res, s') \<Longrightarrow> section_step c t x (rs_disk s1) (rs_disk s')"
  shows "op_step c t x (rs_disk s) (rs_disk s')"
  using assms(1)
proof (cases rule: reloaded_cases)
  case (stopped e)
  from stopped(2) show ?thesis by (rule op_load)
next
  case (ran s1)
  with assms(2) show ?thesis unfolding op_step_def using fresh_load by blast
qed

lemma cancel_step:
  assumes "cancelTask c env0 env i s = (res, s')"
  shows "op_step c (env_now env) (CancelIt env0 i) (rs_disk s) (rs_disk s')"
proof (cases "validateIdempotencyKey i")
  case (Inl e)
  with assms show ?thesis by (simp add: cancelTask_def op_load[OF load_step_refl])
next
  case (Inr u)
  let ?k = "recordKey (rt_ownerId c) i"
  let ?B = "\<lambda>s r. if truthy_int (rr_taskVersion r) = None then (Inl taskNotFound, s)
     else if isPublicTerminal (rr_state r) then (Inr (r, False), s)
     else if rr_state r = JPending then (Inl submissionUnknown, s)
     else if rr_state r = JAccepted \<and> truthy (rr_submitId r) then (Inr (r, False), s)
     else let n = cancelled_record (env_now env) r in saved c env (n, True) (set_record n s)"
  from Inr assms have "reloaded c env0 (reloaded c env (\<lambda>s. case cached s ?k of
      None \<Rightarrow> (Inl taskNotFound, s) | Some r \<Rightarrow> ?B s r)) s = (res, s')" by (simp add: cancelTask_def)
  then show ?thesis
  proof (rule twice_step)
    fix s1 assume "reloaded c env (\<lambda>s. case cached s ?k of None \<Rightarrow> (Inl taskNotFound, s) | Some r \<Rightarrow> ?B s r) s1 = (res, s')"
    then show "section_step c (env_now env) (CancelIt env0 i) (rs_disk s1) (rs_disk s')"
    proof (rule one_record_step)
      fix s2 r assume "rr_key r = ?k" "rr_ownerId r = rt_ownerId c" and b: "?B s2 r = (res, s')"
      then have i: "i = rr_idempotencyKey r" by (simp add: recordKey_def)
      show "rs_disk s' = rs_disk s2 \<or> (\<exists>r' y. rec_change c (env_now env) (CancelIt env0 i) r r'
          \<and> saved c env y (set_record r' s2) = (res, s'))"
        using b stopped[of r c "env_now env" env0] unfolding i Let_def by (metis prod.inject)
    qed
  qed
qed

lemma remove_step:
  assumes "deleteTask c env0 env i s = (res, s')"
  shows "op_step c (env_now env) (Remove env0 i) (rs_disk s) (rs_disk s')"
proof (cases "validateIdempotencyKey i")
  case (Inl e)
  with assms show ?thesis by (simp add: deleteTask_def op_load[OF load_step_refl])
next
  case (Inr u)
  let ?k = "recordKey (rt_ownerId c) i"
  let ?B = "\<lambda>s r. if rr_state r = JDeleted \<or> rr_hidden r then (Inr (), s)
     else if truthy_int (rr_taskVersion r) = None then (Inl taskNotFound, s)
     else saved c env () (set_record (removed_record (env_now env) r) s)"
  from Inr assms have "reloaded c env0 (reloaded c env (\<lambda>s. case cached s ?k of
      None \<Rightarrow> (Inl taskNotFound, s) | Some r \<Rightarrow> ?B s r)) s = (res, s')" by (simp add: deleteTask_def)
  then show ?thesis
  proof (rule twice_step)
    fix s1 assume "reloaded c env (\<lambda>s. case cached s ?k of None \<Rightarrow> (Inl taskNotFound, s) | Some r \<Rightarrow> ?B s r) s1 = (res, s')"
    then show "section_step c (env_now env) (Remove env0 i) (rs_disk s1) (rs_disk s')"
    proof (rule one_record_step)
      fix s2 r assume "rr_key r = ?k" "rr_ownerId r = rt_ownerId c" and b: "?B s2 r = (res, s')"
      then have i: "i = rr_idempotencyKey r" by (simp add: recordKey_def)
      show "rs_disk s' = rs_disk s2 \<or> (\<exists>r' y. rec_change c (env_now env) (Remove env0 i) r r'
          \<and> saved c env y (set_record r' s2) = (res, s'))"
        using b removed[of c "env_now env" env0 r] unfolding i by (metis prod.inject)
    qed
  qed
qed

lemma undo_disk [simp]: "rs_disk (enqueue_undo c q s) = rs_disk s"
  by (simp add: enqueue_undo_def delete_record_def split: option.splits)

lemma set_record_new: "cached s (rr_key r) = None \<Longrightarrow> rs_records (set_record r s) = rs_records s @ [r]"
  by (auto simp: set_record_def map_get_None)

lemma enter_section:
  assumes "enqueue_locked c env q s = (res, s')"
  shows "section_step c (env_now env) (Enter env0 st q) (rs_disk s) (rs_disk s')"
  using assms unfolding enqueue_locked_def
proof (rule reloaded_section)
  fix s1 assume f: "fresh c (env_now env) (rs_disk s) s1"
    and b: "(case cached s1 (rq_key c q) of
       Some r \<Rightarrow> (Inl (if rr_requestHash r \<noteq> rq_hash q then idempotencyConflict else submissionUnknown), s1)
     | None \<Rightarrow>
         let ticket = rs_nextQueueTicket s1 in
         if \<not> safe_integer ticket \<or> ticket < 1 \<or> 9007199254740991 \<le> ticket then (Inl stateInvalid, s1)
         else saved c env () (set_record (queued_record c (env_now env) ticket q)
                (s1\<lparr>rs_nextQueueTicket := ticket + 1\<rparr>))) = (res, s')"
  let ?r = "queued_record c (env_now env) (rs_nextQueueTicket s1) q"
  let ?s = "set_record ?r (s1\<lparr>rs_nextQueueTicket := rs_nextQueueTicket s1 + 1\<rparr>)"
  show "section_step c (env_now env) (Enter env0 st q) (rs_disk s) (rs_disk s')"
  proof (cases "rs_disk s' = rs_disk s1")
    case True
    with section_same[OF f] show ?thesis by simp
  next
    case False
    with b have k: "cached s1 (rq_key c q) = None" and w: "saved c env () ?s = (res, s')"
      by (auto simp: Let_def split: option.splits if_splits)
    have key: "rr_key ?r = rq_key c q" by (simp add: queued_record_def)
    have "rq_key c q \<notin> rr_key ` set (rs_records s1)" using k unfolding cached_None .
    from entered[OF this] have "rt_change c (env_now env) (Enter env0 st q) (rs_records s1) (rs_records s1 @ [?r])" .
    moreover have "rs_records ?s = rs_records s1 @ [?r]"
      using set_record_new[of "s1\<lparr>rs_nextQueueTicket := rs_nextQueueTicket s1 + 1\<rparr>" ?r] k unfolding key by simp
    ultimately have "rt_change c (env_now env) (Enter env0 st q) (rs_records s1) (rs_records ?s)" by simp
    moreover have "rs_disk ?s = rs_disk s1" by (simp add: set_record_def)
    ultimately show ?thesis using w by (rule section_saved[OF f])
  qed
qed

lemma enter_step:
  assumes "enqueueNew c env0 st env q s = (res, s')"
  shows "op_step c (env_now env) (Enter env0 st q) (rs_disk s) (rs_disk s')"
  using assms unfolding enqueueNew_def
proof (rule twice_step)
  fix s1 assume b: "(case cached s1 (rq_key c q) of
       Some r \<Rightarrow>
         (if rr_requestHash r \<noteq> rq_hash q then Inl idempotencyConflict
          else if truthy_int (rr_taskVersion r) = None then Inl submissionUnknown
          else Inr (Existing r), s1)
     | None \<Rightarrow>
         (case st of Some e \<Rightarrow> (Inl e, s1)
          | None \<Rightarrow> (case enqueue_locked c env q s1 of
              (Inl e, s') \<Rightarrow> (Inl e, enqueue_undo c q s')
            | (Inr _, s') \<Rightarrow> (Inr Entered, s')))) = (res, s')"
  show "section_step c (env_now env) (Enter env0 st q) (rs_disk s1) (rs_disk s')"
  proof (cases "rs_disk s' = rs_disk s1")
    case True
    then show ?thesis by (simp add: section_load load_step_refl)
  next
    case False
    obtain r s2 where e: "enqueue_locked c env q s1 = (r, s2)" by fastforce
    with b False have "rs_disk s' = rs_disk s2"
      by (auto split: option.splits sum.splits)
    with enter_section[OF e] show ?thesis by simp
  qed
qed

section \<open>The direct submission\<close>

text \<open>Throughout, copy and journal hold the other records and at most one under the key.\<close>

definition at_most_one :: "runtime_record multiset \<Rightarrow> string \<Rightarrow> runtime_record multiset \<Rightarrow> bool" where
  "at_most_one base k M \<longleftrightarrow> filter_mset (\<lambda>r. rr_key r \<noteq> k) M = base
     \<and> size (filter_mset (\<lambda>r. rr_key r = k) M) \<le> 1
     \<and> (\<forall>r \<in># M. rr_key r = k \<longrightarrow> direct_state r)"

definition direct_inv :: "runtime_config \<Rightarrow> runtime_record multiset \<Rightarrow> string \<Rightarrow> runtime_state \<Rightarrow> bool" where
  "direct_inv c base k s \<longleftrightarrow> opt_ok (validRuntimeDiskState (rt_ownerId c)) (rs_disk s)
     \<and> at_most_one base k (content (rs_records s)) \<and> at_most_one base k (disk_content (rs_disk s))"

lemma at_most_one_cases:
  assumes "at_most_one base k M"
  obtains "M = base" | r where "M = add_mset r base" "rr_key r = k" "direct_state r"
proof -
  let ?K = "filter_mset (\<lambda>r. rr_key r = k) M"
  have M: "M = base + ?K" using assms multiset_partition[of M "\<lambda>r. rr_key r = k"]
    unfolding at_most_one_def by (metis union_commute)
  have "size ?K = 0 \<or> size ?K = 1" using assms unfolding at_most_one_def by linarith
  then show thesis
  proof
    assume "size ?K = 0"
    then have "?K = {#}" by (simp only: size_eq_0_iff_empty)
    with M have "M = base" by (metis add.right_neutral)
    then show thesis by (rule that(1))
  next
    assume "size ?K = 1"
    then obtain r where r: "?K = {#r#}" using size_1_singleton_mset by blast
    then have "r \<in># ?K" by simp
    then have "r \<in># M" "rr_key r = k" by simp_all
    with assms have "direct_state r" unfolding at_most_one_def by blast
    with M r \<open>rr_key r = k\<close> that(2)[of r] show thesis by simp
  qed
qed

lemma direct_persist:
  assumes "persistUnlocked c fault s = (res, s')" "direct_inv c base k s"
  shows "direct_inv c base k s'"
  using persist_effect[OF assms(1)] assms(2) unfolding direct_inv_def by metis

lemma direct_delete:
  assumes "direct_inv c base k s"
  shows "direct_inv c base k (delete_record k s)"
proof -
  have *: "content (filter (\<lambda>r. rr_key r \<noteq> k) rs) = filter_mset (\<lambda>r. rr_key r \<noteq> k) (content rs)" for rs
    by (induction rs) auto
  have "filter_mset (\<lambda>r. rr_key r = k) (filter_mset (\<lambda>r. rr_key r \<noteq> k) M) = {#}" for M :: "runtime_record multiset"
    by (induction M) auto
  then have "at_most_one base k (filter_mset (\<lambda>r. rr_key r \<noteq> k) M)" if "at_most_one base k M" for M
    using that unfolding at_most_one_def by (auto simp: filter_filter_mset)
  with assms have "at_most_one base k (content (filter (\<lambda>r. rr_key r \<noteq> k) (rs_records s)))"
    unfolding direct_inv_def * by blast
  with assms show ?thesis unfolding direct_inv_def delete_record_def by simp
qed

lemma direct_update:
  assumes "direct_inv c base k s" "\<And>r. rr_key (f r) = rr_key r"
    "\<And>r. direct_state r \<Longrightarrow> direct_state (f r)"
  shows "direct_inv c base k (update_record k f s)"
proof -
  let ?g = "\<lambda>r. if rr_key r = k then f r else r"
  have others: "filter_mset (\<lambda>r. rr_key r \<noteq> k) (content (map ?g rs)) = filter_mset (\<lambda>r. rr_key r \<noteq> k) (content rs)"
    and it: "size (filter_mset (\<lambda>r. rr_key r = k) (content (map ?g rs))) = size (filter_mset (\<lambda>r. rr_key r = k) (content rs))" for rs
    by (induction rs) (simp_all add: assms(2))
  have "\<forall>r \<in># content (map ?g rs). rr_key r = k \<longrightarrow> direct_state r"
    if "\<forall>r \<in># content rs. rr_key r = k \<longrightarrow> direct_state r" for rs
  proof
    fix x assume "x \<in># content (map ?g rs)"
    then obtain r where r: "r \<in> set rs" "x = unversioned (?g r)" by auto
    then have "unversioned r \<in># content rs" by simp
    with that have "rr_key r = k \<longrightarrow> direct_state r" by fastforce
    with assms(3)[of r] r(2) show "rr_key x = k \<longrightarrow> direct_state x" by simp
  qed
  then have "at_most_one base k (content (map ?g rs))" if "at_most_one base k (content rs)" for rs
    using that unfolding at_most_one_def others it by blast
  with assms(1) show ?thesis by (simp add: direct_inv_def update_record_def)
qed

lemma direct_failed_inv:
  assumes "direct_failed c e k err spawned receipt s = (res, s')" "direct_inv c base k s"
  shows "direct_inv c base k s'"
proof -
  let ?f = "\<lambda>r. r\<lparr>rr_state := JUnknown, rr_errorCode := Some (submitFailureCode err spawned),
    rr_updatedAt := to_iso_string (dn_now e), rr_submitId := None\<rparr>"
  have u: "direct_inv c base k (update_record k ?f s)" by (rule direct_update[OF assms(2)]) (simp_all add: direct_state_def)
  note d = direct_delete[OF assms(2)]
  have "s' \<in> {s, delete_record k s, snd (persistUnlocked c (dn_last_fault e) (delete_record k s)),
      snd (persistUnlocked c (dn_last_fault e) (update_record k ?f s))}"
    using assms(1) by (auto simp: direct_failed_def Let_def split: if_splits option.splits prod.splits sum.splits)
  then show ?thesis using assms(2) d direct_persist[OF prod.collapse[symmetric] d]
      direct_persist[OF prod.collapse[symmetric] u] by blast
qed

lemma direct_accepted_inv:
  assumes "direct_accepted c e k sid s = (res, s')" "direct_inv c base k s"
  shows "direct_inv c base k s'"
proof (cases "after_release e None")
  case (Some err)
  with assms direct_failed_inv show ?thesis by (auto simp: direct_accepted_def)
next
  case None
  let ?f = "\<lambda>r. r\<lparr>rr_errorCode := Some ''dreamina_reference_cleanup_failed'', rr_updatedAt := to_iso_string (dn_now e)\<rparr>"
  have u: "direct_inv c base k (update_record k ?f s)" by (rule direct_update[OF assms(2)]) (simp_all add: direct_state_def)
  from None assms(1) have "s' = s \<or> s' = snd (persistUnlocked c (dn_last_fault e) (update_record k ?f s))"
    by (auto simp: direct_accepted_def split: if_splits)
  then show ?thesis using assms(2) direct_persist[OF prod.collapse[symmetric] u] by blast
qed

lemma direct_process_inv:
  assumes "direct_process c e k s = (res, s')" "direct_inv c base k s"
  shows "direct_inv c base k s'"
proof -
  let ?f = "\<lambda>sid r. r\<lparr>rr_state := JAccepted, rr_submitId := Some sid, rr_updatedAt := to_iso_string (dn_now e)\<rparr>"
  have u: "direct_inv c base k (update_record k (?f sid) s)" for sid by (rule direct_update[OF assms(2)]) (simp_all add: direct_state_def)
  note p = direct_persist[OF _ u]
  show ?thesis
    using assms(1) direct_failed_inv[OF _ assms(2)] direct_failed_inv[OF _ p] direct_accepted_inv[OF _ p]
    unfolding direct_process_def Let_def by (auto split: sum.splits option.splits prod.splits)
qed

lemma submit_direct_inv:
  assumes "submit_direct c e idem h s = (res, s')" "k = recordKey (rt_ownerId c) idem"
    "direct_inv c base k (set_record (intent_record c (dn_now e) idem h) s)"
  shows "rs_disk s' = rs_disk s \<or> direct_inv c base k s'"
proof (cases "dn_prepare e")
  case (Inl err)
  with assms(1) show ?thesis by (simp add: submit_direct_def Let_def)
next
  case (Inr x)
  obtain r1 s1 where p1: "persistUnlocked c (dn_intent_fault e) (set_record (intent_record c (dn_now e) idem h) s) = (r1, s1)"
    by fastforce
  note i1 = direct_persist[OF p1 assms(3)]
  let ?f = "\<lambda>fe r. bind_account x (r\<lparr>rr_fenceEpoch := Some fe\<rparr>)"
  have "direct_inv c base k (update_record k (?f fe) s1)" for fe by (rule direct_update[OF i1]) (simp_all add: direct_state_def)
  note i2 = direct_persist[OF _ this]
  have "direct_inv c base k s'"
    using assms(1) Inr p1 i1 direct_failed_inv[OF _ i1] direct_failed_inv[OF _ i2] direct_process_inv[OF _ i2]
    unfolding submit_direct_def Let_def assms(2)[symmetric] by (auto split: sum.splits prod.splits)
  then show ?thesis ..
qed

lemma direct_step:
  assumes "submitWithLock c env e idem h s = (res, s')"
  shows "section_step c (env_now env) (Direct e idem h) (rs_disk s) (rs_disk s')"
  using assms unfolding submitWithLock_def
proof (rule reloaded_section)
  let ?k = "recordKey (rt_ownerId c) idem"
  fix s1 assume f: "fresh c (env_now env) (rs_disk s) s1"
    and b: "(case cached s1 ?k of
       Some r \<Rightarrow>
         (if rr_requestHash r \<noteq> h then Inl idempotencyConflict
          else if rr_state r = JAccepted \<and> truthy (rr_submitId r) then Inr (the (rr_submitId r))
          else Inl submissionUnknown, s1)
     | None \<Rightarrow>
         if \<not> hasGenerationCapacity c s1 then (Inl generationCapacityFull, s1)
         else submit_direct c e idem h s1) = (res, s')"
  show "section_step c (env_now env) (Direct e idem h) (rs_disk s) (rs_disk s')"
  proof (cases "rs_disk s' = rs_disk s1")
    case True
    with section_same[OF f] show ?thesis by simp
  next
    case False
    with b have k: "cached s1 ?k = None" and free: "hasGenerationCapacity c s1"
      and sub: "submit_direct c e idem h s1 = (res, s')" by (auto split: option.splits if_splits)
    let ?r = "intent_record c (dn_now e) idem h"
    let ?base = "content (rs_records s1)"
    have key: "rr_key ?r = ?k" by (simp add: intent_record_def)
    have new: "?k \<notin> rr_key ` set (rs_records s1)" using k unfolding cached_None .
    have other: "rr_key r \<noteq> ?k" if "r \<in> set (rs_records s1)" for r
      using new imageI[OF that, of "\<lambda>r. rr_key r"] by metis
    have set: "rs_records (set_record ?r s1) = rs_records s1 @ [?r]" "rs_disk (set_record ?r s1) = rs_disk s1"
      using set_record_new[of s1 ?r] k key by (simp_all add: set_record_def)
    have split: "filter_mset (\<lambda>r. rr_key r \<noteq> ?k) ?base = ?base" "filter_mset (\<lambda>r. rr_key r = ?k) ?base = {#}"
      by (auto simp: filter_mset_eq_conv dest: other)
    have disk: "disk_content (rs_disk s1) = ?base" "?base = recovered (env_now env) (rs_disk s)"
      "opt_ok (validRuntimeDiskState (rt_ownerId c)) (rs_disk s)"
      "opt_ok (validRuntimeDiskState (rt_ownerId c)) (rs_disk s1)" "distinct (map rr_key (rs_records s1))"
      using f by (simp_all add: fresh_def)
    have st: "direct_state ?r" by (simp add: intent_record_def direct_state_def)
    have base: "at_most_one ?base ?k ?base" 
      unfolding at_most_one_def split using other by auto
    have "at_most_one ?base ?k (content (rs_records s1 @ [?r]))"
      using key st unfolding at_most_one_def by (simp add: split) (use other in auto)
    with base disk have "direct_inv c ?base ?k (set_record ?r s1)" unfolding direct_inv_def set by simp
    from submit_direct_inv[OF sub refl this] False have inv: "direct_inv c ?base ?k s'" by blast
    then have v: "opt_ok (validRuntimeDiskState (rt_ownerId c)) (rs_disk s')"
      and one: "at_most_one ?base ?k (disk_content (rs_disk s'))" unfolding direct_inv_def by blast+
    from one show ?thesis
    proof (cases rule: at_most_one_cases)
      case 1
      with v disk show ?thesis by (intro section_load) (simp add: load_step_def)
    next
      case (2 q)
      have "rt_change c (env_now env) (Direct e idem h) (rs_records s1) (rs_records s1 @ [q])"
        by (rule direct) (use free new 2(2,3) in \<open>simp_all add: hasGenerationCapacity_def\<close>)
      moreover have "unversioned q = q"
      proof -
        have "q \<in># disk_content (rs_disk s')" using 2(1) by simp
        then show ?thesis by auto
      qed
      then have "disk_content (rs_disk s') = content (rs_records s1 @ [q])" using 2(1) by simp
      ultimately show ?thesis using v disk unfolding section_step_def by blast
    qed
  qed
qed

section \<open>All operations\<close>

theorem run_rt_step: "op_step c (env_now env) x (rs_disk s) (rs_disk (run_rt c env x s))"
proof (cases x)
  case Reload
  then show ?thesis using op_load[OF reload_effect(1)[OF prod.collapse[symmetric]]] by simp
next
  case (Enter env0 staged q)
  then show ?thesis using enter_step[OF prod.collapse[symmetric]] by simp
next
  case (CancelIt env0 k)
  then show ?thesis using cancel_step[OF prod.collapse[symmetric]] by simp
next
  case (Remove env0 k)
  then show ?thesis using remove_step[OF prod.collapse[symmetric]] by simp
next
  case (Reserve k h rid)
  then show ?thesis using op_section[OF reserve_step[OF prod.collapse[symmetric]]] by simp
next
  case (RenewQueue k h)
  then show ?thesis using op_section[OF renew_queue_step[OF prod.collapse[symmetric]]] by simp
next
  case (Renew k h v)
  then show ?thesis using op_section[OF renew_slot_step[OF prod.collapse[symmetric]]] by simp
next
  case (Permit k h v fe x)
  then show ?thesis using op_section[OF permit_step[OF prod.collapse[symmetric]]] by simp
next
  case (Receive k h v fe sid cur x)
  then show ?thesis using op_section[OF receive_step[OF prod.collapse[symmetric]]] by simp
next
  case (GiveUp k h v fe sp code)
  then show ?thesis using op_section[OF give_up_step[OF prod.collapse[symmetric]]] by simp
next
  case (Warn k fe)
  then show ?thesis using op_section[OF warn_step[OF prod.collapse[symmetric]]] by simp
next
  case (FailIt k code)
  then show ?thesis using op_section[OF fail_step[OF prod.collapse[symmetric]]] by simp
next
  case Dispose
  then show ?thesis using op_section[OF dispose_step[OF prod.collapse[symmetric]]] by simp
next
  case (Direct e k h)
  then show ?thesis using op_section[OF direct_step[OF prod.collapse[symmetric]]] by simp
qed

end
