(* ===== verification/RuntimeWorld.thy ===== *)
theory RuntimeWorld
  imports RuntimeQueueSteps ReconcilerClaims
begin

text \<open>
  Several runtimes on one journal: each has its own copy of the records, each step is a whole operation
  of one of them (the state lock admits one at a time) or of a reconciler, or a copy changes outside of an
  operation: a restart empties it, an applied observation sets a record.
  What holds of the journal in every state of such a run is an instance of \<open>journal_invariant\<close>.
\<close>

section \<open>Runs\<close>

record rt_world =
  w_copy :: "nat \<Rightarrow> runtime_record list \<times> int"
  w_disk :: "runtime_disk option"

definition at_runtime :: "nat \<Rightarrow> rt_world \<Rightarrow> runtime_state" where
  "at_runtime i w = \<lparr>rs_records = fst (w_copy w i), rs_nextQueueTicket = snd (w_copy w i), rs_disk = w_disk w\<rparr>"

definition put_runtime :: "nat \<Rightarrow> runtime_state \<Rightarrow> rt_world \<Rightarrow> rt_world" where
  "put_runtime i s w = \<lparr>w_copy = (w_copy w)(i := (rs_records s, rs_nextQueueTicket s)), w_disk = rs_disk s\<rparr>"

datatype world_op = Runtime nat op_env rt_op | Recopy nat "runtime_record list \<times> int" | Polling poll_op

fun world_step :: "(nat \<Rightarrow> runtime_config) \<Rightarrow> string \<Rightarrow> rt_world \<Rightarrow> world_op \<Rightarrow> journal_error + rt_world" where
  "world_step cs owner w (Runtime i env x) = Inr (put_runtime i (run_rt (cs i) env x (at_runtime i w)) w)"
| "world_step cs owner w (Recopy i x) = Inr (w\<lparr>w_copy := (w_copy w)(i := x)\<rparr>)"
| "world_step cs owner w (Polling z) = map_sum id (\<lambda>e. w\<lparr>w_disk := e\<rparr>) (poll_step owner (w_disk w) z)"

abbreviation world_run :: "(nat \<Rightarrow> runtime_config) \<Rightarrow> string \<Rightarrow> rt_world \<Rightarrow> world_op list \<Rightarrow> rt_world" where
  "world_run cs owner \<equiv> run_try (world_step cs owner)"

lemma world_simps [simp]: "rs_disk (at_runtime i w) = w_disk w" "w_disk (put_runtime i s w) = rs_disk s"
  "rs_records (at_runtime i (put_runtime i s w)) = rs_records s"
  by (simp_all add: at_runtime_def put_runtime_def)

section \<open>Invariants of the journal\<close>

text \<open>The runtimes of a run work for one owner, and their operations are admissible.\<close>

definition all_admissible ::
  "(runtime_config \<Rightarrow> rt_op \<Rightarrow> bool) \<Rightarrow> (nat \<Rightarrow> runtime_config) \<Rightarrow> string \<Rightarrow> world_op list \<Rightarrow> bool" where
  "all_admissible adm cs owner ops \<longleftrightarrow> list_all (\<lambda>z. case z of
     Runtime i env x \<Rightarrow> rt_ownerId (cs i) = owner \<and> adm (cs i) x | _ \<Rightarrow> True) ops"

abbreviation journal_valid :: "string \<Rightarrow> runtime_disk option \<Rightarrow> bool" where
  "journal_valid owner \<equiv> opt_ok (validRuntimeDiskState owner)"

lemma section_valid: "section_step c t x d e \<Longrightarrow> journal_valid (rt_ownerId c) d \<Longrightarrow> journal_valid (rt_ownerId c) e"
  by (auto simp: section_step_def load_step_def)

locale journal_invariant =
  fixes P :: "runtime_record multiset \<Rightarrow> bool"
    and adm :: "runtime_config \<Rightarrow> rt_op \<Rightarrow> bool"
  assumes recovers: "P (content rs) \<Longrightarrow> P (content (map (recover_record t) rs))"
    and changes: "P (content rs) \<Longrightarrow> distinct (map rr_key rs) \<Longrightarrow> adm c x \<Longrightarrow> rt_change c t x rs rs' \<Longrightarrow>
      P (content rs')"
    and polls: "P (disk_content d) \<Longrightarrow> journal_valid owner d \<Longrightarrow> step_ok owner z d e \<Longrightarrow> P (disk_content e)"
begin

lemma load_keeps:
  assumes "load_step c t d e" "journal_valid (rt_ownerId c) d" "P (disk_content d)"
  shows "journal_valid (rt_ownerId c) e \<and> P (disk_content e)"
  using assms recovers[of "disk_records d" t] by (auto simp: load_step_def)

lemma section_keeps:
  assumes "section_step c t x d e" "adm c x" "journal_valid (rt_ownerId c) d" "P (disk_content d)"
  shows "journal_valid (rt_ownerId c) e \<and> P (disk_content e)"
  using assms(1) unfolding section_step_def
proof
  assume "load_step c t d e"
  then show ?thesis using assms(3,4) by (rule load_keeps)
next
  assume "journal_valid (rt_ownerId c) d \<and> journal_valid (rt_ownerId c) e
       \<and> (\<exists>rs rs'. content rs = recovered t d \<and> distinct (map rr_key rs) \<and> rt_change c t x rs rs'
            \<and> disk_content e = content rs')"
  then obtain rs rs' where r: "content rs = recovered t d" "distinct (map rr_key rs)" "rt_change c t x rs rs'"
    "disk_content e = content rs'" "journal_valid (rt_ownerId c) e" by blast
  have "P (content rs)" unfolding r(1) using assms(4) by (rule recovers)
  from changes[OF this r(2) assms(2) r(3)] r(4,5) show ?thesis by simp
qed

lemma op_keeps:
  assumes "op_step c t x d e" "adm c x" "journal_valid (rt_ownerId c) d" "P (disk_content d)"
  shows "journal_valid (rt_ownerId c) e \<and> P (disk_content e)"
proof -
  obtain m t0 where m: "load_step c t0 d m" "section_step c t x m e"
    using assms(1) unfolding op_step_def by blast
  from load_keeps[OF m(1) assms(3,4)] section_keeps[OF m(2) assms(2)] show ?thesis by blast
qed

lemma holds_along:
  assumes "journal_valid owner (w_disk w)" "P (disk_content (w_disk w))" "all_admissible adm cs owner ops"
  shows "journal_valid owner (w_disk (world_run cs owner w ops))
    \<and> P (disk_content (w_disk (world_run cs owner w ops)))"
proof (rule run_try_invariant)
  show "journal_valid owner (w_disk w) \<and> P (disk_content (w_disk w))" using assms(1,2) ..
  fix w z w' assume w: "journal_valid owner (w_disk w) \<and> P (disk_content (w_disk w))"
    and z: "z \<in> set ops" and step: "world_step cs owner w z = Inr w'"
  show "journal_valid owner (w_disk w') \<and> P (disk_content (w_disk w'))"
  proof (cases z)
    case (Runtime i env x)
    with assms(3) z have c: "rt_ownerId (cs i) = owner" "adm (cs i) x"
      by (auto simp: all_admissible_def list_all_iff)
    from op_keeps[OF run_rt_step[of "cs i" env x "at_runtime i w"] c(2)] w c(1) step Runtime
    show ?thesis by auto
  next
    case (Recopy i x)
    with step w show ?thesis by auto
  next
    case (Polling p)
    with step obtain e where e: "poll_step owner (w_disk w) p = Inr e" "w' = w\<lparr>w_disk := e\<rparr>"
      by (auto simp: map_sum_def split: sum.splits)
    from poll_step_ok[OF e(1)] w have "step_ok owner p (w_disk w) e" by blast
    with polls[OF _ _ this] w e(2) show ?thesis by (simp add: step_ok_def)
  qed
qed

end

section \<open>Records under change\<close>

text \<open>A replaced record is the old one or, under its key, the new one.\<close>

lemma in_update_key:
  "q \<in> set (map (\<lambda>x. if k x = a then r else x) xs) \<Longrightarrow> q \<in> set xs \<and> k q \<noteq> a \<or> q = r"
  by (auto split: if_splits)

lemma update_key_keeps:
  assumes "distinct (map k xs)" "r \<in> set xs" "k r = a" "q \<in> set xs"
  shows "k q \<noteq> a \<and> q \<in> set (map (\<lambda>x. if k x = a then r' else x) xs)
    \<or> q = r \<and> r' \<in> set (map (\<lambda>x. if k x = a then r' else x) xs)"
proof (cases "k q = a")
  case True
  with assms have "q = r" by (meson distinct_map inj_onD)
  moreover have "r' \<in> (\<lambda>x. if k x = a then r' else x) ` set xs" using assms(2,3) by force
  ultimately show ?thesis by simp
next
  case False
  then have "q \<in> (\<lambda>x. if k x = a then r' else x) ` set xs"
    by (intro image_eqI[where x = q]) (simp_all add: assms(4))
  with False show ?thesis by simp
qed

lemmas in_replaced = in_update_key[where k = "\<lambda>r. rr_key r"]
lemmas replaced_keeps = update_key_keeps[where k = "\<lambda>r. rr_key r"]

text \<open>What polling leaves of a record.\<close>

lemma observation_reservation [simp]:
  "rr_reservationId (record_observation c t ob r) = rr_reservationId r"
  "rr_reservationOwnerId (record_observation c t ob r) = rr_reservationOwnerId r"
  "rr_submissionPhase (record_observation c t ob r) = rr_submissionPhase r"
  "rr_state (applyObservation r ob) = rr_state r
    \<or> rr_state (applyObservation r ob) \<in> {JAccepted, JSucceeded, JCancelled, JFailed}"
  by (simp_all add: record_observation_def applyObservation_def clearSyncError_def Let_def
      split: provider_status.split)

lemma schedule_reservation [simp]:
  "rr_reservationId (schedule_at x r) = rr_reservationId r"
  "rr_reservationOwnerId (schedule_at x r) = rr_reservationOwnerId r"
  "rr_submissionPhase (schedule_at x r) = rr_submissionPhase r"
  "rr_submitId (schedule_at x r) = rr_submitId r" "rr_state (schedule_at x r) = rr_state r"
  by (simp_all add: schedule_at_def)

lemma skip_reservation [simp]:
  "rr_reservationId (skip_observation c t r) = rr_reservationId r"
  "rr_reservationOwnerId (skip_observation c t r) = rr_reservationOwnerId r"
  "rr_submissionPhase (skip_observation c t r) = rr_submissionPhase r"
  "rr_submitId (skip_observation c t r) = rr_submitId r" "rr_state (skip_observation c t r) = rr_state r"
  by (simp_all add: skip_observation_def Let_def)

lemma startup_reservation [simp]:
  "rr_reservationId (startup_schedule c t r) = rr_reservationId r"
  "rr_reservationOwnerId (startup_schedule c t r) = rr_reservationOwnerId r"
  "rr_submissionPhase (startup_schedule c t r) = rr_submissionPhase r"
  "rr_submitId (startup_schedule c t r) = rr_submitId r" "rr_state (startup_schedule c t r) = rr_state r"
  by (simp_all add: startup_schedule_def)

lemma sync_error_reservation [simp]:
  "rr_reservationId (record_sync_error c t code r) = rr_reservationId r"
  "rr_reservationOwnerId (record_sync_error c t code r) = rr_reservationOwnerId r"
  "rr_submissionPhase (record_sync_error c t code r) = rr_submissionPhase r"
  "rr_submitId (record_sync_error c t code r) = rr_submitId r" "rr_state (record_sync_error c t code r) = rr_state r"
  by (simp_all add: record_sync_error_def Let_def)

lemma op_change_reservation:
  "op_change z r q \<Longrightarrow> rr_reservationId q = rr_reservationId r \<and> rr_reservationOwnerId q = rr_reservationOwnerId r
    \<and> rr_submissionPhase q = rr_submissionPhase r \<and> rr_submitId q = rr_submitId r
    \<and> (rr_state q = rr_state r \<or> rr_state q \<in> {JAccepted, JSucceeded, JCancelled, JFailed})"
proof (induction rule: op_change.induct)
  case (observed r l ob c t)
  show ?case using observation_reservation(4)[of r ob] by simp
qed simp_all

lemma op_moves_reservation:
  assumes "op_moves z r i"
  shows "rr_key i = rr_key r" "rr_reservationId i = rr_reservationId r"
    "rr_reservationOwnerId i = rr_reservationOwnerId r"
    "rr_submissionPhase i = rr_submissionPhase r" "rr_submitId i = rr_submitId r"
    "rr_state i = rr_state r \<or> rr_state i \<in> {JAccepted, JSucceeded, JCancelled, JFailed}"
proof -
  obtain q where q: "op_change z r q" "unversioned i = unversioned q" using assms by blast
  note f = unversioned_fields[OF q(2)] same_fields[OF q(2)]
  show "rr_key i = rr_key r" using op_change_key[OF q(1)] f by simp
  show "rr_reservationId i = rr_reservationId r" "rr_reservationOwnerId i = rr_reservationOwnerId r"
    "rr_submissionPhase i = rr_submissionPhase r" "rr_submitId i = rr_submitId r"
    "rr_state i = rr_state r \<or> rr_state i \<in> {JAccepted, JSucceeded, JCancelled, JFailed}"
    using op_change_reservation[OF q(1)] f by simp_all
qed

section \<open>Examples\<close>

text \<open>A runtime that allows one generation, a task waiting in its queue, the same task with a slot.\<close>

definition sample_runtime :: runtime_config where
  "sample_runtime = \<lparr>rt_ownerId = ''owner-0123456789'', rt_reservationOwnerId = sample_iid,
     rt_pollIntervalMs = 2000, maxActiveTasks = 1, reservationLeaseMs = 30000,
     reservationHeartbeatMs = 5000, durableReloadIntervalMs = 250, rt_localeLe = (\<lambda>_ _. True)\<rparr>"

definition calm :: "int \<Rightarrow> op_env" where
  "calm t = \<lparr>env_now = t, env_reload = None, env_write = None\<rparr>"

definition waiting_record :: runtime_record where
  "waiting_record = sample_record\<lparr>rr_state := JQueued, rr_submitId := None, rr_queueOwnerId := Some sample_iid,
     rr_queueExpiresAt := Some ''2026-01-01T00:00:30.000Z'', rr_queueTicket := Some 1\<rparr>"

definition held_record :: runtime_record where
  "held_record = sample_record\<lparr>rr_state := JPending, rr_submitId := None, rr_reservationId := Some sample_lid,
     rr_reservationOwnerId := Some sample_iid, rr_submissionPhase := Some Reserved,
     rr_reservationExpiresAt := Some ''2026-01-01T00:00:30.000Z''\<rparr>"

definition sample_hold :: reservation where
  "sample_hold = \<lparr>rv_id = sample_lid, rv_owner = sample_iid\<rparr>"

definition one_record_world :: "runtime_record \<Rightarrow> rt_world" where
  "one_record_world r = \<lparr>w_copy = (\<lambda>_. ([], 1)),
     w_disk = Some \<lparr>rd_records = [r], rd_nextQueueTicket = Some 2\<rparr>\<rparr>"

text \<open>Only the fields that differ from the accepted sample are checked anew.\<close>

lemma pending_valid:
  assumes "validRecord p" "rr_taskVersion p \<noteq> None" "rr_providerOutputs p = None"
    and "identity_valid r = identity_valid p" "poll_fields_valid r = poll_fields_valid p"
    and "runtime_fields_valid r" "date_ok (rr_updatedAt r)" "rr_state r \<in> {JQueued, JPending}" "rr_submitId r = None"
    and "rr_taskVersion r = rr_taskVersion p" "rr_operation r = rr_operation p" "rr_mode r = rr_mode p"
      "rr_model r = rr_model p" "rr_createdAt r = rr_createdAt p" "rr_errorCode r = rr_errorCode p"
      "rr_providerOutputs r = rr_providerOutputs p"
  shows "validRecord r"
proof -
  have "task_fields_valid p" "baseValid p" using assms(1,2) by (simp_all add: validRecord_def)
  then have "task_fields_valid r" using assms(3,8-16) by (auto simp: task_fields_valid_def)
  moreover have "baseValid r" using \<open>baseValid p\<close> assms(4-9) by (auto simp: baseValid_def)
  ultimately show ?thesis using assms(2,10) by (auto simp: validRecord_def)
qed

lemma reload_one:
  assumes "rs_disk s = Some \<lparr>rd_records = [r], rd_nextQueueTicket = Some n\<rparr>" "rs_records s = [] \<or> rs_records s = [r]"
    and "validRuntimeDiskState (rt_ownerId c) \<lparr>rd_records = [r], rd_nextQueueTicket = Some n\<rparr>"
    and "\<not> dead_pending (env_now env) r" "\<not> dead_queued (env_now env) r" "int_or 0 (rr_queueTicket r) < n"
  shows "reloadFromDisk c env s = (Inr (), s\<lparr>rs_records := [r], rs_nextQueueTicket := n\<rparr>)"
  using assms
  by (auto simp: reloadFromDisk_def recover_alive reload_accepts_def next_ticket_def int_or_def map_get_def)

lemma saved_one:
  assumes "rs_disk s = Some \<lparr>rd_records = [p], rd_nextQueueTicket = Some n\<rparr>" "rs_records s = [r]"
    and "rs_nextQueueTicket s = n"
    and "validRuntimeDiskState (rt_ownerId c) \<lparr>rd_records = [p], rd_nextQueueTicket = Some n\<rparr>"
    and "rr_key r = rr_key p" "rr_ownerId r = rt_ownerId c" "record_progression p r" "validRecord r" "version_room p"
  shows "\<exists>s'. saved c (calm t) x s = (Inr x, s')"
proof -
  let ?d = "\<lparr>rd_records = [p], rd_nextQueueTicket = Some n\<rparr>"
  have "list_all2 (\<lambda>p r. rr_key r = rr_key p \<and> rr_ownerId r = rt_ownerId c \<and> record_progression p r
      \<and> validRecord r \<and> version_room p) (rd_records ?d) [r]" using assms(5-9) by simp
  from write_journal_ok(1)[OF assms(4) this] assms(1-3) show ?thesis
    by (simp add: saved_def persistUnlocked_def calm_def)
qed

lemma valid_parts: "validRecord r \<Longrightarrow> identity_valid r" "validRecord r \<Longrightarrow> poll_fields_valid r"
  "validRecord r \<Longrightarrow> runtime_fields_valid r" "validRecord r \<Longrightarrow> date_ok (rr_updatedAt r)"
  "validRecord r \<Longrightarrow> rr_taskVersion r \<noteq> None \<Longrightarrow> task_fields_valid r"
  by (simp_all add: validRecord_def baseValid_def)

lemmas sample_parts = valid_parts(1-4)[OF sample_valid(1)]

lemmas sample_record_fields = waiting_record_def held_record_def sample_record_def

lemma waiting_fields:
  "rr_state waiting_record = JQueued" "rr_submitId waiting_record = None" "rr_ownerId waiting_record = ''owner-0123456789''"
  "rr_queueExpiresAt waiting_record = Some ''2026-01-01T00:00:30.000Z''" "rr_queueOwnerId waiting_record = Some sample_iid"
  "rr_queueTicket waiting_record = Some 1" "rr_taskVersion waiting_record = Some 1"
  "rr_providerOutputs waiting_record = None" "rr_journalVersion waiting_record = Some 1"
  "rr_fenceEpoch waiting_record = None" "rr_accountBinding waiting_record = None" "rr_sessionEpoch waiting_record = None"
  "rr_reservationId waiting_record = None" "rr_reservationOwnerId waiting_record = None"
  "rr_reservationExpiresAt waiting_record = None" "rr_submissionPhase waiting_record = None" "\<not> rr_hidden waiting_record"
  "rr_idempotencyKey waiting_record = ''task-0001''"
  by (simp_all add: waiting_record_def sample_record_def)

lemma held_fields:
  "rr_state held_record = JPending" "rr_submitId held_record = None" "rr_ownerId held_record = ''owner-0123456789''"
  "rr_queueExpiresAt held_record = None" "rr_queueOwnerId held_record = None"
  "rr_queueTicket held_record = None" "rr_taskVersion held_record = Some 1"
  "rr_providerOutputs held_record = None" "rr_journalVersion held_record = Some 1"
  "rr_fenceEpoch held_record = None" "rr_accountBinding held_record = None" "rr_sessionEpoch held_record = None"
  "rr_reservationId held_record = Some sample_lid" "rr_reservationOwnerId held_record = Some sample_iid"
  "rr_reservationExpiresAt held_record = Some ''2026-01-01T00:00:30.000Z''"
  "rr_submissionPhase held_record = Some Reserved" "\<not> rr_hidden held_record"
  "rr_idempotencyKey held_record = ''task-0001''"
  by (simp_all add: held_record_def sample_record_def)

lemma sample_kept:
  "identity_valid waiting_record = identity_valid sample_record" "poll_fields_valid waiting_record = poll_fields_valid sample_record"
  "identity_valid held_record = identity_valid sample_record" "poll_fields_valid held_record = poll_fields_valid sample_record"
  by (simp_all add: identity_valid_def poll_fields_valid_def waiting_record_def held_record_def)

lemmas lease_checks = runtime_fields_valid_def reservationShapeValid_def noReservation_def hasReservation_def
  noQueueLease_def hasQueueLease_def has_ok_def date_ok_def positive_version_def safe_integer_def

lemma queue_records_valid: "validRecord waiting_record" "validRecord held_record"
proof -
  have u: "random_uuid_ok sample_iid" "random_uuid_ok sample_lid" by (rule sample_uuids)+
  have "runtime_fields_valid waiting_record" "runtime_fields_valid held_record"
    by (simp_all add: lease_checks waiting_fields held_fields u sample_dates)
  moreover have "rr_taskVersion sample_record = Some 1" "rr_providerOutputs sample_record = None"
    by (simp_all add: sample_record_def)
  moreover have "date_ok (rr_updatedAt waiting_record)" "date_ok (rr_updatedAt held_record)"
    using sample_parts(4) by (simp_all add: waiting_record_def held_record_def)
  moreover have "rr_operation waiting_record = rr_operation sample_record" "rr_mode waiting_record = rr_mode sample_record"
    "rr_model waiting_record = rr_model sample_record" "rr_createdAt waiting_record = rr_createdAt sample_record"
    "rr_errorCode waiting_record = rr_errorCode sample_record"
    "rr_operation held_record = rr_operation sample_record" "rr_mode held_record = rr_mode sample_record"
    "rr_model held_record = rr_model sample_record" "rr_createdAt held_record = rr_createdAt sample_record"
    "rr_errorCode held_record = rr_errorCode sample_record"
    by (simp_all add: waiting_record_def held_record_def)
  ultimately show "validRecord waiting_record" "validRecord held_record"
    by (intro pending_valid[OF sample_valid(1)]; simp add: sample_kept waiting_fields held_fields)+
qed

lemma one_record_world_simps [simp]:
  "w_disk (one_record_world r) = Some \<lparr>rd_records = [r], rd_nextQueueTicket = Some 2\<rparr>"
  "rs_records (at_runtime i (one_record_world r)) = []"
  by (simp_all add: one_record_world_def at_runtime_def)

lemma one_record_worlds_valid:
  "opt_ok (validRuntimeDiskState ''owner-0123456789'') (w_disk (one_record_world waiting_record))"
  "opt_ok (validRuntimeDiskState ''owner-0123456789'') (w_disk (one_record_world held_record))"
  by (simp_all add: validRuntimeDiskState_def queue_records_valid positive_version_def safe_integer_def
      waiting_fields held_fields)

lemma sample_runtime_simps [simp]: "rt_ownerId sample_runtime = ''owner-0123456789''" "maxActiveTasks sample_runtime = 1"
  "rt_reservationOwnerId sample_runtime = sample_iid" "reservationLeaseMs sample_runtime = 30000"
  by (simp_all add: sample_runtime_def)

lemma calm_simps [simp]: "env_now (calm t) = t" "env_reload (calm t) = None" "env_write (calm t) = None"
  by (simp_all add: calm_def)

lemma sample_lives: "liveQueueLease sample_now waiting_record" "liveReservation sample_now held_record"
  "\<not> liveReservation (sample_now + 40000) held_record"
  by (simp_all add: liveQueueLease_def liveReservation_def expiry_after_def waiting_fields held_fields sample_dates)

lemma sample_iso: "date_parse (to_iso_string sample_now) = Some sample_now"
  "date_parse (lease_expiry sample_runtime sample_now) = Some (sample_now + 30000)"
  by (simp_all add: lease_expiry_def date_parse_to_iso_string iso_time_def sample_now_def)

lemmas progress_checks = record_progression_def reconciledUncertain_def identity_kept_def queue_kept_def
  reservation_kept_def expiry_less_def date_less_def int_or_def

lemma sample_room_left: "version_room waiting_record" "version_room held_record"
  by (simp_all add: version_room_def journal_version_of_def int_or_def waiting_fields held_fields)

lemma sample_reserve:
  "\<exists>s'. reserveSubmissionSlot sample_runtime (calm sample_now) (rr_key waiting_record) (rr_requestHash waiting_record)
     sample_lid (at_runtime 0 (one_record_world waiting_record)) = (Inr (Some sample_hold), s')"
proof -
  let ?s = "at_runtime 0 (one_record_world waiting_record)"
  let ?s1 = "?s\<lparr>rs_records := [waiting_record], rs_nextQueueTicket := 2\<rparr>"
  let ?r = "reserved_record sample_runtime sample_now sample_hold waiting_record"
  have load: "reloadFromDisk sample_runtime (calm sample_now) ?s = (Inr (), ?s1)"
    by (rule reload_one) (use one_record_worlds_valid(1) sample_lives(1) in
      \<open>simp_all add: dead_pending_def dead_queued_def waiting_fields int_or_def\<close>)
  have get: "cached ?s1 (rr_key waiting_record) = Some waiting_record" by (simp add: map_get_def)
  have turn: "hasQueuedGenerationPriority sample_runtime sample_now ?s1 waiting_record"
    using sample_lives(1) by (simp add: hasQueuedGenerationPriority_def Let_def slots_taken_def
        reservesOfficialSlot_def waiting_fields)
  have "runtime_fields_valid ?r"
    using sample_uuids by (simp add: lease_checks reserved_record_def clearQueueLease_def sample_hold_def
        waiting_fields sample_iso)
  then have valid: "validRecord ?r"
    by (intro pending_valid[OF queue_records_valid(1)])
      (simp_all add: reserved_record_def clearQueueLease_def waiting_fields identity_valid_def poll_fields_valid_def
        date_ok_def sample_iso)
  have step: "record_progression waiting_record ?r"
    by (simp add: progress_checks reserved_record_def clearQueueLease_def waiting_fields)
  have keys: "rr_key ?r = rr_key waiting_record" "rr_ownerId ?r = ''owner-0123456789''"
    by (simp_all add: reserved_record_def clearQueueLease_def waiting_fields)
  have set: "set_record ?r ?s1 = ?s1\<lparr>rs_records := [?r]\<rparr>" using keys by (simp add: set_record_def)
  have "\<exists>s'. saved sample_runtime (calm sample_now) (Some sample_hold) (set_record ?r ?s1) = (Inr (Some sample_hold), s')"
    unfolding set by (rule saved_one[where p = waiting_record])
      (use one_record_worlds_valid(1) keys step valid sample_room_left(1) in simp_all)
  moreover have "sample_hold = \<lparr>rv_id = sample_lid, rv_owner = sample_iid\<rparr>" by (simp add: sample_hold_def)
  ultimately show ?thesis using load get turn
    by (simp add: reserveSubmissionSlot_def reloaded_def waiting_fields(1) Let_def)
qed

lemma sample_permit:
  "\<exists>s'. commitInvocationFence sample_runtime (calm sample_now) (rr_key held_record) (rr_requestHash held_record)
     sample_hold 1 None (at_runtime 0 (one_record_world held_record)) = (Inr (), s')"
proof -
  let ?s = "at_runtime 0 (one_record_world held_record)"
  let ?s1 = "?s\<lparr>rs_records := [held_record], rs_nextQueueTicket := 2\<rparr>"
  let ?r = "fenced_record sample_runtime sample_now 1 None held_record"
  have load: "reloadFromDisk sample_runtime (calm sample_now) ?s = (Inr (), ?s1)"
    by (rule reload_one) (use one_record_worlds_valid(2) sample_lives(2) in
      \<open>simp_all add: dead_pending_def dead_queued_def held_fields int_or_def\<close>)
  have get: "cached ?s1 (rr_key held_record) = Some held_record" by (simp add: map_get_def)
  have "runtime_fields_valid ?r"
    using sample_uuids by (simp add: lease_checks fenced_record_def bind_account_def bound_account_def held_fields sample_iso)
  then have valid: "validRecord ?r"
    using valid_parts(4)[OF queue_records_valid(2)]
    by (intro pending_valid[OF queue_records_valid(2)])
      (simp_all add: fenced_record_def bind_account_def bound_account_def held_fields identity_valid_def poll_fields_valid_def)
  have step: "record_progression held_record ?r"
    by (simp add: progress_checks fenced_record_def bind_account_def bound_account_def held_fields sample_iso sample_dates)
  have keys: "rr_key ?r = rr_key held_record" "rr_ownerId ?r = ''owner-0123456789''"
    by (simp_all add: fenced_record_def held_fields)
  have set: "set_record ?r ?s1 = ?s1\<lparr>rs_records := [?r]\<rparr>" using keys by (simp add: set_record_def)
  have "\<exists>s'. saved sample_runtime (calm sample_now) () (set_record ?r ?s1) = (Inr (), s')"
    unfolding set by (rule saved_one[where p = held_record])
      (use one_record_worlds_valid(2) keys step valid sample_room_left(2) in simp_all)
  moreover have "matchesReservation held_record (rr_requestHash held_record) sample_hold"
    by (simp add: matchesReservation_def sample_hold_def held_fields)
  ultimately show ?thesis using load get sample_lives(2)
    by (simp add: commitInvocationFence_def reloaded_def held_fields account_differs_def bound_account_def)
qed

lemma sample_late_reload:
  "\<exists>s'. reloadFromDisk sample_runtime (calm (sample_now + 40000)) (at_runtime 0 (one_record_world held_record)) = (Inr (), s')"
proof -
  let ?t = "sample_now + 40000"
  let ?s = "at_runtime 0 (one_record_world held_record)"
  let ?r = "recover_record ?t held_record"
  have dead: "dead_pending ?t held_record" using sample_lives(3) by (simp add: dead_pending_def held_fields)
  have iso: "date_parse (to_iso_string ?t) = Some ?t"
    by (rule date_parse_to_iso_string) (simp add: iso_time_def sample_now_def)
  have "sample_lid \<noteq> []" "sample_iid \<noteq> []" by (simp_all add: sample_lid_def sample_iid_def)
  then have r: "?r = held_record\<lparr>rr_state := JFailed, rr_errorCode := Some ''dreamina_interrupted_before_submission'',
      rr_updatedAt := to_iso_string ?t, rr_reservationId := None, rr_reservationOwnerId := None,
      rr_reservationExpiresAt := None, rr_submissionPhase := None\<rparr>"
    using dead by (simp add: recover_record_def clearReservation_def held_fields)
  have code: "error_code_ok ''dreamina_interrupted_before_submission''" by code_simp
  have "task_fields_valid held_record" using valid_parts(5)[OF queue_records_valid(2)] by (simp add: held_fields)
  then have "task_fields_valid ?r" unfolding r by (simp add: task_fields_valid_def held_fields code)
  moreover have "runtime_fields_valid ?r" unfolding r by (simp add: lease_checks held_fields)
  moreover have "identity_valid ?r" "poll_fields_valid ?r"
    using valid_parts(1,2)[OF queue_records_valid(2)] unfolding r by (simp_all add: identity_valid_def poll_fields_valid_def)
  ultimately have valid: "validRecord ?r" using iso
    by (simp add: validRecord_def baseValid_def held_fields) (simp add: r date_ok_def)
  have step: "record_progression held_record ?r" unfolding r by (simp add: progress_checks held_fields)
  let ?s1 = "?s\<lparr>rs_records := [?r], rs_nextQueueTicket := 2\<rparr>"
  have keys: "rr_key ?r = rr_key held_record" "rr_ownerId ?r = ''owner-0123456789''" by (simp_all add: held_fields)
  have "\<exists>s'. saved sample_runtime (calm ?t) () ?s1 = (Inr (), s')"
    by (rule saved_one[where p = held_record])
      (use one_record_worlds_valid(2) keys step valid sample_room_left(2) in simp_all)
  then obtain s' where "persistUnlocked sample_runtime None ?s1 = (Inr (), s')"
    by (auto simp: saved_def split: prod.splits sum.splits)
  then show ?thesis using one_record_worlds_valid(2) dead
    by (simp add: reloadFromDisk_def reload_accepts_def next_ticket_def int_or_def held_fields)
qed

end
