(* ===== verification/RuntimeQueueClaims.thy ===== *)
theory RuntimeQueueClaims
  imports RuntimeWorld
begin

text \<open>
  Properties of the queue: the limit on running generations holds for all processes together, a slot
  goes to the tasks in the order of their tickets, a task that may have been submitted is not submitted
  again, and a reservation that has run out is worth nothing.
\<close>

section \<open>The limit on generations\<close>

abbreviation slots_of :: "runtime_record multiset \<Rightarrow> int" where
  "slots_of M \<equiv> int (size (filter_mset reservesOfficialSlot M))"

lemma slot_version [simp]: "reservesOfficialSlot (unversioned r) = reservesOfficialSlot r"
  by (simp add: reservesOfficialSlot_def)

lemma slots_of_content: "slots_of (content rs) = slots_taken rs"
  by (induction rs) (auto simp: slots_taken_def)

lemma slots_map:
  "(\<And>x. x \<in> set rs \<Longrightarrow> reservesOfficialSlot (f x) \<Longrightarrow> reservesOfficialSlot x) \<Longrightarrow> slots_taken (map f rs) \<le> slots_taken rs"
proof (induction rs)
  case (Cons x xs)
  have "slots_taken (map f xs) \<le> slots_taken xs" using Cons.IH Cons.prems by simp
  with Cons.prems[of x] show ?case by (auto simp: slots_taken_def)
qed (simp add: slots_taken_def)

lemma slots_list_all2: "list_all2 (\<lambda>p i. reservesOfficialSlot i \<longrightarrow> reservesOfficialSlot p) rs qs \<Longrightarrow>
    slots_taken qs \<le> slots_taken rs"
  by (induction rule: list_all2_induct) (auto simp: slots_taken_def)

lemma slots_update:
  assumes "distinct (map k rs)"
  shows "slots_taken (map (\<lambda>x. if k x = a then r else x) rs) \<le> slots_taken rs + 1"
  using assms
proof (induction rs)
  case (Cons x xs)
  show ?case
  proof (cases "k x = a")
    case True
    with Cons.prems have "k y \<noteq> a" if "y \<in> set xs" for y using that by (metis distinct.simps(2) image_eqI list.simps(9) set_map)
    then have "map (\<lambda>x. if k x = a then r else x) xs = xs" by (intro map_idI) simp
    with True show ?thesis by (simp add: slots_taken_def)
  next
    case False
    with Cons show ?thesis by (simp add: slots_taken_def)
  qed
qed (simp add: slots_taken_def)

lemma slots_filter: "slots_taken (filter Q rs) \<le> slots_taken rs"
  by (induction rs) (auto simp: slots_taken_def)

lemma recover_slot: "reservesOfficialSlot (recover_record t r) \<Longrightarrow> reservesOfficialSlot r"
  by (auto simp: recover_record_def reservesOfficialSlot_def dead_pending_def Let_def clearQueueLease_def
      split: if_splits)

lemma rec_change_slot: "rec_change c t x r r' \<Longrightarrow> reservesOfficialSlot r' \<Longrightarrow> reservesOfficialSlot r"
  by (induction rule: rec_change.induct)
    (auto simp: reservesOfficialSlot_def matchesReservation_def failed_record_def cancelled_record_def
      removed_record_def clearQueueLease_def split: if_splits)

lemma replaced_slots:
  assumes "distinct (map rr_key rs)" "r \<in> set rs" "rec_change c t x r r'"
  shows "slots_taken (replaced r' rs) \<le> slots_taken rs"
proof (rule slots_map)
  fix y assume y: "y \<in> set rs" "reservesOfficialSlot (if rr_key y = rr_key r' then r' else y)"
  show "reservesOfficialSlot y"
  proof (cases "rr_key y = rr_key r'")
    case True
    then have "rr_key y = rr_key r" using rec_change_key[OF assms(3)] by simp
    with assms(1,2) y(1) have "y = r" by (meson distinct_map inj_onD)
    moreover have "reservesOfficialSlot r'" using y(2) True by simp
    ultimately show ?thesis using rec_change_slot[OF assms(3)] by simp
  qed (use y(2) in simp)
qed

lemma change_slots:
  assumes "rt_change c t x rs rs'" "distinct (map rr_key rs)" "slots_taken rs \<le> M" "maxActiveTasks c \<le> M"
  shows "slots_taken rs' \<le> M"
  using assms(1)
proof (cases rule: rt_change.cases)
  case (one r r')
  with replaced_slots[OF assms(2) one(2,3)] assms(3) show ?thesis by simp
next
  case (reserved r s h rid)
  from reserved(7) have "slots_taken rs < maxActiveTasks c"
    unfolding hasQueuedGenerationPriority_def Let_def reserved(2) by (metis diff_gt_0_iff_gt linorder_not_le)
  moreover have "slots_taken (replaced q rs) \<le> slots_taken rs + 1" for q by (rule slots_update[OF assms(2)])
  ultimately have "slots_taken (replaced q rs) \<le> M" for q using assms(4) by (meson order_trans zless_imp_add1_zle)
  then show ?thesis unfolding reserved(3) reserved(2)[symmetric] by this
next
  case (entered q st env0 n)
  have "\<not> reservesOfficialSlot (queued_record c t n q)" by (simp add: reservesOfficialSlot_def queued_record_def)
  with entered assms(3) show ?thesis by (simp add: slots_taken_def)
next
  case (withdrawn r h v fe code)
  with slots_filter[of _ rs] assms(3) show ?thesis by (meson order_trans)
next
  case disposed
  have "slots_taken rs' \<le> slots_taken rs" unfolding disposed(2)
    by (rule slots_map) (auto simp: interrupted_record_def reservesOfficialSlot_def clearQueueLease_def split: if_splits)
  with assms(3) show ?thesis by simp
next
  case (direct r k e h)
  with assms(3,4) show ?thesis by (simp add: slots_taken_def)
qed

text \<open>Polling frees slots only: a record is sent back to \<open>accepted\<close> from \<open>unknown\<close> alone.\<close>

lemma poll_slot:
  assumes "op_moves z p i" "validRecord p" "validRecord i" "durable p \<longrightarrow> record_kept p i"
    and "reservesOfficialSlot i"
  shows "reservesOfficialSlot p"
proof (rule ccontr)
  assume no: "\<not> reservesOfficialSlot p"
  note m = op_moves_reservation[OF assms(1)]
  have acc: "rr_state i = JAccepted" using m(6) no assms(5) by (auto simp: reservesOfficialSlot_def)
  with assms(3) have "hasSubmitId i" by (simp add: validRecord_def baseValid_def)
  then have sub: "truthy (rr_submitId p)" using m(5) by (auto simp: hasSubmitId_def has_ok_def truthy_def chars_ok_def split: option.splits)
  with assms(4) have "record_kept p i" by (simp add: durable_def)
  from record_keptD(9)[OF this] acc have "rr_state p \<notin> {JSucceeded, JFailed, JCancelled, JDeleted}" by auto
  moreover have "rr_state p \<noteq> JQueued" using assms(2) sub by (auto simp: validRecord_def baseValid_def)
  ultimately show False using no by (cases "rr_state p") (auto simp: reservesOfficialSlot_def)
qed

lemma poll_slots:
  assumes "journal_valid owner d" "step_ok owner z d e"
  shows "slots_taken (disk_records e) \<le> slots_taken (disk_records d)"
proof (rule slots_list_all2)
  have v: "journal_valid owner e" and k: "journal_kept d e"
    and all: "list_all2 (op_moves z) (disk_records d) (disk_records e)"
    using assms(2) unfolding step_ok_def by blast+
  show "list_all2 (\<lambda>p i. reservesOfficialSlot i \<longrightarrow> reservesOfficialSlot p) (disk_records d) (disk_records e)"
    unfolding list_all2_conv_all_nth
  proof (intro conjI allI impI)
    show "length (disk_records d) = length (disk_records e)" using all by (rule list_all2_lengthD)
    fix n assume n: "n < length (disk_records d)" and s: "reservesOfficialSlot (disk_records e ! n)"
    let ?p = "disk_records d ! n" and ?i = "disk_records e ! n"
    have mem: "?p \<in> set (disk_records d)" "?i \<in> set (disk_records e)"
      using nth_mem[OF n] nth_mem[OF n[unfolded list_all2_lengthD[OF all]]] by this
    have m: "op_moves z ?p ?i" using list_all2_nthD[OF all n] .
    have "record_kept ?p ?i" if durable: "durable ?p"
    proof -
      from k mem(1) durable obtain j where j: "j \<in> set (disk_records e)" "record_kept ?p j"
        unfolding journal_kept_def by blast
      from record_keptD(1)[OF j(2)] op_moves_reservation(1)[OF m] have "rr_key j = rr_key ?i" by simp
      with valid_distinct[OF v] j(1) mem(2) have "j = ?i" by (meson distinct_map inj_onD)
      with j(2) show ?thesis by simp
    qed
    with poll_slot[OF m] s valid_record_in[OF assms(1) mem(1)] valid_record_in[OF v mem(2)]
    show "reservesOfficialSlot ?p" by blast
  qed
qed

interpretation slots: journal_invariant "\<lambda>K. slots_of K \<le> M" "\<lambda>c x. maxActiveTasks c \<le> M" for M
proof
  show "slots_of (content (map (recover_record t) rs)) \<le> M" if "slots_of (content rs) \<le> M" for rs t
    using that slots_map[of rs "recover_record t"] recover_slot unfolding slots_of_content by (meson order_trans)
  show "slots_of (content rs') \<le> M" if "slots_of (content rs) \<le> M" "distinct (map rr_key rs)"
    "maxActiveTasks c \<le> M" "rt_change c t x rs rs'" for rs rs' c x t
    using change_slots[OF that(4,2)] that(1,3) unfolding slots_of_content by blast
  show "slots_of (disk_content e) \<le> M" if "slots_of (disk_content d) \<le> M" "journal_valid owner d" "step_ok owner z d e"
    for d e owner z
    using poll_slots[OF that(2,3)] that(1) unfolding slots_of_content by simp
qed

text \<open>C5: The limit on running generations holds across processes: when every runtime that works on a
  journal allows at most \<open>M\<close> generations, the records that hold a slot at the provider (pending,
  accepted, or in doubt) are never more than \<open>M\<close>, whatever the runtimes and the reconcilers do, in any
  order, with failed writes, lost locks, expired leases and restarts between.\<close>

theorem slots_never_oversold:
  assumes "\<forall>i. rt_ownerId (cs i) = owner \<and> maxActiveTasks (cs i) \<le> M"
    and "opt_ok (validRuntimeDiskState owner) (w_disk w)" "slots_taken (disk_records (w_disk w)) \<le> M"
  shows "slots_taken (disk_records (w_disk (world_run cs owner w ops))) \<le> M"
proof -
  have "all_admissible (\<lambda>c x. maxActiveTasks c \<le> M) cs owner ops"
    using assms(1) by (auto simp: all_admissible_def list_all_iff split: world_op.splits)
  from slots.holds_along[OF assms(2) _ this] assms(3) show ?thesis unfolding slots_of_content by blast
qed

section \<open>No second submission\<close>

text \<open>The record of a task whose process may have been started: pending under the reservation that was
  permitted, or past it.\<close>

definition spent :: "reservation \<Rightarrow> runtime_record \<Rightarrow> bool" where
  "spent v r \<longleftrightarrow> rr_state r \<notin> {JQueued, JPending}
     \<or> rr_state r = JPending \<and> rr_reservationId r = Some (rv_id v) \<and> rr_reservationOwnerId r = Some (rv_owner v)
       \<and> rr_submissionPhase r = Some SpawnPermitted"

text \<open>The one way back: its holder reports that nothing was started.\<close>

fun withdraws :: "string \<Rightarrow> reservation \<Rightarrow> rt_op \<Rightarrow> bool" where
  "withdraws k v (GiveUp k' h v' fe sp code) = (k' = k \<and> v' = v \<and> \<not> sp)"
| "withdraws k v _ = False"

abbreviation spent_in :: "string \<Rightarrow> reservation \<Rightarrow> runtime_record multiset \<Rightarrow> bool" where
  "spent_in k v K \<equiv> \<exists>r \<in># K. rr_key r = k \<and> spent v r"

lemma spent_version [simp]: "spent v (unversioned r) = spent v r"
  by (simp add: spent_def)

lemma spent_content: "spent_in k v (content rs) \<longleftrightarrow> (\<exists>r \<in> set rs. rr_key r = k \<and> spent v r)"
  by auto

lemma recover_spent: "spent v r \<Longrightarrow> spent v (recover_record t r)"
  by (auto simp: spent_def recover_record_def dead_pending_def clearReservation_def clearQueueLease_def Let_def)

lemma rec_change_spent: "rec_change c t x r r' \<Longrightarrow> spent v r \<Longrightarrow> spent v r'"
  by (induction rule: rec_change.induct)
    (auto simp: spent_def matchesReservation_def fenced_record_def accepted_record_def unknown_record_def
      failed_record_def cancelled_record_def removed_record_def clearReservation_def clearQueueLease_def)

lemma spent_matches: "spent v r \<Longrightarrow> matchesReservation r h v' \<Longrightarrow> v' = v"
  by (cases v, cases v') (auto simp: spent_def matchesReservation_def)

lemma change_spent:
  assumes "rt_change c t x rs rs'" "distinct (map rr_key rs)" "r0 \<in> set rs" "rr_key r0 = k" "spent v r0"
    and "\<not> withdraws k v x"
  shows "\<exists>r \<in> set rs'. rr_key r = k \<and> spent v r"
  using assms(1)
proof (cases rule: rt_change.cases)
  case (one r r')
  from replaced_keeps[OF assms(2) one(2) refl assms(3), of r']
  have "r0 \<in> set rs' \<or> r0 = r \<and> r' \<in> set rs'" unfolding one(1) rec_change_key[OF one(3)] by blast
  then show ?thesis
  proof
    assume "r0 \<in> set rs'"
    with assms(4,5) show ?thesis by blast
  next
    assume r: "r0 = r \<and> r' \<in> set rs'"
    have "rr_key r' = k" using rec_change_key[OF one(3)] r assms(4) by simp
    moreover have "spent v r'" using rec_change_spent[OF one(3)] r assms(5) by simp
    ultimately show ?thesis using r by blast
  qed
next
  case (reserved r s h rid)
  let ?q = "reserved_record c t \<lparr>rv_id = rid, rv_owner = rt_reservationOwnerId c\<rparr> r"
  have "rr_key ?q = rr_key r" by (simp add: reserved_record_def clearQueueLease_def)
  with replaced_keeps[OF assms(2) reserved(4)[folded reserved(2)] refl assms(3), of ?q]
  have "r0 \<in> set rs' \<or> r0 = r" unfolding reserved(3) reserved(2)[symmetric] by metis
  moreover have "r0 \<noteq> r" using assms(5) reserved(6) by (auto simp: spent_def)
  ultimately show ?thesis using assms(4,5) by blast
next
  case (entered q st env0 n)
  with assms(3-5) show ?thesis by auto
next
  case (withdrawn r h v' fe code)
  have "rr_key r \<noteq> k"
  proof
    assume k: "rr_key r = k"
    with assms(2-4) withdrawn(3) have "r = r0" by (meson distinct_map inj_onD)
    with spent_matches[OF assms(5)] withdrawn(1,4) assms(6) k show False by auto
  qed
  with assms(3-5) withdrawn(2) show ?thesis by auto
next
  case disposed
  have "\<not> owns_queued c r0" using assms(5) by (auto simp: owns_queued_def spent_def)
  then have "r0 \<in> set rs'" unfolding disposed(2) set_map
    by (intro image_eqI[where x = r0]) (simp_all add: assms(3))
  with assms(4,5) show ?thesis by blast
next
  case (direct r k' e h)
  with assms(3-5) show ?thesis by auto
qed

interpretation spending: journal_invariant "spent_in k v" "\<lambda>c x. \<not> withdraws k v x" for k v
proof
  show "spent_in k v (content (map (recover_record t) rs))" if "spent_in k v (content rs)" for rs t
    using that unfolding spent_content by (auto intro: recover_spent)
  show "spent_in k v (content rs')" if "spent_in k v (content rs)" "distinct (map rr_key rs)"
    "\<not> withdraws k v x" "rt_change c t x rs rs'" for rs rs' c x t
    using change_spent[OF that(4,2)] that(1,3) unfolding spent_content by blast
  show "spent_in k v (disk_content e)" if p: "spent_in k v (disk_content d)" "journal_valid owner d" "step_ok owner z d e"
    for d e owner z
  proof -
    obtain r where r: "r \<in> set (disk_records d)" "rr_key r = k" "spent v r" using p(1) unfolding spent_content by blast
    have "list_all2 (op_moves z) (disk_records d) (disk_records e)" using p(3) unfolding step_ok_def by blast
    from list_all2_memD[OF this r(1)] obtain i where i: "i \<in> set (disk_records e)" "op_moves z r i" by blast
    note m = op_moves_reservation[OF i(2)]
    have "spent v i" using r(3) m(2-4,6) unfolding spent_def by auto
    with i(1) m(1) r(2) show ?thesis unfolding spent_content by metis
  qed
qed

text \<open>A permission leaves such a record behind, and such a record refuses the others.\<close>

lemma fresh_spent:
  assumes "fresh c t d s" "spent_in k v (disk_content d)"
  obtains r where "cached s k = Some r" "spent v r"
proof -
  have "spent_in k v (recovered t d)" using assms(2) unfolding spent_content by (auto intro: recover_spent)
  moreover have "content (rs_records s) = recovered t d" using assms(1) by (simp add: fresh_def)
  ultimately have "spent_in k v (content (rs_records s))" by simp
  then obtain r where "r \<in> set (rs_records s)" "rr_key r = k" "spent v r" unfolding spent_content by blast
  with cached_iff[OF assms(1)] that show thesis by blast
qed

lemma permit_spends:
  assumes "commitInvocationFence c env k h v fe x s = (Inr (), s')"
  shows "spent_in k v (disk_content (rs_disk s'))"
  using assms unfolding commitInvocationFence_def
proof (cases rule: reloaded_cases)
  case (stopped e)
  then show ?thesis by simp
next
  case (ran s1)
  from ran(2) obtain r where r: "cached s1 k = Some r" "matchesReservation r h v"
    "saved c env () (set_record (fenced_record c (env_now env) fe x r) s1) = (Inr (), s')"
    by (auto split: option.splits if_splits)
  let ?q = "fenced_record c (env_now env) fe x r"
  have k: "r \<in> set (rs_records s1)" "rr_key r = k" using r(1) unfolding cached_iff[OF ran(1)] by blast+
  have key: "rr_key ?q = rr_key r" by (simp add: fenced_record_def)
  have "rr_key ?q \<in> rr_key ` set (rs_records s1)" unfolding key using k(1) by (rule imageI)
  note rep = set_record_replaced(1)[OF this]
  have "distinct (map rr_key (rs_records s1))" using ran(1) by (simp add: fresh_def)
  from replaced_keeps[OF this k(1) refl k(1), of ?q] have "?q \<in> set (rs_records (set_record ?q s1))"
    unfolding rep key by blast
  moreover have "spent v ?q" using r(2) by (simp add: spent_def matchesReservation_def fenced_record_def)
  ultimately have "spent_in k v (content (rs_records (set_record ?q s1)))" using key k(2) unfolding spent_content by metis
  with saved_effect(1)[OF r(3)] show ?thesis by auto
qed

lemma spent_refuses:
  assumes "spent_in k v (disk_content (rs_disk s))"
  shows "commitInvocationFence c env k h v' fe x s = (Inr (), s') \<Longrightarrow> v' = v"
    "reserveSubmissionSlot c env k h rid s \<noteq> (Inr (Some v'), s')"
    "recordKey (rt_ownerId c) idem = k \<Longrightarrow> submitWithLock c env e idem h s = submitWithLock c env e' idem h s"
proof -
  show "v' = v" if "commitInvocationFence c env k h v' fe x s = (Inr (), s')"
    using that unfolding commitInvocationFence_def
  proof (cases rule: reloaded_cases)
    case (stopped e)
    then show ?thesis by simp
  next
    case (ran s1)
    from fresh_spent[OF ran(1) assms] obtain r where r: "cached s1 k = Some r" "spent v r" .
    with ran(2) have "matchesReservation r h v'" by (auto split: if_splits)
    with r(2) show ?thesis by (rule spent_matches)
  qed
  show "reserveSubmissionSlot c env k h rid s \<noteq> (Inr (Some v'), s')"
  proof
    assume "reserveSubmissionSlot c env k h rid s = (Inr (Some v'), s')"
    then show False unfolding reserveSubmissionSlot_def
    proof (cases rule: reloaded_cases)
      case (stopped e)
      then show ?thesis by simp
    next
      case (ran s1)
      from fresh_spent[OF ran(1) assms] obtain r where r: "cached s1 k = Some r" "spent v r" .
      then have "rr_state r \<noteq> JQueued" by (auto simp: spent_def)
      with ran(2) r(1) show ?thesis by (auto split: if_splits)
    qed
  qed
  show "submitWithLock c env e idem h s = submitWithLock c env e' idem h s" if k: "recordKey (rt_ownerId c) idem = k"
  proof -
    obtain res s1 where s1: "reloadFromDisk c env s = (res, s1)" by fastforce
    show ?thesis
    proof (cases res)
      case (Inl err)
      with s1 show ?thesis by (simp add: submitWithLock_def reloaded_def)
    next
      case (Inr u)
      with reload_effect(2)[OF s1] have "fresh c (env_now env) (rs_disk s) s1" by simp
      from fresh_spent[OF this assms] obtain r where "cached s1 k = Some r" .
      with s1 Inr k show ?thesis by (simp add: submitWithLock_def reloaded_def)
    qed
  qed
qed

text \<open>C4: A task is started at most once. Once a runtime has been allowed to start the process of a task,
  under reservation \<open>v\<close>, then as long as that holder does not report that nothing was started: no runtime
  gets a new reservation for the task, no other reservation is allowed to start it, and a direct
  submission under its key runs no process (its result does not depend on what the process would do);
  whatever the runtimes and the reconcilers do between, with faults, expired leases and restarts.\<close>

theorem started_at_most_once:
  assumes "\<forall>i. rt_ownerId (cs i) = owner" "opt_ok (validRuntimeDiskState owner) (w_disk w)"
    and "commitInvocationFence (cs i) env k h v fe x (at_runtime i w) = (Inr (), s)"
    and "\<forall>z \<in> set ops. case z of Runtime _ _ y \<Rightarrow> \<not> withdraws k v y | _ \<Rightarrow> True"
  defines "w' \<equiv> world_run cs owner (put_runtime i s w) ops"
  shows "(commitInvocationFence (cs j) env' k h' v' fe' x' (at_runtime j w') = (Inr (), s') \<longrightarrow> v' = v)
    \<and> reserveSubmissionSlot (cs j) env' k h' rid (at_runtime j w') \<noteq> (Inr (Some v'), s')
    \<and> (recordKey owner idem = k \<longrightarrow>
        submitWithLock (cs j) env' e idem h' (at_runtime j w') = submitWithLock (cs j) env' e' idem h' (at_runtime j w'))"
proof -
  have v: "journal_valid owner (rs_disk s)"
    using section_valid[OF permit_step[OF assms(3)]] assms(1,2) by simp
  have "all_admissible (\<lambda>c x. \<not> withdraws k v x) cs owner ops"
    using assms(1,4) by (auto simp: all_admissible_def list_all_iff split: world_op.splits)
  from spending.holds_along[OF _ _ this, of "put_runtime i s w"] v permit_spends[OF assms(3)]
  have "spent_in k v (disk_content (rs_disk (at_runtime j w')))" unfolding w'_def world_simps by blast
  from spent_refuses[OF this] assms(1) show ?thesis by metis
qed

section \<open>Lost reservations\<close>

abbreviation holds :: "reservation \<Rightarrow> runtime_record \<Rightarrow> bool" where
  "holds v r \<equiv> rr_state r = JPending \<and> rr_reservationId r = Some (rv_id v) \<and> rr_reservationOwnerId r = Some (rv_owner v)"

definition void_in :: "string \<Rightarrow> reservation \<Rightarrow> runtime_record multiset \<Rightarrow> bool" where
  "void_in k v K \<longleftrightarrow> (\<forall>r \<in># K. rr_key r = k \<longrightarrow> \<not> holds v r)"

lemma void_content: "void_in k v (content rs) \<longleftrightarrow> (\<forall>r \<in> set rs. rr_key r = k \<longrightarrow> \<not> holds v r)"
  by (simp add: void_in_def)

text \<open>Drawing the same reservation id again, for the same task and process.\<close>

fun draws :: "runtime_config \<Rightarrow> string \<Rightarrow> reservation \<Rightarrow> rt_op \<Rightarrow> bool" where
  "draws c k v (Reserve k' h rid) = (k' = k \<and> rid = rv_id v \<and> rt_reservationOwnerId c = rv_owner v)"
| "draws c k v _ = False"

lemma recover_holds: "holds v (recover_record t r) \<Longrightarrow> holds v r \<and> liveReservation t r"
  by (auto simp: recover_record_def dead_pending_def dead_queued_def clearReservation_def clearQueueLease_def
      Let_def split: if_splits)

lemma rec_change_holds: "rec_change c t x r r' \<Longrightarrow> holds v r' \<Longrightarrow> holds v r"
  by (induction rule: rec_change.induct)
    (auto simp: fenced_record_def accepted_record_def unknown_record_def failed_record_def cancelled_record_def
      removed_record_def clearReservation_def clearQueueLease_def split: if_splits)

lemma change_void:
  assumes "rt_change c t x rs rs'" "\<forall>r \<in> set rs. rr_key r = k \<longrightarrow> \<not> holds v r" "\<not> draws c k v x"
    and "r0 \<in> set rs'" "rr_key r0 = k"
  shows "\<not> holds v r0"
  using assms(1)
proof (cases rule: rt_change.cases)
  case (one r r')
  from in_replaced[OF assms(4)[unfolded one(1)]] show ?thesis
  proof
    assume "r0 = r'"
    with rec_change_key[OF one(3)] assms(5) have "rr_key r = k" by simp
    with assms(2) one(2) have "\<not> holds v r" by blast
    with rec_change_holds[OF one(3)] \<open>r0 = r'\<close> show ?thesis by blast
  qed (use assms(2,5) in blast)
next
  case (reserved r s h rid)
  let ?q = "reserved_record c t \<lparr>rv_id = rid, rv_owner = rt_reservationOwnerId c\<rparr> r"
  have key: "rr_key ?q = rr_key r" by (simp add: reserved_record_def clearQueueLease_def)
  from in_replaced[OF assms(4)[unfolded reserved(3)]] show ?thesis
  proof
    assume q: "r0 = ?q"
    then have "rr_key r = k" using key assms(5) by simp
    with assms(3) reserved(1) have "\<not> (rid = rv_id v \<and> rt_reservationOwnerId c = rv_owner v)" by simp
    then show ?thesis using q by (auto simp: reserved_record_def)
  qed (use assms(2,5) reserved(2) in blast)
next
  case (entered q st env0 n)
  with assms(2,4,5) show ?thesis by (auto simp: queued_record_def)
next
  case (withdrawn r h v' fe code)
  with assms(2,4,5) show ?thesis by auto
next
  case disposed
  from assms(4) obtain r where r: "r \<in> set rs" "r0 = (if owns_queued c r then interrupted_record t r else r)"
    unfolding disposed(2) by auto
  show ?thesis
  proof (cases "owns_queued c r")
    case True
    with r(2) show ?thesis by (simp add: interrupted_record_def clearQueueLease_def)
  next
    case False
    with r assms(2,5) show ?thesis by auto
  qed
next
  case (direct r k' e h)
  with assms(2,4,5) show ?thesis by (auto simp: direct_state_def)
qed

interpretation voiding: journal_invariant "void_in k v" "\<lambda>c x. \<not> draws c k v x" for k v
proof
  show "void_in k v (content (map (recover_record t) rs))" if "void_in k v (content rs)" for rs t
    unfolding void_content
  proof (intro ballI impI)
    fix q assume q: "q \<in> set (map (recover_record t) rs)" "rr_key q = k"
    then obtain r where r: "r \<in> set rs" "q = recover_record t r" by auto
    with q(2) have "rr_key r = k" by simp
    with that r(1) have "\<not> holds v r" unfolding void_content by blast
    with recover_holds[of t r v] r(2) show "\<not> holds v q" by blast
  qed
  show "void_in k v (content rs')" if "void_in k v (content rs)" "distinct (map rr_key rs)"
    "\<not> draws c k v x" "rt_change c t x rs rs'" for rs rs' c x t
    using change_void[OF that(4) _ that(3)] that(1) unfolding void_content by blast
  show "void_in k v (disk_content e)" if p: "void_in k v (disk_content d)" "journal_valid owner d" "step_ok owner z d e"
    for d e owner z
    unfolding void_content
  proof (intro ballI impI)
    fix i assume i: "i \<in> set (disk_records e)" "rr_key i = k"
    have "list_all2 (op_moves z) (disk_records d) (disk_records e)" using p(3) unfolding step_ok_def by blast
    from list_all2_memD2[OF this i(1)] obtain r where r: "r \<in> set (disk_records d)" "op_moves z r i" by blast
    note m = op_moves_reservation[OF r(2)]
    from m(1) i(2) have "rr_key r = k" by metis
    with p(1) r(1) have "\<not> holds v r" unfolding void_content by blast
    with m(2,3,6) show "\<not> holds v i" by auto
  qed
qed

lemma fresh_void:
  assumes "fresh c t d s" "void_in k v (disk_content d)" "cached s k = Some r"
  shows "\<not> matchesReservation r h v"
proof -
  from voiding.recovers[OF assms(2)] have "void_in k v (content (rs_records s))"
    using assms(1) by (simp add: fresh_def)
  moreover have "r \<in> set (rs_records s)" "rr_key r = k" using assms(1,3) cached_iff by blast+
  ultimately have "\<not> holds v r" unfolding void_content by blast
  then show ?thesis by (auto simp: matchesReservation_def)
qed

text \<open>An operation on a reservation is its reload, when the record is no longer reserved by it.\<close>

lemma reloaded_refused:
  assumes "void_in k v (disk_content (rs_disk s))"
    and "\<And>s1. cached s1 k = None \<Longrightarrow> body s1 = (Inl e, s1)"
    and "\<And>s1 r. cached s1 k = Some r \<Longrightarrow> \<not> matchesReservation r h v \<Longrightarrow> body s1 = (Inl e, s1)"
  shows "\<exists>e. reloaded c env body s = (Inl e, snd (reloadFromDisk c env s))"
proof (cases "reloadFromDisk c env s")
  case (Pair res s1)
  show ?thesis
  proof (cases res)
    case (Inl err)
    with Pair show ?thesis by (simp add: reloaded_def)
  next
    case (Inr u)
    with reload_effect(2)[OF Pair] have f: "fresh c (env_now env) (rs_disk s) s1" by simp
    have "body s1 = (Inl e, s1)"
      using assms(2)[of s1] assms(3)[of s1] fresh_void[OF f assms(1)] by (cases "cached s1 k") blast+
    with Pair Inr show ?thesis by (simp add: reloaded_def)
  qed
qed

lemma void_refuses:
  assumes "void_in k v (disk_content (rs_disk s))"
  shows "\<exists>err. renewReservation c env k h v s = (Inl err, snd (reloadFromDisk c env s))"
    "\<exists>err. commitInvocationFence c env k h v fe x s = (Inl err, snd (reloadFromDisk c env s))"
    "\<exists>err. commitAcceptedReceipt c env k h v fe sid cur x s = (Inl err, snd (reloadFromDisk c env s))"
    "\<exists>err. commitSubmissionFailure c env k h v fe' sp code s = (Inl err, snd (reloadFromDisk c env s))"
  unfolding renewReservation_def commitInvocationFence_def commitAcceptedReceipt_def commitSubmissionFailure_def
  by (rule reloaded_refused[where h = h and e = cliFenced, OF assms]; simp)+

text \<open>C15: A reservation that was lost stays lost. When its lease has run out at the time of some
  runtime's reload, then from that reload on, as long as the same id is not drawn again, the holder's
  heartbeat, its request for permission, its receipt and its failure report are refused in every later
  state and do nothing to copy and journal beyond their own reload.\<close>

theorem lost_reservation_void:
  assumes "\<forall>i. rt_ownerId (cs i) = owner" "opt_ok (validRuntimeDiskState owner) (w_disk w)"
    and "\<forall>r \<in> set (disk_records (w_disk w)). rr_key r = k \<and> rr_reservationId r = Some (rv_id v)
       \<longrightarrow> \<not> liveReservation (env_now env) r"
    and "reloadFromDisk (cs i) env (at_runtime i w) = (Inr (), s)"
    and "\<forall>z \<in> set ops. case z of Runtime l _ y \<Rightarrow> \<not> draws (cs l) k v y | _ \<Rightarrow> True"
  defines "w' \<equiv> world_run cs owner (put_runtime i s w) ops"
  shows "(\<exists>err. renewReservation (cs j) env' k h v (at_runtime j w')
      = (Inl err, snd (reloadFromDisk (cs j) env' (at_runtime j w'))))
    \<and> (\<exists>err. commitInvocationFence (cs j) env' k h v fe x (at_runtime j w')
      = (Inl err, snd (reloadFromDisk (cs j) env' (at_runtime j w'))))
    \<and> (\<exists>err. commitAcceptedReceipt (cs j) env' k h v fe sid cur x (at_runtime j w')
      = (Inl err, snd (reloadFromDisk (cs j) env' (at_runtime j w'))))
    \<and> (\<exists>err. commitSubmissionFailure (cs j) env' k h v fe' sp code (at_runtime j w')
      = (Inl err, snd (reloadFromDisk (cs j) env' (at_runtime j w'))))"
proof -
  have v: "journal_valid owner (rs_disk s)"
    and c: "disk_content (rs_disk s) = recovered (env_now env) (w_disk w)"
    using reload_effect(2)[OF assms(4)] assms(1) by (simp_all add: fresh_def)
  have "void_in k v (recovered (env_now env) (w_disk w))"
    unfolding void_content
  proof (intro ballI impI)
    fix q assume q: "q \<in> set (map (recover_record (env_now env)) (disk_records (w_disk w)))" "rr_key q = k"
    then obtain r where r: "r \<in> set (disk_records (w_disk w))" "q = recover_record (env_now env) r" by auto
    with q(2) have "rr_key r = k" by simp
    with assms(3) r(1) have "rr_reservationId r = Some (rv_id v) \<longrightarrow> \<not> liveReservation (env_now env) r" by blast
    with recover_holds[of "env_now env" r v] r(2) show "\<not> holds v q" by blast
  qed
  then have void: "void_in k v (disk_content (rs_disk s))" unfolding c .
  have "list_all (\<lambda>z. case z of Runtime i env x \<Rightarrow> rt_ownerId (cs i) = owner \<and> \<not> draws (cs i) k v x | _ \<Rightarrow> True) ops"
    using assms(1,5) by (auto simp: list_all_iff split: world_op.splits)
  then have "all_admissible (\<lambda>c x. \<not> draws c k v x) cs owner ops" unfolding all_admissible_def .
  from voiding.holds_along[OF _ _ this, of "put_runtime i s w"] v void
  have "void_in k v (disk_content (rs_disk (at_runtime j w')))" unfolding w'_def world_simps by blast
  then show ?thesis by (intro conjI void_refuses)
qed

section \<open>Examples\<close>

lemma slots_never_oversold_witness:
  "slots_taken (disk_records (w_disk (world_run (\<lambda>_. sample_runtime) ''owner-0123456789'' (one_record_world held_record)
     [Runtime 0 (calm sample_now) (Reserve (rr_key waiting_record) (rr_requestHash waiting_record) other_lid),
      Runtime 1 (calm (sample_now + 40000)) Reload]))) \<le> 1"
  by (rule slots_never_oversold)
    (use one_record_worlds_valid(2) in \<open>simp_all add: slots_taken_def del: run_try.simps\<close>)

lemma started_at_most_once_witness:
  "\<exists>s. commitInvocationFence sample_runtime (calm sample_now) (rr_key held_record) (rr_requestHash held_record)
       sample_hold 1 None (at_runtime 0 (one_record_world held_record)) = (Inr (), s)
     \<and> (\<forall>v s'. reserveSubmissionSlot sample_runtime (calm (sample_now + 50000)) (rr_key held_record)
         (rr_requestHash held_record) other_lid
         (at_runtime 1 (world_run (\<lambda>_. sample_runtime) ''owner-0123456789'' (put_runtime 0 s (one_record_world held_record))
            [Runtime 1 (calm (sample_now + 40000)) Reload])) \<noteq> (Inr (Some v), s'))"
proof -
  obtain s where s: "commitInvocationFence sample_runtime (calm sample_now) (rr_key held_record) (rr_requestHash held_record)
       sample_hold 1 None (at_runtime 0 (one_record_world held_record)) = (Inr (), s)"
    using sample_permit by blast
  have "\<forall>i. rt_ownerId ((\<lambda>_. sample_runtime) i) = ''owner-0123456789''" for i :: nat by simp
  from started_at_most_once[OF this one_record_worlds_valid(2) s, of "[Runtime 1 (calm (sample_now + 40000)) Reload]"]
  have "reserveSubmissionSlot sample_runtime (calm (sample_now + 50000)) (rr_key held_record)
         (rr_requestHash held_record) other_lid
         (at_runtime 1 (world_run (\<lambda>_. sample_runtime) ''owner-0123456789'' (put_runtime 0 s (one_record_world held_record))
            [Runtime 1 (calm (sample_now + 40000)) Reload])) \<noteq> (Inr (Some v), s')" for v s'
    by (simp del: run_try.simps)
  with s show ?thesis by blast
qed

lemma lost_reservation_void_witness:
  "\<exists>s. reloadFromDisk sample_runtime (calm (sample_now + 40000)) (at_runtime 0 (one_record_world held_record)) = (Inr (), s)
     \<and> (\<exists>err s'. commitInvocationFence sample_runtime (calm (sample_now + 50000)) (rr_key held_record)
         (rr_requestHash held_record) sample_hold 1 None
         (at_runtime 1 (world_run (\<lambda>_. sample_runtime) ''owner-0123456789'' (put_runtime 0 s (one_record_world held_record))
            [Runtime 1 (calm (sample_now + 40000)) Reload])) = (Inl err, s'))"
proof -
  obtain s where s: "reloadFromDisk sample_runtime (calm (sample_now + 40000)) (at_runtime 0 (one_record_world held_record))
      = (Inr (), s)" using sample_late_reload by blast
  let ?w = "world_run (\<lambda>_. sample_runtime) ''owner-0123456789'' (put_runtime 0 s (one_record_world held_record))
      [Runtime 1 (calm (sample_now + 40000)) Reload]"
  have "\<exists>err. commitInvocationFence sample_runtime (calm (sample_now + 50000)) (rr_key held_record)
      (rr_requestHash held_record) sample_hold 1 None (at_runtime 1 ?w)
      = (Inl err, snd (reloadFromDisk sample_runtime (calm (sample_now + 50000)) (at_runtime 1 ?w)))"
    by (rule lost_reservation_void[where cs = "\<lambda>_. sample_runtime" and w = "one_record_world held_record"
        and env = "calm (sample_now + 40000)" and v = sample_hold and k = "rr_key held_record",
        THEN conjunct2, THEN conjunct1, OF _ one_record_worlds_valid(2) _ s])
      (use sample_lives(3) in simp_all)
  with s show ?thesis by blast
qed

end
