(* ===== verification/RuntimeTurnClaims.thy ===== *)
theory RuntimeTurnClaims
  imports RuntimeQueueClaims
begin

text \<open>
  Whose turn it is: a slot is granted exactly by the place in the queue. The queue order needs a
  collation that is a total preorder; the records of a valid journal all have a time of creation.
\<close>

section \<open>Places in a sorted list\<close>

lemma sorted_insort_by_on:
  assumes "\<And>x y. x \<in> S \<Longrightarrow> y \<in> S \<Longrightarrow> le x y \<or> le y x"
    and "\<And>x y z. x \<in> S \<Longrightarrow> y \<in> S \<Longrightarrow> z \<in> S \<Longrightarrow> le x y \<Longrightarrow> le y z \<Longrightarrow> le x z"
    and "sorted_wrt le xs" "set xs \<subseteq> S" "x \<in> S"
  shows "sorted_wrt le (insort_by le x xs)"
  using assms(3,4)
proof (induction xs)
  case (Cons y ys)
  have set: "set (insort_by le x ys) = insert x (set ys)"
    by (metis mset_insort_by set_mset_add_mset_insert set_mset_mset)
  show ?case
  proof (cases "le x y")
    case True
    moreover have "le x z" if "z \<in> set ys" for z
      using that True Cons.prems assms(2)[of x y z] assms(5) by auto
    ultimately show ?thesis using Cons.prems by auto
  next
    case False
    with assms(1)[of x y] assms(5) Cons.prems have "le y x" by auto
    with False Cons show ?thesis by (auto simp: set)
  qed
qed simp

lemma sorted_sort_by_on:
  assumes "\<And>x y. x \<in> S \<Longrightarrow> y \<in> S \<Longrightarrow> le x y \<or> le y x"
    and "\<And>x y z. x \<in> S \<Longrightarrow> y \<in> S \<Longrightarrow> z \<in> S \<Longrightarrow> le x y \<Longrightarrow> le y z \<Longrightarrow> le x z"
    and "set xs \<subseteq> S"
  shows "sorted_wrt le (sort_by le xs)"
  using assms(3)
proof (induction xs)
  case (Cons x xs)
  then have "sorted_wrt le (sort_by le xs)" "set (sort_by le xs) \<subseteq> S" "x \<in> S" by simp_all
  from sorted_insort_by_on[OF assms(1,2) this] show ?case by simp
qed simp

lemma filter_take_le:
  assumes "\<And>j. i \<le> j \<Longrightarrow> j < length xs \<Longrightarrow> \<not> P (xs ! j)"
  shows "length (filter P xs) \<le> i"
proof -
  have "filter P (drop i xs) = []"
    using assms by (auto simp: filter_empty_conv in_set_conv_nth)
  moreover have "filter P xs = filter P (take i xs) @ filter P (drop i xs)"
    by (metis append_take_drop_id filter_append)
  ultimately have "filter P xs = filter P (take i xs)" by simp
  also have "length \<dots> \<le> length (take i xs)" by (rule length_filter_le)
  finally show ?thesis by simp
qed

lemma filter_take_ge:
  assumes "i \<le> length xs" "\<And>j. j < i \<Longrightarrow> P (xs ! j)"
  shows "i \<le> length (filter P xs)"
proof -
  have "filter P (take i xs) = take i xs"
    using assms by (intro filter_True) (auto simp: in_set_conv_nth)
  moreover have "filter P xs = filter P (take i xs) @ filter P (drop i xs)"
    by (metis append_take_drop_id filter_append)
  ultimately have "length (filter P xs) = length (take i xs) + length (filter P (drop i xs))" by simp
  with assms(1) show ?thesis by simp
qed

text \<open>Within the first \<open>n\<close>: fewer than \<open>n\<close> are strictly before; beyond: at least \<open>n\<close> others are not after.\<close>

lemma place_within:
  assumes "sorted_wrt le xs" "r \<in> set (take n xs)" "le r r"
  shows "length (filter (\<lambda>q. \<not> le r q) xs) < n"
proof -
  obtain i where i: "i < n" "i < length xs" "xs ! i = r"
    using assms(2) by (auto simp: in_set_conv_nth)
  have "length (filter (\<lambda>q. \<not> le r q) xs) \<le> i"
  proof (rule filter_take_le)
    fix j assume "i \<le> j" "j < length xs"
    with assms(1,3) i show "\<not> \<not> le r (xs ! j)"
      by (cases "i = j") (auto simp: sorted_wrt_iff_nth_less)
  qed
  with i(1) show ?thesis by simp
qed

lemma place_beyond:
  assumes "sorted_wrt le xs" "r \<in> set xs" "distinct (map k xs)" "k r \<notin> k ` set (take n xs)"
  shows "n \<le> length (filter (\<lambda>q. k q \<noteq> k r \<and> le q r) xs)"
proof -
  obtain i where i: "i < length xs" "xs ! i = r" using assms(2) by (auto simp: in_set_conv_nth)
  have "n \<le> i"
  proof (rule ccontr)
    assume "\<not> n \<le> i"
    with i have "r \<in> set (take n xs)" by (auto simp: in_set_conv_nth)
    with assms(4) show False by blast
  qed
  also have "i \<le> length (filter (\<lambda>q. k q \<noteq> k r \<and> le q r) xs)"
  proof (rule filter_take_ge)
    show "i \<le> length xs" using i(1) by simp
    fix j assume j: "j < i"
    have "k (xs ! j) \<noteq> k r"
      using assms(3) i j nth_eq_iff_index_eq[OF assms(3), of j i] by auto
    moreover have "le (xs ! j) r" using assms(1) i j by (auto simp: sorted_wrt_iff_nth_less)
    ultimately show "k (xs ! j) \<noteq> k r \<and> le (xs ! j) r" ..
  qed
  finally show ?thesis .
qed

section \<open>The queue order\<close>

definition total_collation :: "(string \<Rightarrow> string \<Rightarrow> bool) \<Rightarrow> bool" where
  "total_collation le \<longleftrightarrow> (\<forall>a b. le a b \<or> le b a) \<and> (\<forall>a b x. le a b \<longrightarrow> le b x \<longrightarrow> le a x)"

lemma order_total:
  assumes "total_collation (rt_localeLe c)"
  shows "compareDurableQueueOrder c l r \<or> compareDurableQueueOrder c r l"
  using assms unfolding total_collation_def compareDurableQueueOrder_def by (auto split: option.splits)

lemma order_trans_on:
  assumes le: "total_collation (rt_localeLe c)"
    and "created_time x \<noteq> None" "created_time y \<noteq> None" "created_time z \<noteq> None"
    and "compareDurableQueueOrder c x y" "compareDurableQueueOrder c y z"
  shows "compareDurableQueueOrder c x z"
proof -
  have t: "rt_localeLe c a b \<Longrightarrow> rt_localeLe c b d \<Longrightarrow> rt_localeLe c a d" for a b d
    using le unfolding total_collation_def by blast
  obtain tx ty tz where "created_time x = Some tx" "created_time y = Some ty" "created_time z = Some tz"
    using assms(2-4) by blast
  with assms(5,6) show ?thesis
    unfolding compareDurableQueueOrder_def
    by (auto split: option.splits if_splits intro: t)
qed

lemma created_version [simp]: "created_time (unversioned r) = created_time r"
  by (cases "rr_createdAt r") (simp_all add: created_time_def)

lemma live_version [simp]: "liveQueueLease t (unversioned r) = liveQueueLease t r"
  by (simp add: liveQueueLease_def)

lemma compare_version [simp]:
  "compareDurableQueueOrder c (unversioned l) r = compareDurableQueueOrder c l r"
  "compareDurableQueueOrder c l (unversioned r) = compareDurableQueueOrder c l r"
  by (cases "rr_queueTicket l"; cases "rr_queueTicket r"; cases "created_time l"; cases "created_time r";
      simp add: compareDurableQueueOrder_def)+

lemma queued_valid:
  assumes "validRecord r" "rr_state r = JQueued"
  shows "created_time r \<noteq> None" "rr_taskVersion r = Some 1"
proof -
  from assms have "task_fields_valid r" by (auto simp: validRecord_def legacy_valid_def split: if_splits)
  then show "created_time r \<noteq> None" "rr_taskVersion r = Some 1"
    by (auto simp: task_fields_valid_def has_ok_def date_ok_def created_time_def split: option.splits)
qed

lemma fresh_record:
  assumes "fresh c t d s" "r \<in> set (rs_records s)"
  obtains q where "validRecord q" "unversioned q = unversioned r"
proof -
  have "content (rs_records s) = disk_content (rs_disk s)" using assms(1) by (simp add: fresh_def)
  from content_eqD[OF this assms(2)] obtain q where q: "q \<in> set (disk_records (rs_disk s))"
    "unversioned q = unversioned r" by blast
  have "opt_ok (validRuntimeDiskState (rt_ownerId c)) (rs_disk s)" using assms(1) by (simp add: fresh_def)
  from valid_record_in[OF this q(1)] q(2) that show thesis by blast
qed

lemma recover_queued:
  assumes "rr_state (recover_record t p) = JQueued" "rr_taskVersion p = Some 1"
  shows "liveQueueLease t p \<and> recover_record t p = p"
proof (cases "dead_pending t p \<or> dead_queued t p")
  case True
  then have "rr_state (recover_record t p) \<noteq> JQueued"
    by (cases "dead_pending t p") (simp_all add: recover_record_def clearReservation_def clearQueueLease_def Let_def)
  with assms(1) show ?thesis by blast
next
  case False
  then have "recover_record t p = p" using recover_alive by blast
  with False assms show ?thesis by (simp add: dead_queued_def truthy_int_def)
qed

lemma fresh_queued:
  assumes "fresh c t d s" "r \<in> set (rs_records s)" "rr_state r = JQueued"
  shows "created_time r \<noteq> None" "liveQueueLease t r"
proof -
  from fresh_record[OF assms(1,2)] obtain q where q: "validRecord q" "unversioned q = unversioned r" by blast
  note f = unversioned_fields[OF q(2)]
  have s: "rr_state q = JQueued" using f assms(3) by simp
  have "created_time q = created_time r" using arg_cong[OF q(2), of created_time] by simp
  with queued_valid(1)[OF q(1) s] show "created_time r \<noteq> None" by simp
  have v: "rr_taskVersion r = Some 1" using queued_valid(2)[OF q(1) s] f by simp
  show "liveQueueLease t r"
  proof -
    have "content (rs_records s) = content (map (recover_record t) (disk_records d))" using assms(1) by (simp add: fresh_def)
    from content_eqD[OF this assms(2)] obtain q where q: "q \<in> set (map (recover_record t) (disk_records d))"
      "unversioned q = unversioned r" by blast
    from q(1) obtain p where "q = recover_record t p" unfolding set_map by blast
    with q(2) have p: "unversioned (recover_record t p) = unversioned r" by simp
    note g = unversioned_fields[OF p]
    have "rr_state (recover_record t p) = JQueued" using g assms(3) by simp
    moreover have "rr_taskVersion p = Some 1" using g v by simp
    ultimately have "liveQueueLease t p \<and> recover_record t p = p" by (rule recover_queued)
    with arg_cong[OF p, of "liveQueueLease t"] show ?thesis by simp
  qed
qed

lemma content_count:
  assumes "content rs = content qs" "\<And>r. P (unversioned r) = P r"
  shows "length (filter P rs) = length (filter P qs)"
proof -
  have *: "size (filter_mset P (content xs)) = length (filter P xs)" for xs
    by (induction xs) (auto simp: assms(2))
  from assms(1) * show ?thesis by metis
qed

section \<open>The grant\<close>

definition waiting :: "int \<Rightarrow> runtime_record list \<Rightarrow> runtime_record list" where
  "waiting t rs = filter (liveQueueLease t) rs"

lemma priority_place:
  assumes f: "fresh c t d s" and le: "total_collation (rt_localeLe c)"
    and r: "r \<in> set (rs_records s)" "rr_state r = JQueued"
  shows "hasQueuedGenerationPriority c t s r \<Longrightarrow> slots_taken (rs_records s)
      + int (length (filter (\<lambda>q. \<not> compareDurableQueueOrder c r q) (waiting t (rs_records s)))) < maxActiveTasks c"
    "\<not> hasQueuedGenerationPriority c t s r \<Longrightarrow> maxActiveTasks c \<le> slots_taken (rs_records s)
      + int (length (filter (\<lambda>q. rr_key q \<noteq> rr_key r \<and> compareDurableQueueOrder c q r) (waiting t (rs_records s))))"
proof -
  let ?le = "compareDurableQueueOrder c"
  let ?w = "waiting t (rs_records s)"
  let ?q = "sort_by ?le ?w"
  let ?n = "maxActiveTasks c - slots_taken (rs_records s)"
  have live: "liveQueueLease t r" by (rule fresh_queued(2)[OF f r])
  then have rw: "r \<in> set ?w" using r(1) by (simp add: waiting_def)
  have dist: "distinct (map rr_key ?w)" using f by (simp add: fresh_def waiting_def distinct_map_filter)
  have sorted: "sorted_wrt ?le ?q"
  proof (rule sorted_sort_by_on[where S = "{q. created_time q \<noteq> None}"])
    show "set ?w \<subseteq> {q. created_time q \<noteq> None}"
      using fresh_queued(1)[OF f] by (auto simp: waiting_def liveQueueLease_def)
  qed (use order_total[OF le] order_trans_on[OF le] in blast)+
  have prio: "hasQueuedGenerationPriority c t s r \<longleftrightarrow> 0 < ?n \<and> rr_key r \<in> rr_key ` set (take (nat ?n) ?q)"
    unfolding hasQueuedGenerationPriority_def Let_def list_ex_iff waiting_def image_iff
    by (simp add: not_le) (metis)
  have counts: "length (filter P ?q) = length (filter P ?w)" for P
    by (metis mset_filter mset_sort_by size_mset)
  show "slots_taken (rs_records s) + int (length (filter (\<lambda>q. \<not> ?le r q) ?w)) < maxActiveTasks c"
    if "hasQueuedGenerationPriority c t s r"
  proof -
    from that obtain q where n: "0 < ?n" and q: "q \<in> set (take (nat ?n) ?q)" "rr_key q = rr_key r"
      unfolding prio by force
    have "q \<in> set ?w" using q(1) by (metis in_set_takeD set_sort_by)
    with rw q(2) dist have "q = r" by (meson distinct_map inj_onD)
    with place_within[OF sorted, of r "nat ?n"] q(1) order_total[OF le, of r r]
    have "length (filter (\<lambda>q. \<not> ?le r q) ?q) < nat ?n" by blast
    then show ?thesis unfolding counts using n by linarith
  qed
  show "maxActiveTasks c \<le> slots_taken (rs_records s)
      + int (length (filter (\<lambda>q. rr_key q \<noteq> rr_key r \<and> ?le q r) ?w))"
    if "\<not> hasQueuedGenerationPriority c t s r"
  proof (cases "0 < ?n")
    case True
    with that have "rr_key r \<notin> rr_key ` set (take (nat ?n) ?q)" unfolding prio by blast
    from place_beyond[OF sorted _ _ this] rw dist
    have "nat ?n \<le> length (filter (\<lambda>q. rr_key q \<noteq> rr_key r \<and> ?le q r) ?q)" by simp
    then show ?thesis unfolding counts using True by linarith
  qed simp
qed

text \<open>C16: A slot goes by the place in the queue, across processes. When a runtime asks for a slot for
  its queued task \<open>k\<close> and the operation succeeds, then in the journal as that reload found it, with what had
  expired ended: the slot is granted only if the slots taken together with the waiting tasks before
  \<open>k\<close> (waiting tasks whose lease is alive, in any process) leave one of the allowed slots over; and it is refused only
  if the slots taken and the other waiting tasks not after \<open>k\<close> use them all up.\<close>

theorem slot_by_place:
  assumes "total_collation (rt_localeLe c)"
    and "reserveSubmissionSlot c env k h rid s = (Inr res, s')"
  defines "rs \<equiv> map (recover_record (env_now env)) (disk_records (rs_disk s))"
  shows "\<exists>r \<in> set rs. rr_key r = k \<and> rr_state r = JQueued \<and> liveQueueLease (env_now env) r
    \<and> (case res of
        Some v \<Rightarrow> slots_taken rs + int (length (filter (\<lambda>q. \<not> compareDurableQueueOrder c r q)
            (filter (liveQueueLease (env_now env)) rs))) < maxActiveTasks c
      | None \<Rightarrow> maxActiveTasks c \<le> slots_taken rs + int (length (filter
            (\<lambda>q. rr_key q \<noteq> k \<and> compareDurableQueueOrder c q r) (filter (liveQueueLease (env_now env)) rs))))"
  using assms(2) unfolding reserveSubmissionSlot_def
proof (cases rule: reloaded_cases)
  case (stopped e)
  then show ?thesis by simp
next
  case (ran s1)
  let ?t = "env_now env"
  from ran(2) obtain r where r: "cached s1 k = Some r" "rr_state r = JQueued"
    and res: "res \<noteq> None \<longleftrightarrow> hasQueuedGenerationPriority c ?t s1 r"
    by (auto simp: Let_def saved_def split: option.splits if_splits prod.splits sum.splits)
  have in1: "r \<in> set (rs_records s1)" "rr_key r = k" using r(1) unfolding cached_iff[OF ran(1)] by blast+
  note place = priority_place[OF ran(1) assms(1) in1(1) r(2)]
  have same: "content (rs_records s1) = content rs" using ran(1) by (simp add: fresh_def rs_def)
  from content_eqD[OF same in1(1)] obtain q where q: "q \<in> set rs" "unversioned q = unversioned r" by blast
  note cmp = arg_cong[OF q(2), of "\<lambda>r. compareDurableQueueOrder c r x" for x, simplified]
    arg_cong[OF q(2), of "\<lambda>r. compareDurableQueueOrder c x r" for x, simplified]
  have "rr_key q = k" "rr_state q = JQueued" using unversioned_fields[OF q(2)] in1(2) r(2) by simp_all
  moreover have "liveQueueLease ?t q"
    using fresh_queued(2)[OF ran(1) in1(1) r(2)] arg_cong[OF q(2), of "liveQueueLease ?t"] by simp
  moreover have slots: "slots_taken (rs_records s1) = slots_taken rs"
    using same by (metis slots_of_content)
  moreover have "length (filter P (waiting ?t (rs_records s1))) = length (filter P (filter (liveQueueLease ?t) rs))"
    if "\<And>r. P (unversioned r) = P r" for P
    unfolding waiting_def filter_filter by (rule content_count[OF same]) (simp add: that)
  moreover note place res
  ultimately show ?thesis using q(1) in1(2) by (intro bexI[OF _ q(1)]) (auto simp: cmp split: option.split)
qed

lemma slot_by_place_witness:
  "\<exists>v s'. reserveSubmissionSlot sample_runtime (calm sample_now) (rr_key waiting_record) (rr_requestHash waiting_record)
      sample_lid (at_runtime 0 (one_record_world waiting_record)) = (Inr (Some v), s')
    \<and> (\<exists>r \<in> set (map (recover_record sample_now) [waiting_record]). rr_key r = rr_key waiting_record \<and> rr_state r = JQueued)"
proof -
  obtain s' where s': "reserveSubmissionSlot sample_runtime (calm sample_now) (rr_key waiting_record)
      (rr_requestHash waiting_record) sample_lid (at_runtime 0 (one_record_world waiting_record)) = (Inr (Some sample_hold), s')"
    using sample_reserve by blast
  have "total_collation (rt_localeLe sample_runtime)" by (simp add: total_collation_def sample_runtime_def)
  from slot_by_place[OF this s'] have "\<exists>r \<in> set (map (recover_record sample_now) [waiting_record]).
      rr_key r = rr_key waiting_record \<and> rr_state r = JQueued" by auto
  with s' show ?thesis by blast
qed

end
