(* ===== verification/ArtifactProofs.thy ===== *)
theory ArtifactProofs
  imports ProviderArtifacts
begin

text \<open>
  What the store of artifacts promises: a result that was stored is read back as it was, its references
  pass the checks of the journal and the reconciler, and every result read from the download directory is
  one the store takes.
\<close>

section \<open>Base64\<close>

lemma digits [simp]:
  assumes "n < 64"
  shows "base64_value (base64_digit n) = Some n" "base64_char (base64_digit n)"
  using assms by (auto simp: base64_value_def base64_digit_def base64_char_def char_between_def)

lemma byte_lt: "byte c < 256"
proof -
  have "byte c = byte c mod 256" using of_char_of[of "byte c"] by simp
  then show ?thesis by (metis mod_less_divisor zero_less_numeral)
qed

lemma sextets [simp]:
  "byte a div 4 < 64" "byte a mod 4 * 16 < 64" "byte a mod 4 * 16 + byte b div 16 < 64"
  "byte a mod 16 * 4 < 64" "byte b mod 16 * 4 + byte c div 64 < 64" "byte c mod 64 < 64"
  using byte_lt[of a] byte_lt[of b] byte_lt[of c] by linarith+

lemma padding_value [simp]: "base64_value CHR ''='' = None" "\<not> base64_char CHR ''=''"
  by code_simp+

lemma join_digits:
  assumes "y < (n::nat)"
  shows "(x * n + y) div n = x" "(x * n + y) mod n = y"
  using assms by simp_all

lemma high_bits: "byte b div 16 < 16" "byte c div 64 < 4"
  using byte_lt[of b] byte_lt[of c] by linarith+

lemma regroup:
  "byte a div 4 * 4 + (byte a mod 4 * 16 + byte b div 16) div 16 = byte a"
  "(byte a mod 4 * 16 + byte b div 16) mod 16 * 16 + (byte b mod 16 * 4 + byte c div 64) div 4 = byte b"
  "(byte b mod 16 * 4 + byte c div 64) mod 4 * 64 + byte c mod 64 = byte c"
  "byte a div 4 * 4 + byte a mod 4 * 16 div 16 = byte a"
  "(byte a mod 4 * 16 + byte b div 16) mod 16 * 16 + byte b mod 16 * 4 div 4 = byte b"
  unfolding join_digits[OF high_bits(1)] join_digits[OF high_bits(2)] by simp_all

lemma decode_encode: "decode64 (encode64 b) = b"
proof (induction b rule: encode64.induct)
  case (2 a)
  show ?case using regroup(4)[of a] by (simp add: decode64_def List.map_filter_simps)
next
  case (3 a b)
  show ?case using regroup(1)[of a b] regroup(5)[of a b] by (simp add: decode64_def List.map_filter_simps)
next
  case (4 a b c s)
  then show ?case using regroup(1)[of a b] regroup(2)[of a b c] regroup(3)[of b c]
    by (simp add: decode64_def List.map_filter_simps)
qed (simp add: decode64_def List.map_filter_simps)

lemma encode_text: "b \<noteq> [] \<Longrightarrow> base64_text (encode64 b)"
proof (induction b rule: encode64.induct)
  case (4 a b c s)
  then show ?case by (cases "s = []") (auto simp: base64_text_def)
qed (simp_all add: base64_text_def)

section \<open>What the store takes\<close>

abbreviation as_item :: "bytes \<times> string \<Rightarrow> media_item" where
  "as_item m \<equiv> media_of_bytes (snd m) (fst m)"

text \<open>What the items of a stored result have passed.\<close>

fun fits :: "task_mode \<Rightarrow> int \<Rightarrow> (bytes \<times> string) list \<Rightarrow> bool" where
  "fits md n [] = True"
| "fits md n ((b, mime) # ms) = (b \<noteq> [] \<and> validMedia b mime md \<and> n + int (length b) \<le> MAX_RESULT_BYTES
     \<and> fits md (n + int (length b)) ms)"

lemma media_bytes [simp]: "mi_bytes (media_of_bytes mime b) = int (length b)"
  by (simp add: media_of_bytes_def)

lemma decode_itemD:
  assumes "decode_item md n x = Inr b"
  shows "x = media_of_bytes (mi_mimeType x) b" "fits md n [(b, mi_mimeType x)]"
proof -
  from assms obtain t where "mi_dataUrl x = data_prefix (mi_mimeType x) @ t"
    using starts_with_split[of "mi_dataUrl x" "data_prefix (mi_mimeType x)"]
    by (auto simp: decode_item_def split: if_splits)
  with assms show "x = media_of_bytes (mi_mimeType x) b" "fits md n [(b, mi_mimeType x)]"
    by (auto simp: decode_item_def media_of_bytes_def Let_def split: if_splits)
qed

lemma decode_item_ok:
  assumes "fits md n [(b, mime)]" "0 \<le> n"
  shows "decode_item md n (media_of_bytes mime b) = Inr b"
  using assms decode_encode[of b] encode_text[of b]
  by (auto simp: decode_item_def media_of_bytes_def safe_integer_def MAX_RESULT_BYTES_def)

lemma decode_itemsD:
  "decode_items md n xs = Inr ms \<Longrightarrow> xs = map as_item ms \<and> fits md n ms"
proof (induction xs arbitrary: n ms)
  case (Cons x xs)
  then obtain b r where "decode_item md n x = Inr b" "decode_items md (n + int (length b)) xs = Inr r"
    "ms = (b, mi_mimeType x) # r" by (auto split: sum.splits)
  with Cons.IH decode_itemD[of md n x b] show ?case by fastforce
qed simp

lemma decode_items_ok:
  "fits md n ms \<Longrightarrow> 0 \<le> n \<Longrightarrow> decode_items md n (map as_item ms) = Inr ms"
proof (induction ms arbitrary: n)
  case (Cons m ms)
  obtain b mime where m: "m = (b, mime)" by (cases m)
  with Cons.prems have "fits md n [(b, mime)]" by simp
  from decode_item_ok[OF this Cons.prems(2)] Cons m show ?case by (simp add: media_of_bytes_def)
qed simp

lemma fits_append: "fits md n (xs @ ys) \<longleftrightarrow> fits md n xs \<and> fits md (n + int (sum_list (map (\<lambda>m. length (fst m)) xs))) ys"
  by (induction xs arbitrary: n) (auto simp: algebra_simps)

lemma fits_nth:
  assumes "fits md n ms" "0 \<le> n" "m \<in> set ms"
  shows "fst m \<noteq> []" "int (length (fst m)) \<le> MAX_RESULT_BYTES"
proof -
  obtain xs ys where "ms = xs @ m # ys" using split_list[OF assms(3)] by blast
  with assms(1,2) show "fst m \<noteq> []" "int (length (fst m)) \<le> MAX_RESULT_BYTES"
    by (cases m; force simp: fits_append)+
qed

section \<open>References\<close>

lemma uuid_chars:
  assumes "uuid_ok s"
  shows "list_all (\<lambda>c. hex_char c \<or> c = CHR ''-'') s"
proof -
  have "s = take 8 s @ take 1 (drop 8 s) @ take 4 (drop 9 s) @ take 1 (drop 13 s) @ take 4 (drop 14 s)
      @ take 1 (drop 18 s) @ take 4 (drop 19 s) @ take 1 (drop 23 s) @ drop 24 s"
    using append_take_drop_id[of 8 s] append_take_drop_id[of 1 "drop 8 s"] append_take_drop_id[of 4 "drop 9 s"]
      append_take_drop_id[of 1 "drop 13 s"] append_take_drop_id[of 4 "drop 14 s"] append_take_drop_id[of 1 "drop 18 s"]
      append_take_drop_id[of 4 "drop 19 s"] append_take_drop_id[of 1 "drop 23 s"] by simp
  moreover have "list_all (\<lambda>c. hex_char c \<or> c = CHR ''-'') (take 8 s @ take 1 (drop 8 s) @ take 4 (drop 9 s)
      @ take 1 (drop 13 s) @ take 4 (drop 14 s) @ take 1 (drop 18 s) @ take 4 (drop 19 s) @ take 1 (drop 23 s) @ drop 24 s)"
    using assms unfolding uuid_ok_def list_all_append by (auto simp: list_all_iff)
  ultimately show ?thesis by metis
qed

lemma index_decimal: "i < 4 \<Longrightarrow> decimal i = [digit_char (int i)]"
  by (simp add: decimal.simps)

lemma index_digit:
  assumes "i < 4"
  shows "char_between CHR ''0'' CHR ''3'' (digit_char (int i))" "read_number [digit_char (int i)] = Some (int i)"
proof -
  have "list_all (\<lambda>i. char_between CHR ''0'' CHR ''3'' (digit_char (int i))) [0..<4]" by code_simp
  with assms show "char_between CHR ''0'' CHR ''3'' (digit_char (int i))" by (simp add: list_all_iff)
  show "read_number [digit_char (int i)] = Some (int i)"
    using assms by (simp add: read_number_def digit_value_char)
qed

lemma artifactRef_ok:
  assumes "random_uuid_ok sid" "i < 4"
  shows "artifact_ref_ok (artifactRef sid i)" "parseRef (artifactRef sid i) = Inr (sid, int i)"
proof -
  have l: "length sid = 36" "list_all (\<lambda>c. hex_char c \<or> c = CHR ''-'') sid"
    using assms(1) uuid_chars by (auto simp: random_uuid_ok_def uuid_ok_def)
  show ok: "artifact_ref_ok (artifactRef sid i)"
    using l index_digit(1)[OF assms(2)] by (simp add: artifact_ref_ok_def artifactRef_def index_decimal[OF assms(2)])
  with assms(1) l index_digit(2)[OF assms(2)] show "parseRef (artifactRef sid i) = Inr (sid, int i)"
    by (simp add: parseRef_def artifactRef_def index_decimal[OF assms(2)])
qed

lemma parse_refs_map: "(\<And>x. x \<in> set xs \<Longrightarrow> parseRef (po_ref x) = Inr (f x)) \<Longrightarrow> parse_refs xs = Inr (map f xs)"
  by (induction xs) simp_all

text \<open>The references of a stored result pass every check on outputs.\<close>

lemma stored_outputs_ok:
  assumes "random_uuid_ok sid" "ms \<noteq> []" "length ms \<le> 4" "md = VideoMode \<longrightarrow> length ms = 1"
  shows "journal_outputs_ok (Some md) (provider_outputs sid md ms)"
    "parse_refs (provider_outputs sid md ms) = Inr (map (\<lambda>i. (sid, int i)) [0..<length ms])"
proof -
  have i: "i < 4" if "i < length ms" for i using that assms(3) by simp
  show "journal_outputs_ok (Some md) (provider_outputs sid md ms)"
    unfolding journal_outputs_ok_def
    using assms i artifactRef_ok(1)[OF assms(1)]
    by (cases md) (auto simp: provider_outputs_def comp_def distinct_map inj_on_def provider_index_ok_def safe_integer_def
        list_all_iff dest!: i)
  have "parse_refs (provider_outputs sid md ms) = Inr (map (\<lambda>x. (sid, po_index x)) (provider_outputs sid md ms))"
    by (rule parse_refs_map) (use i artifactRef_ok(2)[OF assms(1)] in \<open>auto simp: provider_outputs_def\<close>)
  then show "parse_refs (provider_outputs sid md ms) = Inr (map (\<lambda>i. (sid, int i)) [0..<length ms])"
    by (simp add: provider_outputs_def comp_def)
qed

section \<open>Reading back\<close>

text \<open>SHA-256 gives 64 hexadecimal digits.\<close>

definition sha_digits :: "(bytes \<Rightarrow> string) \<Rightarrow> bool" where
  "sha_digits sha \<longleftrightarrow> (\<forall>b. chars_ok hex_char 64 64 (sha b))"

lemma enumerate_map: "List.enumerate 0 xs = map (\<lambda>i. (i, xs ! i)) [0..<length xs]"
  by (auto simp: enumerate_eq_zip intro!: nth_equalityI)

lemma mediaName_inj:
  assumes "i < 1000" "j < 1000" "mediaName i = mediaName j"
  shows "i = j"
proof -
  have read: "read_number_from 0 (pad_number 3 (int k)) = Some (int k)" if "k < 1000" for k
  proof -
    have "int k < 10 ^ 3" using that by simp
    from read_pad_number[OF _ this, of 0] show ?thesis by (simp del: pad_number.simps read_number_from.simps)
  qed
  have pad: "pad_number 3 (int i) = pad_number 3 (int j)"
    using assms(3) unfolding mediaName_def by (rule append_same_eq[THEN iffD1])
  have "Some (int i) = Some (int j)"
    using arg_cong[OF pad, of "read_number_from 0"] unfolding read[OF assms(1)] read[OF assms(2)] .
  then show ?thesis by (simp only: option.inject of_nat_eq_iff)
qed

lemma manifest_outputs_map:
  "manifest_outputs sha md ms = map (\<lambda>i. \<lparr>mo_index = int i, mo_media = md, mo_mimeType = snd (ms ! i),
     mo_bytes = int (length (fst (ms ! i))), mo_sha256 = sha (fst (ms ! i))\<rparr>) [0..<length ms]"
  by (simp add: manifest_outputs_def enumerate_map case_prod_beta)

lemma files_map:
  "map (\<lambda>(i, c, _). (mediaName i, c)) (List.enumerate 0 ms) = map (\<lambda>i. (mediaName i, fst (ms ! i))) [0..<length ms]"
  by (simp add: enumerate_map case_prod_beta)

lemma manifest_lookup:
  assumes "ms ! i = (b, mime)" "i < length ms"
  shows "find (\<lambda>c. mo_index c = int i) (manifest_outputs sha md ms) = Some
     \<lparr>mo_index = int i, mo_media = md, mo_mimeType = mime, mo_bytes = int (length b), mo_sha256 = sha b\<rparr>"
  by (rule find_unique) (use assms in \<open>auto simp: manifest_outputs_map image_iff\<close>)

lemma file_lookup:
  assumes "ms ! i = (b, mime)" "i < length ms" "length ms \<le> 4"
  shows "map_of (map (\<lambda>(i, c, _). (mediaName i, c)) (List.enumerate 0 ms)) (mediaName i) = Some b"
  unfolding files_map
proof (rule map_of_is_SomeI)
  have "inj_on mediaName {0..<length ms}" using mediaName_inj assms(3) by (auto simp: inj_on_def)
  then show "distinct (map fst (map (\<lambda>i. (mediaName i, fst (ms ! i))) [0..<length ms]))"
    by (simp add: comp_def distinct_map)
  show "(mediaName i, b) \<in> set (map (\<lambda>i. (mediaName i, fst (ms ! i))) [0..<length ms])"
    using assms(1,2) by force
qed

lemma read_outputs_back:
  assumes "ms = pre @ suf" "length ms \<le> 4" "fits md 0 ms"
    and "am_outputs m = manifest_outputs sha md ms" "ab_mode b = md"
    and "ss_files st = map (\<lambda>(i, c, _). (mediaName i, c)) (List.enumerate 0 ms)"
  shows "read_outputs sha b st m (int (sum_list (map (\<lambda>m. length (fst m)) pre)))
     (map (\<lambda>i. (\<lparr>po_index = int i, po_media = media_of_mode md, po_ref = artifactRef sid i\<rparr>, int i))
       [length pre..<length ms]) = Inr (map as_item suf)"
  using assms(1)
proof (induction suf arbitrary: pre)
  case (Cons x suf)
  obtain c mime where x: "x = (c, mime)" by (cases x)
  let ?i = "length pre" and ?n = "int (sum_list (map (\<lambda>m. length (fst m)) pre))"
  have i: "?i < length ms" "ms ! ?i = (c, mime)" using Cons.prems x by (simp_all add: nth_append)
  have f: "validMedia c mime md" "?n + int (length c) \<le> MAX_RESULT_BYTES"
    using assms(3) unfolding Cons.prems x fits_append by simp_all
  have "read_output sha b st m ?n \<lparr>po_index = int ?i, po_media = media_of_mode md, po_ref = artifactRef sid ?i\<rparr> (int ?i)
      = Inr (media_of_bytes mime c)"
    using f assms(5) unfolding read_output_def assms(4,6)
    by (simp add: manifest_lookup[OF i(2,1)] file_lookup[OF i(2,1) assms(2)])
  moreover have "[?i..<length ms] = ?i # [length (pre @ [x])..<length ms]" using upt_conv_Cons[OF i(1)] by simp
  moreover have "read_outputs sha b st m (int (sum_list (map (\<lambda>m. length (fst m)) (pre @ [x]))))
     (map (\<lambda>i. (\<lparr>po_index = int i, po_media = media_of_mode md, po_ref = artifactRef sid i\<rparr>, int i))
       [length (pre @ [x])..<length ms]) = Inr (map as_item suf)"
    by (rule Cons.IH) (use Cons.prems in simp)
  ultimately show ?case by (simp add: x)
qed simp

text \<open>A result as \<open>collectDreaminaGenerationResult\<close> builds it: nothing beside the items of its mode.\<close>

definition plain_result :: "generation_result \<Rightarrow> bool" where
  "plain_result g \<longleftrightarrow> (case gr_mode g of ImageMode \<Rightarrow> gr_video g = None | VideoMode \<Rightarrow> gr_images g = None)"

lemma decodeResultD:
  assumes "decodeResult g md = Inr ms"
  shows "gr_mode g = md" "result_items g = map as_item ms" "fits md 0 ms" "ms \<noteq> []" "length ms \<le> 4"
    "md = VideoMode \<longrightarrow> length ms = 1"
  using assms decode_itemsD[of md 0 "result_items g" ms]
  by (auto simp: decodeResult_def split: if_splits)

lemma validateBindingD:
  assumes "validateBinding b = Inr u"
  shows "opt_ok (chars_ok hex_char 64 64) (ab_account b)" "opt_ok (\<lambda>n. safe_integer n \<and> 1 \<le> n) (ab_fence b)"
  using assms by (auto simp: validateBinding_def ensure_def split: if_splits)

lemma manifest_valid:
  assumes "validateBinding b = Inr u" "fits (ab_mode b) 0 ms" "ms \<noteq> []" "length ms \<le> 4"
    and "random_uuid_ok sid" "sha_digits sha" "iso_time now"
  shows "valid_manifest (manifest_of sha sid now b ms)"
proof -
  have "map mo_index (manifest_outputs sha (ab_mode b) ms) = map int [0..<length ms]"
    by (simp add: manifest_outputs_map comp_def)
  then have "distinct (map mo_index (manifest_outputs sha (ab_mode b) ms))"
    by (simp add: distinct_map inj_on_def)
  moreover have "validManifestOutput x" if x: "x \<in> set (manifest_outputs sha (ab_mode b) ms)" for x
  proof -
    from x obtain i where i: "i < length ms" and x: "x = \<lparr>mo_index = int i, mo_media = ab_mode b,
        mo_mimeType = snd (ms ! i), mo_bytes = int (length (fst (ms ! i))), mo_sha256 = sha (fst (ms ! i))\<rparr>"
      by (auto simp: manifest_outputs_map)
    from fits_nth[OF assms(2) _ nth_mem[OF i]] i assms(4,6) show ?thesis
      by (simp add: x validManifestOutput_def sha_digits_def safe_integer_def MAX_RESULT_BYTES_def)
  qed
  moreover have "safe_integer (case ab_fence b of None \<Rightarrow> 0 | Some n \<Rightarrow> n) \<and> 0 \<le> (case ab_fence b of None \<Rightarrow> 0 | Some n \<Rightarrow> n)"
    using validateBindingD(2)[OF assms(1)] by (cases "ab_fence b") (auto simp: safe_integer_def)
  moreover have "date_ok (to_iso_string now)"
    using date_parse_to_iso_string[OF assms(7)] by (simp add: date_ok_def)
  ultimately show ?thesis
    using assms validateBindingD(1)[OF assms(1)]
    by (simp add: valid_manifest_def manifest_of_def sha_digits_def list_all_iff) (simp add: manifest_outputs_map)
qed

text \<open>A result that was stored is read back as it was, under the binding it was stored with.\<close>

theorem stored_result_read_back:
  assumes "persistResult sha sid now fault g b store = (Inr outs, store')" "plain_result g"
    and "random_uuid_ok sid" "sha_digits sha" "iso_time now"
  shows "readResult sha outs b store' = Inr g \<and> journal_outputs_ok (Some (ab_mode b)) outs"
proof -
  let ?md = "ab_mode b"
  from assms(1) obtain u ms where v: "validateBinding b = Inr u" and d: "decodeResult g ?md = Inr ms"
    and outs: "outs = provider_outputs sid ?md ms"
    and store: "ar_sets store' = (sid, \<lparr>ss_manifest = Some (manifest_of sha sid now b ms),
                  ss_files = map (\<lambda>(i, c, _). (mediaName i, c)) (List.enumerate 0 ms), ss_changed = now\<rparr>) # ar_sets store"
    by (auto simp: persistResult_def Let_def split: sum.splits option.splits artifact_fault.splits)
  note D = decodeResultD[OF d]
  note O = stored_outputs_ok[OF assms(3) D(4,5,6), folded outs]
  let ?refs = "map (\<lambda>i. (sid, int i)) [0..<length ms]"
  have refs: "?refs \<noteq> []" "fst (hd ?refs) = sid" "\<not> list_ex (\<lambda>r. fst r \<noteq> sid) ?refs" "length ?refs \<le> 4"
    using D(4,5) by (simp_all add: hd_map list_ex_iff)
  have zip: "zip outs (map snd ?refs) = map (\<lambda>i. (\<lparr>po_index = int i, po_media = media_of_mode ?md, po_ref = artifactRef sid i\<rparr>, int i)) [0..<length ms]"
    by (auto simp: outs provider_outputs_def zip_map_map zip_same_conv_map comp_def)
  have m: "valid_manifest (manifest_of sha sid now b ms)"
    "manifest_matches sha sid b (length outs) (manifest_of sha sid now b ms)"
    using manifest_valid[OF v D(3,4,5) assms(3-5)]
    by (simp_all add: manifest_matches_def manifest_of_def manifest_outputs_map outs provider_outputs_def)
  have r: "read_outputs sha b \<lparr>ss_manifest = Some (manifest_of sha sid now b ms),
      ss_files = map (\<lambda>(i, c, _). (mediaName i, c)) (List.enumerate 0 ms), ss_changed = now\<rparr>
      (manifest_of sha sid now b ms) 0 (zip outs (map snd ?refs)) = Inr (result_items g)"
    using read_outputs_back[of ms "[]" ms ?md _ sha b, OF _ D(5,3)] unfolding zip D(2)
    by (simp add: manifest_of_def)
  have "readResult sha outs b store' = Inr (case ?md of
      ImageMode \<Rightarrow> \<lparr>gr_mode = ImageMode, gr_images = Some (result_items g), gr_video = None\<rparr>
    | VideoMode \<Rightarrow> \<lparr>gr_mode = VideoMode, gr_images = None, gr_video = Some (hd (result_items g))\<rparr>)"
    unfolding readResult_def v O(2) store using refs m r by simp
  also have "\<dots> = Inr g"
    using assms(2) D(1,2,4) by (cases g) (auto simp: plain_result_def result_items_def split: task_mode.splits option.splits)
  finally show ?thesis using O(1) by simp
qed

section \<open>What is downloaded\<close>

lemma signature_valid:
  assumes "mime_of_file md f = Some mime" "hasExpectedMediaSignature b mime"
  shows "validMedia b mime md"
proof (cases md)
  case ImageMode
  with assms(1) have "map_of imageExtensions (map lower_char (extname f)) = Some mime"
    by (simp add: mime_of_file_def)
  then have "mime \<in> snd ` set imageExtensions" by (metis map_of_SomeD image_eqI snd_conv)
  then have "mime = ''image/png'' \<or> mime = ''image/jpeg'' \<or> mime = ''image/webp''"
    unfolding imageExtensions_def by simp
  with assms(2) ImageMode show ?thesis by (elim disjE) (simp_all add: hasExpectedMediaSignature_def validMedia_def)
next
  case VideoMode
  with assms(1) have "map_of videoExtensions (map lower_char (extname f)) = Some mime"
    by (simp add: mime_of_file_def)
  then have "mime \<in> snd ` set videoExtensions" by (metis map_of_SomeD image_eqI snd_conv)
  then have "mime = ''video/mp4'' \<or> mime = ''video/quicktime'' \<or> mime = ''video/webm''"
    unfolding videoExtensions_def by simp
  with assms(2) VideoMode show ?thesis by (elim disjE) (simp_all add: hasExpectedMediaSignature_def validMedia_def)
qed

lemma sum_bytes: "sum_list (map mi_bytes (map as_item ms)) = int (sum_list (map (\<lambda>m. length (fst m)) ms))"
  by (induction ms) simp_all

lemma read_all_mediaD:
  "read_all_media fs = Inr ms \<Longrightarrow> ms = map (\<lambda>(mime, b). media_of_bytes mime b) fs
     \<and> list_all (\<lambda>(mime, b). b \<noteq> [] \<and> hasExpectedMediaSignature b mime) fs"
  by (induction fs arbitrary: ms rule: read_all_media.induct) (auto simp: read_media_def split: sum.splits if_splits)

lemma fits_of_sum:
  "list_all (\<lambda>(b, mime). b \<noteq> [] \<and> validMedia b mime md) ms
   \<Longrightarrow> n + int (sum_list (map (\<lambda>m. length (fst m)) ms)) \<le> MAX_RESULT_BYTES \<Longrightarrow> fits md n ms"
  by (induction ms arbitrary: n) auto

lemma files_typed:
  "(mime, b) \<in> set (List.map_filter (\<lambda>(f, b). map_option (\<lambda>m. (m, b)) (mime_of_file md f)) fs)
   \<Longrightarrow> \<exists>f. mime_of_file md f = Some mime"
  by (auto simp: List.map_filter_def)

text \<open>The store takes every result that was read from the downloaded files.\<close>

lemma collected_accepted:
  assumes "collectDreaminaGenerationResult found md = Inr g"
  shows "plain_result g" "\<exists>ms. decodeResult g md = Inr ms"
proof -
  from assms obtain fs where fs: "found = Inr fs"
    by (cases found) (simp_all add: collectDreaminaGenerationResult_def)
  define files where "files = List.map_filter (\<lambda>(f, b). map_option (\<lambda>m. (m, b)) (mime_of_file md f)) fs"
  have c: "files \<noteq> []" "length files \<le> 4" "md = VideoMode \<longrightarrow> length files = 1"
    using assms by (auto simp: fs collectDreaminaGenerationResult_def Let_def files_def[symmetric] split: if_splits)
  with assms obtain media where media: "read_all_media files = Inr media" "sum_list (map mi_bytes media) \<le> MAX_RESULT_BYTES"
    and g: "g = (case md of ImageMode \<Rightarrow> \<lparr>gr_mode = md, gr_images = Some media, gr_video = None\<rparr>
           | VideoMode \<Rightarrow> \<lparr>gr_mode = md, gr_images = None, gr_video = Some (hd media)\<rparr>)"
    by (cases "read_all_media files")
       (auto simp: fs collectDreaminaGenerationResult_def Let_def files_def[symmetric] split: if_splits)
  have typed: "\<exists>f. mime_of_file md f = Some mime" if "(mime, b) \<in> set files" for mime b
    using files_typed[OF that[unfolded files_def]] .
  define ms where "ms = map (\<lambda>(mime, b). (b, mime)) files"
  from read_all_mediaD[OF media(1)] have m: "media = map as_item ms"
    and sig: "list_all (\<lambda>(mime, b). b \<noteq> [] \<and> hasExpectedMediaSignature b mime) files"
    by (auto simp: ms_def)
  have "list_all (\<lambda>(b, mime). b \<noteq> [] \<and> validMedia b mime md) ms"
    using sig typed signature_valid by (fastforce simp: ms_def list_all_iff)
  then have fits: "fits md 0 ms"
    using media(2) unfolding m sum_bytes by (intro fits_of_sum) simp_all
  have "length media = length files" using m by (simp add: ms_def)
  then have items: "result_items g = media" "gr_mode g = md"
    using c(1,3) by (cases md; cases media; auto simp: g result_items_def)+
  show "plain_result g" by (cases md) (simp_all add: g plain_result_def)
  have "decodeResult g md = Inr ms"
    using decode_items_ok[OF fits] items c \<open>length media = length files\<close> m by (auto simp: decodeResult_def)
  then show "\<exists>ms. decodeResult g md = Inr ms" by blast
qed

end
