(* ===== verification/RuntimeCliClaims.thy ===== *)
theory RuntimeCliClaims
  imports RuntimeTurnClaims ArtifactProofs
begin

text \<open>
  Properties of the runtime's dealings with the command line program and with the reconciler, and what
  a refused write does to a runtime.
\<close>

section \<open>Answers\<close>

definition status_words :: "string set" where
  "status_words = {''pending'', ''processing'', ''completed'', ''failed'', ''cancelled''}"

lemma safeQueryEnum_in:
  assumes "safeQueryEnum v table = Inr (Some x)"
  shows "x \<in> snd ` set table"
  using assms by (auto simp: safeQueryEnum_def split: option.splits json.splits dest!: map_of_SomeD intro: rev_image_eqI)

lemma status_table: "snd ` set QUERY_STATUS_MAP = status_words"
  by (auto simp: QUERY_STATUS_MAP_def status_words_def)

lemma code_table: "snd ` set QUERY_CODE_MAP = {''success'', ''pending'', ''processing'', ''failed'', ''cancelled''}"
  by (auto simp: QUERY_CODE_MAP_def)

lemma id_value_ok: "id_value v = Some s \<Longrightarrow> chars_ok id_char 8 160 s"
  by (auto simp: id_value_def split: option.splits json.splits if_splits)

text \<open>Whatever JSON the program prints, only a whitelist of it goes on: statuses are one of five words,
  the code is one of five words, the task id has the shape of an id, the progress is a percentage, a message
  has been through the sanitizer; and an accepted answer has at least one of them.\<close>

theorem answers_cut_to_whitelist:
  assumes "safeQueryResult sanitize v = Inr q"
  shows "opt_ok (\<lambda>s. s \<in> status_words) (qr_status q) \<and> opt_ok (\<lambda>s. s \<in> status_words) (qr_state q)
    \<and> opt_ok (\<lambda>s. s \<in> status_words) (qr_genStatus q)
    \<and> opt_ok (\<lambda>s. s \<in> {''success'', ''pending'', ''processing'', ''failed'', ''cancelled''}) (qr_code q)
    \<and> opt_ok (chars_ok id_char 8 160) (qr_submitId q) \<and> opt_ok (\<lambda>n. 0 \<le> n \<and> n \<le> 100) (qr_progress q)
    \<and> opt_ok (\<lambda>m. m \<noteq> [] \<and> m \<in> range sanitize) (qr_message q) \<and> query_fields q"
proof -
  obtain obj where v: "v = JsonObject obj" using assms by (cases v) (auto simp: safeQueryResult_def)
  from assms obtain st sa ge co where e: "safeQueryEnum (json_member obj ''status'') QUERY_STATUS_MAP = Inr st"
    "safeQueryEnum (json_member obj ''state'') QUERY_STATUS_MAP = Inr sa"
    "safeQueryEnum (json_member obj ''gen_status'') QUERY_STATUS_MAP = Inr ge"
    "safeQueryEnum (json_member obj ''code'') QUERY_CODE_MAP = Inr co"
    and q: "q = \<lparr>qr_submitId = id_value (or_else (json_member obj ''submit_id'') (json_member obj ''submitId'')),
        qr_status = st, qr_state = sa, qr_genStatus = ge, qr_code = co,
        qr_progress = safe_progress (json_member obj ''progress''),
        qr_completed = safe_completed (json_member obj ''completed'') (json_member obj ''success''),
        qr_message = safe_message sanitize (json_member obj ''message'')\<rparr>" and f: "query_fields q"
    unfolding v safeQueryResult_def Let_def
    by (simp split: sum.splits if_splits)
  have "opt_ok (\<lambda>s. s \<in> status_words) x" if "safeQueryEnum y QUERY_STATUS_MAP = Inr x" for x y
    using safeQueryEnum_in[of y QUERY_STATUS_MAP] that status_table by (cases x) auto
  note st = this[OF e(1)] this[OF e(2)] this[OF e(3)]
  have co: "opt_ok (\<lambda>s. s \<in> {''success'', ''pending'', ''processing'', ''failed'', ''cancelled''}) co"
    using safeQueryEnum_in[of _ QUERY_CODE_MAP] e(4) code_table by (cases co) auto
  have "opt_ok (chars_ok id_char 8 160) (id_value x)" for x
    using id_value_ok by (cases "id_value x") auto
  moreover have "opt_ok (\<lambda>n. 0 \<le> n \<and> n \<le> 100) (safe_progress x)" for x
    by (auto simp: safe_progress_def split: option.splits json.splits)
  moreover have "opt_ok (\<lambda>m. m \<noteq> [] \<and> m \<in> range sanitize) (safe_message sanitize x)" for x
    by (auto simp: safe_message_def truthy_str_def split: option.splits json.splits)
  ultimately show ?thesis using st co f unfolding q by simp
qed

section \<open>Observations\<close>

lemma retry_code_valid: "error_code_ok (reconciliationRetryCode e)"
proof -
  have "error_code_ok ''dreamina_query_materialization_retry''" "error_code_ok ''dreamina_account_session_changed''"
    by code_simp+
  then show ?thesis by (cases e) (auto simp: reconciliationRetryCode_def)
qed

lemma error_code_nonempty: "error_code_ok s \<Longrightarrow> s \<noteq> []"
  by (auto simp: error_code_ok_def)

lemma binding_valid:
  assumes "validRecord r"
  shows "validateBinding (artifactBinding r md) = Inr ()"
proof -
  have "opt_ok (chars_ok hex_char 64 64) (rr_accountBinding r)" "opt_ok positive_version (rr_fenceEpoch r)"
    "chars_ok owner_char 16 120 (rr_ownerId r)" "chars_ok id_char 8 160 (rr_idempotencyKey r)"
    using assms by (simp_all add: validRecord_def baseValid_def identity_valid_def runtime_fields_valid_def)
  then show ?thesis
    using truthy_str_ok[of "chars_ok hex_char 64 64" "rr_accountBinding r"]
      truthy_int_ok[of positive_version "rr_fenceEpoch r"]
    by (simp add: validateBinding_def artifactBinding_def positive_version_def[abs_def])
qed

lemma journal_outputs_valid: "journal_outputs_ok (Some md) outs \<Longrightarrow> validProviderOutputs outs"
  by (cases md) (auto simp: journal_outputs_ok_def validProviderOutputs_def list_all_iff)

text \<open>The cases of an observation.\<close>

lemma observation_cases:
  assumes "observeReconciliation e r store = (Inr ob, store')" "truthy (rr_submitId r)"
    and "md = (case rr_mode r of None \<Rightarrow> VideoMode | Some m \<Rightarrow> m)"
  obtains (other) "ob_status ob \<noteq> Completed" "ob = observed_at (oe_now e) (ob_status ob)"
  | (retry) err where "ob = (observed_at (oe_now e) Completed)\<lparr>ob_retryCode := Some (reconciliationRetryCode err)\<rparr>"
      "materializeCompletedResultOnce e (the (rr_submitId r)) md = Inl err
       \<or> (\<exists>g. materializeCompletedResultOnce e (the (rr_submitId r)) md = Inr g
            \<and> fst (persistResult (oe_sha e) (oe_set e) (oe_now e) (oe_fault e) g (artifactBinding r md) store) = Inl err)"
  | (stored) g outs where "ob = (observed_at (oe_now e) Completed)\<lparr>ob_providerOutputs := Some outs\<rparr>"
      "materializeCompletedResultOnce e (the (rr_submitId r)) md = Inr g"
      "persistResult (oe_sha e) (oe_set e) (oe_now e) (oe_fault e) g (artifactBinding r md) store = (Inr outs, store')"
proof -
  note o = assms(1)[unfolded observeReconciliation_def Let_def, folded assms(3)]
  obtain st where st: "bindE (oe_query e (the (rr_submitId r))) queryOfficialStatus = Inr st"
    using o assms(2) by (cases "bindE (oe_query e (the (rr_submitId r))) queryOfficialStatus") simp_all
  show thesis
  proof (cases "st = Completed")
    case False
    with o st assms(2) show thesis by (intro other) (auto simp: observed_at_def)
  next
    case True
    show thesis
    proof (cases "materializeCompletedResultOnce e (the (rr_submitId r)) md")
      case (Inl err)
      with o st True assms(2) show thesis by (intro retry) auto
    next
      case (Inr g)
      obtain res s where p: "persistResult (oe_sha e) (oe_set e) (oe_now e) (oe_fault e) g (artifactBinding r md) store = (res, s)"
        by (cases "persistResult (oe_sha e) (oe_set e) (oe_now e) (oe_fault e) g (artifactBinding r md) store")
      show thesis
      proof (cases res)
        case (Inl err)
        with o st True Inr assms(2) p show thesis by (intro retry[of err]) auto
      next
        case (Inr outs)
        with o st True \<open>materializeCompletedResultOnce _ _ _ = Inr g\<close> assms(2) p show thesis by (intro stored) auto
      qed
    qed
  qed
qed

lemma materialized_plain:
  assumes "materializeCompletedResultOnce e sid md = Inr g"
  shows "plain_result g" "\<exists>ms. decodeResult g md = Inr ms"
proof -
  from assms have "collectDreaminaGenerationResult (oe_found e) md = Inr g"
    by (auto simp: materializeCompletedResultOnce_def split: sum.splits if_splits)
  from collected_accepted[OF this] show "plain_result g" "\<exists>ms. decodeResult g md = Inr ms" .
qed

text \<open>What is left without a due time after an observation has been recorded.\<close>

lemma unscheduled_after:
  assumes "ob_status ob = Completed \<longrightarrow> ob_providerOutputs ob \<noteq> None \<or> truthy (ob_retryCode ob)"
  shows "unscheduled (record_observation c t ob r)
    \<longleftrightarrow> eligible r \<and> rr_state r = JSucceeded \<and> ob_status ob \<in> {Failed, Cancelled}"
  using assms
  by (cases "ob_status ob") (auto simp: unscheduled_def record_observation_def applyObservation_def eligible_def
      clearSyncError_def Let_def)

text \<open>C32: The observations of the runtime fit the rest of the agent. Every observation of a valid record
  with a receipt passes the reconciler's validation. The outputs it names pass the check of the journal and are read
  back from the store of artifacts as the result that was downloaded; a result that could be downloaded
  is missing from the observation only if writing it to the store failed. Once the observation is recorded, the
  task is polled again or has ended, with one exception: a task that succeeded without outputs so far and is then
  reported failed or cancelled is left without a due time (\<open>contradicted_task_forgotten\<close>).
  The hash gives 64 hexadecimal digits, the id of the set is a UUID, and the clock is in range.\<close>

theorem runtime_observations_fit:
  assumes "observeReconciliation e r store = (Inr ob, store')" "validRecord r" "truthy (rr_submitId r)"
    and "md = (case rr_mode r of None \<Rightarrow> VideoMode | Some m \<Rightarrow> m)"
    and "sha_digits (oe_sha e)" "random_uuid_ok (oe_set e)" "iso_time (oe_now e)"
  shows "validateObservation ob = Inr ()
    \<and> (case ob_providerOutputs ob of
         Some outs \<Rightarrow> journal_outputs_ok (Some md) outs
           \<and> readResult (oe_sha e) outs (artifactBinding r md) store'
             = materializeCompletedResultOnce e (the (rr_submitId r)) md
       | None \<Rightarrow> ob_status ob \<noteq> Completed \<or> oe_fault e \<noteq> None
           \<or> (\<exists>err. materializeCompletedResultOnce e (the (rr_submitId r)) md = Inl err))
    \<and> (unscheduled (record_observation c t ob r)
         \<longleftrightarrow> eligible r \<and> rr_state r = JSucceeded \<and> ob_status ob \<in> {Failed, Cancelled})"
proof -
  have date: "date_ok (to_iso_string (oe_now e))"
    using date_parse_to_iso_string[OF assms(7)] by (simp add: date_ok_def)
  from assms(1,3,4) show ?thesis
  proof (cases rule: observation_cases)
    case other
    then have "ob_providerOutputs ob = None" "ob_retryCode ob = None" "ob_observedAt ob = to_iso_string (oe_now e)"
      by (metis observed_at_def poll_observation.select_convs)+
    with other(1) date show ?thesis by (simp add: validateObservation_def unscheduled_after)
  next
    case (retry err)
    then have ob: "ob_status ob = Completed" "ob_providerOutputs ob = None"
      "ob_retryCode ob = Some (reconciliationRetryCode err)" "ob_observedAt ob = to_iso_string (oe_now e)"
      by (simp_all add: observed_at_def)
    have "oe_fault e \<noteq> None" if g: "materializeCompletedResultOnce e (the (rr_submitId r)) md = Inr g"
        "fst (persistResult (oe_sha e) (oe_set e) (oe_now e) (oe_fault e) g (artifactBinding r md) store) = Inl err" for g
      using materialized_plain(2)[OF g(1)] g(2) binding_valid[OF assms(2), of md]
      by (auto simp: persistResult_def artifactBinding_def Let_def split: option.splits)
    with retry(2) ob date retry_code_valid[of err] error_code_nonempty show ?thesis
      by (auto simp: validateObservation_def unscheduled_after)
  next
    case (stored g outs)
    then have ob: "ob_status ob = Completed" "ob_providerOutputs ob = Some outs" "ob_retryCode ob = None"
      "ob_observedAt ob = to_iso_string (oe_now e)"
      by (simp_all add: observed_at_def)
    have m: "ab_mode (artifactBinding r md) = md" by (simp add: artifactBinding_def)
    from stored_result_read_back[OF stored(3) materialized_plain(1)[OF stored(2)] assms(6,5,7)]
    have "readResult (oe_sha e) outs (artifactBinding r md) store' = Inr g" "journal_outputs_ok (Some md) outs"
      unfolding m by blast+
    with ob date stored(2) journal_outputs_valid show ?thesis
      by (simp add: validateObservation_def unscheduled_after)
  qed
qed

section \<open>A whole submission\<close>

text \<open>What others do to the journal in the meantime: it stays valid, and a started task stays one. By the
  invariant \<open>spending\<close> every run of runtimes and reconcilers without a withdrawal is of this kind.\<close>

definition harmless :: "string \<Rightarrow> string \<Rightarrow> reservation \<Rightarrow> (runtime_disk option \<Rightarrow> runtime_disk option) \<Rightarrow> bool" where
  "harmless owner k v f \<longleftrightarrow> (\<forall>d. journal_valid owner d \<longrightarrow> journal_valid owner (f d)
     \<and> (spent_in k v (disk_content d) \<longrightarrow> spent_in k v (disk_content (f d))))"

interpretation validity: journal_invariant "\<lambda>_. True" "\<lambda>_ _. True"
  by unfold_locales simp_all

lemma runs_harmless:
  assumes "\<forall>i. rt_ownerId (cs i) = owner" "\<forall>z \<in> set ops. case z of Runtime _ _ y \<Rightarrow> \<not> withdraws k v y | _ \<Rightarrow> True"
  shows "harmless owner k v (\<lambda>d. w_disk (world_run cs owner \<lparr>w_copy = copies, w_disk = d\<rparr> ops))"
proof -
  have a: "all_admissible (\<lambda>c x. \<not> withdraws k v x) cs owner ops" "all_admissible (\<lambda>_ _. True) cs owner ops"
    using assms by (auto simp: all_admissible_def list_all_iff split: world_op.splits)
  show ?thesis unfolding harmless_def
    using spending.holds_along[OF _ _ a(1)] validity.holds_along[OF _ _ a(2)] by simp
qed

lemma meanwhile_keeps:
  assumes "harmless owner k v f" "journal_valid owner (rs_disk s)"
  shows "journal_valid owner (rs_disk (meanwhile f s))"
    "spent_in k v (disk_content (rs_disk s)) \<Longrightarrow> spent_in k v (disk_content (rs_disk (meanwhile f s)))"
  using assms unfolding harmless_def meanwhile_def by simp_all

abbreviation started :: "runtime_config \<Rightarrow> string \<Rightarrow> reservation \<Rightarrow> runtime_state \<Rightarrow> bool" where
  "started c k v s \<equiv> journal_valid (rt_ownerId c) (rs_disk s) \<and> spent_in k v (disk_content (rs_disk s))"

lemma section_started:
  assumes "section_step c t x (rs_disk (meanwhile f s)) (rs_disk s')" "\<not> withdraws k v x"
    and "harmless (rt_ownerId c) k v f" "started c k v s"
  shows "started c k v s'"
proof -
  from meanwhile_keeps[OF assms(3)] assms(4)
  have "journal_valid (rt_ownerId c) (rs_disk (meanwhile f s))" "spent_in k v (disk_content (rs_disk (meanwhile f s)))"
    by blast+
  then show ?thesis by (rule spending.section_keeps[OF assms(1,2)])
qed

lemma run_started:
  assumes "run_submission c e k h v fe x s = (a, s')" "at_spawned a"
    and "journal_valid (rt_ownerId c) (rs_disk s)"
    and "harmless (rt_ownerId c) k v (sv_others_fence e)" "harmless (rt_ownerId c) k v (sv_others_accept e)"
  shows "started c k v s'"
proof -
  obtain r s1 where p: "commitInvocationFence c (sv_fence_env e) k h v fe x (meanwhile (sv_others_fence e) s) = (r, s1)"
    by fastforce
  from assms(1,2) p have "r = Inr ()" by (cases r) (auto simp: run_submission_def)
  then have "started c k v s1"
    using permit_spends[of c "sv_fence_env e" k h v fe x "meanwhile (sv_others_fence e) s" s1] p
      section_valid[OF permit_step[OF p]] meanwhile_keeps(1)[OF assms(4,3)] by blast
  moreover have "started c k v s2" if "commitAcceptedReceipt c (sv_accept_env e) k h v fe sid (sv_current_locked e) x
      (meanwhile (sv_others_accept e) s1) = (r2, s2)" for sid r2 s2
    by (rule section_started[OF receive_step[OF that] _ assms(5) calculation]) simp
  ultimately show ?thesis
    using assms(1) p \<open>r = Inr ()\<close>
    by (auto simp: run_submission_def split: sum.splits option.splits prod.splits)
qed

text \<open>C6: A task whose process may have been started is kept. Whatever the calls of a submission return,
  whichever of its writes fail, and whatever others do to the journal in between, short of taking a started task back:
  when the process may have been started, the journal afterwards still has the task, pending under the
  very reservation and marked as permitted to start, or in a state past pending. So the runtime does not
  forget a submission that may be charged, and by \<open>started_at_most_once\<close> it is not submitted again.\<close>

theorem started_task_kept:
  assumes "submitPrepared c e k h v s = (res, s')" "at_spawned (fst (submit_attempt c e k h v s))"
    and "opt_ok (validRuntimeDiskState (rt_ownerId c)) (rs_disk s)"
    and "\<forall>f \<in> {sv_others_fence e, sv_others_accept e, sv_others_failure e, sv_others_warning e}.
      harmless (rt_ownerId c) k v f"
  shows "\<exists>r \<in> set (disk_records (rs_disk s')). rr_key r = k \<and> (rr_state r \<notin> {JQueued, JPending}
    \<or> rr_state r = JPending \<and> rr_reservationId r = Some (rv_id v) \<and> rr_reservationOwnerId r = Some (rv_owner v)
       \<and> rr_submissionPhase r = Some SpawnPermitted)"
proof -
  obtain a s1 where a: "submit_attempt c e k h v s = (a, s1)" by fastforce
  have "started c k v s1"
  proof -
    from a assms(2) obtain fe x b where b: "run_submission c e k h v fe x s = (b, s1)" "a = after_lease e b"
      by (auto simp: submit_attempt_def Let_def split: if_splits sum.splits prod.splits)
    moreover from b(2) a assms(2) have "at_spawned b" by (auto simp: after_lease_def split: option.splits)
    ultimately show ?thesis using run_started assms(3,4) by blast
  qed
  note started = this
  have warned: "started c k v s2" if "persistCleanupWarning c (sv_warning_env e) k fe (meanwhile (sv_others_warning e) s1) = (r2, s2)"
    for fe r2 s2
    by (rule section_started[OF warn_step[OF that] _ _ started]) (use assms(4) in simp_all)
  have failed: "started c k v s2" if "commitSubmissionFailure c (sv_failure_env e) k h v fe True code
      (meanwhile (sv_others_failure e) s1) = (r2, s2)" for fe code r2 s2
    by (rule section_started[OF give_up_step[OF that] _ _ started]) (use assms(4) in simp_all)
  have sp: "at_spawned a" using assms(2) a by simp
  have "started c k v s'"
  proof (cases "at_result a")
    case (Inl err)
    show ?thesis
    proof (cases "leaves_record err")
      case True
      with assms(1) a Inl started show ?thesis by (simp add: submitPrepared_def)
    next
      case False
      obtain r2 s2 where f: "commitSubmissionFailure c (sv_failure_env e) k h v (at_fence a) True (submitFailureCode err True)
        (meanwhile (sv_others_failure e) s1) = (r2, s2)" by (rule prod.exhaust)
      with assms(1) a Inl False sp have "s' = s2" by (simp add: submitPrepared_def Let_def)
      with failed[OF f] show ?thesis by simp
    qed
  next
    case (Inr sid)
    then have "s' = s1 \<or> (\<exists>fe. s' = snd (persistCleanupWarning c (sv_warning_env e) k fe (meanwhile (sv_others_warning e) s1)))"
      using assms(1) unfolding submitPrepared_def a prod.case Inr sum.case
      by (cases "sv_cleanup e"; cases "at_fence a") auto
    then show ?thesis
    proof
      assume "s' = s1"
      with started show ?thesis by simp
    next
      assume "\<exists>fe. s' = snd (persistCleanupWarning c (sv_warning_env e) k fe (meanwhile (sv_others_warning e) s1))"
      then obtain fe where s': "s' = snd (persistCleanupWarning c (sv_warning_env e) k fe
        (meanwhile (sv_others_warning e) s1))" ..
      show ?thesis unfolding s' by (rule warned[OF prod.collapse[symmetric]])
    qed
  qed
  then have "spent_in k v (disk_content (rs_disk s'))" ..
  then have "\<exists>r \<in> set (disk_records (rs_disk s')). rr_key r = k \<and> spent v r" unfolding spent_content .
  then show ?thesis unfolding spent_def .
qed

section \<open>Refused writes\<close>

text \<open>A reservation belongs to a pending record; a copy with another reserved record cannot be written.\<close>

definition misplaced_reservation :: "runtime_record \<Rightarrow> bool" where
  "misplaced_reservation r \<longleftrightarrow> rr_reservationId r \<noteq> None \<and> rr_state r \<noteq> JPending"

lemma misplaced_invalid: "misplaced_reservation r \<Longrightarrow> \<not> validRecord r"
  by (auto simp: misplaced_reservation_def validRecord_def baseValid_def runtime_fields_valid_def
      reservationShapeValid_def noReservation_def legacyReservation_def)

lemma persist_refused:
  assumes "n \<in> set (rs_records s)" "misplaced_reservation n"
  shows "\<exists>e. persistUnlocked c fault s = (Inl e, s)"
proof (cases "fault = Some LockLostBefore")
  case True
  then show ?thesis by (simp add: persistUnlocked_def)
next
  case False
  let ?p = "\<lparr>rd_records = sort_by (\<lambda>l r. rt_localeLe c (rr_idempotencyKey l) (rr_idempotencyKey r))
      (rs_records s), rd_nextQueueTicket = Some (rs_nextQueueTicket s)\<rparr>"
  show ?thesis
  proof (cases "write_journal (rt_ownerId c) (rs_disk s) ?p")
    case (Inl e)
    with False show ?thesis by (simp add: persistUnlocked_def)
  next
    case (Inr d)
    from write_effect[OF Inr] obtain y where y: "validRuntimeDiskState (rt_ownerId c) y"
      "map unversioned (rd_records y) = map unversioned (rd_records ?p)" by blast
    have "unversioned n \<in> set (map unversioned (rd_records ?p))" using assms(1) by simp
    then obtain q where q: "q \<in> set (rd_records y)" "unversioned q = unversioned n"
      unfolding y(2)[symmetric] by auto
    have "misplaced_reservation q"
      using assms(2) unversioned_fields(3)[OF q(2)] same_fields(2)[OF q(2)] by (simp add: misplaced_reservation_def)
    moreover have "validRecord q" using y(1) q(1) by (simp add: validRuntimeDiskState_def list_all_iff)
    ultimately show ?thesis using misplaced_invalid by blast
  qed
qed

lemma set_record_in: "r \<in> set (rs_records (set_record r s))"
  by (auto simp: set_record_def image_iff intro: rev_image_eqI)

text \<open>A copy that is ahead of the journal refuses it.\<close>

lemma reload_behind:
  assumes "n \<in> set (rs_records s)"
    and "\<And>q. q \<in> set (disk_records (rs_disk s)) \<Longrightarrow> rr_key q = rr_key n \<Longrightarrow>
      stateRank (rr_state (recover_record (env_now env) q)) < stateRank (rr_state n)"
  shows "fst (reloadFromDisk c env s) \<noteq> Inr ()"
proof (cases "readRuntimeDiskState (rt_ownerId c) (rs_disk s)")
  case (Inr x)
  then have x: "rs_disk s = x" using read_validD by blast
  show ?thesis
  proof (cases x)
    case None
    with Inr assms(1) show ?thesis by (auto simp: reloadFromDisk_def)
  next
    case (Some d)
    let ?new = "map (recover_record (env_now env)) (rd_records d)"
    have "\<not> reload_accepts ?new (rs_records s)"
    proof
      assume "reload_accepts ?new (rs_records s)"
      with assms(1) obtain i where i: "map_get rr_key ?new (rr_key n) = Some i"
        "stateRank (rr_state n) \<le> stateRank (rr_state i)"
        by (fastforce simp: reload_accepts_def list_all_iff split: option.splits)
      then have "i \<in> set ?new" "rr_key i = rr_key n" by (auto simp: map_get_def dest: find_Some_set)
      then obtain q where "q \<in> set (rd_records d)" "i = recover_record (env_now env) q" "rr_key q = rr_key n" by auto
      with assms(2)[of q] i(2) x Some show False by simp
    qed
    with Inr Some show ?thesis by (simp add: reloadFromDisk_def Let_def)
  qed
qed (simp add: reloadFromDisk_def)

text \<open>C31: Deleting a task that has a slot but has not been submitted cannot succeed, although the code
  has a case for it: the new record keeps its reservation, so the write is refused, whatever its faults. The journal stays
  as it was, but the copy has the task deleted, and from then on every reload of this runtime, and so
  every operation, is refused for as long as the journal has the task queued, pending or accepted.\<close>

theorem deleting_reserved_task_blocks:
  assumes "deleteTask c env0 env idem s = (res, s')" "validateIdempotencyKey idem = Inr ()"
    and "reloadFromDisk c env0 s = (Inr (), s1)" "reloadFromDisk c env s1 = (Inr (), s2)"
    and "cached s2 (recordKey (rt_ownerId c) idem) = Some r" "rr_state r = JPending" "rr_reservationId r \<noteq> None"
      "rr_submissionPhase r = Some Reserved" "\<not> rr_hidden r" "rr_taskVersion r = Some 1"
  shows "(\<exists>e. res = Inl e) \<and> rs_disk s' = rs_disk s2
    \<and> ((\<forall>q \<in> set (disk_records d). rr_key q = recordKey (rt_ownerId c) idem \<longrightarrow>
          rr_state (recover_record (env_now env') q) \<in> {JQueued, JPending, JAccepted})
        \<longrightarrow> fst (reloadFromDisk c env' (s'\<lparr>rs_disk := d\<rparr>)) \<noteq> Inr ())"
proof -
  let ?k = "recordKey (rt_ownerId c) idem" and ?n = "removed_record (env_now env) r"
  have f: "fresh c (env_now env) (rs_disk s1) s2" using reload_effect(2)[OF assms(4)] by simp
  have r: "rr_key r = ?k" using assms(5) unfolding cached_iff[OF f] by blast
  have n: "rr_state ?n = JDeleted" "misplaced_reservation ?n"
    using assms(6-8) by (simp_all add: removed_record_def misplaced_reservation_def clearQueueLease_def)
  have "rr_key ?n = rr_key r" by (simp add: removed_record_def clearQueueLease_def)
  then have key: "rr_key ?n = ?k" using r by simp
  from assms(1-10) have "saved c env () (set_record ?n s2) = (res, s')"
    by (simp add: deleteTask_def reloaded_def truthy_int_def)
  with persist_refused[OF set_record_in n(2), of c "env_write env" s2]
  have res: "\<exists>e. res = Inl e" and s': "s' = set_record ?n s2" by (auto simp: saved_def)
  have "rs_disk s' = rs_disk s2" by (simp add: s' set_record_def)
  moreover have "fst (reloadFromDisk c env' (s'\<lparr>rs_disk := d\<rparr>)) \<noteq> Inr ()"
    if "\<forall>q \<in> set (disk_records d). rr_key q = ?k \<longrightarrow>
          rr_state (recover_record (env_now env') q) \<in> {JQueued, JPending, JAccepted}"
  proof (rule reload_behind)
    show "?n \<in> set (rs_records (s'\<lparr>rs_disk := d\<rparr>))" using set_record_in[of ?n s2] by (simp add: s')
    fix q assume "q \<in> set (disk_records (rs_disk (s'\<lparr>rs_disk := d\<rparr>)))" "rr_key q = rr_key ?n"
    with that key have "rr_state (recover_record (env_now env') q) \<in> {JQueued, JPending, JAccepted}" by simp
    then show "stateRank (rr_state (recover_record (env_now env') q)) < stateRank (rr_state ?n)" using n(1) by auto
  qed
  ultimately show ?thesis using res by blast
qed

section \<open>Examples\<close>

definition sample_answer :: json where
  "sample_answer = JsonObject [(''gen_status'', JsonString ''Success''), (''progress'', JsonNumber 250),
     (''secret'', JsonString ''x'')]"

lemma sample_answer_read: "safeQueryResult id sample_answer = Inr \<lparr>qr_submitId = None, qr_status = None, qr_state = None,
    qr_genStatus = Some ''completed'', qr_code = None, qr_progress = None, qr_completed = None, qr_message = None\<rparr>"
  by code_simp

lemma answers_cut_to_whitelist_witness:
  "\<exists>q. safeQueryResult id sample_answer = Inr q \<and> qr_genStatus q = Some ''completed'' \<and> query_fields q"
  using answers_cut_to_whitelist[OF sample_answer_read] sample_answer_read by auto

text \<open>A completed task whose download has one PNG image beside another file.\<close>

definition sample_observer :: observe_env where
  "sample_observer = \<lparr>oe_sha = (\<lambda>_. replicate 64 CHR ''0''), oe_now = sample_now,
     oe_query = (\<lambda>_. safeQueryResult id sample_answer), oe_download = (\<lambda>_. safeQueryResult id sample_answer),
     oe_found = Inr [(''/run/output/log.txt'', ''ok''), (''/run/output/A.PNG'', PNG_SIGNATURE @ ''data'')],
     oe_set = sample_iid, oe_fault = None\<rparr>"

abbreviation empty_artifacts :: artifact_root where
  "empty_artifacts \<equiv> \<lparr>ar_sets = [], ar_temporary = []\<rparr>"

definition sample_result :: generation_result where
  "sample_result = \<lparr>gr_mode = ImageMode, gr_images = Some [media_of_bytes ''image/png'' (PNG_SIGNATURE @ ''data'')],
     gr_video = None\<rparr>"

lemma sample_download:
  "collectDreaminaGenerationResult (Inr [(''/run/output/log.txt'', ''ok''),
     (''/run/output/A.PNG'', PNG_SIGNATURE @ ''data'')]) ImageMode = Inr sample_result"
  by code_simp

lemma sample_hash: "chars_ok hex_char 64 64 (replicate 64 CHR ''0'')"
  by code_simp

lemma runtime_observations_fit_witness:
  "\<exists>ob store outs. observeReconciliation sample_observer sample_record empty_artifacts = (Inr ob, store)
     \<and> validateObservation ob = Inr () \<and> ob_providerOutputs ob = Some outs
     \<and> journal_outputs_ok (Some ImageMode) outs
     \<and> readResult (oe_sha sample_observer) outs (artifactBinding sample_record ImageMode) store = Inr sample_result
     \<and> \<not> unscheduled (record_observation sample_reconciler sample_now ob sample_record)"
proof -
  have q: "queryOfficialStatus \<lparr>qr_submitId = None, qr_status = None, qr_state = None,
    qr_genStatus = Some ''completed'', qr_code = None, qr_progress = None, qr_completed = None, qr_message = None\<rparr>
      = Inr Completed" by code_simp
  have d: "queryState \<lparr>qr_submitId = None, qr_status = None, qr_state = None,
    qr_genStatus = Some ''completed'', qr_code = None, qr_progress = None, qr_completed = None, qr_message = None\<rparr>
      = QueryCompleted" by code_simp
  have r: "truthy (rr_submitId sample_record)" "rr_mode sample_record = Some ImageMode"
    "rr_state sample_record = JAccepted" by (simp_all add: sample_record_def)
  have g: "materializeCompletedResultOnce sample_observer (the (rr_submitId sample_record)) ImageMode = Inr sample_result"
    by (simp add: materializeCompletedResultOnce_def sample_observer_def sample_answer_read d sample_download del: append.simps)
  have fine: "fst (persistResult (oe_sha sample_observer) (oe_set sample_observer) (oe_now sample_observer)
      (oe_fault sample_observer) sample_result (artifactBinding sample_record ImageMode) empty_artifacts) = Inr outs"
    if "outs = provider_outputs sample_iid ImageMode ms" "decodeResult sample_result ImageMode = Inr ms" for outs ms
    using that binding_valid[OF sample_valid(1), of ImageMode]
    by (simp add: persistResult_def sample_observer_def artifactBinding_def Let_def)
  obtain ms where ms: "decodeResult sample_result ImageMode = Inr ms" using materialized_plain(2)[OF g] by blast
  obtain ob store outs where ob: "observeReconciliation sample_observer sample_record empty_artifacts = (Inr ob, store)"
    "ob_providerOutputs ob = Some outs"
    using r q g fine[OF refl ms]
    by (cases "persistResult (oe_sha sample_observer) (oe_set sample_observer) (oe_now sample_observer)
      (oe_fault sample_observer) sample_result (artifactBinding sample_record ImageMode) empty_artifacts")
       (auto simp: observeReconciliation_def Let_def sample_answer_read sample_observer_def)
  have env: "sha_digits (oe_sha sample_observer)" "random_uuid_ok (oe_set sample_observer)"
    "iso_time (oe_now sample_observer)"
    using sample_uuids sample_times sample_hash by (simp_all add: sample_observer_def sha_digits_def)
  from runtime_observations_fit[OF ob(1) sample_valid(1) r(1) _ env, of ImageMode sample_reconciler sample_now] ob g r
  show ?thesis by simp
qed

lemma sample_held_reloads:
  defines "s \<equiv> at_runtime 0 (one_record_world held_record)"
  defines "s1 \<equiv> s\<lparr>rs_records := [held_record], rs_nextQueueTicket := 2\<rparr>"
  shows "reloadFromDisk sample_runtime (calm sample_now) s = (Inr (), s1)"
    "reloadFromDisk sample_runtime (calm sample_now) s1 = (Inr (), s1)"
proof -
  show "reloadFromDisk sample_runtime (calm sample_now) s = (Inr (), s1)" unfolding s1_def
    by (rule reload_one) (use one_record_worlds_valid(2) sample_lives(2) in
      \<open>simp_all add: s_def dead_pending_def dead_queued_def held_fields int_or_def\<close>)
  have "reloadFromDisk sample_runtime (calm sample_now) s1 = (Inr (), s1\<lparr>rs_records := [held_record], rs_nextQueueTicket := 2\<rparr>)"
    by (rule reload_one) (use one_record_worlds_valid(2) sample_lives(2) in
      \<open>simp_all add: s1_def s_def dead_pending_def dead_queued_def held_fields int_or_def\<close>)
  then show "reloadFromDisk sample_runtime (calm sample_now) s1 = (Inr (), s1)" by (simp add: s1_def)
qed

lemma deleting_reserved_task_blocks_witness:
  "\<exists>e s'. deleteTask sample_runtime (calm sample_now) (calm sample_now) ''task-0001''
       (at_runtime 0 (one_record_world held_record)) = (Inl e, s')
     \<and> fst (reloadFromDisk sample_runtime (calm sample_now) s') \<noteq> Inr ()"
proof -
  let ?s = "at_runtime 0 (one_record_world held_record)"
  let ?s1 = "?s\<lparr>rs_records := [held_record], rs_nextQueueTicket := 2\<rparr>"
  obtain res s' where d: "deleteTask sample_runtime (calm sample_now) (calm sample_now) ''task-0001'' ?s = (res, s')"
    by fastforce
  have key: "validateIdempotencyKey ''task-0001'' = Inr ()" by code_simp
  have get: "cached ?s1 (recordKey (rt_ownerId sample_runtime) ''task-0001'') = Some held_record"
    by (simp add: map_get_def held_fields)
  have live: "recover_record sample_now held_record = held_record"
    using sample_lives(2) by (intro recover_alive) (simp_all add: dead_pending_def dead_queued_def held_fields)
  have "s'\<lparr>rs_disk := rs_disk s'\<rparr> = s'" by simp
  with deleting_reserved_task_blocks[OF d key sample_held_reloads get, of "rs_disk s'" "calm sample_now"] live d
  show ?thesis by (simp add: held_fields)
qed

text \<open>A submission whose process ran and printed no receipt, with the other runtime at work throughout.\<close>

definition busy_disk :: "runtime_disk option \<Rightarrow> runtime_disk option" where
  "busy_disk d = w_disk (world_run (\<lambda>_. sample_runtime) ''owner-0123456789'' \<lparr>w_copy = (\<lambda>_. ([], 1)), w_disk = d\<rparr>
     [Runtime 1 (calm sample_now) Reload])"

definition lost_answer :: submit_env where
  "lost_answer = \<lparr>sv_aborted = False, sv_ready = Inr None, sv_discover = Inr True, sv_acquire = Inr 1,
     sv_process = Inr \<lparr>pr_exitCode = Some 0, pr_stdout = None\<rparr>, sv_current = None, sv_current_locked = None,
     sv_release = None, sv_cleanup = True, sv_fence_env = calm sample_now, sv_accept_env = calm sample_now,
     sv_failure_env = (calm sample_now)\<lparr>env_write := Some WriteFailed\<rparr>, sv_warning_env = calm sample_now,
     sv_others_fence = id, sv_others_accept = busy_disk, sv_others_failure = busy_disk, sv_others_warning = busy_disk\<rparr>"

lemma lost_answer_spawned: "at_spawned (fst (submit_attempt sample_runtime lost_answer (rr_key held_record)
    (rr_requestHash held_record) sample_hold (at_runtime 0 (one_record_world held_record))))"
proof -
  have "meanwhile id s = s" for s by (simp add: meanwhile_def)
  moreover have "submittedReceipt \<lparr>pr_exitCode = Some 0, pr_stdout = None\<rparr> = Inl ''dreamina_submit_receipt_missing''"
    by (simp add: submittedReceipt_def extractSubmitId_def)
  ultimately show ?thesis using sample_permit
    by (auto simp: submit_attempt_def lost_answer_def run_submission_def after_lease_def Let_def)
qed

lemma started_task_kept_witness:
  "\<exists>res s'. submitPrepared sample_runtime lost_answer (rr_key held_record) (rr_requestHash held_record) sample_hold
       (at_runtime 0 (one_record_world held_record)) = (res, s')
     \<and> (\<exists>r \<in> set (disk_records (rs_disk s')). rr_key r = rr_key held_record \<and> rr_state r \<noteq> JQueued)"
proof -
  obtain res s' where p: "submitPrepared sample_runtime lost_answer (rr_key held_record) (rr_requestHash held_record)
      sample_hold (at_runtime 0 (one_record_world held_record)) = (res, s')" by (rule prod.exhaust)
  have "harmless ''owner-0123456789'' k sample_hold busy_disk" for k unfolding busy_disk_def
    by (rule runs_harmless) simp_all
  moreover have "harmless ''owner-0123456789'' k sample_hold id" for k by (simp add: harmless_def)
  ultimately have "\<forall>f \<in> {sv_others_fence lost_answer, sv_others_accept lost_answer, sv_others_failure lost_answer,
      sv_others_warning lost_answer}. harmless (rt_ownerId sample_runtime) (rr_key held_record) sample_hold f"
    by (simp add: lost_answer_def)
  from started_task_kept[OF p lost_answer_spawned _ this] one_record_worlds_valid(2)
  have "\<exists>r \<in> set (disk_records (rs_disk s')). rr_key r = rr_key held_record \<and> rr_state r \<noteq> JQueued" by fastforce
  with p show ?thesis by blast
qed

section \<open>Gaps\<close>

text \<open>Failing a task that holds a slot is refused in the same way; the code does it when its own commit
  of the failure could not be written.\<close>

lemma failing_reserved_task_refused:
  assumes "reloadFromDisk c env s = (Inr (), s1)" "cached s1 k = Some r"
    and "rr_state r = JPending" "rr_reservationId r \<noteq> None"
  shows "\<exists>e s'. transitionTask c env k (failed_record (env_now env) code) s = (Inl e, s') \<and> rs_disk s' = rs_disk s1"
proof -
  let ?n = "failed_record (env_now env) code r"
  have n: "misplaced_reservation ?n"
    using assms(4) by (simp add: failed_record_def misplaced_reservation_def clearQueueLease_def)
  from persist_refused[OF set_record_in n, of c "env_write env" s1] obtain e where
    "persistUnlocked c (env_write env) (set_record ?n s1) = (Inl e, set_record ?n s1)" by blast
  with assms show ?thesis
    by (auto simp: transitionTask_def reloaded_def saved_def isPublicTerminal_def set_record_def truthy_int_def)
qed

text \<open>A runtime that has seen a task in doubt refuses the journal, and with it every operation, once the
  reconciler of another process has found the task running again.\<close>

lemma revived_task_blocks_others:
  assumes "n \<in> set (rs_records s)" "rr_state n = JUnknown"
    and "\<And>q. q \<in> set (disk_records (rs_disk s)) \<Longrightarrow> rr_key q = rr_key n \<Longrightarrow> rr_state q = JAccepted"
  shows "fst (reloadFromDisk c env s) \<noteq> Inr ()"
proof (rule reload_behind[OF assms(1)])
  fix q assume "q \<in> set (disk_records (rs_disk s))" "rr_key q = rr_key n"
  from assms(3)[OF this] have "rr_state (recover_record (env_now env) q) = JAccepted"
    by (simp add: recover_record_def dead_pending_def dead_queued_def)
  with assms(2) show "stateRank (rr_state (recover_record (env_now env) q)) < stateRank (rr_state n)" by simp
qed

end
