(* ===== verification/GenerationClaims.thy ===== *)
theory GenerationClaims
  imports GenerationContract
begin

text \<open>
  The catalog of models against the checks on a request, and the arguments of an accepted request.
\<close>

section \<open>The catalog\<close>

abbreviation the_catalog :: "catalog_entry list" where
  "the_catalog \<equiv> projectDreaminaModelCatalog dreaminaGenerationSchemas"

text \<open>An entry that offers everything a schema admits for a model, as far as the model can do it.\<close>

definition offers :: "catalog_entry \<Rightarrow> schema_shape \<Rightarrow> string \<Rightarrow> string \<Rightarrow> bool" where
  "offers e s cop m \<longleftrightarrow> ce_id e = m \<and> ce_modality e = modality_for cop \<and> cop \<in> set (ce_operations e)
     \<and> list_all (\<lambda>r. r \<in> set (ce_aspects e)) (list_or (sh_ratios s))
     \<and> list_all (\<lambda>t. t \<in> set (ce_tiers e)) (list_or (sh_resolutionTypes s))
     \<and> list_all (\<lambda>t. t \<in> set (vc_resolutions (dreaminaVideoModelCapability m)) \<longrightarrow> t \<in> set (ce_tiers e))
         (list_or (sh_videoResolutions s))
     \<and> (modality_for cop = VideoModality \<longrightarrow>
          ce_minDuration e = Some (vc_min (dreaminaVideoModelCapability m))
          \<and> ce_maxDuration e = Some (vc_max (dreaminaVideoModelCapability m)))
     \<and> dreaminaMaxReferenceImages (sh_operation s) m \<le> ce_maxReferenceImages e"

text \<open>A video entry with exactly the resolutions and durations of its model.\<close>

definition video_exact :: "catalog_entry \<Rightarrow> bool" where
  "video_exact e \<longleftrightarrow> (ce_modality e = VideoModality \<longrightarrow>
     set (ce_tiers e) = set (vc_resolutions (dreaminaVideoModelCapability (ce_id e)))
     \<and> ce_minDuration e = Some (vc_min (dreaminaVideoModelCapability (ce_id e)))
     \<and> ce_maxDuration e = Some (vc_max (dreaminaVideoModelCapability (ce_id e))))"

text \<open>A schema enumerates resolutions of its own modality, all of them for video.\<close>

definition plain_schema :: "schema_shape \<Rightarrow> bool" where
  "plain_schema s \<longleftrightarrow> (case catalogOperationFor (sh_operation s) of None \<Rightarrow> True
     | Some cop \<Rightarrow> if modality_for cop = VideoModality
         then sh_resolutionTypes s = None \<and> sh_videoResolutions s = Some videoResolution
         else sh_videoResolutions s = None)"

lemma modalities: "modality_for ''text-to-image'' = ImageModality" "modality_for ''image-to-image'' = ImageModality"
  "modality_for ''text-to-video'' = VideoModality" "modality_for ''image-to-video'' = VideoModality"
  "modality_for ''reference-to-video'' = VideoModality"
  by code_simp+

lemma catalog_operations:
  "catalogOperationFor ''text2image'' = Some ''text-to-image''"
  "catalogOperationFor ''image2image'' = Some ''image-to-image''"
  "catalogOperationFor ''image_upscale'' = None"
  "catalogOperationFor ''text2video'' = Some ''text-to-video''"
  "catalogOperationFor ''image2video'' = Some ''image-to-video''"
  "catalogOperationFor ''frames2video'' = Some ''reference-to-video''"
  "catalogOperationFor ''multiframe2video'' = None"
  "catalogOperationFor ''multimodal2video'' = Some ''reference-to-video''"
  by code_simp+

lemma plain_schemas: "s \<in> set dreaminaGenerationSchemas \<Longrightarrow> plain_schema s"
proof -
  have "list_all plain_schema dreaminaGenerationSchemas"
    unfolding dreaminaGenerationSchemas_def list.pred_inject plain_schema_def schema_shape.select_convs
      catalog_operations option.case modalities
    by simp
  then show "s \<in> set dreaminaGenerationSchemas \<Longrightarrow> plain_schema s" by (simp add: list_all_iff)
qed

lemma video_resolutions: "set (vc_resolutions (dreaminaVideoModelCapability m)) \<subseteq> set videoResolution"
  by (simp add: dreaminaVideoModelCapability_def videoResolution_def)

lemma set_add_new [simp]: "set (add_new xs x) = insert x (set xs)"
  by (auto simp: add_new_def)

lemma set_foldl_add_new [simp]: "set (foldl add_new xs ys) = set xs \<union> set ys"
  by (induction ys arbitrary: xs) auto

lemma extend_entry_is [simp]: "ce_id (extend_entry s cop md m e) = ce_id e"
  "ce_modality (extend_entry s cop md m e) = ce_modality e"
  by (simp_all add: extend_entry_def Let_def)

lemma extend_keeps: "offers e s' cop' m' \<Longrightarrow> entry_is md m e \<Longrightarrow> offers (extend_entry s cop md m e) s' cop' m'"
  by (auto simp: offers_def extend_entry_def Let_def list_all_iff)

lemma extend_offers:
  assumes "plain_schema s" "catalogOperationFor (sh_operation s) = Some cop" "entry_is (modality_for cop) m e"
  shows "offers (extend_entry s cop (modality_for cop) m e) s cop m"
  using assms by (cases "modality_for cop")
    (auto simp: offers_def extend_entry_def Let_def list_all_iff plain_schema_def split: option.splits)

lemma extend_exact:
  assumes "plain_schema s" "catalogOperationFor (sh_operation s) = Some cop" "entry_is (modality_for cop) m e"
    and "video_exact e \<or> ce_tiers e = []"
  shows "video_exact (extend_entry s cop (modality_for cop) m e)"
  using assms video_resolutions[of m]
  by (auto simp: video_exact_def extend_entry_def Let_def plain_schema_def)

lemma update_first_cases:
  "y \<in> set xs \<Longrightarrow> y \<in> set (update_first P f xs) \<or> P y \<and> f y \<in> set (update_first P f xs)"
  by (induction xs) auto

abbreviation on_offer :: "schema_shape \<Rightarrow> string \<Rightarrow> catalog_entry list \<Rightarrow> string \<Rightarrow> bool" where
  "on_offer s cop es m \<equiv> \<exists>e \<in> set es. offers e s cop m"

lemma add_keeps: "on_offer s' cop' es m' \<Longrightarrow> on_offer s' cop' (catalog_add s cop es m) m'"
proof -
  assume "on_offer s' cop' es m'"
  then obtain e where e: "e \<in> set es" "offers e s' cop' m'" by blast
  let ?P = "entry_is (modality_for cop) m" and ?f = "extend_entry s cop (modality_for cop) m"
  from update_first_cases[OF e(1), of ?P ?f] e(2) extend_keeps[OF e(2), of "modality_for cop" m s cop]
  have "on_offer s' cop' (update_first ?P ?f es) m'" by blast
  with e show ?thesis by (auto simp: catalog_add_def Let_def)
qed

lemma add_offers:
  assumes "plain_schema s" "catalogOperationFor (sh_operation s) = Some cop"
  shows "on_offer s cop (catalog_add s cop es m) m"
proof (cases "list_ex (entry_is (modality_for cop) m) es")
  case True
  then obtain e where "find (entry_is (modality_for cop) m) es = Some e"
    by (cases "find (entry_is (modality_for cop) m) es") (auto simp: find_None_all list_ex_iff)
  with update_first_mem[OF this] extend_offers[OF assms] find_Some_set[OF this] True
  show ?thesis by (auto simp: catalog_add_def Let_def)
next
  case False
  with extend_offers[OF assms, where m = m and e = "empty_entry (modality_for cop) m"]
  show ?thesis by (simp add: catalog_add_def Let_def empty_entry_def)
qed

lemma add_exact:
  assumes "plain_schema s" "catalogOperationFor (sh_operation s) = Some cop" "\<forall>e \<in> set es. video_exact e"
  shows "\<forall>e \<in> set (catalog_add s cop es m). video_exact e"
proof (cases "find (entry_is (modality_for cop) m) es")
  case None
  with assms(3) extend_exact[OF assms(1,2), where m = m and e = "empty_entry (modality_for cop) m"] show ?thesis
    by (auto simp: catalog_add_def Let_def find_None_all list_ex_iff empty_entry_def)
next
  case (Some e)
  with set_update_first[OF Some] find_Some_set[OF Some] assms(3) extend_exact[OF assms(1,2), where m = m and e = e] show ?thesis
    by (auto simp: catalog_add_def Let_def list_ex_iff)
qed

lemma models_keep: "on_offer s' cop' es m' \<Longrightarrow> on_offer s' cop' (foldl (catalog_add s cop) es ms) m'"
  by (induction ms arbitrary: es) (simp_all add: add_keeps)

lemma models_offer:
  assumes "plain_schema s" "catalogOperationFor (sh_operation s) = Some cop"
  shows "m \<in> set ms \<Longrightarrow> on_offer s cop (foldl (catalog_add s cop) es ms) m"
  by (induction ms arbitrary: es) (use add_offers[OF assms] models_keep in auto)

lemma models_exact:
  assumes "plain_schema s" "catalogOperationFor (sh_operation s) = Some cop"
  shows "\<forall>e \<in> set es. video_exact e \<Longrightarrow> \<forall>e \<in> set (foldl (catalog_add s cop) es ms). video_exact e"
proof (induction ms arbitrary: es)
  case (Cons x xs)
  show ?case using Cons.IH[OF add_exact[OF assms Cons.prems, of x]] by simp
qed simp

lemma schema_keeps: "on_offer s' cop' es m' \<Longrightarrow> on_offer s' cop' (catalog_schema es s) m'"
  by (auto simp: catalog_schema_def models_keep split: option.splits)

lemma schemas_keep: "on_offer s' cop' es m' \<Longrightarrow> on_offer s' cop' (foldl catalog_schema es ss) m'"
  by (induction ss arbitrary: es) (simp_all add: schema_keeps)

lemma schemas_offer:
  assumes "s \<in> set ss" "plain_schema s" "catalogOperationFor (sh_operation s) = Some cop" "m \<in> set (list_or (sh_models s))"
  shows "on_offer s cop (foldl catalog_schema es ss) m"
  using assms(1)
proof (induction ss arbitrary: es)
  case (Cons x xs)
  have "on_offer s cop (catalog_schema es s) m"
    using models_offer[OF assms(2,3)] assms(3,4) by (cases "sh_models s") (simp_all add: catalog_schema_def)
  with Cons schemas_keep show ?case by (cases "x = s") auto
qed simp

lemma schemas_exact:
  "\<forall>s \<in> set ss. plain_schema s \<Longrightarrow> \<forall>e \<in> set es. video_exact e \<Longrightarrow>
   \<forall>e \<in> set (foldl catalog_schema es ss). video_exact e"
proof (induction ss arbitrary: es)
  case (Cons s ss)
  have "\<forall>e \<in> set (catalog_schema es s). video_exact e"
    using Cons.prems models_exact[of s _ es] by (auto simp: catalog_schema_def split: option.splits)
  with Cons show ?case by simp
qed simp

lemma catalog_offers:
  assumes "s \<in> set dreaminaGenerationSchemas" "catalogOperationFor (sh_operation s) = Some cop"
    "m \<in> set (list_or (sh_models s))"
  obtains e where "e \<in> set the_catalog" "offers e s cop m"
  using schemas_offer[OF assms(1) plain_schemas[OF assms(1)] assms(2,3)]
  unfolding projectDreaminaModelCatalog_def by blast

lemma catalog_exact: "e \<in> set the_catalog \<Longrightarrow> video_exact e"
  using schemas_exact[of dreaminaGenerationSchemas "[]"] plain_schemas
  unfolding projectDreaminaModelCatalog_def by simp

text \<open>A duration within the limits of an entry.\<close>

definition offers_duration :: "catalog_entry \<Rightarrow> rat \<Rightarrow> bool" where
  "offers_duration e d = (case (ce_minDuration e, ce_maxDuration e) of
     (Some lo, Some hi) \<Rightarrow> lo \<le> d \<and> d \<le> hi | _ \<Rightarrow> False)"

lemma shape_ofD: "shape_of i = Some s \<Longrightarrow> s \<in> set dreaminaGenerationSchemas \<and> sh_operation s = operation_name i"
  unfolding shape_of_def by (rule find_Some_set)

lemma in_enumD: "in_enum (Some v) ys \<Longrightarrow> v \<in> set (list_or ys)"
  by (simp add: in_enum_def)

lemma video_accepted:
  assumes "accepts_input i" "model_of i = Some m" "video_resolution_of i = Some t"
  shows "validateVideoCombination m t (duration_of i)"
  using assms by (cases i) (auto simp: accepts_input_def Let_def)

lemma paths_length: "opt_ok (paths_ok lo hi) xs \<Longrightarrow> length (list_or xs) \<le> hi"
  by (cases xs) (simp_all add: paths_ok_def)

lemma references_accepted:
  assumes "accepts_input i" "model_of i = Some m"
  shows "length (reference_images_of i) \<le> dreaminaMaxReferenceImages (operation_name i) m"
proof (cases i)
  case (Multimodal2Video x1 x2 x3 x4 x5 x6 xs x8 x9)
  with assms have "opt_ok (paths_ok 0 30) xs" "m \<noteq> ''seedance2.5'' \<longrightarrow> length (list_or xs) \<le> 9"
    by (auto simp: accepts_input_def Let_def split: if_splits)
  with paths_length[of 0 30 xs] Multimodal2Video show ?thesis by (simp add: dreaminaMaxReferenceImages_def)
qed (use assms in \<open>simp_all add: accepts_input_def dreaminaMaxReferenceImages_def paths_ok_def\<close>)

lemma default_in_range:
  assumes "validateVideoCombination m t d"
  shows "t \<in> set (vc_resolutions (dreaminaVideoModelCapability m))"
    "opt_ok (\<lambda>x. vc_min (dreaminaVideoModelCapability m) \<le> x \<and> x \<le> vc_max (dreaminaVideoModelCapability m)) d"
  using assms by (auto simp: validateVideoCombination_def Let_def split: option.splits)

lemma video_duration: "duration_of i \<noteq> None \<Longrightarrow> video_resolution_of i \<noteq> None"
  by (cases i) auto

lemma video_modality: "catalogOperationFor (operation_name i) = Some cop \<Longrightarrow>
    video_resolution_of i \<noteq> None \<Longrightarrow> modality_for cop = VideoModality"
  by (cases i) (auto simp: catalogOperationFor_def modality_for_def)

text \<open>C33: The catalog and the checks agree. Every accepted request that names its model is on offer: the
  catalog has an entry for the model, under the operation, with the aspect, the resolution, the
  duration and the number of reference images. Conversely the resolutions and durations on offer for a
  video model are exactly those the check of its requests lets through.\<close>

theorem catalog_matches_contract:
  "(accepts_input i \<and> model_of i = Some m \<and> catalogOperationFor (operation_name i) = Some cop \<longrightarrow>
      (\<exists>e \<in> set the_catalog. ce_id e = m \<and> cop \<in> set (ce_operations e)
         \<and> opt_ok (\<lambda>r. r \<in> set (ce_aspects e)) (ratio_of i)
         \<and> opt_ok (\<lambda>t. t \<in> set (ce_tiers e)) (resolution_type_of i)
         \<and> opt_ok (\<lambda>t. t \<in> set (ce_tiers e)) (video_resolution_of i)
         \<and> opt_ok (offers_duration e) (duration_of i)
         \<and> length (reference_images_of i) \<le> ce_maxReferenceImages e))
   \<and> (\<forall>e \<in> set the_catalog. ce_modality e = VideoModality \<longrightarrow>
        (t \<in> set (ce_tiers e) \<and> offers_duration e d)
        = validateVideoCombination (ce_id e) t (Some d))"
proof (rule conjI; (intro impI ballI)?)
  assume i: "accepts_input i \<and> model_of i = Some m \<and> catalogOperationFor (operation_name i) = Some cop"
  then obtain s where s: "shape_of i = Some s" "in_enum (Some m) (sh_models s)"
    "in_enum (ratio_of i) (sh_ratios s)" "in_enum (resolution_type_of i) (sh_resolutionTypes s)"
    "in_enum (video_resolution_of i) (sh_videoResolutions s)"
    by (auto simp: accepts_input_def enums_ok_def split: option.splits)
  note sh = shape_ofD[OF s(1)]
  obtain e where e: "e \<in> set the_catalog" "offers e s cop m"
    using catalog_offers[of s cop m] sh i in_enumD[OF s(2)] by auto
  have v: "opt_ok (\<lambda>t. validateVideoCombination m t (duration_of i)) (video_resolution_of i)"
    using video_accepted[of i m] i by (cases "video_resolution_of i") auto
  have "opt_ok (\<lambda>t. t \<in> set (ce_tiers e)) (video_resolution_of i)"
    using v s(5) e(2) default_in_range(1)
    by (cases "video_resolution_of i") (auto simp: offers_def in_enum_def list_all_iff)
  moreover have "opt_ok (offers_duration e) (duration_of i)"
  proof (cases "duration_of i")
    case (Some d)
    with video_duration[of i] obtain t where t: "video_resolution_of i = Some t" by auto
    with video_modality[of i cop] i have "modality_for cop = VideoModality" by simp
    with e(2) default_in_range(2)[of m t "duration_of i"] v t Some show ?thesis by (simp add: offers_def offers_duration_def)
  qed simp
  moreover have "length (reference_images_of i) \<le> ce_maxReferenceImages e"
    using references_accepted[of i m] i e(2) sh by (simp add: offers_def)
  moreover have "opt_ok (\<lambda>r. r \<in> set (ce_aspects e)) (ratio_of i)"
    "opt_ok (\<lambda>t. t \<in> set (ce_tiers e)) (resolution_type_of i)"
    using s(3,4) e(2)
    by (cases "ratio_of i"; cases "resolution_type_of i"; auto simp: offers_def in_enum_def list_all_iff)+
  ultimately show "\<exists>e \<in> set the_catalog. ce_id e = m \<and> cop \<in> set (ce_operations e)
         \<and> opt_ok (\<lambda>r. r \<in> set (ce_aspects e)) (ratio_of i)
         \<and> opt_ok (\<lambda>t. t \<in> set (ce_tiers e)) (resolution_type_of i)
         \<and> opt_ok (\<lambda>t. t \<in> set (ce_tiers e)) (video_resolution_of i)
         \<and> opt_ok (offers_duration e) (duration_of i)
         \<and> length (reference_images_of i) \<le> ce_maxReferenceImages e"
    using e by (intro bexI[of _ e]) (simp_all add: offers_def)
next
  fix e assume "e \<in> set the_catalog" "ce_modality e = VideoModality"
  with catalog_exact[of e] show "(t \<in> set (ce_tiers e) \<and> offers_duration e d)
        = validateVideoCombination (ce_id e) t (Some d)"
    by (simp add: video_exact_def validateVideoCombination_def Let_def not_less offers_duration_def)
qed

text \<open>For image models the catalog offers resolutions that no request can have.\<close>

lemma catalog_offers_rejected_tier:
  "\<exists>e \<in> set the_catalog. ce_id e = ''3.0'' \<and> ''4k'' \<in> set (ce_tiers e)"
  "accepts_input i \<Longrightarrow> model_of i = Some ''3.0'' \<Longrightarrow> resolution_type_of i \<noteq> Some ''4k''"
proof -
  let ?s = "hd dreaminaGenerationSchemas"
  have "?s \<in> set dreaminaGenerationSchemas" "catalogOperationFor (sh_operation ?s) = Some ''text-to-image''"
    "''3.0'' \<in> set (list_or (sh_models ?s))" "sh_resolutionTypes ?s = Some imageResolution"
    by (simp_all add: dreaminaGenerationSchemas_def catalogOperationFor_def dreaminaImageModelSchema_def)
  then obtain e where "e \<in> set the_catalog" "offers e ?s ''text-to-image'' ''3.0''"
    "sh_resolutionTypes ?s = Some imageResolution" using catalog_offers by metis
  then show "\<exists>e \<in> set the_catalog. ce_id e = ''3.0'' \<and> ''4k'' \<in> set (ce_tiers e)"
    by (intro bexI[of _ e]) (simp_all add: offers_def imageResolution_def)
  show "resolution_type_of i \<noteq> Some ''4k''" if "accepts_input i" "model_of i = Some ''3.0''"
    using that by (cases i) (auto simp: accepts_input_def image_tier_ok_def)
qed

section \<open>Arguments\<close>

definition flag_name :: "string \<Rightarrow> bool" where
  "flag_name s \<longleftrightarrow> list_all (\<lambda>c. is_lower c \<or> c = CHR ''_'' \<or> c = CHR ''-'') s"

definition is_flag :: "jstext \<Rightarrow> bool" where
  "is_flag a \<longleftrightarrow> (\<exists>name v. a = flag name v \<and> flag_name name)"

lemma is_flagI: "flag_name name \<Longrightarrow> is_flag (flag name v)"
  unfolding is_flag_def by blast

lemma flag_names:
  "flag_name ''prompt''" "flag_name ''model_version''" "flag_name ''ratio''" "flag_name ''resolution_type''"
  "flag_name ''video_resolution''" "flag_name ''duration''" "flag_name ''generate_num''" "flag_name ''images''"
  "flag_name ''image''" "flag_name ''first''" "flag_name ''last''" "flag_name ''transition-prompt''"
  "flag_name ''transition-duration''" "flag_name ''video''" "flag_name ''audio''"
  by (simp_all add: flag_name_def char_between_def)

lemma flag_if_flags: "flag_name name \<Longrightarrow> list_all is_flag (flag_if name v)"
  by (cases v) (simp_all add: flag_if_def is_flagI)

lemma map_flags: "flag_name name \<Longrightarrow> list_all is_flag (map (\<lambda>x. flag name (f x)) xs)"
  by (simp add: list_all_iff is_flagI)

lemmas flags = flag_names[THEN is_flagI] flag_names[THEN flag_if_flags] flag_names[THEN map_flags]
  flag_names[THEN map_flags[where f = "\<lambda>x. x"]]

lemma reference_flags: "list_all is_flag (reference_arguments num i)"
  by (cases i) (simp_all only: reference_arguments.simps list_all_append list.pred_inject flags simp_thms)

text \<open>The arguments of a request are its operation and then flags with values, so no text of a user is
  read as an option or an operation of its own.\<close>

theorem arguments_are_flags:
  "\<exists>args. generationArguments num i = js (operation_name i) # args \<and> list_all is_flag args"
  unfolding generationArguments_def
  by (rule exI, rule conjI[OF refl]) (simp only: list_all_append reference_flags flags simp_thms)

section \<open>Examples\<close>

definition sample_request :: generation_input where
  "sample_request = Text2Video ''request-0001'' [115, 101, 97] (Some ''seedance2.5'') (Some ''16:9'') ''720p'' (Some 10)"

lemma sample_shape: "shape_of sample_request = Some
    \<lparr>sh_operation = ''text2video'', sh_models = Some seedanceModel, sh_ratios = Some videoRatio,
      sh_resolutionTypes = None, sh_videoResolutions = Some videoResolution\<rparr>"
  by (simp add: shape_of_def sample_request_def dreaminaGenerationSchemas_def)

lemma sample_request_accepted: "accepts_input sample_request" "model_of sample_request = Some ''seedance2.5''"
  "catalogOperationFor (operation_name sample_request) = Some ''text-to-video''"
proof -
  have "enums_ok sample_request" unfolding enums_ok_def sample_shape
    by (simp add: sample_request_def in_enum_def seedanceModel_def videoRatio_def videoResolution_def)
  moreover have "chars_ok id_char 8 160 ''request-0001''" by code_simp
  ultimately show "accepts_input sample_request"
    by (simp add: accepts_input_def sample_request_def prompt_ok_def whole_between_def validateVideoCombination_def
        dreaminaVideoModelCapability_def Let_def)
  show "model_of sample_request = Some ''seedance2.5''" by (simp add: sample_request_def)
  show "catalogOperationFor (operation_name sample_request) = Some ''text-to-video''"
    by (simp add: sample_request_def catalog_operations)
qed

lemma catalog_matches_contract_witness:
  "\<exists>e \<in> set (projectDreaminaModelCatalog dreaminaGenerationSchemas). ce_id e = ''seedance2.5''
     \<and> ''text-to-video'' \<in> set (ce_operations e) \<and> ''720p'' \<in> set (ce_tiers e) \<and> offers_duration e 10"
proof -
  note fits = catalog_matches_contract[of sample_request "''seedance2.5''" "''text-to-video''", THEN conjunct1]
  from fits[THEN mp, OF conjI[OF sample_request_accepted(1) conjI[OF sample_request_accepted(2,3)]]]
  show ?thesis by (auto simp: sample_request_def)
qed

end
