(* ===== verification/Spec2Isabelle.thy ===== *)
theory Spec2Isabelle
  imports TaskContractClaims TaskStoreClaims ArbiterProofs TaskProjectionProofs RuntimeJournalClaims
    ReconcilerClaims EditorCommandsClaims EditorStoreClaims PlacementClaims SrtTextClaims
    SubtitlesClaims TimelineBuildClaims TimelineViewClaims
    RuntimeCliClaims RuntimeTurnClaims GenerationClaims
begin

text \<open>
  A verification development for the two parts of the program that keep state which must not be
  lost: the durable bookkeeping of generation tasks in the canvas agent
  (\<open>src/canvas-agent/src\<close>) and the timeline editor of the web application
  (\<open>src/web/src/lib/timeline\<close>, \<open>src/web/src/stores/editor\<close>).

  \<^bold>\<open>The canvas agent.\<close> A generation task runs at a provider through a command line program. The
  runtime keeps a journal of each run; several processes share one command line session and one
  store of tasks on disk.

  \<^item> \<open>TaskContract\<close>, \<open>TaskContractClaims\<close>: the life cycle of a task
    (\<open>dreamina-task-contract.ts\<close>). \<open>reduceDreaminaTask\<close> folds events into a task; life cycle, outcome
    and account binding are invariants of every sequence of events (locale \<open>guarded_machine\<close> of
    \<open>DevPrelude\<close>).
  \<^item> \<open>TaskStore\<close>, \<open>TaskStoreOps\<close>, \<open>TaskStoreRecovery\<close>: the store (\<open>dreamina-task-store.ts\<close>): the
    document on disk with its revision, tasks, outbox and inbox, the operations that change it under
    the lock, and the replacement of the file by temporary file, backup and rename, with recovery
    after a crash between any two file operations.
  \<^item> \<open>TaskStoreProofs\<close>, \<open>TaskStoreSafety\<close>, \<open>TaskStoreClaims\<close>: every operation commits or changes
    nothing; runs of the store with crashes keep the invariants stated with the locale
    \<open>run_invariant\<close>: a completed product effect is never claimed again, a lost lease has no effect,
    final results stay, no update is lost.
  \<^item> \<open>Arbiter\<close>, \<open>ArbiterProofs\<close>: the lease of the shared session (\<open>dreamina-cli-arbiter.ts\<close>): tickets,
    fences, heartbeats and the crash safe file.
  \<^item> \<open>TaskProjection\<close>, \<open>TaskProjectionProofs\<close>: projecting a journal record onto the stored task
    (\<open>dreamina-task-projection.ts\<close>), with the compare-and-swap loop under interference.
  \<^item> \<open>RuntimeJournal\<close>, \<open>RuntimeJournalClaims\<close>: the journal itself (\<open>dreamina-cli-state.ts\<close>): the
    record and its validation, the progression every write must show, journal versions, the file
    replacement, and the copy the projector reads. Records with a receipt or a final state survive all
    writes; the projector's validation is compared with the journal's.
  \<^item> \<open>Reconciler\<close>, \<open>ReconcilerProofs\<close>, \<open>ReconcilerProgress\<close>, \<open>ReconcilerClaims\<close>: polling the
    provider for accepted tasks (\<open>dreamina-task-reconciler.ts\<close>). Each operation is what it does to the
    journal under the lock, a poll is the whole of \<open>runDueOnce\<close> with other processes between its
    steps. Polling moves records forward only, a poll whose lease has ended has no effect, a live lease
    keeps others out, due records are claimed longest due first and each of them is reached.
  \<^item> \<open>GenerationContract\<close>, \<open>GenerationClaims\<close>: the requests for generations with all their checks
    (\<open>dreamina-cli-contract.ts\<close>), the catalog of models (\<open>dreamina-model-catalog.ts\<close>) and the
    arguments a request becomes. The catalog is compared with what the checks accept.
  \<^item> \<open>RuntimeQueue\<close>, \<open>RuntimeOps\<close>, \<open>CliOutput\<close>, \<open>RuntimeSubmit\<close>: the runtime
    (\<open>dreamina-cli-runtime.ts\<close>). A runtime is a copy of the journal in memory and the journal on disk.
    Reload, recovery of ended leases and the order of the queue; one definition per operation (entering,
    slots, heartbeats, the commits around a submission, cancelling, deleting, failing), each with the
    faults of its writes; the reading of the program's output; and a whole submission, in which calls
    fail and other processes step in between the commits.
  \<^item> \<open>ProviderArtifacts\<close>, \<open>ArtifactProofs\<close>: reading downloaded results (\<open>dreamina-generation.ts\<close>) and
    the store that keeps them (\<open>dreamina-provider-artifacts.ts\<close>), with base64 written out. A stored
    result is read back as it was; whatever is read from a download is accepted by the store.
  \<^item> \<open>RuntimeQueueProofs\<close>, \<open>RuntimeQueueSteps\<close>, \<open>RuntimeWorld\<close>: what each operation does to the
    journal, and the world of any number of runtimes and reconcilers on one journal. The locale
    \<open>journal_invariant\<close> states what a law of the journal needs of a write by a runtime, a reload and a
    poll, and gives it along every run of the world.
  \<^item> \<open>RuntimeQueueClaims\<close>, \<open>RuntimeTurnClaims\<close>, \<open>RuntimeCliClaims\<close>: the interpretations of that locale
    (slots are never oversold, a task is started once, a lost reservation stays void), the order in which
    slots are granted, whole submissions, what may be read from the program's output, and observations
    from the query to the stored artifacts.
  \<^item> \<open>JsDate\<close>: the ISO timestamps these files compare.

  \<^bold>\<open>The timeline editor.\<close> A project is a list of tracks and a list of clips. Commands change it, a store
  keeps the undo history and saves it, and pure functions place clips, cut subtitles, read and write
  SRT, and plan the export.

  \<^item> \<open>TimelineModel\<close>: the data (\<open>types/timeline.ts\<close>), with exact times and texts of code units.
  \<^item> \<open>EditorCommands\<close>: one handler per op and the registry (\<open>editor-commands.ts\<close>), the dry run of a
    batch (\<open>ai-command-schema.ts\<close>). \<open>EditorCommandsProofs\<close> gives the step relation that they refine;
    \<open>EditorCommandsClaims\<close> the invariant of a project and the properties of cutting, adding tracks and
    rebuilding subtitles.
  \<^item> \<open>EditorStore\<close>, \<open>EditorStoreClaims\<close>: the bounded undo history (\<open>editor-history.ts\<close>), refined from a
    list with a cursor, and the store (\<open>editor-store.ts\<close>) as a machine whose events are its calls, the
    save timer and the end of a save.
  \<^item> \<open>Placement\<close>, \<open>PlacementClaims\<close>: \<open>timeline-placement.ts\<close> and \<open>timeline-snap.ts\<close>, against the
    definition of the nearest free place.
  \<^item> \<open>SrtText\<close>, \<open>SrtTextClaims\<close>: \<open>srt-parser.ts\<close> and its round trip.
  \<^item> \<open>Subtitles\<close>, \<open>SubtitlesClaims\<close>: \<open>srt-resegment.ts\<close>, \<open>subtitle-highlights.ts\<close>,
    \<open>subtitle-highlight-service.ts\<close>: termination, partition of time and text, validity of highlights.
  \<^item> \<open>TimelineBuild\<close>, \<open>TimelinePlan\<close>, \<open>TimelineBuildClaims\<close>: \<open>timeline-tracks.ts\<close>,
    \<open>timeline-build.ts\<close>, \<open>asset-ingest.ts\<close>, \<open>timeline-to-ffmpeg.ts\<close>: valid projects, and exports in
    which each clip is at its place.
  \<^item> \<open>TimelineView\<close>, \<open>TimelineViewClaims\<close>: \<open>timeline-view.ts\<close> and \<open>timeline-summary.ts\<close>.

  \<^bold>\<open>Conventions.\<close> A thrown error is \<open>Inl\<close>, an absent property \<open>None\<close>. Identifiers of the agent are
  \<open>string\<close>, texts of the editor are lists of code units. Times of the editor are \<open>rat\<close>: the rounding of
  IEEE doubles is not modelled, and the numbers stored in a project are finite. What the code takes
  from outside is an argument or an event: the clock, the order of \<open>localeCompare\<close>, the outcome of a
  save, a crash, the other processes.

  \<^bold>\<open>Bounds and fuel.\<close> No definition uses fuel. The loops of the code are structural recursions or
  functions with a measure: the search for a free track number ends because ids are distinct for
  distinct numbers (\<open>free_index\<close>), splitting at a separator shortens the text (\<open>split_with\<close>). The
  projector tries four times because the code does. The recursion of \<open>splitLongEntry\<close> does not end
  for a limit of zero and is a \<open>partial_function\<close>; \<open>resegment_total\<close> shows that it returns for every
  other limit.

  \<^bold>\<open>Gaps.\<close> The sections named Gaps show, on concrete inputs, where the code departs from what it says
  it does: lemmas such as \<open>renewal_can_shorten\<close>, \<open>hidden_track_exported\<close>, \<open>edit_during_save_lost\<close>, \<open>cancelled_gesture_saved\<close>, \<open>nested_clips_mislead\<close>,
  \<open>sync_after_cut\<close>, \<open>small_gaps_drift\<close>, \<open>hundred_hours_lost\<close>, \<open>bound_context_blocks_projection\<close>,
  \<open>withdrawn_intent_strands_recovery\<close>, \<open>contradicted_task_forgotten\<close>,
  \<open>failing_reserved_task_refused\<close>, \<open>revived_task_blocks_others\<close>, \<open>catalog_offers_rejected_tier\<close>, and
  the theorem \<open>deleting_reserved_task_blocks\<close>.

  \<^bold>\<open>Not modelled.\<close> Of the runtime: its timers, promises and abort signals, the staging and cleaning
  of reference files, the directory lock, the directories of downloads and the presentation of tasks to
  clients, with \<open>JSON.parse\<close> and \<open>sanitizeDreaminaDiagnostic\<close> as arguments; the endless loop and the
  hash function of the reconciler; file and network I/O; React pages and panels; the export that runs
  the plan in ffmpeg; requests to model services, JSON parsing of their answers, and prompts;
  generated and vendored code. Payloads whose fields have other types than
  declared are outside the model of the commands.
\<close>

end
